(* ===== verification/Prelude.thy ===== *)
theory Prelude
  imports Main "HOL-Library.AList"
begin

text \<open>
  Shared vocabulary of the development.

  \<^item> Programs: the TypeScript services are asynchronous code that reads and writes state,
    throws, catches, and may be killed between any two effects.  A computation is a function from
    a state to an outcome and a new state; the outcome is a value (\<open>Ok\<close>), a thrown value
    (\<open>Throw\<close>) or the death of the process (\<open>Crash\<close>).  A crash passes through every
    \<open>catch\<close> and \<open>finally\<close>, exactly because no handler of a dead process runs.
  \<^item> \<open>wp\<close>: the weakest precondition of a computation for three postconditions, one per
    outcome, with its equations collected in \<open>wp_simps\<close>.
  \<^item> JavaScript's insertion-ordered \<open>Map\<close>, as an association list: \<open>AList.update\<close>
    keeps the position of a key that is present and appends one that is not, as \<open>Map#set\<close> does.
  \<^item> Strings: the few \<open>String\<close> operations the sources use, on character lists.
\<close>

named_theorems wp_simps \<open>equations that compute weakest preconditions\<close>
named_theorems str_simps \<open>unfolding of the string helpers\<close>

section \<open>Programs\<close>

datatype ('e, 'a) outcome = Ok 'a | Throw 'e | Crash

type_synonym ('s, 'e, 'a) prog = "'s \<Rightarrow> ('e, 'a) outcome \<times> 's"

text \<open>A thrown JavaScript value: an \<open>Error\<close> with its message, or anything else.\<close>

datatype js_exn = JsError string | JsOther

definition returnE :: "'a \<Rightarrow> ('s, 'e, 'a) prog" where
  "returnE x s = (Ok x, s)"

definition throwE :: "'e \<Rightarrow> ('s, 'e, 'a) prog" where
  "throwE e s = (Throw e, s)"

definition bindE :: "('s, 'e, 'a) prog \<Rightarrow> ('a \<Rightarrow> ('s, 'e, 'b) prog) \<Rightarrow> ('s, 'e, 'b) prog" where
  "bindE m f s = (case m s of
       (Ok x, s') \<Rightarrow> f x s'
     | (Throw e, s') \<Rightarrow> (Throw e, s')
     | (Crash, s') \<Rightarrow> (Crash, s'))"

definition thenE :: "('s, 'e, 'a) prog \<Rightarrow> ('s, 'e, 'b) prog \<Rightarrow> ('s, 'e, 'b) prog" where
  "thenE m k = bindE m (\<lambda>_. k)"

definition catchE :: "('s, 'e, 'a) prog \<Rightarrow> ('e \<Rightarrow> ('s, 'f, 'a) prog) \<Rightarrow> ('s, 'f, 'a) prog" where
  "catchE m h s = (case m s of
       (Ok x, s') \<Rightarrow> (Ok x, s')
     | (Throw e, s') \<Rightarrow> h e s'
     | (Crash, s') \<Rightarrow> (Crash, s'))"

text \<open>
  \<open>try { m } catch (e) { h e }\<close> where both arms leave the enclosing function or go on with
  the same continuation: \<open>tryE m k h\<close> continues with \<open>k\<close> on a value and with \<open>h\<close>
  on a throw, and a throw out of \<open>k\<close> is not caught.
\<close>

definition tryE :: "('s, 'e, 'a) prog \<Rightarrow> ('a \<Rightarrow> ('s, 'f, 'b) prog) \<Rightarrow> ('e \<Rightarrow> ('s, 'f, 'b) prog)
    \<Rightarrow> ('s, 'f, 'b) prog" where
  "tryE m k h s = (case m s of
       (Ok x, s') \<Rightarrow> k x s'
     | (Throw e, s') \<Rightarrow> h e s'
     | (Crash, s') \<Rightarrow> (Crash, s'))"

definition finallyE :: "('s, 'e, 'a) prog \<Rightarrow> ('s, 'e, unit) prog \<Rightarrow> ('s, 'e, 'a) prog" where
  "finallyE m fin s = (case m s of
       (Crash, s') \<Rightarrow> (Crash, s')
     | (r, s') \<Rightarrow> (case fin s' of
           (Ok _, s'') \<Rightarrow> (r, s'')
         | (Throw e, s'') \<Rightarrow> (Throw e, s'')
         | (Crash, s'') \<Rightarrow> (Crash, s'')))"

definition getE :: "('s \<Rightarrow> 'a) \<Rightarrow> ('s, 'e, 'a) prog" where
  "getE f s = (Ok (f s), s)"

definition modifyE :: "('s \<Rightarrow> 's) \<Rightarrow> ('s, 'e, unit) prog" where
  "modifyE f s = (Ok (), f s)"

definition whenE :: "bool \<Rightarrow> ('s, 'e, unit) prog \<Rightarrow> ('s, 'e, unit) prog" where
  "whenE b m = (if b then m else returnE ())"

text \<open>A \<open>for ... of\<close> loop whose body may throw, in list order.\<close>

fun forE :: "'b list \<Rightarrow> ('b \<Rightarrow> ('s, 'e, unit) prog) \<Rightarrow> ('s, 'e, unit) prog" where
  "forE [] body = returnE ()"
| "forE (x # xs) body = thenE (body x) (forE xs body)"

subsection \<open>Weakest preconditions\<close>

definition wp :: "('s, 'e, 'a) prog \<Rightarrow> ('a \<Rightarrow> 's \<Rightarrow> bool) \<Rightarrow> ('e \<Rightarrow> 's \<Rightarrow> bool) \<Rightarrow> ('s \<Rightarrow> bool)
    \<Rightarrow> 's \<Rightarrow> bool" where
  "wp m Q E C s = (case m s of
       (Ok x, s') \<Rightarrow> Q x s'
     | (Throw e, s') \<Rightarrow> E e s'
     | (Crash, s') \<Rightarrow> C s')"

lemma wp_returnE [wp_simps, simp]: "wp (returnE x) Q E C = Q x"
  by (rule ext) (simp add: wp_def returnE_def)

lemma wp_throwE [wp_simps, simp]: "wp (throwE e) Q E C = E e"
  by (rule ext) (simp add: wp_def throwE_def)

lemma wp_bindE [wp_simps, simp]: "wp (bindE m f) Q E C = wp m (\<lambda>x. wp (f x) Q E C) E C"
  by (rule ext) (simp add: wp_def bindE_def split: outcome.splits prod.splits)

lemma wp_thenE [wp_simps, simp]: "wp (thenE m k) Q E C = wp m (\<lambda>_. wp k Q E C) E C"
  by (simp add: thenE_def)

lemma wp_catchE [wp_simps, simp]: "wp (catchE m h) Q E C = wp m Q (\<lambda>e. wp (h e) Q E C) C"
  by (rule ext) (simp add: wp_def catchE_def split: outcome.splits prod.splits)

lemma wp_tryE [wp_simps, simp]:
  "wp (tryE m k h) Q E C = wp m (\<lambda>x. wp (k x) Q E C) (\<lambda>e. wp (h e) Q E C) C"
  by (rule ext) (simp add: wp_def tryE_def split: outcome.splits prod.splits)

lemma wp_finallyE [wp_simps, simp]:
  "wp (finallyE m fin) Q E C =
     wp m (\<lambda>x. wp fin (\<lambda>_. Q x) E C) (\<lambda>e. wp fin (\<lambda>_. E e) E C) C"
  by (rule ext) (simp add: wp_def finallyE_def split: outcome.splits prod.splits)

lemma wp_getE [wp_simps, simp]: "wp (getE f) Q E C = (\<lambda>s. Q (f s) s)"
  by (rule ext) (simp add: wp_def getE_def)

lemma wp_modifyE [wp_simps, simp]: "wp (modifyE f) Q E C = (\<lambda>s. Q () (f s))"
  by (rule ext) (simp add: wp_def modifyE_def)

lemma wp_whenE [wp_simps, simp]:
  "wp (whenE b m) Q E C = (\<lambda>s. if b then wp m Q E C s else Q () s)"
  by (rule ext) (simp add: whenE_def)

lemma wp_if [wp_simps, simp]:
  "wp (if b then m else n) Q E C = (\<lambda>s. if b then wp m Q E C s else wp n Q E C s)"
  by (rule ext) simp

lemma wp_case_option [wp_simps, simp]:
  "wp (case x of None \<Rightarrow> m | Some y \<Rightarrow> n y) Q E C =
     (\<lambda>s. case x of None \<Rightarrow> wp m Q E C s | Some y \<Rightarrow> wp (n y) Q E C s)"
  by (rule ext) (simp split: option.split)

lemma wp_case_sum [wp_simps, simp]:
  "wp (case x of Inl a \<Rightarrow> m a | Inr b \<Rightarrow> n b) Q E C =
     (\<lambda>s. case x of Inl a \<Rightarrow> wp (m a) Q E C s | Inr b \<Rightarrow> wp (n b) Q E C s)"
  by (rule ext) (simp split: sum.split)

lemma wp_mono:
  assumes "wp m Q E C s"
    and "\<And>x s'. Q x s' \<Longrightarrow> Q' x s'" and "\<And>e s'. E e s' \<Longrightarrow> E' e s'" and "\<And>s'. C s' \<Longrightarrow> C' s'"
  shows "wp m Q' E' C' s"
  using assms by (auto simp: wp_def split: outcome.splits prod.splits)

lemma wp_conj:
  "wp m Q E C s \<Longrightarrow> wp m Q' E' C' s \<Longrightarrow>
     wp m (\<lambda>x s'. Q x s' \<and> Q' x s') (\<lambda>e s'. E e s' \<and> E' e s') (\<lambda>s'. C s' \<and> C' s') s"
  by (auto simp: wp_def split: outcome.splits prod.splits)

lemma wp_OkD: "wp m Q E C s \<Longrightarrow> m s = (Ok x, s') \<Longrightarrow> Q x s'"
  and wp_ThrowD: "wp m Q E C s \<Longrightarrow> m s = (Throw e, s') \<Longrightarrow> E e s'"
  and wp_CrashD: "wp m Q E C s \<Longrightarrow> m s = (Crash, s') \<Longrightarrow> C s'"
  by (simp_all add: wp_def)

text \<open>An invariant of a computation: kept on every outcome, the crash included.\<close>

definition keeps :: "('s \<Rightarrow> bool) \<Rightarrow> ('s, 'e, 'a) prog \<Rightarrow> bool" where
  "keeps I m \<longleftrightarrow> (\<forall>s. I s \<longrightarrow> I (snd (m s)))"

lemma keepsI: "(\<And>s. I s \<Longrightarrow> I (snd (m s))) \<Longrightarrow> keeps I m"
  by (simp add: keeps_def)

lemma keepsD: "keeps I m \<Longrightarrow> I s \<Longrightarrow> I (snd (m s))"
  by (simp add: keeps_def)

lemma keeps_wp: "keeps I m \<longleftrightarrow> (\<forall>s. I s \<longrightarrow> wp m (\<lambda>_. I) (\<lambda>_. I) I s)"
  unfolding keeps_def wp_def by (metis (mono_tags, lifting) outcome.case outcome.exhaust
      old.prod.case prod.collapse)

lemma keeps_wpD: "keeps I m \<Longrightarrow> I s \<Longrightarrow> wp m (\<lambda>_. I) (\<lambda>_. I) I s"
  by (simp add: keeps_wp)

named_theorems keeps_intros \<open>structural rules for invariants of computations\<close>

lemma keeps_returnE [keeps_intros]: "keeps I (returnE x)"
  and keeps_throwE [keeps_intros]: "keeps I (throwE e)"
  and keeps_getE [keeps_intros]: "keeps I (getE f)"
  by (simp_all add: keeps_def returnE_def throwE_def getE_def)

lemma keeps_modifyE: "(\<And>s. I s \<Longrightarrow> I (f s)) \<Longrightarrow> keeps I (modifyE f)"
  by (simp add: keeps_def modifyE_def)

lemma keeps_bindE [keeps_intros]: "keeps I m \<Longrightarrow> (\<And>x. keeps I (f x)) \<Longrightarrow> keeps I (bindE m f)"
  by (fastforce simp: keeps_def bindE_def split: outcome.splits prod.splits dest: spec)

lemma keeps_thenE [keeps_intros]: "keeps I m \<Longrightarrow> keeps I k \<Longrightarrow> keeps I (thenE m k)"
  by (simp add: thenE_def keeps_bindE)

lemma keeps_catchE [keeps_intros]: "keeps I m \<Longrightarrow> (\<And>e. keeps I (h e)) \<Longrightarrow> keeps I (catchE m h)"
  by (fastforce simp: keeps_def catchE_def split: outcome.splits prod.splits dest: spec)

lemma keeps_tryE [keeps_intros]:
  "keeps I m \<Longrightarrow> (\<And>x. keeps I (k x)) \<Longrightarrow> (\<And>e. keeps I (h e)) \<Longrightarrow> keeps I (tryE m k h)"
  by (fastforce simp: keeps_def tryE_def split: outcome.splits prod.splits dest: spec)

lemma keeps_finallyE [keeps_intros]: "keeps I m \<Longrightarrow> keeps I fin \<Longrightarrow> keeps I (finallyE m fin)"
  by (fastforce simp: keeps_def finallyE_def split: outcome.splits prod.splits dest: spec)

lemma keeps_whenE [keeps_intros]: "(b \<Longrightarrow> keeps I m) \<Longrightarrow> keeps I (whenE b m)"
  by (simp add: whenE_def keeps_returnE)

lemma keeps_if [keeps_intros]:
  "(b \<Longrightarrow> keeps I m) \<Longrightarrow> (\<not> b \<Longrightarrow> keeps I n) \<Longrightarrow> keeps I (if b then m else n)"
  by simp

lemma keeps_case_option [keeps_intros]:
  "keeps I m \<Longrightarrow> (\<And>y. keeps I (n y)) \<Longrightarrow> keeps I (case x of None \<Rightarrow> m | Some y \<Rightarrow> n y)"
  by (cases x) auto

lemma keeps_case_sum [keeps_intros]:
  "(\<And>y. keeps I (m y)) \<Longrightarrow> (\<And>y. keeps I (n y)) \<Longrightarrow> keeps I (case x of Inl y \<Rightarrow> m y | Inr y \<Rightarrow> n y)"
  by (cases x) auto

lemma keeps_forE [keeps_intros]: "(\<And>x. x \<in> set xs \<Longrightarrow> keeps I (body x)) \<Longrightarrow> keeps I (forE xs body)"
  by (induction xs) (simp_all add: keeps_returnE keeps_thenE)

section \<open>Fallible pure code\<close>

text \<open>\<open>'e + 'a\<close>: a thrown error or a value; \<open>guardS b e\<close> throws \<open>e\<close> unless \<open>b\<close>.\<close>

definition bindS :: "'e + 'a \<Rightarrow> ('a \<Rightarrow> 'e + 'b) \<Rightarrow> 'e + 'b" where
  "bindS m f = (case m of Inl e \<Rightarrow> Inl e | Inr x \<Rightarrow> f x)"

definition guardS :: "bool \<Rightarrow> 'e \<Rightarrow> 'e + 'b \<Rightarrow> 'e + 'b" where
  "guardS b e m = (if b then m else Inl e)"

lemma bindS_simps [simp]: "bindS (Inl e) f = Inl e" "bindS (Inr x) f = f x"
  by (simp_all add: bindS_def)

lemma guardS_True [simp]: "b \<Longrightarrow> guardS b e m = m"
  and guardS_False [simp]: "\<not> b \<Longrightarrow> guardS b e m = Inl e"
  by (simp_all add: guardS_def)

lemma bindS_Inr: "bindS m f = Inr y \<longleftrightarrow> (\<exists>x. m = Inr x \<and> f x = Inr y)"
  by (cases m) auto

lemma guardS_Inr: "guardS b e m = Inr y \<longleftrightarrow> b \<and> m = Inr y"
  by (simp add: guardS_def)

section \<open>Event traces\<close>

text \<open>
  The models keep a ghost trace of the effects they perform.  \<open>emits tr P m\<close> says that a
  computation only ever appends to the trace, and only events that satisfy \<open>P\<close>, on every
  outcome; it composes like \<open>keeps\<close>.
\<close>

definition emits :: "('s \<Rightarrow> 'ev list) \<Rightarrow> ('ev \<Rightarrow> bool) \<Rightarrow> ('s, 'e, 'a) prog \<Rightarrow> bool" where
  "emits tr P m \<longleftrightarrow> (\<forall>s. \<exists>es. tr (snd (m s)) = tr s @ es \<and> list_all P es)"

named_theorems emits_intros \<open>structural rules for the events a computation emits\<close>

lemma emitsI: "(\<And>s. \<exists>es. tr (snd (m s)) = tr s @ es \<and> list_all P es) \<Longrightarrow> emits tr P m"
  by (simp add: emits_def)

lemma emitsD: "emits tr P m \<Longrightarrow> \<exists>es. tr (snd (m s)) = tr s @ es \<and> list_all P es"
  by (simp add: emits_def)

lemma emitsE:
  assumes "emits tr P m" obtains es where "tr (snd (m s)) = tr s @ es" "list_all P es"
  using assms by (auto simp: emits_def)

lemma emits_mono: "emits tr P m \<Longrightarrow> (\<And>ev. P ev \<Longrightarrow> P' ev) \<Longrightarrow> emits tr P' m"
  unfolding emits_def list_all_iff by meson

lemma emits_silent [emits_intros]:
  "emits tr P (returnE x)" "emits tr P (throwE e)" "emits tr P (getE f)"
  by (simp_all add: emits_def returnE_def throwE_def getE_def)

lemma emits_modifyE: "(\<And>s. tr (f s) = tr s) \<Longrightarrow> emits tr P (modifyE f)"
  by (simp add: emits_def modifyE_def)

lemma emits_step:
  assumes "emits tr P m" "m s = (r, s')" "\<exists>es. tr t = tr s' @ es \<and> list_all P es"
  shows "\<exists>es. tr t = tr s @ es \<and> list_all P es"
  using emitsD [OF assms(1), of s] assms(2,3) by (metis append.assoc list_all_append snd_conv)

lemma emits_bindE [emits_intros]:
  "emits tr P m \<Longrightarrow> (\<And>x. emits tr P (f x)) \<Longrightarrow> emits tr P (bindE m f)"
  by (rule emitsI) (auto simp: bindE_def split: prod.split outcome.split
      intro: emits_step emitsD dest: emitsD)

lemma emits_thenE [emits_intros]: "emits tr P m \<Longrightarrow> emits tr P k \<Longrightarrow> emits tr P (thenE m k)"
  by (simp add: thenE_def emits_bindE)

lemma emits_catchE [emits_intros]:
  "emits tr P m \<Longrightarrow> (\<And>e. emits tr P (h e)) \<Longrightarrow> emits tr P (catchE m h)"
  by (rule emitsI) (auto simp: catchE_def split: prod.split outcome.split
      intro: emits_step emitsD)

lemma emits_tryE [emits_intros]:
  assumes "emits tr P m" "\<And>x. emits tr P (k x)" "\<And>e. emits tr P (h e)"
  shows "emits tr P (tryE m k h)"
proof (rule emitsI)
  fix s
  obtain r s' where m: "m s = (r, s')" by fastforce
  show "\<exists>es. tr (snd (tryE m k h s)) = tr s @ es \<and> list_all P es"
  proof (cases r)
    case (Ok x)
    then show ?thesis
      using emits_step [OF assms(1) m emitsD [OF assms(2)]] m by (auto simp: tryE_def)
  next
    case (Throw e)
    then show ?thesis
      using emits_step [OF assms(1) m emitsD [OF assms(3)]] m by (auto simp: tryE_def)
  next
    case Crash
    then show ?thesis
      using emitsD [OF assms(1), of s] m by (auto simp: tryE_def)
  qed
qed

lemma emits_finallyE [emits_intros]:
  assumes "emits tr P m" "emits tr P fin" shows "emits tr P (finallyE m fin)"
proof (rule emitsI)
  fix s
  obtain r s' where m: "m s = (r, s')" by fastforce
  obtain r2 s2 where f: "fin s' = (r2, s2)" by fastforce
  have "\<exists>es. tr s2 = tr s' @ es \<and> list_all P es"
    using emitsD [OF assms(2), of s'] f by simp
  with emits_step [OF assms(1) m] emitsD [OF assms(1), of s] m f
  show "\<exists>es. tr (snd (finallyE m fin s)) = tr s @ es \<and> list_all P es"
    by (auto simp: finallyE_def split: outcome.split)
qed

lemma emits_whenE [emits_intros]: "(b \<Longrightarrow> emits tr P m) \<Longrightarrow> emits tr P (whenE b m)"
  by (simp add: whenE_def emits_silent)

lemma emits_if [emits_intros]:
  "(b \<Longrightarrow> emits tr P m) \<Longrightarrow> (\<not> b \<Longrightarrow> emits tr P n) \<Longrightarrow> emits tr P (if b then m else n)"
  by simp

lemma emits_case_option [emits_intros]:
  "emits tr P m \<Longrightarrow> (\<And>y. emits tr P (n y)) \<Longrightarrow> emits tr P (case x of None \<Rightarrow> m | Some y \<Rightarrow> n y)"
  by (cases x) auto

lemma emits_case_sum [emits_intros]:
  "(\<And>y. emits tr P (m y)) \<Longrightarrow> (\<And>y. emits tr P (n y)) \<Longrightarrow> emits tr P (case x of Inl y \<Rightarrow> m y | Inr y \<Rightarrow> n y)"
  by (cases x) auto

lemma emits_wp:
  "emits tr P m \<Longrightarrow> wp m (\<lambda>_ s'. \<exists>es. tr s' = tr s @ es \<and> list_all P es)
     (\<lambda>_ s'. \<exists>es. tr s' = tr s @ es \<and> list_all P es) (\<lambda>s'. \<exists>es. tr s' = tr s @ es \<and> list_all P es) s"
  using emitsD [of tr P m s] by (auto simp: wp_def split: prod.split outcome.split)

section \<open>Insertion-ordered maps\<close>

type_synonym ('k, 'v) jsmap = "('k \<times> 'v) list"

text \<open>\<open>map_of\<close> reads, \<open>AList.update\<close> is \<open>Map#set\<close>, \<open>AList.delete\<close> is \<open>Map#delete\<close>.\<close>

definition wf_map :: "('k, 'v) jsmap \<Rightarrow> bool" where
  "wf_map m \<longleftrightarrow> distinct (map fst m)"

lemma wf_map_Nil [simp]: "wf_map []"
  by (simp add: wf_map_def)

lemma wf_map_update [simp]: "wf_map m \<Longrightarrow> wf_map (AList.update k v m)"
  by (simp add: wf_map_def distinct_update)

lemma wf_map_delete [simp]: "wf_map m \<Longrightarrow> wf_map (AList.delete k m)"
  by (simp add: wf_map_def distinct_delete)

lemma wf_map_Cons: "wf_map ((k, v) # m) \<longleftrightarrow> k \<notin> fst ` set m \<and> wf_map m"
  by (auto simp: wf_map_def)

lemma map_of_update [simp]: "map_of (AList.update k v m) k' = (if k' = k then Some v else map_of m k')"
  by (simp add: update_conv')

lemma map_of_delete [simp]: "map_of (AList.delete k m) k' = (if k' = k then None else map_of m k')"
  by (simp add: delete_conv')

lemma update_absent: "k \<notin> fst ` set m \<Longrightarrow> AList.update k v m = m @ [(k, v)]"
  by (induction m) auto

lemma length_update_present:
  "k \<in> fst ` set m \<Longrightarrow> length (AList.update k v m) = length m"
  by (induction m) auto

lemma length_update_absent: "k \<notin> fst ` set m \<Longrightarrow> length (AList.update k v m) = Suc (length m)"
  by (simp add: update_absent)

lemma delete_absent: "k \<notin> fst ` set m \<Longrightarrow> AList.delete k m = m"
  by (induction m) auto

lemma length_delete_less:
  "k \<in> fst ` set m \<Longrightarrow> length (AList.delete k m) < length m"
proof (induction m)
  case (Cons a m)
  show ?case
  proof (cases "k = fst a")
    case True
    then show ?thesis by (simp add: le_imp_less_Suc length_delete_le)
  next
    case False
    with Cons show ?thesis by auto
  qed
qed simp

section \<open>Strings\<close>

text \<open>\<open>String#split\<close> with a one-character separator: always at least one piece.  The elements are characters
  or, where text goes beyond U+00FF, code points.\<close>

fun split_on :: "'a \<Rightarrow> 'a list \<Rightarrow> 'a list list" where
  "split_on c [] = [[]]"
| "split_on c (x # xs) =
     (if x = c then [] # split_on c xs
      else (case split_on c xs of [] \<Rightarrow> [[x]] | p # ps \<Rightarrow> (x # p) # ps))"

fun join_with :: "'a \<Rightarrow> 'a list list \<Rightarrow> 'a list" where
  "join_with c [] = []"
| "join_with c [p] = p"
| "join_with c (p # q # ps) = p @ c # join_with c (q # ps)"

lemma split_on_nonempty [simp]: "split_on c s \<noteq> []"
  by (induction s) (auto split: list.splits)

lemma split_on_plain: "c \<notin> set s \<Longrightarrow> split_on c s = [s]"
  by (induction s) auto

lemma split_on_append: "c \<notin> set p \<Longrightarrow> split_on c (p @ c # s) = p # split_on c s"
  by (induction p) auto

lemma split_join:
  "ps \<noteq> [] \<Longrightarrow> (\<forall>p\<in>set ps. c \<notin> set p) \<Longrightarrow> split_on c (join_with c ps) = ps"
  by (induction ps rule: join_with.induct) (auto simp: split_on_plain split_on_append)

lemma join_split: "join_with c (split_on c s) = s"
proof (induction s)
  case Nil
  then show ?case by simp
next
  case (Cons x s)
  obtain p ps where sp: "split_on c s = p # ps"
    using split_on_nonempty [of c s] by (cases "split_on c s") auto
  with Cons show ?case
    by (cases ps) auto
qed

text \<open>Character classes, as the sets the regular expressions name.\<close>

definition digits :: string where
  "digits = ''0123456789''"

definition lowers :: string where
  "lowers = ''abcdefghijklmnopqrstuvwxyz''"

definition uppers :: string where
  "uppers = ''ABCDEFGHIJKLMNOPQRSTUVWXYZ''"

definition hex_lower :: string where
  "hex_lower = ''0123456789abcdef''"

definition all_in :: "string \<Rightarrow> string \<Rightarrow> bool" where
  "all_in cls s \<longleftrightarrow> list_all (\<lambda>c. c \<in> set cls) s"

lemma all_in_Nil [simp]: "all_in cls []"
  and all_in_Cons [simp]: "all_in cls (c # s) \<longleftrightarrow> c \<in> set cls \<and> all_in cls s"
  and all_in_append [simp]: "all_in cls (s @ t) \<longleftrightarrow> all_in cls s \<and> all_in cls t"
  by (simp_all add: all_in_def)

lemma all_in_notin: "all_in cls s \<Longrightarrow> c \<notin> set cls \<Longrightarrow> c \<notin> set s"
  by (auto simp: all_in_def list_all_iff)

lemma all_in_mono: "all_in cls s \<Longrightarrow> set cls \<subseteq> set cls' \<Longrightarrow> all_in cls' s"
  by (auto simp: all_in_def list_all_iff)

text \<open>Decimal numerals: \<open>String(n)\<close> and \<open>Number(s)\<close> on a string of digits.\<close>

definition digit_char :: "nat \<Rightarrow> char" where
  "digit_char d = digits ! d"

definition digit_val :: "char \<Rightarrow> nat" where
  "digit_val c = length (takeWhile (\<lambda>d. d \<noteq> c) digits)"

fun show_nat :: "nat \<Rightarrow> string" where
  "show_nat n = (if n < 10 then [digit_char n] else show_nat (n div 10) @ [digit_char (n mod 10)])"

declare show_nat.simps [simp del]

definition number_of_digits :: "string \<Rightarrow> nat" where
  "number_of_digits s = foldl (\<lambda>n c. 10 * n + digit_val c) 0 s"

lemma digit_cases: "d < 10 \<Longrightarrow> d \<in> {0, 1, 2, 3, 4, 5, 6, 7, 8, 9 :: nat}"
  by auto

lemma digit_val_char [simp]: "d < 10 \<Longrightarrow> digit_val (digit_char d) = d"
  by (drule digit_cases) (auto simp: digit_val_def digit_char_def digits_def)

lemma digit_char_in [simp]: "d < 10 \<Longrightarrow> digit_char d \<in> set digits"
  by (simp add: digit_char_def digits_def nth_mem del: list.set)

lemma all_in_show_nat [simp]: "all_in digits (show_nat n)"
  by (induction n rule: show_nat.induct) (subst show_nat.simps, auto)

lemma show_nat_nonempty [simp]: "show_nat n \<noteq> []"
  by (subst show_nat.simps) simp

lemma number_of_show_nat [simp]: "number_of_digits (show_nat n) = n"
proof (induction n rule: show_nat.induct)
  case (1 n)
  then show ?case
    by (subst show_nat.simps) (auto simp: number_of_digits_def)
qed

lemma show_nat_inj: "show_nat m = show_nat n \<longleftrightarrow> m = n"
  by (metis number_of_show_nat)

lemma number_of_snoc: "number_of_digits (s @ [c]) = 10 * number_of_digits s + digit_val c"
  by (simp add: number_of_digits_def)

lemma digit_val_less: "c \<in> set digits \<Longrightarrow> digit_val c < 10"
  and digit_char_val: "c \<in> set digits \<Longrightarrow> digit_char (digit_val c) = c"
  by (auto simp: digits_def digit_val_def digit_char_def)

lemma number_pos: "s \<noteq> [] \<Longrightarrow> hd s \<noteq> CHR ''0'' \<Longrightarrow> all_in digits s \<Longrightarrow> 0 < number_of_digits s"
proof (induction s rule: rev_induct)
  case (snoc c s)
  show ?case
  proof (cases "s = []")
    case True
    with snoc.prems show ?thesis by (auto simp: number_of_digits_def digits_def digit_val_def)
  next
    case False
    with snoc show ?thesis by (simp add: number_of_snoc)
  qed
qed simp

lemma show_number_of:
  "s \<noteq> [] \<Longrightarrow> hd s \<noteq> CHR ''0'' \<Longrightarrow> all_in digits s \<Longrightarrow> show_nat (number_of_digits s) = s"
proof (induction s rule: rev_induct)
  case (snoc c s)
  have c: "c \<in> set digits" using snoc.prems by simp
  show ?case
  proof (cases "s = []")
    case True
    with c show ?thesis
      by (simp add: number_of_digits_def show_nat.simps [of "digit_val c"] digit_val_less digit_char_val)
  next
    case False
    with snoc have "show_nat (number_of_digits s) = s" "0 < number_of_digits s"
      by (simp_all add: number_pos)
    with c show ?thesis
      by (simp add: number_of_snoc show_nat.simps [of "10 * number_of_digits s + digit_val c"]
          digit_val_less digit_char_val)
  qed
qed simp

lemma length_show_nat: "0 < k \<Longrightarrow> n < 10 ^ k \<Longrightarrow> length (show_nat n) \<le> k"
proof (induction k arbitrary: n)
  case (Suc k)
  show ?case
  proof (cases "n < 10")
    case True
    then show ?thesis by (simp add: show_nat.simps [of n])
  next
    case False
    with Suc.prems have "0 < k" "n div 10 < 10 ^ k" by (cases k; auto)+
    with Suc.IH [of "n div 10"] False show ?thesis by (simp add: show_nat.simps [of n])
  qed
qed simp

lemma hd_show_nat: "0 < n \<Longrightarrow> hd (show_nat n) \<noteq> CHR ''0''"
proof (induction n rule: show_nat.induct)
  case (1 n)
  show ?case
  proof (cases "n < 10")
    case True
    with 1 show ?thesis
      using digit_cases [of n] by (auto simp: show_nat.simps [of n] digit_char_def digits_def)
  next
    case False
    with 1 show ?thesis by (simp add: show_nat.simps [of n])
  qed
qed

text \<open>Sequencing of checks: each must pass, the results are not looked at.\<close>

definition thenS :: "'e + 'a \<Rightarrow> 'e + 'b \<Rightarrow> 'e + 'b" where
  "thenS m k = bindS m (\<lambda>_. k)"

lemma thenS_simps [simp]: "thenS (Inl e) k = Inl e" "thenS (Inr x) k = k"
  by (simp_all add: thenS_def)

lemma thenS_Inr: "thenS m k = Inr y \<longleftrightarrow> (\<exists>x. m = Inr x) \<and> k = Inr y"
  by (simp add: thenS_def bindS_Inr)

text \<open>\<open>String#trim\<close> on the white space below U+0100.\<close>

definition js_space :: "char \<Rightarrow> bool" where
  "js_space c \<longleftrightarrow> of_char c \<in> {9, 10, 11, 12, 13, 32, 160 :: nat}"

definition trim :: "string \<Rightarrow> string" where
  "trim s = rev (dropWhile js_space (rev (dropWhile js_space s)))"

text \<open>\<open>String#toLowerCase\<close> below U+0100.\<close>

definition js_lower_char :: "char \<Rightarrow> char" where
  "js_lower_char c = (let n = of_char c :: nat in
     if (65 \<le> n \<and> n \<le> 90) \<or> (192 \<le> n \<and> n \<le> 222 \<and> n \<noteq> 215) then char_of (n + 32) else c)"

definition toLowerCase :: "string \<Rightarrow> string" where
  "toLowerCase s = map js_lower_char s"


text \<open>\<open>startsWith\<close> and \<open>endsWith\<close>.\<close>

definition starts_with :: "string \<Rightarrow> string \<Rightarrow> bool" where
  "starts_with p s \<longleftrightarrow> take (length p) s = p"

definition ends_with :: "string \<Rightarrow> string \<Rightarrow> bool" where
  "ends_with p s \<longleftrightarrow> length p \<le> length s \<and> drop (length s - length p) s = p"

end
