(* ===== verification/Ring_Bump.thy ===== *)
theory Ring_Bump
  imports Prelude "HOL-Library.Sublist"
begin

text \<open>
  The ring controller's bump state machine: \<open>BumpStateMachine\<close> of
  \<open>src/services/ring-controller/src/bumpStateMachine.ts\<close>.

  The private fields of the class are the record \<open>bump\<close>.  Every injected dependency is an
  arbitrary computation over an opaque environment \<open>'w\<close>, so it may return anything, throw
  anything or never come back because the process died; \<open>r_aborted\<close> says whether an operator's
  \<open>abort()\<close> landed while the call was being awaited, and \<open>r_landed\<close> whether a \<open>persist\<close>
  that threw or was cut off by a crash had already reached the disk.  The record \<open>ring\<close> adds to
  the object a ghost trace of the effects performed and the snapshot that is durable.

  Methods keep the names of the class.  The first group of lemmas computes what each method can do
  to the fields, the second bounds the events each method can emit, and the properties at the end
  are about \<open>run\<close>, the recovery methods and the two calls that leave \<open>done\<close>.
\<close>

section \<open>Data\<close>

datatype bump_state = Pending | BackingUp | BackedUp | Applying | Verifying | Done | Closing
  | Reverting | Reverted | BackupFailed | Cancelled | FailedUnsafe | Closed

definition state_name :: "bump_state \<Rightarrow> string" where
  "state_name st = (case st of
       Pending \<Rightarrow> ''pending'' | BackingUp \<Rightarrow> ''backing-up'' | BackedUp \<Rightarrow> ''backed-up''
     | Applying \<Rightarrow> ''applying'' | Verifying \<Rightarrow> ''verifying'' | Done \<Rightarrow> ''done''
     | Closing \<Rightarrow> ''closing'' | Reverting \<Rightarrow> ''reverting'' | Reverted \<Rightarrow> ''reverted''
     | BackupFailed \<Rightarrow> ''backup-failed'' | Cancelled \<Rightarrow> ''cancelled''
     | FailedUnsafe \<Rightarrow> ''failed-unsafe'' | Closed \<Rightarrow> ''closed'')"

record step_result =
  sr_ok :: bool
  sr_reason :: "string option"

record persist_snapshot =
  ps_state :: bump_state
  ps_pageSent :: bool
  ps_bumpId :: string
  ps_reason :: "string option"

datatype colour = New | Old

datatype ring_event =
    EvBackup
  | EvApply
  | EvProbe
  | EvVerify
  | EvRevert
  | EvStop colour
  | EvPage string string
  | EvPersist persist_snapshot
  | EvLock
  | EvUnlock

text \<open>
  \<open>BumpDependencies\<close>, with the shared \<open>ApplyLock\<close> (\<open>r_lockWait\<close> is the wait for this
  tenant's turn: \<open>False\<close> when the process dies in the queue; it cannot reject, see
  \<open>Async_Mutex\<close>), the turn of the event loop an \<open>await\<close> of nothing still gives up
  (\<open>r_tick\<close>) and the timer that bounds the settlement probe (\<open>r_settlesWithin ms\<close>: the
  probe's promise settles before a timer of \<open>ms\<close> milliseconds fires).
\<close>

record 'w bump_deps =
  r_backup :: "('w, js_exn, step_result) prog"
  r_apply :: "('w, js_exn, step_result) prog"
  r_awaitApplySettled :: "('w, js_exn, step_result) prog"
  r_verify :: "('w, js_exn, step_result) prog"
  r_revertTraffic :: "('w, js_exn, step_result) prog"
  r_stopColour :: "colour \<Rightarrow> ('w, js_exn, unit) prog"
  r_page :: "string \<Rightarrow> string \<Rightarrow> ('w, js_exn, unit) prog"
  r_persist :: "(persist_snapshot \<Rightarrow> ('w, js_exn, unit) prog) option"
  r_lockWait :: "'w \<Rightarrow> bool \<times> 'w"
  r_tick :: "'w \<Rightarrow> 'w"
  r_settlesWithin :: "nat \<Rightarrow> 'w \<Rightarrow> bool"
  r_aborted :: "'w \<Rightarrow> bool"
  r_landed :: "'w \<Rightarrow> bool"

record bump =
  b_state :: bump_state
  b_abortRequested :: bool
  b_pageSent :: bool
  b_doneTransitionClaimed :: bool
  b_bumpId :: string
  b_applySettleTimeoutMs :: nat

record 'w ring =
  machine :: bump
  trace :: "ring_event list"
  durable :: "persist_snapshot option"
  world :: 'w

type_synonym ('w, 'a) ring_prog = "('w ring, js_exn, 'a) prog"

definition DEFAULT_APPLY_SETTLE_TIMEOUT_MS :: nat where
  "DEFAULT_APPLY_SETTLE_TIMEOUT_MS = 10 * 60 * 1000"

text \<open>The constructor: \<open>recovered\<close> carries the persisted state and its page flag, if any.\<close>

definition new_bump :: "string \<Rightarrow> nat option \<Rightarrow> (bump_state \<times> bool option) option \<Rightarrow> bump" where
  "new_bump bumpId settleTimeout recovered =
     \<lparr>b_state = (case recovered of None \<Rightarrow> Pending | Some (st, _) \<Rightarrow> st),
      b_abortRequested = False,
      b_pageSent = (case recovered of Some (_, Some p) \<Rightarrow> p | _ \<Rightarrow> False),
      b_doneTransitionClaimed = False,
      b_bumpId = bumpId,
      b_applySettleTimeoutMs =
        (case settleTimeout of None \<Rightarrow> DEFAULT_APPLY_SETTLE_TIMEOUT_MS | Some ms \<Rightarrow> ms)\<rparr>"

definition abort :: "bump \<Rightarrow> bump" where
  "abort b = b\<lparr>b_abortRequested := True\<rparr>"

definition dedupeKey :: "bump \<Rightarrow> string \<Rightarrow> string" where
  "dedupeKey b reason = b_bumpId b @ '':'' @ reason"

text \<open>\<open>err instanceof Error ? err.message : fallback\<close>.\<close>

definition exn_message :: "string \<Rightarrow> js_exn \<Rightarrow> string" where
  "exn_message fallback e = (case e of JsError m \<Rightarrow> m | JsOther \<Rightarrow> fallback)"

text \<open>\<open>a ?? b\<close>.\<close>

definition coalesce :: "'a option \<Rightarrow> 'a \<Rightarrow> 'a" where
  "coalesce x y = (case x of None \<Rightarrow> y | Some v \<Rightarrow> v)"

section \<open>Awaiting a dependency\<close>

text \<open>What an awaited call leaves behind: its event, the new environment, perhaps an abort.\<close>

definition observe :: "'w bump_deps \<Rightarrow> ring_event \<Rightarrow> 'w \<Rightarrow> 'w ring \<Rightarrow> 'w ring" where
  "observe d ev w s =
     s\<lparr>trace := trace s @ [ev], world := w,
       machine := (if r_aborted d w then abort (machine s) else machine s)\<rparr>"

definition callD :: "'w bump_deps \<Rightarrow> ring_event \<Rightarrow> ('w, js_exn, 'a) prog \<Rightarrow> ('w, 'a) ring_prog" where
  "callD d ev f s = (case f (world s) of (r, w) \<Rightarrow> (r, observe d ev w s))"

definition snapshot :: "string option \<Rightarrow> bump \<Rightarrow> persist_snapshot" where
  "snapshot reason b =
     \<lparr>ps_state = b_state b, ps_pageSent = b_pageSent b, ps_bumpId = b_bumpId b, ps_reason = reason\<rparr>"

fun reached_disk :: "bool \<Rightarrow> (js_exn, unit) outcome \<Rightarrow> bool" where
  "reached_disk landed (Ok _) = True"
| "reached_disk landed _ = landed"

text \<open>\<open>persistSnapshot\<close>: without a \<open>persist\<close> dependency the \<open>await\<close> only yields.\<close>

definition yield :: "'w bump_deps \<Rightarrow> 'w ring \<Rightarrow> 'w ring" where
  "yield d s = (let w = r_tick d (world s) in
     s\<lparr>world := w, machine := (if r_aborted d w then abort (machine s) else machine s)\<rparr>)"

definition persistSnapshot :: "'w bump_deps \<Rightarrow> string option \<Rightarrow> ('w, unit) ring_prog" where
  "persistSnapshot d reason s = (case r_persist d of
       None \<Rightarrow> (Ok (), yield d s)
     | Some p \<Rightarrow>
         (let snap = snapshot reason (machine s) in
          case p snap (world s) of (r, w) \<Rightarrow>
            (r, (observe d (EvPersist snap) w s)
                  \<lparr>durable := (if reached_disk (r_landed d w) r then Some snap else durable s)\<rparr>)))"

definition set_state :: "bump_state \<Rightarrow> 'w ring \<Rightarrow> 'w ring" where
  "set_state st s = s\<lparr>machine := (machine s)\<lparr>b_state := st\<rparr>\<rparr>"

definition set_pageSent :: "'w ring \<Rightarrow> 'w ring" where
  "set_pageSent s = s\<lparr>machine := (machine s)\<lparr>b_pageSent := True\<rparr>\<rparr>"

definition get_state :: "('w, bump_state) ring_prog" where
  "get_state = getE (\<lambda>s. b_state (machine s))"

definition transition :: "'w bump_deps \<Rightarrow> bump_state \<Rightarrow> ('w, unit) ring_prog" where
  "transition d st = thenE (modifyE (set_state st)) (persistSnapshot d None)"

text \<open>\<open>lock.run\<close>: wait for the turn, run the body, and free the lock however the body ends.\<close>

definition lockRun :: "'w bump_deps \<Rightarrow> ('w, 'a) ring_prog \<Rightarrow> ('w, 'a) ring_prog" where
  "lockRun d body =
     thenE (callD d EvLock (\<lambda>w. case r_lockWait d w of (alive, w') \<Rightarrow>
              (if alive then Ok () else Crash, w')))
       (finallyE body (modifyE (\<lambda>s. s\<lparr>trace := trace s @ [EvUnlock]\<rparr>)))"

text \<open>\<open>withTimeout\<close>: the timer's rejection unless the promise settles first.\<close>

definition withTimeout :: "('w, js_exn, 'a) prog \<Rightarrow> (nat \<Rightarrow> 'w \<Rightarrow> bool) \<Rightarrow> nat \<Rightarrow> ('w, js_exn, 'a) prog" where
  "withTimeout m settlesWithin ms w = (case m w of
       (Crash, w') \<Rightarrow> (Crash, w')
     | (r, w') \<Rightarrow> (if settlesWithin ms w then (r, w')
                  else (Throw (JsError (''timed out after '' @ show_nat ms @ ''ms'')), w')))"

section \<open>The methods\<close>

definition failUnsafe :: "'w bump_deps \<Rightarrow> string \<Rightarrow> ('w, bump_state) ring_prog" where
  "failUnsafe d reason =
     thenE (modifyE (set_state FailedUnsafe))
    (thenE (persistSnapshot d (Some reason))
    (thenE (bindE (getE (\<lambda>s. b_pageSent (machine s))) (\<lambda>sent.
       whenE (\<not> sent)
         (bindE (getE (\<lambda>s. dedupeKey (machine s) reason)) (\<lambda>key.
            thenE (callD d (EvPage reason key) (r_page d reason key))
           (thenE (modifyE set_pageSent)
                  (persistSnapshot d (Some reason)))))))
     get_state))"

definition revertOrFailUnsafe :: "'w bump_deps \<Rightarrow> string option \<Rightarrow> ('w, bump_state) ring_prog" where
  "revertOrFailUnsafe d reason =
     thenE (transition d Reverting)
    (tryE (callD d EvRevert (r_revertTraffic d))
       (\<lambda>revertResult.
          if sr_ok revertResult then
            thenE (transition d Reverted)
           (tryE (callD d (EvStop New) (r_stopColour d New))
              (\<lambda>_. get_state)
              (\<lambda>e. failUnsafe d (exn_message ''stopColour() threw'' e)))
          else
            failUnsafe d (coalesce (sr_reason revertResult) (coalesce reason ''revert failed'')))
       (\<lambda>e. failUnsafe d (exn_message ''revertTraffic() threw'' e)))"

definition verifyAndFinish :: "'w bump_deps \<Rightarrow> ('w, bump_state) ring_prog" where
  "verifyAndFinish d =
     thenE (transition d Verifying)
    (tryE (callD d EvVerify (r_verify d))
       (\<lambda>verifyResult. bindE (getE (\<lambda>s. b_abortRequested (machine s))) (\<lambda>aborted.
          if sr_ok verifyResult \<and> \<not> aborted
          then thenE (transition d Done) get_state
          else revertOrFailUnsafe d (sr_reason verifyResult)))
       (\<lambda>e. failUnsafe d (exn_message ''verify() threw'' e)))"

definition quoted :: "string \<Rightarrow> string" where
  "quoted s = [CHR 0x27] @ s @ [CHR 0x27]"

definition wrong_state :: "string \<Rightarrow> string \<Rightarrow> bump_state \<Rightarrow> js_exn" where
  "wrong_state caller expected st =
     JsError (caller @ '' called from state '' @ quoted (state_name st) @ '', expected '' @ expected)"

definition run :: "'w bump_deps \<Rightarrow> ('w, bump_state) ring_prog" where
  "run d =
     bindE (getE machine) (\<lambda>b.
     if b_state b \<noteq> Pending then throwE (wrong_state ''run()'' (quoted ''pending'') (b_state b))
     else if b_abortRequested b then thenE (transition d Cancelled) get_state
     else
       thenE (transition d BackingUp)
      (bindE (callD d EvBackup (r_backup d)) (\<lambda>backupResult.
       bindE (getE (\<lambda>s. b_abortRequested (machine s))) (\<lambda>aborted.
       if aborted then thenE (transition d Cancelled) get_state
       else if \<not> sr_ok backupResult then thenE (transition d BackupFailed) get_state
       else
         thenE (transition d BackedUp)
        (bindE (lockRun d (thenE (transition d Applying) (callD d EvApply (r_apply d))))
           (\<lambda>applyResult.
         bindE (getE (\<lambda>s. b_abortRequested (machine s))) (\<lambda>abortedNow.
         if \<not> sr_ok applyResult \<or> abortedNow
         then thenE (transition d Verifying) (revertOrFailUnsafe d (sr_reason applyResult))
         else verifyAndFinish d)))))))"

definition probeApplySettled :: "'w bump_deps \<Rightarrow> ('w, step_result) ring_prog" where
  "probeApplySettled d =
     bindE (getE (\<lambda>s. b_applySettleTimeoutMs (machine s))) (\<lambda>ms.
     catchE (callD d EvProbe (withTimeout (r_awaitApplySettled d) (r_settlesWithin d) ms))
       (\<lambda>e. returnE \<lparr>sr_ok = False,
                      sr_reason = Some (exn_message ''awaitApplySettled() failed'' e)\<rparr>))"

definition recoverFromApplying :: "'w bump_deps \<Rightarrow> ('w, bump_state) ring_prog" where
  "recoverFromApplying d =
     bindE get_state (\<lambda>st.
     if st \<noteq> Applying then throwE (wrong_state ''recoverFromApplying'' (quoted ''applying'') st)
     else lockRun d (bindE (probeApplySettled d) (\<lambda>settled.
       if \<not> sr_ok settled
       then failUnsafe d (coalesce (sr_reason settled)
              ''could not confirm the migration settled after a crash'')
       else verifyAndFinish d)))"

definition recoverFromRevertInFlight :: "'w bump_deps \<Rightarrow> ('w, bump_state) ring_prog" where
  "recoverFromRevertInFlight d =
     bindE get_state (\<lambda>st.
     if st \<noteq> Verifying \<and> st \<noteq> Reverting
     then throwE (wrong_state ''recoverFromRevertInFlight'' 
            (quoted ''verifying'' @ '' or '' @ quoted ''reverting'') st)
     else revertOrFailUnsafe d None)"

definition recoverFromReverted :: "'w bump_deps \<Rightarrow> ('w, bump_state) ring_prog" where
  "recoverFromReverted d =
     bindE get_state (\<lambda>st.
     if st \<noteq> Reverted then throwE (wrong_state ''recoverFromReverted'' (quoted ''reverted'') st)
     else thenE (callD d (EvStop New) (r_stopColour d New)) get_state)"

definition recoverFromClosing :: "'w bump_deps \<Rightarrow> ('w, bump_state) ring_prog" where
  "recoverFromClosing d =
     bindE get_state (\<lambda>st.
     if st \<noteq> Closing then throwE (wrong_state ''recoverFromClosing'' (quoted ''closing'') st)
     else thenE (callD d (EvStop Old) (r_stopColour d Old)) (thenE (transition d Closed) get_state))"

definition recoverUnpagedFailure :: "'w bump_deps \<Rightarrow> string \<Rightarrow> ('w, bump_state) ring_prog" where
  "recoverUnpagedFailure d reason =
     bindE (getE machine) (\<lambda>b.
     if b_state b \<noteq> FailedUnsafe
     then throwE (wrong_state ''recoverUnpagedFailure'' (quoted ''failed-unsafe'') (b_state b))
     else thenE (whenE (\<not> b_pageSent b)
         (thenE (callD d (EvPage reason (dedupeKey b reason)) (r_page d reason (dedupeKey b reason)))
         (thenE (modifyE set_pageSent)
                (persistSnapshot d (Some reason)))))
       get_state)"

definition recoverAsCancelled :: "'w bump_deps \<Rightarrow> ('w, bump_state) ring_prog" where
  "recoverAsCancelled d =
     bindE get_state (\<lambda>st.
     if st \<noteq> Pending \<and> st \<noteq> BackingUp \<and> st \<noteq> BackedUp
     then throwE (wrong_state ''recoverAsCancelled'' 
            (quoted ''pending'' @ '', '' @ quoted ''backing-up'' @ '' or '' @ quoted ''backed-up'') st)
     else thenE (transition d Cancelled) get_state)"

definition claimDoneTransition :: "string \<Rightarrow> ('w, unit) ring_prog" where
  "claimDoneTransition caller =
     bindE (getE machine) (\<lambda>b.
     if b_state b \<noteq> Done \<or> b_doneTransitionClaimed b
     then throwE (JsError (caller @ '' called from state '' @ quoted (state_name (b_state b))
                    @ '', not '' @ quoted ''done''))
     else modifyE (\<lambda>s. s\<lparr>machine := (machine s)\<lparr>b_doneTransitionClaimed := True\<rparr>\<rparr>))"

definition abortAfterDone :: "'w bump_deps \<Rightarrow> ('w, bump_state) ring_prog" where
  "abortAfterDone d =
     thenE (claimDoneTransition ''abortAfterDone'')
    (thenE (modifyE (\<lambda>s. s\<lparr>machine := abort (machine s)\<rparr>))
           (revertOrFailUnsafe d None))"

definition closeBakeWindow :: "'w bump_deps \<Rightarrow> ('w, bump_state) ring_prog" where
  "closeBakeWindow d =
     thenE (claimDoneTransition ''closeBakeWindow'')
    (thenE (transition d Closing)
    (thenE (callD d (EvStop Old) (r_stopColour d Old))
    (thenE (transition d Closed)
           get_state)))"

section \<open>What one await can do\<close>

text \<open>
  \<open>awaited evs s s'\<close>: the object is the same but for an abort that may have landed, the
  trace grew by \<open>evs\<close>, and the environment is arbitrary.
\<close>

definition awaited :: "ring_event list \<Rightarrow> 'w ring \<Rightarrow> 'w ring \<Rightarrow> bool" where
  "awaited evs s s' \<longleftrightarrow>
     b_state (machine s') = b_state (machine s) \<and> b_pageSent (machine s') = b_pageSent (machine s) \<and>
     b_doneTransitionClaimed (machine s') = b_doneTransitionClaimed (machine s) \<and>
     b_bumpId (machine s') = b_bumpId (machine s) \<and>
     b_applySettleTimeoutMs (machine s') = b_applySettleTimeoutMs (machine s) \<and>
     (b_abortRequested (machine s) \<longrightarrow> b_abortRequested (machine s')) \<and>
     trace s' = trace s @ evs"

lemma awaited_observe: "awaited [ev] s (observe d ev w s)"
  by (simp add: awaited_def observe_def abort_def)

lemma awaited_yield: "awaited [] s (yield d s)"
  by (simp add: awaited_def yield_def abort_def Let_def)

lemma wp_callD:
  assumes "\<And>x s'. awaited [ev] s s' \<Longrightarrow> durable s' = durable s \<Longrightarrow> Q x s'"
    and "\<And>e s'. awaited [ev] s s' \<Longrightarrow> durable s' = durable s \<Longrightarrow> E e s'"
    and "\<And>s'. awaited [ev] s s' \<Longrightarrow> durable s' = durable s \<Longrightarrow> C s'"
  shows "wp (callD d ev f) Q E C s"
  using assms by (auto simp: wp_def callD_def awaited_observe observe_def [THEN arg_cong [where f = durable]]
      split: prod.splits outcome.splits)

definition persist_evs :: "'w bump_deps \<Rightarrow> string option \<Rightarrow> 'w ring \<Rightarrow> ring_event list" where
  "persist_evs d reason s =
     (case r_persist d of None \<Rightarrow> [] | Some _ \<Rightarrow> [EvPersist (snapshot reason (machine s))])"

text \<open>A \<open>persist\<close> that returned is on disk; one that did not may or may not be.\<close>

definition maybe_landed :: "string option \<Rightarrow> 'w ring \<Rightarrow> 'w ring \<Rightarrow> bool" where
  "maybe_landed reason s s' \<longleftrightarrow>
     durable s' = durable s \<or> durable s' = Some (snapshot reason (machine s))"

definition landed :: "'w bump_deps \<Rightarrow> string option \<Rightarrow> 'w ring \<Rightarrow> 'w ring \<Rightarrow> bool" where
  "landed d reason s s' \<longleftrightarrow>
     durable s' = (if r_persist d = None then durable s else Some (snapshot reason (machine s)))"

lemma wp_persistSnapshot:
  assumes "\<And>s'. awaited (persist_evs d reason s) s s' \<Longrightarrow> landed d reason s s' \<Longrightarrow> Q () s'"
    and "\<And>e s'. awaited (persist_evs d reason s) s s' \<Longrightarrow> maybe_landed reason s s' \<Longrightarrow>
           r_persist d \<noteq> None \<Longrightarrow> E e s'"
    and "\<And>s'. awaited (persist_evs d reason s) s s' \<Longrightarrow> maybe_landed reason s s' \<Longrightarrow>
           r_persist d \<noteq> None \<Longrightarrow> C s'"
  shows "wp (persistSnapshot d reason) Q E C s"
proof (cases "r_persist d")
  case None
  with assms(1) [of "yield d s"] show ?thesis
    by (auto simp: wp_def persistSnapshot_def persist_evs_def landed_def awaited_yield
        yield_def [THEN arg_cong [where f = durable]] Let_def)
next
  case (Some p)
  obtain r w where r: "p (snapshot reason (machine s)) (world s) = (r, w)" by fastforce
  define s' where "s' = (observe d (EvPersist (snapshot reason (machine s))) w s)
    \<lparr>durable := (if reached_disk (r_landed d w) r then Some (snapshot reason (machine s))
                else durable s)\<rparr>"
  have aw: "awaited (persist_evs d reason s) s s'"
    by (simp add: s'_def persist_evs_def Some awaited_def observe_def abort_def)
  have run: "persistSnapshot d reason s = (r, s')"
    by (simp add: persistSnapshot_def Some r s'_def Let_def)
  have du: "maybe_landed reason s s'" "r = Ok () \<Longrightarrow> landed d reason s s'"
    by (simp_all add: s'_def maybe_landed_def landed_def Some)
  show ?thesis
    using assms aw du by (cases r) (auto simp: wp_def run Some)
qed

section \<open>The events of each method\<close>

lemma emits_callD [emits_intros]: "P ev \<Longrightarrow> emits trace P (callD d ev f)"
  by (auto simp: emits_def callD_def observe_def split: prod.split)

lemma emits_persistSnapshot [emits_intros]:
  "(\<And>snap. P (EvPersist snap)) \<Longrightarrow> emits trace P (persistSnapshot d reason)"
  by (auto simp: emits_def persistSnapshot_def observe_def yield_def Let_def
      split: prod.split option.split)

lemma trace_set [simp]:
  "trace (set_state st s) = trace s" "trace (set_pageSent s) = trace s"
  "durable (set_state st s) = durable s" "durable (set_pageSent s) = durable s"
  "b_state (machine (set_state st s)) = st"
  "b_pageSent (machine (set_state st s)) = b_pageSent (machine s)"
  "b_bumpId (machine (set_state st s)) = b_bumpId (machine s)"
  "b_abortRequested (machine (set_state st s)) = b_abortRequested (machine s)"
  "b_doneTransitionClaimed (machine (set_state st s)) = b_doneTransitionClaimed (machine s)"
  "b_applySettleTimeoutMs (machine (set_state st s)) = b_applySettleTimeoutMs (machine s)"
  "b_state (machine (set_pageSent s)) = b_state (machine s)"
  "b_pageSent (machine (set_pageSent s))"
  "b_bumpId (machine (set_pageSent s)) = b_bumpId (machine s)"
  "b_abortRequested (machine (set_pageSent s)) = b_abortRequested (machine s)"
  "b_doneTransitionClaimed (machine (set_pageSent s)) = b_doneTransitionClaimed (machine s)"
  "b_applySettleTimeoutMs (machine (set_pageSent s)) = b_applySettleTimeoutMs (machine s)"
  by (simp_all add: set_state_def set_pageSent_def)

text \<open>Events that belong to the recorded history and the page, and to the tail of a run.\<close>

fun is_record :: "ring_event \<Rightarrow> bool" where
  "is_record (EvPersist _) = True"
| "is_record (EvPage _ _) = True"
| "is_record _ = False"

definition fail_event :: "ring_event \<Rightarrow> bool" where
  "fail_event ev \<longleftrightarrow> is_record ev"

definition revert_event :: "ring_event \<Rightarrow> bool" where
  "revert_event ev \<longleftrightarrow> is_record ev \<or> ev = EvRevert \<or> ev = EvStop New"

definition finish_event :: "ring_event \<Rightarrow> bool" where
  "finish_event ev \<longleftrightarrow> revert_event ev \<or> ev = EvVerify"

lemmas event_classes = fail_event_def revert_event_def finish_event_def

lemma emits_transition [emits_intros]:
  "(\<And>snap. P (EvPersist snap)) \<Longrightarrow> emits trace P (transition d st)"
  unfolding transition_def by (intro emits_intros emits_modifyE) simp_all

lemma emits_failUnsafe: "emits trace fail_event (failUnsafe d reason)"
  unfolding failUnsafe_def get_state_def
  by (intro emits_intros emits_modifyE) (simp_all add: event_classes)

lemma emits_revertOrFailUnsafe: "emits trace revert_event (revertOrFailUnsafe d reason)"
  unfolding revertOrFailUnsafe_def get_state_def
  by (intro emits_intros emits_modifyE emits_mono [OF emits_failUnsafe])
    (simp_all add: event_classes)

lemma emits_verifyAndFinish: "emits trace finish_event (verifyAndFinish d)"
  unfolding verifyAndFinish_def get_state_def
  by (intro emits_intros emits_modifyE emits_mono [OF emits_failUnsafe]
      emits_mono [OF emits_revertOrFailUnsafe])
    (simp_all add: event_classes)

lemma emits_lockRun [emits_intros]:
  "P EvLock \<Longrightarrow> P EvUnlock \<Longrightarrow> emits trace P body \<Longrightarrow> emits trace P (lockRun d body)"
  unfolding lockRun_def
  by (intro emits_intros) (auto simp: emits_def modifyE_def)

text \<open>No recovery path calls \<open>backup\<close> or \<open>apply\<close>.\<close>

definition recovery_event :: "ring_event \<Rightarrow> bool" where
  "recovery_event ev \<longleftrightarrow> ev \<noteq> EvApply \<and> ev \<noteq> EvBackup"

lemma recovery_event_finish: "finish_event ev \<Longrightarrow> recovery_event ev"
  and recovery_event_revert: "revert_event ev \<Longrightarrow> recovery_event ev"
  and recovery_event_fail: "fail_event ev \<Longrightarrow> recovery_event ev"
  by (auto simp: event_classes recovery_event_def)

lemma emits_probeApplySettled:
  "P EvProbe \<Longrightarrow> emits trace P (probeApplySettled d)"
  unfolding probeApplySettled_def by (intro emits_intros)

lemmas emits_tails =
  emits_mono [OF emits_failUnsafe recovery_event_fail]
  emits_mono [OF emits_revertOrFailUnsafe recovery_event_revert]
  emits_mono [OF emits_verifyAndFinish recovery_event_finish]

lemma emits_recovery:
  "emits trace recovery_event (recoverAsCancelled d)"
  "emits trace recovery_event (recoverFromApplying d)"
  "emits trace recovery_event (recoverFromRevertInFlight d)"
  "emits trace recovery_event (recoverFromReverted d)"
  "emits trace recovery_event (recoverFromClosing d)"
  "emits trace recovery_event (recoverUnpagedFailure d reason)"
  unfolding recoverAsCancelled_def recoverFromApplying_def recoverFromRevertInFlight_def
    recoverFromReverted_def recoverFromClosing_def recoverUnpagedFailure_def get_state_def
  by (intro emits_intros emits_tails emits_modifyE emits_probeApplySettled;
      simp add: recovery_event_def)+

section \<open>How a run ends: the failure suffix\<close>

text \<open>
  \<open>fail_trace d bid reason\<close> is what \<open>failUnsafe\<close> does when nothing goes wrong on the way:
  record the failure as not yet paged, page, record it as paged.  A crash or a throw leaves a
  prefix of it.  \<open>fail_suffix\<close> says that a computation emitted events of the class \<open>A\<close>
  without a page, and then such a prefix, and what is on disk once the page was attempted.
\<close>

definition record_evs :: "'w bump_deps \<Rightarrow> persist_snapshot \<Rightarrow> ring_event list" where
  "record_evs d snap = (case r_persist d of None \<Rightarrow> [] | Some _ \<Rightarrow> [EvPersist snap])"

definition failed_snapshot :: "bool \<Rightarrow> string \<Rightarrow> string \<Rightarrow> persist_snapshot" where
  "failed_snapshot sent bid reason =
     \<lparr>ps_state = FailedUnsafe, ps_pageSent = sent, ps_bumpId = bid, ps_reason = Some reason\<rparr>"

definition page_event :: "string \<Rightarrow> string \<Rightarrow> ring_event" where
  "page_event bid reason = EvPage reason (bid @ '':'' @ reason)"

definition fail_trace :: "'w bump_deps \<Rightarrow> string \<Rightarrow> string \<Rightarrow> ring_event list" where
  "fail_trace d bid reason =
     record_evs d (failed_snapshot False bid reason) @ page_event bid reason #
     record_evs d (failed_snapshot True bid reason)"

fun is_page :: "ring_event \<Rightarrow> bool" where
  "is_page (EvPage _ _) = True"
| "is_page _ = False"

definition fail_end ::
  "bool \<Rightarrow> 'w bump_deps \<Rightarrow> string \<Rightarrow> ring_event list \<Rightarrow> string \<Rightarrow> 'w ring \<Rightarrow> bool" where
  "fail_end complete d bid es reason s' \<longleftrightarrow>
     prefix es (fail_trace d bid reason) \<and>
     b_bumpId (machine s') = bid \<and>
     (es \<noteq> [] \<longrightarrow> b_state (machine s') = FailedUnsafe) \<and>
     (page_event bid reason \<in> set es \<longrightarrow> r_persist d \<noteq> None \<longrightarrow>
        (\<exists>sent. durable s' = Some (failed_snapshot sent bid reason) \<and> (complete \<longrightarrow> sent))) \<and>
     (complete \<longrightarrow> b_state (machine s') = FailedUnsafe \<longrightarrow>
        es = fail_trace d bid reason \<and> b_pageSent (machine s'))"

definition fail_suffix ::
  "bool \<Rightarrow> 'w bump_deps \<Rightarrow> (ring_event \<Rightarrow> bool) \<Rightarrow> 'w ring \<Rightarrow> 'w ring \<Rightarrow> bool" where
  "fail_suffix complete d A s s' \<longleftrightarrow> (\<exists>es1 es2 reason.
     trace s' = trace s @ es1 @ es2 \<and> list_all (\<lambda>ev. A ev \<and> \<not> is_page ev) es1 \<and>
     fail_end complete d (b_bumpId (machine s)) es2 reason s')"

lemma fail_end_page:
  "fail_end c d bid es reason s' \<Longrightarrow> page_event bid reason \<in> set es \<Longrightarrow> r_persist d \<noteq> None \<Longrightarrow>
     \<exists>sent. durable s' = Some (failed_snapshot sent bid reason) \<and> (c \<longrightarrow> sent)"
  unfolding fail_end_def by blast

lemma persist_evs_record: "persist_evs d reason s = record_evs d (snapshot reason (machine s))"
  by (simp add: persist_evs_def record_evs_def)

lemma snapshot_failed:
  "b_state b = FailedUnsafe \<Longrightarrow> snapshot (Some reason) b = failed_snapshot (b_pageSent b) (b_bumpId b) reason"
  by (simp add: snapshot_def failed_snapshot_def)

lemma wp_failUnsafe:
  assumes "\<not> b_pageSent (machine s)"
    and "\<And>s'. trace s' = trace s @ fail_trace d (b_bumpId (machine s)) reason \<Longrightarrow>
          b_state (machine s') = FailedUnsafe \<Longrightarrow> b_pageSent (machine s') \<Longrightarrow>
          b_bumpId (machine s') = b_bumpId (machine s) \<Longrightarrow>
          (r_persist d \<noteq> None \<longrightarrow>
             durable s' = Some (failed_snapshot True (b_bumpId (machine s)) reason)) \<Longrightarrow>
          Q FailedUnsafe s'"
    and "\<And>s' es e. trace s' = trace s @ es \<Longrightarrow>
          prefix es (fail_trace d (b_bumpId (machine s)) reason) \<Longrightarrow>
          b_state (machine s') = FailedUnsafe \<Longrightarrow> b_bumpId (machine s') = b_bumpId (machine s) \<Longrightarrow>
          (page_event (b_bumpId (machine s)) reason \<in> set es \<longrightarrow> r_persist d \<noteq> None \<longrightarrow>
            (\<exists>sent. durable s' = Some (failed_snapshot sent (b_bumpId (machine s)) reason))) \<Longrightarrow>
          E e s' \<and> C s'"
  shows "wp (failUnsafe d reason) Q E C s"
proof -
  let ?bid = "b_bumpId (machine s)"
  have E: "E e s'" and C: "C s'" if "trace s' = trace s @ es"
     "prefix es (fail_trace d ?bid reason)" "b_state (machine s') = FailedUnsafe"
     "b_bumpId (machine s') = ?bid"
     "page_event ?bid reason \<in> set es \<longrightarrow> r_persist d \<noteq> None \<longrightarrow>
            (\<exists>sent. durable s' = Some (failed_snapshot sent ?bid reason))" for e s' es
    using assms(3) [OF that] by auto
  note defs = awaited_def persist_evs_record snapshot_failed record_evs_def landed_def
    maybe_landed_def fail_trace_def page_event_def dedupeKey_def assms(1)
  let ?F = "record_evs d (failed_snapshot False ?bid reason)"
  let ?P = "[page_event ?bid reason]"
  let ?T = "record_evs d (failed_snapshot True ?bid reason)"
  have pre: "prefix ?F (fail_trace d ?bid reason)" "prefix (?F @ ?P) (fail_trace d ?bid reason)"
    "prefix (?F @ ?P @ ?T) (fail_trace d ?bid reason)"
    by (simp_all add: fail_trace_def)
  have nopage: "page_event ?bid reason \<notin> set ?F"
    by (simp add: record_evs_def page_event_def split: option.split)
  show ?thesis
    unfolding failUnsafe_def get_state_def
    apply simp
    apply (rule wp_persistSnapshot)
    subgoal for s1
      apply (simp add: awaited_def assms(1))
      apply (rule wp_callD)
      subgoal for _ s2
        apply (rule wp_persistSnapshot)
        subgoal for s3
          apply (simp add: awaited_def)
          apply (rule assms(2))
          apply (auto simp: defs)
          done
        subgoal for e s3
          apply (rule E [OF _ pre(3)])
          apply (auto simp: defs)
          done
        subgoal for s3
          apply (rule C [OF _ pre(3)])
          apply (auto simp: defs)
          done
        done
      subgoal for e s2
        apply (rule E [OF _ pre(2)])
        apply (auto simp: defs)
        done
      subgoal for s2
        apply (rule C [OF _ pre(2)])
        apply (auto simp: defs)
        done
      done
    subgoal for e s1
      apply (rule E [OF _ pre(1)])
      using nopage apply (auto simp: defs)
      done
    subgoal for s1
      apply (rule C [OF _ pre(1)])
      using nopage apply (auto simp: defs)
      done
    done
qed

text \<open>\<open>quiet A\<close>: only events of class \<open>A\<close>, no page, the identity of the bump kept.\<close>

definition quiet :: "(ring_event \<Rightarrow> bool) \<Rightarrow> 'w ring \<Rightarrow> 'w ring \<Rightarrow> bool" where
  "quiet A s s' \<longleftrightarrow>
     (\<exists>es. trace s' = trace s @ es \<and> list_all (\<lambda>ev. A ev \<and> \<not> is_page ev) es) \<and>
     b_bumpId (machine s') = b_bumpId (machine s) \<and>
     b_pageSent (machine s') = b_pageSent (machine s) \<and>
     (b_abortRequested (machine s) \<longrightarrow> b_abortRequested (machine s'))"

lemma quiet_refl [simp]: "quiet A s s"
  by (simp add: quiet_def)

lemma quiet_trans [trans]: "quiet A s t \<Longrightarrow> quiet A t u \<Longrightarrow> quiet A s u"
  by (force simp: quiet_def)

lemma quiet_mono: "quiet A s t \<Longrightarrow> (\<And>ev. A ev \<Longrightarrow> A' ev) \<Longrightarrow> quiet A' s t"
  unfolding quiet_def list_all_iff by blast

lemma quiet_awaited: "awaited evs s s' \<Longrightarrow> list_all (\<lambda>ev. A ev \<and> \<not> is_page ev) evs \<Longrightarrow> quiet A s s'"
  by (auto simp: quiet_def awaited_def)

lemma quiet_set_state [simp]: "quiet A s (set_state st s)"
  by (simp add: quiet_def)

lemma quiet_bumpId: "quiet A s s' \<Longrightarrow> b_bumpId (machine s') = b_bumpId (machine s)"
  and quiet_pageSent: "quiet A s s' \<Longrightarrow> b_pageSent (machine s') = b_pageSent (machine s)"
  and quiet_abort: "quiet A s s' \<Longrightarrow> b_abortRequested (machine s) \<Longrightarrow> b_abortRequested (machine s')"
  by (simp_all add: quiet_def)

lemma fail_suffixI:
  "trace s' = trace s @ es1 @ es2 \<Longrightarrow> list_all (\<lambda>ev. A ev \<and> \<not> is_page ev) es1 \<Longrightarrow>
     fail_end c d (b_bumpId (machine s)) es2 reason s' \<Longrightarrow> fail_suffix c d A s s'"
  unfolding fail_suffix_def by blast

lemma fail_suffix_after:
  assumes "quiet A s t" "fail_suffix c d A t s'"
  shows "fail_suffix c d A s s'"
proof -
  obtain es where es: "trace t = trace s @ es" "list_all (\<lambda>ev. A ev \<and> \<not> is_page ev) es"
    and bid: "b_bumpId (machine t) = b_bumpId (machine s)"
    using assms(1) by (auto simp: quiet_def)
  obtain es1 es2 reason where "trace s' = trace t @ es1 @ es2"
    "list_all (\<lambda>ev. A ev \<and> \<not> is_page ev) es1" "fail_end c d (b_bumpId (machine t)) es2 reason s'"
    using assms(2) by (auto simp: fail_suffix_def)
  with es bid show ?thesis
    by (intro fail_suffixI [of s' s "es @ es1" es2]) simp_all
qed

lemma fail_suffix_quiet:
  assumes "quiet A s s'" "c \<Longrightarrow> b_state (machine s') \<noteq> FailedUnsafe"
  shows "fail_suffix c d A s s'"
proof -
  obtain es where es: "trace s' = trace s @ es" "list_all (\<lambda>ev. A ev \<and> \<not> is_page ev) es"
    and bid: "b_bumpId (machine s') = b_bumpId (machine s)"
    using assms(1) by (auto simp: quiet_def)
  with assms(2) show ?thesis
    by (intro fail_suffixI [of s' s es "[]"]) (auto simp: fail_end_def)
qed

lemma fail_suffix_mono:
  assumes "fail_suffix c d A s s'" "\<And>ev. A ev \<Longrightarrow> A' ev"
  shows "fail_suffix c d A' s s'"
  using assms unfolding fail_suffix_def list_all_iff by meson

lemma fail_suffix_weaken: "fail_suffix True d A s s' \<Longrightarrow> fail_suffix False d A s s'"
proof -
  have "fail_end True d bid es reason s' \<Longrightarrow> fail_end False d bid es reason s'" for bid es reason
    unfolding fail_end_def by blast
  then show "fail_suffix True d A s s' \<Longrightarrow> fail_suffix False d A s s'"
    unfolding fail_suffix_def by blast
qed

lemma failUnsafe_suffix:
  assumes "\<not> b_pageSent (machine s)"
  shows "wp (failUnsafe d reason)
     (\<lambda>st s'. st = FailedUnsafe \<and> b_state (machine s') = FailedUnsafe \<and> fail_suffix True d A s s')
     (\<lambda>_. fail_suffix False d A s) (fail_suffix False d A s) s"
proof (rule wp_failUnsafe [OF assms], goal_cases)
  case (1 s')
  then have "fail_suffix True d A s s'"
    by (intro fail_suffixI [of s' s "[]"]) (auto simp: fail_end_def)
  with 1 show ?case by simp
next
  case (2 s' es e)
  then have "fail_suffix False d A s s'"
    by (intro fail_suffixI [of s' s "[]" es]) (auto simp: fail_end_def)
  then show ?case by simp
qed

lemma wp_transition:
  assumes "\<And>s'. quiet A s s' \<Longrightarrow> b_state (machine s') = st \<Longrightarrow> landed d None (set_state st s) s' \<Longrightarrow>
      trace s' = trace s @ record_evs d (snapshot None (machine (set_state st s))) \<Longrightarrow> Q () s'"
    and "\<And>e s'. quiet A s s' \<Longrightarrow> b_state (machine s') = st \<Longrightarrow>
      trace s' = trace s @ record_evs d (snapshot None (machine (set_state st s))) \<Longrightarrow> E e s'"
    and "\<And>s'. quiet A s s' \<Longrightarrow> b_state (machine s') = st \<Longrightarrow>
      trace s' = trace s @ record_evs d (snapshot None (machine (set_state st s))) \<Longrightarrow> C s'"
    and A: "\<And>snap. A (EvPersist snap)"
  shows "wp (transition d st) Q E C s"
proof -
  have q: "quiet A s s' \<and> b_state (machine s') = st \<and>
       trace s' = trace s @ record_evs d (snapshot None (machine (set_state st s)))"
    if "awaited (persist_evs d None (set_state st s)) (set_state st s) s'" for s'
    using that A quiet_trans [OF quiet_set_state quiet_awaited [OF that]]
    by (auto simp: persist_evs_record record_evs_def awaited_def split: option.splits)
  show ?thesis
    unfolding transition_def by (auto intro!: wp_persistSnapshot assms dest!: q)
qed

lemma wp_callD_quiet:
  assumes "\<And>x s'. quiet A s s' \<Longrightarrow> awaited [ev] s s' \<Longrightarrow> durable s' = durable s \<Longrightarrow> Q x s'"
    and "\<And>e s'. quiet A s s' \<Longrightarrow> awaited [ev] s s' \<Longrightarrow> durable s' = durable s \<Longrightarrow> E e s'"
    and "\<And>s'. quiet A s s' \<Longrightarrow> awaited [ev] s s' \<Longrightarrow> durable s' = durable s \<Longrightarrow> C s'"
    and "A ev" "\<not> is_page ev"
  shows "wp (callD d ev f) Q E C s"
proof -
  have "quiet A s s'" if "awaited [ev] s s'" for s'
    using quiet_awaited [OF that] assms(4,5) by simp
  with assms(1-3) show ?thesis by (auto intro: wp_callD)
qed

definition plain_snapshot :: "bump_state \<Rightarrow> string \<Rightarrow> persist_snapshot" where
  "plain_snapshot st bid = \<lparr>ps_state = st, ps_pageSent = False, ps_bumpId = bid, ps_reason = None\<rparr>"

definition revert_trace :: "'w bump_deps \<Rightarrow> string \<Rightarrow> ring_event list" where
  "revert_trace d bid =
     record_evs d (plain_snapshot Reverting bid) @ EvRevert #
     record_evs d (plain_snapshot Reverted bid) @ [EvStop New]"

lemma wp_revert:
  assumes "\<not> b_pageSent (machine s)"
  shows "wp (revertOrFailUnsafe d reason)
     (\<lambda>st s'. st = b_state (machine s') \<and> fail_suffix True d revert_event s s' \<and>
        (st = Reverted \<and> trace s' = trace s @ revert_trace d (b_bumpId (machine s)) \<or>
         st = FailedUnsafe))
     (\<lambda>_. fail_suffix False d revert_event s) (fail_suffix False d revert_event s) s"
    (is "wp _ ?Q ?E ?C s")
proof -
  have A: "revert_event (EvPersist snap)" for snap by (simp add: revert_event_def)
  have fail: "wp (failUnsafe d r) ?Q ?E ?C t" if "quiet revert_event s t" for r t
  proof -
    have "\<not> b_pageSent (machine t)" using that assms by (simp add: quiet_pageSent)
    from failUnsafe_suffix [OF this] show ?thesis
      by (rule wp_mono) (auto intro: fail_suffix_after [OF that])
  qed
  have end_: "?E e t \<and> ?C t" if "quiet revert_event s t" for e t
    using that by (simp add: fail_suffix_quiet)
  show ?thesis
    unfolding revertOrFailUnsafe_def get_state_def
    apply simp
    apply (rule wp_transition [where A = revert_event, OF _ _ _ A]; (simp only: wp_tryE end_)?)
    subgoal for s1
      apply (rule wp_callD_quiet [where A = revert_event])
      subgoal for x s2
        apply (auto simp: fail [OF quiet_trans])
        apply (rule wp_transition [where A = revert_event, OF _ _ _ A])
        subgoal for s3
          apply (rule wp_callD_quiet [where A = revert_event])
          subgoal premises prems for y s4
          proof -
            note q = quiet_trans [OF quiet_trans [OF quiet_trans]]
            have "quiet revert_event s s4" by (rule q) (fact prems)+
            then have suffix: "fail_suffix True d revert_event s s4"
              using prems by (intro fail_suffix_quiet) (simp_all add: awaited_def)
            have "trace s4 = trace s @ revert_trace d (b_bumpId (machine s))"
              using prems assms prems(1) [THEN quiet_bumpId] prems(1) [THEN quiet_pageSent]
              by (simp add: awaited_def revert_trace_def plain_snapshot_def snapshot_def)
            with suffix prems show ?thesis
              by (simp add: awaited_def)
          qed
          subgoal for e s4 by (rule fail) (blast intro: quiet_trans)
          subgoal for s4 by (blast intro: end_ [THEN conjunct2] quiet_trans)
          by (simp_all add: revert_event_def)
        subgoal for e s3 by (blast intro: end_ [THEN conjunct1] quiet_trans)
        subgoal for s3 by (blast intro: end_ [THEN conjunct2] quiet_trans)
        done
      subgoal for e s2 by (rule fail) (blast intro: quiet_trans)
      subgoal for s2 by (blast intro: end_ [THEN conjunct2] quiet_trans)
      by (simp_all add: revert_event_def)
    done
qed

definition done_trace :: "'w bump_deps \<Rightarrow> string \<Rightarrow> ring_event list" where
  "done_trace d bid =
     record_evs d (plain_snapshot Verifying bid) @ EvVerify # record_evs d (plain_snapshot Done bid)"

lemma wp_verifyAndFinish:
  assumes "\<not> b_pageSent (machine s)"
  shows "wp (verifyAndFinish d)
     (\<lambda>st s'. st = b_state (machine s') \<and> fail_suffix True d finish_event s s' \<and>
        (st = Done \<and> \<not> b_abortRequested (machine s) \<and>
           trace s' = trace s @ done_trace d (b_bumpId (machine s)) \<or>
         st = Reverted \<and> trace s' = trace s @ record_evs d (plain_snapshot Verifying (b_bumpId (machine s)))
            @ EvVerify # revert_trace d (b_bumpId (machine s)) \<or>
         st = FailedUnsafe))
     (\<lambda>_. fail_suffix False d finish_event s) (fail_suffix False d finish_event s) s"
    (is "wp _ ?Q ?E ?C s")
proof -
  have A: "finish_event (EvPersist snap)" for snap by (simp add: event_classes)
  have fail: "wp (failUnsafe d r) ?Q ?E ?C t" if "quiet finish_event s t" for r t
  proof -
    have "\<not> b_pageSent (machine t)" using that assms by (simp add: quiet_pageSent)
    from failUnsafe_suffix [OF this] show ?thesis
      by (rule wp_mono) (auto intro: fail_suffix_after [OF that])
  qed
  have revert: "wp (revertOrFailUnsafe d r) ?Q ?E ?C t" if "quiet finish_event s t"
    "trace t = trace s @ record_evs d (plain_snapshot Verifying (b_bumpId (machine s))) @ [EvVerify]"
    for r t
  proof -
    have page: "\<not> b_pageSent (machine t)" using that assms by (simp add: quiet_pageSent)
    have suff: "fail_suffix c d finish_event s s'" if "fail_suffix c d revert_event t s'" for c s'
      by (rule fail_suffix_after [OF \<open>quiet finish_event s t\<close>])
        (rule fail_suffix_mono [OF that], simp add: finish_event_def)
    from wp_revert [OF page] show ?thesis
      by (rule wp_mono) (auto intro: suff simp: that quiet_bumpId [OF that(1)])
  qed
  have end_: "?E e t \<and> ?C t" if "quiet finish_event s t" for e t
    using that by (simp add: fail_suffix_quiet)
  note trans = quiet_trans quiet_trans [OF quiet_trans]
  show ?thesis
    unfolding verifyAndFinish_def get_state_def
    apply simp
    apply (rule wp_transition [where A = finish_event, OF _ _ _ A]; (simp only: wp_tryE end_)?)
    apply (rule wp_callD_quiet [where A = finish_event])
    subgoal premises p for s1 x s2
    proof -
      have q: "quiet finish_event s s2" by (rule quiet_trans) (fact p)+
      have snap: "snapshot None (machine (set_state Verifying s)) = plain_snapshot Verifying (b_bumpId (machine s))"
        using assms by (simp add: snapshot_def plain_snapshot_def)
      have t2: "trace s2 = trace s @ record_evs d (plain_snapshot Verifying (b_bumpId (machine s))) @ [EvVerify]"
        using p by (simp add: awaited_def snap)
      have snap2: "snapshot None (machine (set_state Done s2)) = plain_snapshot Done (b_bumpId (machine s))"
        using assms q [THEN quiet_bumpId] q [THEN quiet_pageSent]
        by (simp add: snapshot_def plain_snapshot_def)
      show ?thesis
        apply (simp add: revert [OF q t2])
        apply (intro impI)
        apply (rule wp_transition [where A = finish_event, OF _ _ _ A])
        subgoal for s3
          using fail_suffix_quiet [OF quiet_trans [OF q, of s3]] q [THEN quiet_abort]
          by (auto simp: done_trace_def t2 snap2)
        subgoal for e s3 by (rule end_ [THEN conjunct1]) (rule quiet_trans [OF q])
        subgoal for s3 by (rule end_ [THEN conjunct2]) (rule quiet_trans [OF q])
        done
    qed
    subgoal for s1 e s2 by (rule fail) (rule quiet_trans)
    subgoal for s1 s2 by (rule end_ [THEN conjunct2]) (rule quiet_trans)
    by (simp_all add: finish_event_def)
qed

section \<open>The shape of a run\<close>

definition any_event :: "ring_event \<Rightarrow> bool" where
  "any_event ev = True"

lemma any_event [simp]: "any_event ev"
  by (simp add: any_event_def)

definition lock_trace :: "'w bump_deps \<Rightarrow> string \<Rightarrow> ring_event list" where
  "lock_trace d bid = EvLock # record_evs d (plain_snapshot Applying bid) @ [EvApply]"

definition backup_trace :: "'w bump_deps \<Rightarrow> string \<Rightarrow> ring_event list" where
  "backup_trace d bid = record_evs d (plain_snapshot BackingUp bid) @ [EvBackup]"

definition apply_trace :: "'w bump_deps \<Rightarrow> string \<Rightarrow> ring_event list" where
  "apply_trace d bid =
     backup_trace d bid @ record_evs d (plain_snapshot BackedUp bid) @ lock_trace d bid"

lemma snapshot_plain:
  "\<not> b_pageSent (machine s) \<Longrightarrow>
     snapshot None (machine (set_state st s)) = plain_snapshot st (b_bumpId (machine s))"
  by (simp add: snapshot_def plain_snapshot_def)

definition unlock :: "'w ring \<Rightarrow> 'w ring" where
  "unlock s = s\<lparr>trace := trace s @ [EvUnlock]\<rparr>"

lemma unlock_simps [simp]:
  "trace (unlock s) = trace s @ [EvUnlock]" "machine (unlock s) = machine s"
  "durable (unlock s) = durable s"
  by (simp_all add: unlock_def)

lemma wp_lockRun:
  assumes "\<And>s1. awaited [EvLock] s s1 \<Longrightarrow> durable s1 = durable s \<Longrightarrow>
      wp body (\<lambda>x s'. Q x (unlock s')) (\<lambda>e s'. E e (unlock s')) C s1"
    and "\<And>s1. awaited [EvLock] s s1 \<Longrightarrow> durable s1 = durable s \<Longrightarrow> C s1"
  shows "wp (lockRun d body) Q E C s"
proof -
  obtain alive w where lw: "r_lockWait d (world s) = (alive, w)" by fastforce
  let ?s1 = "observe d EvLock w s"
  have aw: "awaited [EvLock] s ?s1" "durable ?s1 = durable s"
    by (simp_all add: awaited_observe) (simp add: observe_def)
  have "wp (callD d EvLock (\<lambda>w. case r_lockWait d w of (alive, w') \<Rightarrow>
              (if alive then Ok () else Crash, w'))) Q' E' C' s =
        (if alive then Q' () ?s1 else C' ?s1)" for Q' E' C'
    by (simp add: wp_def callD_def lw)
  with assms [OF aw] show ?thesis
    unfolding lockRun_def by (simp add: unlock_def wp_modifyE)
qed

lemma quiet_unlock: "quiet any_event s (unlock s)"
  by (simp add: quiet_def)

lemma wp_applyLocked:
  assumes "\<not> b_pageSent (machine s)"
    and "\<And>x s'. quiet any_event s s' \<Longrightarrow>
       trace s' = trace s @ lock_trace d (b_bumpId (machine s)) @ [EvUnlock] \<Longrightarrow> Q x s'"
    and "\<And>e s' es. quiet any_event s s' \<Longrightarrow> trace s' = trace s @ es @ [EvUnlock] \<Longrightarrow>
       es = lock_trace d (b_bumpId (machine s)) \<or> EvApply \<notin> set es \<Longrightarrow> E e s'"
    and "\<And>s' es. quiet any_event s s' \<Longrightarrow> trace s' = trace s @ es \<Longrightarrow>
       es = lock_trace d (b_bumpId (machine s)) \<or> EvApply \<notin> set es \<Longrightarrow> C s'"
  shows "wp (lockRun d (thenE (transition d Applying) (callD d EvApply (r_apply d)))) Q E C s"
proof -
  let ?bid = "b_bumpId (machine s)"
  let ?R = "record_evs d (plain_snapshot Applying ?bid)"
  have noapply: "EvApply \<notin> set (EvLock # ?R)"
    by (simp add: record_evs_def split: option.split)
  have lt: "EvLock # ?R @ [EvApply] = lock_trace d ?bid"
    by (simp add: lock_trace_def)
  note qt = quiet_trans quiet_trans [OF quiet_trans] quiet_trans [OF quiet_trans [OF quiet_trans]]
  show ?thesis
    apply (rule wp_lockRun)
    subgoal premises p1 for s1
    proof -
      have q1: "quiet any_event s s1" by (rule quiet_awaited [OF p1(1)]) simp
      have page: "\<not> b_pageSent (machine s1)" using p1 assms(1) by (simp add: awaited_def)
      have t1: "trace s1 = trace s @ [EvLock]" using p1 by (simp add: awaited_def)
      have bid: "b_bumpId (machine s1) = ?bid" using p1 by (simp add: awaited_def)
      show ?thesis
        apply (simp only: wp_thenE)
        apply (rule wp_transition [where A = any_event])
        subgoal premises p2 for s2
          apply (rule wp_callD_quiet [where A = any_event])
          subgoal premises p3 for x s3
            using p2 p3 t1 page bid lt quiet_trans [OF quiet_trans [OF quiet_trans [OF q1 p2(1)] p3(1)] quiet_unlock]
            by (intro assms(2)) (simp_all add: awaited_def snapshot_plain)
          subgoal premises p3 for e s3
            using p2 p3 t1 page bid lt quiet_trans [OF quiet_trans [OF quiet_trans [OF q1 p2(1)] p3(1)] quiet_unlock]
            by (intro assms(3) [where es = "lock_trace d ?bid"]) (simp_all add: awaited_def snapshot_plain)
          subgoal premises p3 for s3
            using p2 p3 t1 page bid lt quiet_trans [OF quiet_trans [OF q1 p2(1)] p3(1)]
            by (intro assms(4) [where es = "lock_trace d ?bid"]) (simp_all add: awaited_def snapshot_plain)
          by simp_all
        subgoal premises p2 for e s2
          using p2 t1 page bid noapply quiet_trans [OF quiet_trans [OF q1 p2(1)] quiet_unlock]
          by (intro assms(3) [where es = "EvLock # ?R"]) (simp_all add: snapshot_plain)
        subgoal premises p2 for s2
          using p2 t1 page bid noapply quiet_trans [OF q1 p2(1)]
          by (intro assms(4) [where es = "EvLock # ?R"]) (simp_all add: snapshot_plain)
        by simp
    qed
    subgoal for s1
      by (intro assms(4) [where es = "[EvLock]"]) (simp_all add: awaited_def quiet_awaited)
    done
qed

text \<open>
  \<open>run_value\<close> is what a run that returns has done, \<open>run_stopped\<close> what one that threw or
  died has done: it never reached \<open>apply\<close>, or it reached it once, where \<open>apply_trace\<close> says,
  and only a crash leaves the lock held.
\<close>

definition run_value :: "'w bump_deps \<Rightarrow> 'w ring \<Rightarrow> bump_state \<Rightarrow> 'w ring \<Rightarrow> bool" where
  "run_value d s st s' \<longleftrightarrow> (\<exists>es. trace s' = trace s @ es \<and>
     (let bid = b_bumpId (machine s) in
      case st of
        Cancelled \<Rightarrow>
          (if b_abortRequested (machine s) then es = record_evs d (plain_snapshot Cancelled bid)
           else es = backup_trace d bid @ record_evs d (plain_snapshot Cancelled bid))
      | BackupFailed \<Rightarrow> es = backup_trace d bid @ record_evs d (plain_snapshot BackupFailed bid)
      | Done \<Rightarrow> es = apply_trace d bid @ EvUnlock # done_trace d bid
      | Reverted \<Rightarrow>
          es = apply_trace d bid @ EvUnlock # record_evs d (plain_snapshot Verifying bid) @
               revert_trace d bid \<or>
          es = apply_trace d bid @ EvUnlock # record_evs d (plain_snapshot Verifying bid) @
               EvVerify # revert_trace d bid
      | FailedUnsafe \<Rightarrow> (\<exists>rest. es = apply_trace d bid @ EvUnlock # rest \<and> list_all finish_event rest)
      | _ \<Rightarrow> False))"

definition run_stopped :: "bool \<Rightarrow> 'w bump_deps \<Rightarrow> 'w ring \<Rightarrow> 'w ring \<Rightarrow> bool" where
  "run_stopped crashed d s s' \<longleftrightarrow> (\<exists>es. trace s' = trace s @ es \<and>
     (EvApply \<notin> set es \<or>
      crashed \<and> es = apply_trace d (b_bumpId (machine s)) \<or>
      (\<exists>rest. es = apply_trace d (b_bumpId (machine s)) @ EvUnlock # rest \<and>
         list_all finish_event rest)))"

lemma run_stopped_no_apply:
  "trace s' = trace s @ es \<Longrightarrow> EvApply \<notin> set es \<Longrightarrow> run_stopped c d s s'"
  by (auto simp: run_stopped_def)

lemma run_stopped_after:
  "trace t = trace s @ apply_trace d (b_bumpId (machine s)) @ [EvUnlock] \<Longrightarrow>
   \<exists>rest. trace s' = trace t @ rest \<and> list_all finish_event rest \<Longrightarrow> run_stopped c d s s'"
  by (auto simp: run_stopped_def)

lemma record_evs_simps [simp]:
  "EvApply \<notin> set (record_evs d snap)" "EvVerify \<notin> set (record_evs d snap)"
  "EvLock \<notin> set (record_evs d snap)" "EvRevert \<notin> set (record_evs d snap)"
  "EvUnlock \<notin> set (record_evs d snap)" "EvBackup \<notin> set (record_evs d snap)"
  "EvProbe \<notin> set (record_evs d snap)" "EvStop c \<notin> set (record_evs d snap)"
  "EvPage r k \<notin> set (record_evs d snap)"
  "list_all revert_event (record_evs d snap)" "list_all finish_event (record_evs d snap)"
  by (simp_all add: record_evs_def event_classes split: option.split)

lemma quiet_new_trace: "quiet A s t \<Longrightarrow> \<exists>es. trace t = trace s @ es"
  by (auto simp: quiet_def)

text \<open>Both continuations of \<open>run\<close> behind the lock, with what they may emit.\<close>

definition run_end :: "'w bump_deps \<Rightarrow> 'w ring \<Rightarrow> bool \<Rightarrow> 'w ring \<Rightarrow> bool" where
  "run_end d t complete s' \<longleftrightarrow> fail_suffix complete d any_event t s' \<and>
     (\<exists>rest. trace s' = trace t @ rest \<and> list_all finish_event rest)"

lemma wp_run_verify:
  assumes "\<not> b_pageSent (machine t)"
  shows "wp (verifyAndFinish d)
     (\<lambda>st s'. st = b_state (machine s') \<and> run_end d t True s' \<and>
        (st = Done \<and> \<not> b_abortRequested (machine t) \<and>
           trace s' = trace t @ done_trace d (b_bumpId (machine t)) \<or>
         st = Reverted \<and> trace s' = trace t @ record_evs d (plain_snapshot Verifying (b_bumpId (machine t)))
            @ EvVerify # revert_trace d (b_bumpId (machine t)) \<or>
         st = FailedUnsafe))
     (\<lambda>_. run_end d t False) (run_end d t False) t"
  using wp_conj [OF wp_verifyAndFinish [OF assms, of d] emits_wp [OF emits_verifyAndFinish [of d], of t]]
  by (rule wp_mono) (auto simp: run_end_def intro: fail_suffix_mono)

lemma wp_run_revert:
  assumes "\<not> b_pageSent (machine t)"
  shows "wp (thenE (transition d Verifying) (revertOrFailUnsafe d reason))
     (\<lambda>st s'. st = b_state (machine s') \<and> run_end d t True s' \<and>
        (st = Reverted \<and> trace s' = trace t @ record_evs d (plain_snapshot Verifying (b_bumpId (machine t)))
            @ revert_trace d (b_bumpId (machine t)) \<or>
         st = FailedUnsafe))
     (\<lambda>_. run_end d t False) (run_end d t False) t"
proof -
  let ?V = "record_evs d (plain_snapshot Verifying (b_bumpId (machine t)))"
  have stop: "run_end d t False u" if "quiet any_event t u" "trace u = trace t @ ?V" for u
    using that by (simp add: run_end_def fail_suffix_quiet)
  have E: "run_end d t c s'"
    if "quiet any_event t u" "trace u = trace t @ ?V" "fail_suffix c d revert_event u s'"
      "\<exists>es. trace s' = trace u @ es \<and> list_all revert_event es" for c u s'
    using that fail_suffix_after [OF that(1) fail_suffix_mono [OF that(3)]]
    by (auto simp: run_end_def elim!: list.pred_mono_strong) (simp add: finish_event_def)
  show ?thesis
    apply (simp only: wp_thenE)
    apply (rule wp_transition [where A = any_event])
    subgoal premises p for u
    proof -
      have page: "\<not> b_pageSent (machine u)" and bid: "b_bumpId (machine u) = b_bumpId (machine t)"
        using p(1) assms by (simp_all add: quiet_pageSent quiet_bumpId)
      have tr: "trace u = trace t @ ?V" using p assms by (simp add: snapshot_plain)
      show ?thesis
        using wp_conj [OF wp_revert [OF page, of d reason]
            emits_wp [OF emits_revertOrFailUnsafe [of d reason], of u]]
        by (rule wp_mono) (auto simp: bid tr intro: E [OF p(1) tr, unfolded tr])
    qed
    using assms stop by (auto simp: snapshot_plain)
qed

lemma wp_run:
  assumes start: "b_state (machine s) = Pending" "\<not> b_pageSent (machine s)"
  shows "wp (run d)
     (\<lambda>st s'. st = b_state (machine s') \<and> fail_suffix True d any_event s s' \<and> run_value d s st s')
     (\<lambda>_ s'. fail_suffix False d any_event s s' \<and> run_stopped False d s s')
     (\<lambda>s'. fail_suffix False d any_event s s' \<and> run_stopped True d s s') s"
    (is "wp _ ?Q ?E ?C s")
proof -
  let ?bid = "b_bumpId (machine s)"
  have stop: "?E e u \<and> ?C u" if "quiet any_event s u" "trace u = trace s @ es" "EvApply \<notin> set es" for e u es
    using that by (auto intro: fail_suffix_quiet run_stopped_no_apply)
  have noapply: "EvApply \<notin> set (backup_trace d ?bid)"
    by (simp add: backup_trace_def)
  have finish: "wp (thenE (transition d st) get_state) ?Q ?E ?C t"
    if q: "quiet any_event s t" and tr: "trace t = trace s @ es"
      and st: "st = Cancelled \<and> (es = backup_trace d ?bid \<and> \<not> b_abortRequested (machine s) \<or> es = [] \<and> b_abortRequested (machine s))
         \<or> st = BackupFailed \<and> es = backup_trace d ?bid" for t es st
  proof -
    have page: "\<not> b_pageSent (machine t)" and bid: "b_bumpId (machine t) = ?bid"
      using q start by (simp_all add: quiet_pageSent quiet_bumpId)
    have es: "EvApply \<notin> set es" using st noapply by auto
    show ?thesis
      unfolding get_state_def
      apply simp
      apply (rule wp_transition [where A = any_event])
      subgoal for u
        using quiet_trans [OF q, of u] st page
        by (auto intro!: fail_suffix_quiet simp: run_value_def snapshot_plain bid tr)
      subgoal for e u
        using quiet_trans [OF q, of u] page es
        by (intro stop [THEN conjunct1, of _ "es @ record_evs d (plain_snapshot st ?bid)"])
          (simp_all add: tr snapshot_plain bid)
      subgoal for u
        using quiet_trans [OF q, of u] page es
        by (intro stop [THEN conjunct2, of _ "es @ record_evs d (plain_snapshot st ?bid)"])
          (simp_all add: tr snapshot_plain bid)
      by simp
  qed
  have locked: "wp (lockRun d (thenE (transition d Applying) (callD d EvApply (r_apply d))))
      (\<lambda>x s'. if \<not> sr_ok x \<or> b_abortRequested (machine s')
         then wp (thenE (transition d Verifying) (revertOrFailUnsafe d (sr_reason x))) ?Q ?E ?C s'
         else wp (verifyAndFinish d) ?Q ?E ?C s') ?E ?C t"
    if q: "quiet any_event s t"
      and tr: "trace t = trace s @ backup_trace d ?bid @ record_evs d (plain_snapshot BackedUp ?bid)" for t
  proof -
    have page: "\<not> b_pageSent (machine t)" and bid: "b_bumpId (machine t) = ?bid"
      using q start by (simp_all add: quiet_pageSent quiet_bumpId)
    show ?thesis
      using page
    proof (rule wp_applyLocked, goal_cases)
      case (1 x u)
      then have qu: "quiet any_event s u" using q quiet_trans by blast
      have page: "\<not> b_pageSent (machine u)" and bid': "b_bumpId (machine u) = ?bid"
        using qu start by (simp_all add: quiet_pageSent quiet_bumpId)
      have tru: "trace u = trace s @ apply_trace d ?bid @ [EvUnlock]"
        using 1 by (simp add: tr bid apply_trace_def)
      have end_: "fail_suffix c d any_event s s' \<and> run_stopped b d s s'" if "run_end d u c s'" for b c s'
        using that fail_suffix_after [OF qu] run_stopped_after [OF tru]
        by (simp add: run_end_def)
      have failed: "run_value d s FailedUnsafe s'" if "run_end d u c s'" for c s'
        using that by (auto simp: run_end_def run_value_def Let_def tru)
      have "wp (thenE (transition d Verifying) (revertOrFailUnsafe d (sr_reason x))) ?Q ?E ?C u"
        by (rule wp_mono [OF wp_run_revert [OF page]])
          (auto simp: failed intro: end_ [THEN conjunct1] end_ [THEN conjunct2], simp_all add: run_value_def Let_def tru bid')
      moreover have "wp (verifyAndFinish d) ?Q ?E ?C u"
        by (rule wp_mono [OF wp_run_verify [OF page]])
          (auto simp: failed intro: end_ [THEN conjunct1] end_ [THEN conjunct2], simp_all add: run_value_def Let_def tru bid')
      ultimately show ?case by simp
    next
      case (2 e u es)
      then have qu: "quiet any_event s u" using q quiet_trans by blast
      have "run_stopped False d s u"
        using 2 tr bid noapply by (auto simp: run_stopped_def apply_trace_def)
      with qu show ?case by (simp add: fail_suffix_quiet)
    next
      case (3 u es)
      then have qu: "quiet any_event s u" using q quiet_trans by blast
      have "run_stopped True d s u"
        using 3 tr bid noapply by (auto simp: run_stopped_def apply_trace_def)
      with qu show ?case by (simp add: fail_suffix_quiet)
    qed
  qed
  show ?thesis
  proof (cases "b_abortRequested (machine s)")
    case True
    have "wp (thenE (transition d Cancelled) get_state) ?Q ?E ?C s"
      by (rule finish [of s "[]"]) (simp_all add: True)
    then show ?thesis by (simp add: run_def start True)
  next
    case False
    show ?thesis
      unfolding run_def
      apply (simp only: wp_bindE wp_getE start False simp_thms if_False wp_thenE wp_if)
      apply (rule wp_transition [where A = any_event])
      subgoal premises p1 for s1
        apply (rule wp_callD_quiet [where A = any_event])
        subgoal premises p2 for x s2
        proof -
          have q: "quiet any_event s s2" by (rule quiet_trans) (fact p1 p2)+
          have page: "\<not> b_pageSent (machine s2)" and bid: "b_bumpId (machine s2) = ?bid"
            using q start by (simp_all add: quiet_pageSent quiet_bumpId)
          have t2: "trace s2 = trace s @ backup_trace d ?bid"
            using p1 p2 start by (simp add: awaited_def snapshot_plain backup_trace_def)
          have c: "wp (thenE (transition d Cancelled) get_state) ?Q ?E ?C s2"
            and f: "wp (thenE (transition d BackupFailed) get_state) ?Q ?E ?C s2"
            by (rule finish [OF q t2]; simp add: False)+
          have "wp (thenE (transition d BackedUp)
              (bindE (lockRun d (thenE (transition d Applying) (callD d EvApply (r_apply d))))
                 (\<lambda>applyResult. bindE (getE (\<lambda>s. b_abortRequested (machine s))) (\<lambda>abortedNow.
                    if \<not> sr_ok applyResult \<or> abortedNow
                    then thenE (transition d Verifying) (revertOrFailUnsafe d (sr_reason applyResult))
                    else verifyAndFinish d)))) ?Q ?E ?C s2"
            apply (simp only: wp_thenE)
            apply (rule wp_transition [where A = any_event])
            subgoal premises p3 for s3
              using locked [OF quiet_trans [OF q p3(1)]] p3(4) page
              by (simp add: t2 snapshot_plain bid)
            subgoal premises p3 for e s3
              using p3 page noapply
              by (intro stop [THEN conjunct1, OF quiet_trans [OF q p3(1)],
                    of "backup_trace d ?bid @ record_evs d (plain_snapshot BackedUp ?bid)"])
                (simp_all add: t2 snapshot_plain bid)
            subgoal premises p3 for s3
              using p3 page noapply
              by (intro stop [THEN conjunct2, OF quiet_trans [OF q p3(1)],
                    of "backup_trace d ?bid @ record_evs d (plain_snapshot BackedUp ?bid)"])
                (simp_all add: t2 snapshot_plain bid)
            by simp
          with c f show ?thesis
            by (simp cong: if_cong)
        qed
        subgoal premises p2 for e s2
          using p1 p2 start
          by (intro stop [THEN conjunct1, OF quiet_trans [OF p1(1) p2(1)], of "backup_trace d ?bid"] noapply)
            (simp add: awaited_def snapshot_plain backup_trace_def)
        subgoal premises p2 for s2
          using p1 p2 start
          by (intro stop [THEN conjunct2, OF quiet_trans [OF p1(1) p2(1)], of "backup_trace d ?bid"] noapply)
            (simp add: awaited_def snapshot_plain backup_trace_def)
        by simp_all
      using stop [of _ "record_evs d (plain_snapshot BackingUp ?bid)"] start
      by (simp_all add: snapshot_plain)
  qed
qed

section \<open>Awaits whose outcome is known\<close>

definition ok_step :: "('w, js_exn, step_result) prog \<Rightarrow> bool" where
  "ok_step f \<longleftrightarrow> (\<forall>w. \<exists>x w'. f w = (Ok x, w') \<and> sr_ok x)"

definition ok_unit :: "('w, js_exn, unit) prog \<Rightarrow> bool" where
  "ok_unit f \<longleftrightarrow> (\<forall>w. \<exists>w'. f w = (Ok (), w'))"

text \<open>\<open>aborts f\<close>: an abort has landed whenever the awaited \<open>f\<close> comes back.\<close>

definition aborts :: "'w bump_deps \<Rightarrow> ('w, 'e, 'a) prog \<Rightarrow> bool" where
  "aborts d f \<longleftrightarrow> (\<forall>w. r_aborted d (snd (f w)))"

lemma wp_callD_ok:
  assumes "ok_step f" "\<And>x. sr_ok x \<Longrightarrow> Q x (observe d ev (snd (f (world s))) s)"
  shows "wp (callD d ev f) Q E C s"
  using assms(1) [unfolded ok_step_def, rule_format, of "world s"] assms(2)
  by (auto simp: wp_def callD_def)

lemma wp_callD_ok_unit:
  assumes "ok_unit f" "Q () (observe d ev (snd (f (world s))) s)"
  shows "wp (callD d ev f) Q E C s"
  using assms(1) [unfolded ok_unit_def, rule_format, of "world s"] assms(2)
  by (auto simp: wp_def callD_def)

lemma wp_persist_ok:
  assumes "r_persist d = Some p" "\<And>snap. ok_unit (p snap)"
    and "Q () ((observe d (EvPersist (snapshot reason (machine s)))
                   (snd (p (snapshot reason (machine s)) (world s))) s)
                 \<lparr>durable := Some (snapshot reason (machine s))\<rparr>)"
  shows "wp (persistSnapshot d reason) Q E C s"
  using assms(2) [unfolded ok_unit_def, rule_format, of "snapshot reason (machine s)" "world s"] assms(1,3)
  by (auto simp: wp_def persistSnapshot_def Let_def)

lemma observe_calm:
  assumes "\<And>w. \<not> r_aborted d w"
  shows "observe d ev w s = s\<lparr>trace := trace s @ [ev], world := w\<rparr>"
  using assms by (simp add: observe_def)

lemma observe_cases:
  "\<not> r_aborted d w \<Longrightarrow> observe d ev w s = s\<lparr>trace := trace s @ [ev], world := w\<rparr>"
  "r_aborted d w \<Longrightarrow>
     observe d ev w s = s\<lparr>trace := trace s @ [ev], world := w, machine := abort (machine s)\<rparr>"
  by (simp_all add: observe_def)

lemma observe_aborted:
  "b_abortRequested (machine s) \<Longrightarrow> observe d ev w s = s\<lparr>trace := trace s @ [ev], world := w\<rparr>"
  by (simp add: observe_def abort_def)

lemma wp_lockWait_ok:
  assumes "fst (r_lockWait d (world s))" "Q () (observe d EvLock (snd (r_lockWait d (world s))) s)"
  shows "wp (callD d EvLock (\<lambda>w. case r_lockWait d w of (alive, w') \<Rightarrow>
            (if alive then Ok () else Crash, w'))) Q E C s"
  using assms by (auto simp: wp_def callD_def split: prod.split)

lemma wp_ok: "wp m Q (\<lambda>_ _. False) (\<lambda>_. False) s \<Longrightarrow> \<exists>x s'. m s = (Ok x, s') \<and> Q x s'"
  by (auto simp: wp_def split: prod.splits outcome.splits)

section \<open>Properties\<close>

text \<open>A fleet where everything succeeds, used where a hypothesis has to be met.\<close>

definition fine :: step_result where
  "fine = \<lparr>sr_ok = True, sr_reason = None\<rparr>"

definition calm_deps :: "unit bump_deps" where
  "calm_deps = \<lparr>r_backup = returnE fine, r_apply = returnE fine,
     r_awaitApplySettled = returnE fine, r_verify = returnE fine, r_revertTraffic = returnE fine,
     r_stopColour = (\<lambda>_. returnE ()), r_page = (\<lambda>_ _. returnE ()),
     r_persist = Some (\<lambda>_. returnE ()), r_lockWait = (\<lambda>w. (True, w)), r_tick = id,
     r_settlesWithin = (\<lambda>_ _. True), r_aborted = (\<lambda>_. False), r_landed = (\<lambda>_. False)\<rparr>"

definition fresh_ring :: "bump_state \<Rightarrow> unit ring" where
  "fresh_ring st = \<lparr>machine = new_bump ''b1'' (Some 5) (Some (st, None)), trace = [], durable = None,
     world = ()\<rparr>"

lemmas calm_eval = calm_deps_def fresh_ring_def new_bump_def fine_def

text \<open>C18: When every dependency succeeds and nobody aborts, \<open>run\<close> ends in \<open>done\<close> and performs
  exactly this sequence: each state is recorded before its side effect, \<open>applying\<close> is recorded
  and \<open>apply\<close> called only while the shared lock is held, and \<open>done\<close> is what is left on disk.\<close>

theorem run_happy_path:
  assumes "b_state (machine s) = Pending" "\<not> b_abortRequested (machine s)" "\<not> b_pageSent (machine s)"
    and "r_persist d = Some p" "\<And>snap. ok_unit (p snap)"
    and "ok_step (r_backup d)" "ok_step (r_apply d)" "ok_step (r_verify d)"
    and "\<And>w. fst (r_lockWait d w)" "\<And>w. \<not> r_aborted d w"
  shows "\<exists>s'. run d s = (Ok Done, s') \<and> b_state (machine s') = Done \<and>
    (let rec = (\<lambda>st. EvPersist (plain_snapshot st (b_bumpId (machine s)))) in
     trace s' = trace s @ [rec BackingUp, EvBackup, rec BackedUp, EvLock, rec Applying, EvApply,
       EvUnlock, rec Verifying, EvVerify, rec Done]) \<and>
    durable s' = Some (plain_snapshot Done (b_bumpId (machine s)))"
proof -
  note rules = wp_persist_ok [OF assms(4,5)] wp_callD_ok [OF assms(6)] wp_callD_ok [OF assms(7)]
    wp_callD_ok [OF assms(8)] wp_lockWait_ok [OF assms(9)]
  have "wp (run d) (\<lambda>st s'. st = Done \<and> b_state (machine s') = Done \<and>
    (let rec = (\<lambda>st. EvPersist (plain_snapshot st (b_bumpId (machine s)))) in
     trace s' = trace s @ [rec BackingUp, EvBackup, rec BackedUp, EvLock, rec Applying, EvApply,
       EvUnlock, rec Verifying, EvVerify, rec Done]) \<and>
    durable s' = Some (plain_snapshot Done (b_bumpId (machine s))))
    (\<lambda>_ _. False) (\<lambda>_. False) s"
    unfolding run_def transition_def lockRun_def verifyAndFinish_def get_state_def
    apply (simp add: assms(1,2))
    apply (rule rules | simp add: observe_calm assms(1,2,3,10) set_state_def snapshot_def plain_snapshot_def)+
    done
  from wp_ok [OF this] show ?thesis by auto
qed

lemma calm_ok:
  "ok_step (r_backup calm_deps)" "ok_step (r_apply calm_deps)" "ok_step (r_verify calm_deps)"
  "ok_step (r_revertTraffic calm_deps)"
  "fst (r_lockWait calm_deps w)" "\<not> r_aborted calm_deps w"
  "r_persist calm_deps = Some (\<lambda>_. returnE ())" "ok_unit (returnE ())"
  by (simp_all add: calm_eval ok_step_def ok_unit_def returnE_def)

lemma run_happy_path_witness:
  "\<exists>s'. run calm_deps (fresh_ring Pending) = (Ok Done, s') \<and> b_state (machine s') = Done \<and>
    (let rec = (\<lambda>st. EvPersist (plain_snapshot st (b_bumpId (machine (fresh_ring Pending))))) in
     trace s' = trace (fresh_ring Pending) @ [rec BackingUp, EvBackup, rec BackedUp, EvLock,
       rec Applying, EvApply, EvUnlock, rec Verifying, EvVerify, rec Done]) \<and>
    durable s' = Some (plain_snapshot Done (b_bumpId (machine (fresh_ring Pending))))"
  by (rule run_happy_path [where p = "\<lambda>_. returnE ()"]; (rule calm_ok)?)
    (simp_all add: fresh_ring_def new_bump_def)

lemma wp_run_result:
  assumes "b_state (machine s) = Pending" "\<not> b_pageSent (machine s)" "run d s = (r, s')"
  shows "fail_suffix False d any_event s s'"
    and "\<And>st. r = Ok st \<Longrightarrow>
       st = b_state (machine s') \<and> fail_suffix True d any_event s s' \<and> run_value d s st s'"
    and "\<And>e. r = Throw e \<Longrightarrow> run_stopped False d s s'"
    and "r = Crash \<Longrightarrow> run_stopped True d s s'"
  using wp_run [OF assms(1,2), of d] assms(3)
  by (cases r; simp add: wp_def fail_suffix_weaken)+

lemma trace_parts [simp]:
  "EvApply \<notin> set (backup_trace d bid)" "EvLock \<notin> set (backup_trace d bid)"
  by (simp_all add: backup_trace_def)

lemma finish_no_apply: "list_all finish_event es \<Longrightarrow> EvApply \<notin> set es \<and> EvLock \<notin> set es"
  by (auto simp: list_all_iff event_classes)

lemma finish_traces:
  "list_all finish_event (done_trace d bid)" "list_all finish_event (revert_trace d bid)"
  by (simp_all add: done_trace_def revert_trace_def) (simp_all add: event_classes)

lemma run_apply_cases:
  assumes "b_state (machine s) = Pending" "\<not> b_pageSent (machine s)" "run d s = (r, s')"
  obtains es where "trace s' = trace s @ es" "EvApply \<notin> set es"
  | rest where "trace s' = trace s @ apply_trace d (b_bumpId (machine s)) @ EvUnlock # rest"
      "list_all finish_event rest"
  | "trace s' = trace s @ apply_trace d (b_bumpId (machine s))" "r = Crash"
proof (cases r)
  case (Ok st)
  note R = wp_run_result(2) [OF assms Ok]
  let ?bid = "b_bumpId (machine s)"
  have ev: "finish_event EvVerify" by (simp add: finish_event_def)
  from R consider es where "trace s' = trace s @ es" "EvApply \<notin> set es"
    | rest where "trace s' = trace s @ apply_trace d ?bid @ EvUnlock # rest" "list_all finish_event rest"
    by (cases st) (auto simp: run_value_def Let_def ev finish_traces split: if_splits)
  then show ?thesis using that by blast
next
  case (Throw e)
  from wp_run_result(3) [OF assms Throw] that show ?thesis by (auto simp: run_stopped_def)
next
  case Crash
  from wp_run_result(4) [OF assms Crash] that Crash show ?thesis by (auto simp: run_stopped_def)
qed

definition apply_segment :: "string \<Rightarrow> ring_event list" where
  "apply_segment bid = [EvLock, EvPersist (plain_snapshot Applying bid), EvApply]"

lemma apply_segment_once:
  assumes "es = before @ apply_segment bid @ after"
    and "EvApply \<notin> set before" "EvLock \<notin> set before" "EvApply \<notin> set after" "EvLock \<notin> set after"
  shows "count_list es EvApply \<le> 1"
  using assms by (simp add: apply_segment_def count_list_0_iff)

lemma apply_trace_segment:
  "r_persist d \<noteq> None \<Longrightarrow> apply_trace d bid =
     (backup_trace d bid @ record_evs d (plain_snapshot BackedUp bid)) @ apply_segment bid"
  by (auto simp: apply_trace_def lock_trace_def apply_segment_def record_evs_def)

text \<open>C4: However its dependencies behave, and even if the process dies, one \<open>run\<close> calls
  \<open>apply\<close> at most once, and only after taking the shared lock and durably recording
  \<open>applying\<close>; unless the process died, the lock is given back before anything else happens.\<close>

theorem run_applies_once_under_lock:
  assumes "b_state (machine s) = Pending" "\<not> b_pageSent (machine s)"
    and "r_persist d \<noteq> None" "run d s = (r, s')"
  shows "\<exists>es. trace s' = trace s @ es \<and> count_list es EvApply \<le> 1 \<and>
    (EvApply \<in> set es \<longrightarrow> (\<exists>before after.
       es = before @ [EvLock, EvPersist (plain_snapshot Applying (b_bumpId (machine s))), EvApply] @ after \<and>
       EvLock \<notin> set before \<and> EvLock \<notin> set after \<and>
       (r \<noteq> Crash \<longrightarrow> (\<exists>rest. after = EvUnlock # rest))))"
proof -
  let ?bid = "b_bumpId (machine s)"
  let ?b = "backup_trace d ?bid @ record_evs d (plain_snapshot BackedUp ?bid)"
  have b: "EvApply \<notin> set ?b" "EvLock \<notin> set ?b" by simp_all
  have found: ?thesis if "trace s' = trace s @ ?b @ apply_segment ?bid @ after"
      "EvApply \<notin> set after" "EvLock \<notin> set after" "r \<noteq> Crash \<longrightarrow> (\<exists>rest. after = EvUnlock # rest)" for after
  proof -
    have "?b @ apply_segment ?bid @ after =
        ?b @ [EvLock, EvPersist (plain_snapshot Applying ?bid), EvApply] @ after"
      by (simp add: apply_segment_def)
    with that b apply_segment_once [OF refl b that(2,3), of ?bid] show ?thesis by blast
  qed
  from assms(1,2,4) show ?thesis
  proof (cases rule: run_apply_cases)
    case (1 es)
    then show ?thesis by (auto simp: count_list_0_iff)
  next
    case (2 rest)
    with finish_no_apply [OF 2(2)] show ?thesis
      by (intro found [of "EvUnlock # rest"]) (simp_all add: apply_trace_segment [OF assms(3)])
  next
    case 3
    then show ?thesis
      by (intro found [of "[]"]) (simp_all add: apply_trace_segment [OF assms(3)])
  qed
qed

lemma run_applies_once_under_lock_witness:
  "\<exists>es. trace (snd (run calm_deps (fresh_ring Pending))) = trace (fresh_ring Pending) @ es \<and>
     count_list es EvApply \<le> 1"
  using run_applies_once_under_lock [of "fresh_ring Pending" calm_deps, OF _ _ _ prod.collapse [symmetric]]
  by (auto simp: fresh_ring_def new_bump_def calm_deps_def)

text \<open>A run that returns has reached one of the five outcomes of the table, with exactly the
  effects that belong to it: a cancelled or failed backup never touched the tenant, \<open>done\<close> was
  verified and never reverted, \<open>reverted\<close> flipped traffic back and stopped the new colour, and
  \<open>failed-unsafe\<close> has its page out and is recorded as paged.\<close>

theorem run_outcomes:
  assumes "b_state (machine s) = Pending" "\<not> b_pageSent (machine s)" "\<not> b_abortRequested (machine s)"
    and "r_persist d = Some p" "run d s = (Ok st, s')"
  shows "b_state (machine s') = st \<and>
    (let rec = (\<lambda>st. EvPersist (plain_snapshot st (b_bumpId (machine s))));
         backed_up = [rec BackingUp, EvBackup];
         applied = backed_up @ [rec BackedUp, EvLock, rec Applying, EvApply, EvUnlock, rec Verifying];
         reverted = [rec Reverting, EvRevert, rec Reverted, EvStop New];
         es = drop (length (trace s)) (trace s') in
     st = Cancelled \<and> es = backed_up @ [rec Cancelled] \<or>
     st = BackupFailed \<and> es = backed_up @ [rec BackupFailed] \<or>
     st = Done \<and> es = applied @ [EvVerify, rec Done] \<or>
     st = Reverted \<and> (es = applied @ reverted \<or> es = applied @ EvVerify # reverted) \<or>
     st = FailedUnsafe \<and> b_pageSent (machine s') \<and> EvApply \<in> set es \<and>
       (\<exists>reason. durable s' = Some (failed_snapshot True (b_bumpId (machine s)) reason) \<and>
          page_event (b_bumpId (machine s)) reason \<in> set es))"
proof -
  let ?bid = "b_bumpId (machine s)"
  note R = wp_run_result(2) [OF assms(1,2,5) refl]
  have rec: "record_evs d snap = [EvPersist snap]" for snap
    by (simp add: record_evs_def assms(4))
  show ?thesis
  proof (cases "st = FailedUnsafe")
    case True
    then obtain es1 es2 reason where t: "trace s' = trace s @ es1 @ es2"
      and f: "fail_end True d ?bid es2 reason s'"
      using R by (auto simp: fail_suffix_def)
    have "b_state (machine s') = FailedUnsafe" using R True by simp
    with f have es2: "es2 = fail_trace d ?bid reason" "b_pageSent (machine s')"
      by (simp_all add: fail_end_def)
    then have page: "page_event ?bid reason \<in> set es2" by (simp add: fail_trace_def)
    have du: "durable s' = Some (failed_snapshot True ?bid reason)"
      using fail_end_page [OF f page] assms(4) by auto
    have "EvApply \<in> set (drop (length (trace s)) (trace s'))"
      using R True by (auto simp: run_value_def Let_def apply_trace_def lock_trace_def)
    moreover have "page_event ?bid reason \<in> set (drop (length (trace s)) (trace s'))"
      using page t by simp
    moreover have "b_state (machine s') = st" using R by simp
    ultimately show ?thesis
      using es2(2) du True by (simp add: Let_def) blast
  next
    case False
    with R show ?thesis
      by (cases st) (auto simp: run_value_def Let_def rec assms(3) apply_trace_def lock_trace_def
          backup_trace_def done_trace_def revert_trace_def)
  qed
qed

lemma fresh_ring_simps [simp]:
  "b_state (machine (fresh_ring st)) = st" "\<not> b_pageSent (machine (fresh_ring st))"
  "\<not> b_abortRequested (machine (fresh_ring st))" "b_bumpId (machine (fresh_ring st)) = ''b1''"
  "trace (fresh_ring st) = []"
  by (simp_all add: fresh_ring_def new_bump_def)

lemma run_calm: "fst (run calm_deps (fresh_ring Pending)) = Ok Done"
  by code_simp

lemma run_outcomes_witness:
  "\<exists>s'. run calm_deps (fresh_ring Pending) = (Ok Done, s') \<and> b_state (machine s') = Done"
proof -
  obtain s' where "run calm_deps (fresh_ring Pending) = (Ok Done, s')"
    using run_calm by (metis prod.collapse)
  with run_outcomes [of "fresh_ring Pending" calm_deps, OF _ _ _ calm_ok(7) this] show ?thesis
    by auto
qed

text \<open>An abort that has landed by the time the backup returns cancels the bump cleanly: no
  lock is taken, nothing is applied, and a run that returns says \<open>cancelled\<close>.\<close>

theorem run_aborted_early_never_applies:
  assumes "b_state (machine s) = Pending" "\<not> b_pageSent (machine s)"
    and "b_abortRequested (machine s) \<or> aborts d (r_backup d)"
    and "run d s = (r, s')"
  shows "\<exists>es. trace s' = trace s @ es \<and> EvLock \<notin> set es \<and> EvApply \<notin> set es \<and>
    EvVerify \<notin> set es \<and> EvRevert \<notin> set es \<and> (\<forall>st. r = Ok st \<longrightarrow> st = Cancelled)"
proof -
  let ?I = "\<lambda>s'. \<exists>es. trace s' = trace s @ es \<and> list_all (\<lambda>ev. is_record ev \<or> ev = EvBackup) es"
  have tr: "wp (transition d st) (\<lambda>_ u. ?I u \<and> b_state (machine u) = st) (\<lambda>_. ?I) ?I t" if "?I t" for st t
    by (rule wp_transition [where A = any_event]; insert that; auto simp: record_evs_def split: option.split)
  have bk: "wp (callD d EvBackup (r_backup d)) (\<lambda>_ u. ?I u \<and> b_abortRequested (machine u)) (\<lambda>_. ?I) ?I t"
    if "?I t" "aborts d (r_backup d)" for t
    using that unfolding aborts_def
    by (auto simp: wp_def callD_def observe_def abort_def split: prod.split outcome.split)
      (metis snd_conv)+
  have "wp (run d) (\<lambda>st u. ?I u \<and> st = Cancelled) (\<lambda>_. ?I) ?I s"
  proof (cases "b_abortRequested (machine s)")
    case True
    then show ?thesis
      unfolding run_def get_state_def using assms(1)
      by simp (rule wp_mono [OF tr]; auto)
  next
    case False
    with assms(3) have ab: "aborts d (r_backup d)" by simp
    show ?thesis
      unfolding run_def get_state_def using assms(1) False
      apply simp
      apply (rule wp_mono [OF tr])
         apply simp
      subgoal for x t
        apply (rule wp_mono [OF bk [OF _ ab, of t]])
           apply simp
        subgoal for b u
          using tr [of u Cancelled] by (simp cong: if_cong)
        by auto
      by auto
  qed
  then have "?I s'" "\<forall>st. r = Ok st \<longrightarrow> st = Cancelled"
    using assms(4) by (cases r; auto simp: wp_def)+
  then show ?thesis
    by (fastforce simp: list_all_iff)
qed

lemma run_aborted_early_never_applies_witness:
  "\<exists>es. trace (snd (run (calm_deps\<lparr>r_aborted := \<lambda>_. True\<rparr>) (fresh_ring Pending))) = [] @ es \<and>
     EvApply \<notin> set es"
  using run_aborted_early_never_applies [of "fresh_ring Pending" "calm_deps\<lparr>r_aborted := \<lambda>_. True\<rparr>",
      OF _ _ _ prod.collapse [symmetric]]
  by (auto simp: aborts_def)

text \<open>C19: The abort check is not repeated between the backup and the lock: an abort that lands
  while the tenant is \<open>backed-up\<close> and waiting for its turn does not cancel.  The migration is
  applied all the same, never verified, and traffic is then reverted.\<close>

theorem run_aborted_while_queued_still_applies:
  assumes "b_state (machine s) = Pending" "\<not> b_abortRequested (machine s)" "\<not> b_pageSent (machine s)"
    and "r_persist d = Some p" "\<And>snap. ok_unit (p snap)"
    and "ok_step (r_backup d)" "ok_step (r_apply d)" "ok_step (r_revertTraffic d)"
    and "ok_unit (r_stopColour d New)" "\<And>w. fst (r_lockWait d w)"
    and "\<And>snap w. \<not> r_aborted d (snd (p snap w))" "\<And>w. \<not> r_aborted d (snd (r_backup d w))"
    and "\<And>w. r_aborted d (snd (r_lockWait d w))"
  shows "\<exists>s'. run d s = (Ok Reverted, s') \<and>
    (let rec = (\<lambda>st. EvPersist (plain_snapshot st (b_bumpId (machine s)))) in
     trace s' = trace s @ [rec BackingUp, EvBackup, rec BackedUp, EvLock, rec Applying, EvApply,
       EvUnlock, rec Verifying, rec Reverting, EvRevert, rec Reverted, EvStop New])"
proof -
  note rules = wp_persist_ok [OF assms(4,5)] wp_callD_ok [OF assms(6)] wp_callD_ok [OF assms(7)]
    wp_callD_ok [OF assms(8)] wp_callD_ok_unit [OF assms(9)] wp_lockWait_ok [OF assms(10)]
  have "wp (run d) (\<lambda>st s'. st = Reverted \<and>
    (let rec = (\<lambda>st. EvPersist (plain_snapshot st (b_bumpId (machine s)))) in
     trace s' = trace s @ [rec BackingUp, EvBackup, rec BackedUp, EvLock, rec Applying, EvApply,
       EvUnlock, rec Verifying, rec Reverting, EvRevert, rec Reverted, EvStop New]))
    (\<lambda>_ _. False) (\<lambda>_. False) s"
    unfolding run_def transition_def lockRun_def revertOrFailUnsafe_def get_state_def
    apply (simp add: assms(1,2))
    by (rule rules | simp add: observe_aborted observe_cases assms(1,2,3,11,12,13) abort_def
          set_state_def snapshot_def plain_snapshot_def)+
  from wp_ok [OF this] show ?thesis by auto
qed

text \<open>The witness environment: a flag that an abort raises while the tenant waits for the lock.\<close>

definition queue_abort_deps :: "bool bump_deps" where
  "queue_abort_deps = \<lparr>r_backup = (\<lambda>w. (Ok fine, False)), r_apply = returnE fine,
     r_awaitApplySettled = returnE fine, r_verify = returnE fine, r_revertTraffic = returnE fine,
     r_stopColour = (\<lambda>_. returnE ()), r_page = (\<lambda>_ _. returnE ()),
     r_persist = Some (\<lambda>_ w. (Ok (), False)), r_lockWait = (\<lambda>w. (True, True)), r_tick = id,
     r_settlesWithin = (\<lambda>_ _. True), r_aborted = (\<lambda>w. w), r_landed = (\<lambda>_. False)\<rparr>"

lemma run_aborted_while_queued_still_applies_witness:
  "\<exists>s'. run queue_abort_deps \<lparr>machine = new_bump ''b1'' None None, trace = [], durable = None,
       world = False\<rparr> = (Ok Reverted, s') \<and> EvApply \<in> set (trace s')"
  using run_aborted_while_queued_still_applies [of "\<lparr>machine = new_bump ''b1'' None None, trace = [],
      durable = None, world = False\<rparr>" queue_abort_deps "\<lambda>_ w. (Ok (), False)"]
  by (fastforce simp: queue_abort_deps_def new_bump_def ok_step_def ok_unit_def returnE_def fine_def)

text \<open>What a call whose result is known leaves behind.\<close>

lemma wp_callD_exact:
  assumes "\<And>x w. f (world s) = (Ok x, w) \<Longrightarrow> Q x (observe d ev w s)"
    and "\<And>e w. f (world s) = (Throw e, w) \<Longrightarrow> E e (observe d ev w s)"
    and "\<And>w. f (world s) = (Crash, w) \<Longrightarrow> C (observe d ev w s)"
  shows "wp (callD d ev f) Q E C s"
  using assms by (auto simp: wp_def callD_def split: prod.splits outcome.splits)

text \<open>A migration that failed, or during which an abort landed, is never health-checked: the
  run reverts instead, and cannot end in \<open>done\<close>.\<close>

theorem run_never_verifies_failed_or_aborted_apply:
  assumes "b_state (machine s) = Pending" "\<not> b_pageSent (machine s)"
    and "\<And>w x w'. r_apply d w = (Ok x, w') \<Longrightarrow> \<not> sr_ok x \<or> r_aborted d w'"
    and "run d s = (r, s')"
  shows "\<exists>es. trace s' = trace s @ es \<and> EvVerify \<notin> set es \<and> r \<noteq> Ok Done"
proof -
  let ?I = "\<lambda>u. \<exists>es. trace u = trace s @ es \<and> list_all (\<lambda>ev. ev \<noteq> EvVerify) es"
  let ?J = "\<lambda>u. ?I u \<and> \<not> b_pageSent (machine u)"
  have tr: "wp (transition d st) (\<lambda>_ u. ?J u \<and> b_state (machine u) = st) (\<lambda>_. ?I) ?I t"
    if "?J t" for st t
    by (rule wp_transition [where A = any_event]; insert that)
      (auto simp: record_evs_def quiet_pageSent split: option.split)
  have call: "wp (callD d ev f) (\<lambda>x u. ?J u \<and> (\<exists>w. f (world t) = (Ok x, w) \<and>
        (r_aborted d w \<longrightarrow> b_abortRequested (machine u)))) (\<lambda>_. ?I) ?I t"
    if "?J t" "ev \<noteq> EvVerify" for ev t and f :: "('a, js_exn, step_result) prog"
    using that by (intro wp_callD_exact) (auto simp: observe_def abort_def)
  have rev: "wp (revertOrFailUnsafe d reason) (\<lambda>st u. ?I u \<and> st \<noteq> Done) (\<lambda>_. ?I) ?I t" if "?J t" for reason t
  proof -
    have *: "?I u" if "\<exists>es. trace u = trace t @ es \<and> list_all (\<lambda>ev. ev \<noteq> EvVerify) es" for u
      using that \<open>?J t\<close> by auto
    have em: "emits trace (\<lambda>ev. ev \<noteq> EvVerify) (revertOrFailUnsafe d reason)"
      by (rule emits_mono [OF emits_revertOrFailUnsafe]) (auto simp: event_classes)
    have "\<not> b_pageSent (machine t)" using that by simp
    from wp_conj [OF wp_revert [OF this] emits_wp [OF em]] show ?thesis
      by (rule wp_mono) (auto intro: *)
  qed
  have locked: "wp (lockRun d (thenE (transition d Applying) (callD d EvApply (r_apply d))))
      (\<lambda>x u. ?J u \<and> (sr_ok x \<longrightarrow> b_abortRequested (machine u))) (\<lambda>_. ?I) ?I t" if "?J t" for t
    apply (rule wp_lockRun)
    subgoal for t1
      apply simp
      apply (rule wp_mono [OF tr])
      subgoal premises p using p(1) that by (auto simp: awaited_def)
      subgoal premises p for x t2
        using p(3) by (intro wp_mono [OF call]) (use assms(3) in auto)
      by auto
    using that by (auto simp: awaited_def)
  have "wp (run d) (\<lambda>st u. ?I u \<and> st \<noteq> Done) (\<lambda>_. ?I) ?I s"
    unfolding run_def get_state_def using assms(1,2)
    apply (simp cong: if_cong)
    apply (intro conjI impI)
     apply (rule wp_mono [OF tr]; simp)
    apply (rule wp_mono [OF tr]; simp?)
    subgoal for t1
      apply (rule wp_mono [OF call]; simp?)
      subgoal for x t2
        apply (intro conjI impI)
        subgoal by (rule wp_mono [OF tr]; simp)
        subgoal by (rule wp_mono [OF tr]; simp)
        subgoal by (rule wp_mono [OF tr]; simp)
        subgoal
          apply (rule wp_mono [OF tr]; simp?)
          apply (rule wp_mono [OF locked]; simp?)
          subgoal for t3 x t4
            apply (intro conjI impI)
            apply (rule wp_mono [OF tr]; simp?)
            apply (rule rev, simp)
            by simp
          done
        done
      done
    done
  then show ?thesis
    using assms(4) by (cases r) (fastforce simp: wp_def list_all_iff)+
qed

lemma run_never_verifies_failed_or_aborted_apply_witness:
  "\<exists>es. trace (snd (run (calm_deps\<lparr>r_apply := returnE (fine\<lparr>sr_ok := False\<rparr>)\<rparr>) (fresh_ring Pending)))
      = [] @ es \<and> EvVerify \<notin> set es"
  using run_never_verifies_failed_or_aborted_apply [of "fresh_ring Pending"
      "calm_deps\<lparr>r_apply := returnE (fine\<lparr>sr_ok := False\<rparr>)\<rparr>", OF _ _ _ prod.collapse [symmetric]]
  by (auto simp: returnE_def)

text \<open>C20: Paging: whatever its dependencies do, a run pages at most once, at the very end, with the
  key \<open>bumpId:reason\<close>; the failure and its reason are recorded as unpaged immediately before
  the page and as paged immediately after it, and a run that returns \<open>failed-unsafe\<close> got that
  far.\<close>

theorem run_pages_after_recording:
  assumes "b_state (machine s) = Pending" "\<not> b_pageSent (machine s)"
    and "r_persist d = Some p" "run d s = (r, s')"
  shows "\<exists>es suffix reason. let bid = b_bumpId (machine s);
      full = [EvPersist (failed_snapshot False bid reason), EvPage reason (bid @ '':'' @ reason),
              EvPersist (failed_snapshot True bid reason)] in
    trace s' = trace s @ es @ suffix \<and> list_all (\<lambda>ev. \<not> is_page ev) es \<and> prefix suffix full \<and>
    (r = Ok FailedUnsafe \<longrightarrow> suffix = full)"
proof -
  have full: "fail_trace d bid reason =
      [EvPersist (failed_snapshot False bid reason), EvPage reason (bid @ '':'' @ reason),
       EvPersist (failed_snapshot True bid reason)]" for bid reason
    by (simp add: fail_trace_def record_evs_def page_event_def assms(3))
  have "fail_suffix False d any_event s s'" by (rule wp_run_result(1) [OF assms(1,2,4)])
  moreover have "fail_suffix True d any_event s s' \<and> b_state (machine s') = FailedUnsafe"
    if "r = Ok FailedUnsafe"
    using wp_run_result(2) [OF assms(1,2,4) that] by simp
  ultimately obtain c es1 es2 reason where
    "trace s' = trace s @ es1 @ es2" "list_all (\<lambda>ev. any_event ev \<and> \<not> is_page ev) es1"
    "fail_end c d (b_bumpId (machine s)) es2 reason s'"
    "r = Ok FailedUnsafe \<longrightarrow> c \<and> b_state (machine s') = FailedUnsafe"
    unfolding fail_suffix_def by blast
  then show ?thesis
    by - (rule exI [of _ es1], rule exI [of _ es2], rule exI [of _ reason],
        simp add: Let_def fail_end_def full)
qed

definition unverifiable_deps :: "unit bump_deps" where
  "unverifiable_deps = calm_deps\<lparr>r_verify := throwE JsOther\<rparr>"

lemma unverifiable_simps [simp]: "r_persist unverifiable_deps = Some (\<lambda>_. returnE ())"
  by (simp add: unverifiable_deps_def calm_deps_def)

lemma run_unverifiable:
  "fst (run unverifiable_deps (fresh_ring Pending)) = Ok FailedUnsafe \<and>
   EvPage ''verify() threw'' ''b1:verify() threw'' \<in>
     set (drop 0 (trace (snd (run unverifiable_deps (fresh_ring Pending)))))"
  by code_simp

lemma run_pages_after_recording_witness:
  "\<exists>es reason. trace (snd (run unverifiable_deps (fresh_ring Pending))) = es @
     [EvPersist (failed_snapshot False ''b1'' reason), EvPage reason (''b1:'' @ reason),
      EvPersist (failed_snapshot True ''b1'' reason)]"
  using run_pages_after_recording [of "fresh_ring Pending" unverifiable_deps "\<lambda>_. returnE ()",
      OF _ _ _ prod.collapse [symmetric]] run_unverifiable
  unfolding Let_def by simp metis

text \<open>The restart that finds a snapshot on disk rehydrates the object from it.\<close>

definition rehydrate :: "persist_snapshot \<Rightarrow> nat option \<Rightarrow> bump" where
  "rehydrate snap settle = new_bump (ps_bumpId snap) settle (Some (ps_state snap, Some (ps_pageSent snap)))"

text \<open>A page is never silently lost: if a run attempted a page and then threw or the process
  died, what is on disk is the same failure with the same reason, and as long as it is not marked
  as paged the recovery of that record first of all pages again with the identical key, so that
  the receiver can drop the duplicate.\<close>

theorem crashed_page_is_repeated_with_same_key:
  fixes settle :: "nat option"
  assumes "b_state (machine s) = Pending" "\<not> b_pageSent (machine s)"
    and "r_persist d = Some p" "run d s = (r, s')" "EvPage reason key \<in> set (drop (length (trace s)) (trace s'))"
  shows "\<exists>snap. durable s' = Some snap \<and> ps_state snap = FailedUnsafe \<and> ps_reason snap = Some reason \<and>
    (\<forall>d' t. machine t = rehydrate snap settle \<and> \<not> ps_pageSent snap \<longrightarrow>
       (\<exists>rest. trace (snd (recoverUnpagedFailure (d' :: 'b bump_deps) reason t)) =
          trace t @ EvPage reason key # rest))"
proof -
  let ?bid = "b_bumpId (machine s)"
  obtain es1 es2 r' where t: "trace s' = trace s @ es1 @ es2"
      "list_all (\<lambda>ev. any_event ev \<and> \<not> is_page ev) es1" and f: "fail_end False d ?bid es2 r' s'"
    using wp_run_result(1) [OF assms(1,2,4)] unfolding fail_suffix_def by blast
  have "EvPage reason key \<in> set es2"
    using assms(5) t by (fastforce simp: list_all_iff)
  moreover have "set es2 \<subseteq> set (fail_trace d ?bid r')"
    using f by (auto simp: fail_end_def dest: set_mono_prefix)
  ultimately have k: "reason = r'" "key = ?bid @ '':'' @ reason" "page_event ?bid r' \<in> set es2"
    by (auto simp: fail_trace_def record_evs_def page_event_def split: option.splits)
  then obtain sent where du: "durable s' = Some (failed_snapshot sent ?bid reason)"
    using fail_end_page [OF f k(3)] assms(3) by auto
  have "\<exists>rest. trace (snd (recoverUnpagedFailure d' reason t)) = trace t @ EvPage reason key # rest"
    if "machine t = rehydrate (failed_snapshot sent ?bid reason) settle" "\<not> sent"
    for d' :: "'b bump_deps" and t
  proof -
    have st: "b_state (machine t) = FailedUnsafe" "\<not> b_pageSent (machine t)" "b_bumpId (machine t) = ?bid"
      using that by (simp_all add: rehydrate_def new_bump_def failed_snapshot_def)
    have em: "emits trace (\<lambda>_. True) (thenE (modifyE set_pageSent)
         (thenE (persistSnapshot d' (Some reason)) get_state))"
      unfolding get_state_def by (intro emits_intros emits_modifyE) simp_all
    have "wp (recoverUnpagedFailure d' reason) (\<lambda>_ u. \<exists>rest. trace u = trace t @ EvPage reason key # rest)
       (\<lambda>_ u. \<exists>rest. trace u = trace t @ EvPage reason key # rest)
       (\<lambda>u. \<exists>rest. trace u = trace t @ EvPage reason key # rest) t"
      unfolding recoverUnpagedFailure_def get_state_def
      apply (simp add: st)
      apply (rule wp_callD)
      subgoal for x u
        by (rule wp_persistSnapshot) (auto simp: awaited_def dedupeKey_def st k)
      by (auto simp: awaited_def dedupeKey_def st k)
    then show ?thesis
      by (auto simp: wp_def split: prod.splits outcome.splits)
  qed
  with du show ?thesis
    by (auto simp: failed_snapshot_def)
qed

lemma crashed_page_is_repeated_with_same_key_witness:
  "\<exists>snap. durable (snd (run unverifiable_deps (fresh_ring Pending))) = Some snap \<and>
     ps_state snap = FailedUnsafe \<and> ps_reason snap = Some ''verify() threw''"
  using crashed_page_is_repeated_with_same_key [of "fresh_ring Pending" unverifiable_deps
      "\<lambda>_. returnE ()", OF _ _ _ prod.collapse [symmetric]] run_unverifiable
  by fastforce

text \<open>\<open>unsettled d ms\<close>: the bounded settlement probe never confirms: it says no, throws, or does
  not settle before the timer.\<close>

definition unsettled :: "'w bump_deps \<Rightarrow> nat \<Rightarrow> bool" where
  "unsettled d ms \<longleftrightarrow> (\<forall>w. case withTimeout (r_awaitApplySettled d) (r_settlesWithin d) ms w of
     (Ok x, _) \<Rightarrow> \<not> sr_ok x | _ \<Rightarrow> True)"

lemma unsettled_hang: "(\<And>w. \<not> r_settlesWithin d ms w) \<Longrightarrow> unsettled d ms"
  by (auto simp: unsettled_def withTimeout_def split: prod.split outcome.split)

text \<open>A tenant that crashed while \<open>applying\<close> and whose migration cannot be confirmed settled
  (the probe says no, throws, or hangs past the timeout) is left alone: recovery neither verifies,
  nor moves traffic, nor stops a colour, nor applies again.  If it returns, it is
  \<open>failed-unsafe\<close> with the page out.\<close>

theorem recover_unsettled_apply_touches_nothing:
  assumes "b_state (machine s) = Applying" "\<not> b_pageSent (machine s)"
    and "unsettled d (b_applySettleTimeoutMs (machine s))" "recoverFromApplying d s = (r, s')"
  shows "\<exists>es. trace s' = trace s @ es \<and>
    list_all (\<lambda>ev. is_record ev \<or> ev = EvLock \<or> ev = EvProbe \<or> ev = EvUnlock) es \<and>
    (\<forall>st. r = Ok st \<longrightarrow> st = FailedUnsafe \<and> b_state (machine s') = FailedUnsafe \<and>
       b_pageSent (machine s') \<and> (\<exists>reason. page_event (b_bumpId (machine s)) reason \<in> set es))"
proof -
  let ?ok = "list_all (\<lambda>ev. is_record ev \<or> ev = EvLock \<or> ev = EvProbe \<or> ev = EvUnlock)"
  let ?I = "\<lambda>u. \<exists>es. trace u = trace s @ es \<and> ?ok es"
  let ?Q = "\<lambda>st u. st = FailedUnsafe \<and> b_state (machine u) = FailedUnsafe \<and> b_pageSent (machine u) \<and>
     (\<exists>es reason. trace u = trace s @ es \<and> ?ok es \<and> page_event (b_bumpId (machine s)) reason \<in> set es)"
  have ft: "?ok (fail_trace d bid reason)" "page_event bid reason \<in> set (fail_trace d bid reason)" for bid reason
    by (simp_all add: fail_trace_def record_evs_def page_event_def split: option.split)
  have ftp: "?ok es" if "prefix es (fail_trace d bid reason)" for es bid reason
    using ft(1) [of bid reason] that by (metis list_all_append prefixE)
  have fail: "wp (failUnsafe d reason) ?Q (\<lambda>_. ?I) ?I t"
    if "?I t" "\<not> b_pageSent (machine t)" "b_bumpId (machine t) = b_bumpId (machine s)" for t reason
  proof (rule wp_failUnsafe [OF that(2)], goal_cases)
    case (1 u)
    then show ?case using that(1,3) ft by (auto intro!: exI [of _ reason])
  next
    case (2 u es e)
    then show ?case using that(1) ftp by auto
  qed
  have "wp (recoverFromApplying d) ?Q (\<lambda>_. ?I) ?I s"
    unfolding recoverFromApplying_def get_state_def probeApplySettled_def
    apply (simp add: assms(1))
    apply (rule wp_lockRun)
    subgoal premises p for t
    proof -
      have t: "trace t = trace s @ [EvLock]" "\<not> b_pageSent (machine t)"
        "b_bumpId (machine t) = b_bumpId (machine s)"
        "b_applySettleTimeoutMs (machine t) = b_applySettleTimeoutMs (machine s)"
        using p(1) assms(2) by (simp_all add: awaited_def)
      have unlocked: "?Q st (unlock u)" if "?Q st u" for st u
        using that by fastforce
      have unlocked': "?I (unlock u)" if "?I u" for u
        using that by fastforce
      have w: "wp (failUnsafe d reason) (\<lambda>st u. ?Q st (unlock u)) (\<lambda>_ u. ?I (unlock u)) ?I
          (observe d EvProbe w t)" for reason w
        by (rule wp_mono [OF fail])
          ((rule unlocked, assumption) | (rule unlocked', assumption) | assumption |
            simp add: t observe_def abort_def)+
      show ?thesis
        apply (simp only: wp_bindE wp_getE wp_catchE wp_returnE wp_if)
        apply (rule wp_callD_exact)
        subgoal for x w
          using assms(3) [unfolded unsettled_def, rule_format, of "world t"] w by (simp add: t)
        using w by (auto simp: t observe_def)
    qed
    by (auto simp: awaited_def)
  then show ?thesis
    using assms(4) by (cases r) (auto simp: wp_def)
qed

lemma recover_unsettled_apply_touches_nothing_witness:
  "\<exists>es. trace (snd (recoverFromApplying (calm_deps\<lparr>r_settlesWithin := \<lambda>_ _. False\<rparr>) (fresh_ring Applying)))
      = [] @ es \<and> EvVerify \<notin> set es \<and> EvRevert \<notin> set es"
  using recover_unsettled_apply_touches_nothing [of "fresh_ring Applying"
      "calm_deps\<lparr>r_settlesWithin := \<lambda>_ _. False\<rparr>", OF _ _ unsettled_hang prod.collapse [symmetric]]
  by (fastforce simp: list_all_iff)

lemmas claim_defs = transition_def failUnsafe_def revertOrFailUnsafe_def get_state_def

text \<open>The claim on \<open>done\<close> is a flag that nothing clears.\<close>

definition claimed :: "'w ring \<Rightarrow> bool" where
  "claimed s \<longleftrightarrow> b_doneTransitionClaimed (machine s)"

lemma keeps_claimed:
  "keeps claimed (callD d ev f)" "keeps claimed (persistSnapshot d reason)"
  "keeps claimed (modifyE (set_state st))" "keeps claimed (modifyE set_pageSent)"
  "keeps claimed (modifyE (\<lambda>s. s\<lparr>machine := abort (machine s)\<rparr>))"
  by (auto simp: keeps_def claimed_def callD_def persistSnapshot_def observe_def yield_def abort_def
      modifyE_def Let_def split: prod.splits option.splits)

lemma keeps_claimed_revert: "keeps claimed (revertOrFailUnsafe d reason)"
  unfolding claim_defs by (intro keeps_intros keeps_claimed)

text \<open>Leaving \<open>done\<close> is claimed once: of the bake window closing and the abort after
  \<open>done\<close>, called in either order and however the first one ends, only the first acts; at any
  later point the other throws and leaves the tenant untouched.\<close>

theorem done_transition_claimed_once:
  assumes "b_state (machine s) = Done" "\<not> b_doneTransitionClaimed (machine s)"
    and "first \<in> {closeBakeWindow d, abortAfterDone d}"
    and "second \<in> {closeBakeWindow d, abortAfterDone d}"
    and "first s = (r, s')"
  shows "b_doneTransitionClaimed (machine s') \<and> (\<exists>e. second s' = (Throw e, s'))"
proof -
  let ?claim = "s\<lparr>machine := (machine s)\<lparr>b_doneTransitionClaimed := True\<rparr>\<rparr>"
  have claim: "claimDoneTransition caller s = (Ok (), ?claim)" for caller
    by (simp add: claimDoneTransition_def assms(1,2) bindE_def getE_def modifyE_def)
  have "keeps claimed (thenE (transition d Closing) (thenE (callD d (EvStop Old) (r_stopColour d Old))
      (thenE (transition d Closed) get_state)))"
    unfolding transition_def get_state_def by (intro keeps_intros keeps_claimed)
  moreover have "keeps claimed (thenE (modifyE (\<lambda>s. s\<lparr>machine := abort (machine s)\<rparr>))
      (revertOrFailUnsafe d None))"
    by (intro keeps_intros keeps_claimed keeps_claimed_revert)
  moreover have "claimed ?claim" by (simp add: claimed_def)
  ultimately have "claimed (snd (closeBakeWindow d s))" "claimed (snd (abortAfterDone d s))"
    by (simp_all add: closeBakeWindow_def abortAfterDone_def thenE_def [of "claimDoneTransition c" for c]
        bindE_def [of "claimDoneTransition c" for c] claim keepsD)
  then have c: "b_doneTransitionClaimed (machine s')"
    using assms(3,5) by (auto simp: claimed_def)
  have "claimDoneTransition caller s' = (Throw (JsError (caller @ '' called from state '' @
      quoted (state_name (b_state (machine s'))) @ '', not '' @ quoted ''done'')), s')" for caller
    by (simp add: claimDoneTransition_def c bindE_def getE_def throwE_def)
  then have "\<exists>e. closeBakeWindow d s' = (Throw e, s')" "\<exists>e. abortAfterDone d s' = (Throw e, s')"
    by (simp_all add: closeBakeWindow_def abortAfterDone_def thenE_def bindE_def)
  with c assms(4) show ?thesis by auto
qed

lemma done_transition_claimed_once_witness:
  "\<exists>e. abortAfterDone calm_deps (snd (closeBakeWindow calm_deps (fresh_ring Done))) =
     (Throw e, snd (closeBakeWindow calm_deps (fresh_ring Done)))"
  using done_transition_claimed_once [of "fresh_ring Done" "closeBakeWindow calm_deps" calm_deps
      "abortAfterDone calm_deps", OF _ _ _ _ prod.collapse [symmetric]]
  by (simp add: fresh_ring_def new_bump_def)

lemma observe_fields:
  "trace (observe d ev w s) = trace s @ [ev]" "durable (observe d ev w s) = durable s"
  "b_state (machine (observe d ev w s)) = b_state (machine s)"
  "b_pageSent (machine (observe d ev w s)) = b_pageSent (machine s)"
  "b_bumpId (machine (observe d ev w s)) = b_bumpId (machine s)"
  by (simp_all add: observe_def abort_def)

text \<open>The retried teardown of a \<open>reverted\<close> record is not guarded the way the same teardown
  is in a live run: when stopping the new colour fails, the live run ends \<open>failed-unsafe\<close> with a
  page, but the recovery throws without recording or paging anything, and leaves the record as it
  found it.\<close>

theorem recover_reverted_failure_is_unpaged:
  assumes "b_state (machine s) = Reverted" "\<not> b_pageSent (machine s)"
    and "\<And>w. \<exists>e w'. r_stopColour d New w = (Throw e, w')"
    and "ok_step (r_revertTraffic d)" "r_persist d = Some p" "\<And>snap. ok_unit (p snap)"
    and "\<And>reason key. ok_unit (r_page d reason key)"
  shows "(\<exists>e s'. recoverFromReverted d s = (Throw e, s') \<and> trace s' = trace s @ [EvStop New] \<and>
      durable s' = durable s \<and> b_state (machine s') = Reverted) \<and>
    (\<exists>s' reason. revertOrFailUnsafe d None s = (Ok FailedUnsafe, s') \<and>
      page_event (b_bumpId (machine s)) reason \<in> set (trace s'))"
proof (intro conjI)
  obtain e w' where st: "r_stopColour d New (world s) = (Throw e, w')" using assms(3) by blast
  then show "\<exists>e s'. recoverFromReverted d s = (Throw e, s') \<and> trace s' = trace s @ [EvStop New] \<and>
      durable s' = durable s \<and> b_state (machine s') = Reverted"
    using assms(1) by (simp add: recoverFromReverted_def get_state_def bindE_def thenE_def getE_def
        callD_def observe_def abort_def)
next
  have stop: "wp (callD d (EvStop New) (r_stopColour d New)) Q E C t"
    if "\<And>e w. E e (observe d (EvStop New) w t)" for Q E C t
    using assms(3) [of "world t"] that by (auto simp: wp_def callD_def)
  note rules = wp_persist_ok [OF assms(5,6)] wp_callD_ok [OF assms(4)] wp_callD_ok_unit [OF assms(7)] stop
  have "wp (revertOrFailUnsafe d None) (\<lambda>st s'. st = FailedUnsafe \<and>
      (\<exists>reason. page_event (b_bumpId (machine s)) reason \<in> set (trace s'))) (\<lambda>_ _. False) (\<lambda>_. False) s"
    unfolding revertOrFailUnsafe_def transition_def failUnsafe_def get_state_def
    apply (simp only: wp_simps)
    by (rule rules | simp add: observe_fields assms(2) page_event_def dedupeKey_def
        cong: if_cong | blast)+
  from wp_ok [OF this] show "\<exists>s' reason. revertOrFailUnsafe d None s = (Ok FailedUnsafe, s') \<and>
      page_event (b_bumpId (machine s)) reason \<in> set (trace s')" by auto
qed

lemma recover_reverted_failure_is_unpaged_witness:
  "\<exists>e s'. recoverFromReverted (calm_deps\<lparr>r_stopColour := \<lambda>_. throwE JsOther\<rparr>) (fresh_ring Reverted)
      = (Throw e, s') \<and> trace s' = [EvStop New]"
  using recover_reverted_failure_is_unpaged [of "fresh_ring Reverted"
      "calm_deps\<lparr>r_stopColour := \<lambda>_. throwE JsOther\<rparr>" "\<lambda>_. returnE ()", THEN conjunct1]
  by (auto simp: throwE_def ok_step_def calm_deps_def returnE_def ok_unit_def fine_def)

end
