(* ===== verification/Ring_Recovery.thy ===== *)
theory Ring_Recovery
  imports Ring_Bump "HOL-Library.Multiset"
begin

text \<open>
  Startup recovery of the ring controller (\<open>recovery.ts\<close>) and the tenant state store it reads
  (\<open>tenantStateStore.ts\<close>), both under \<open>src/services/ring-controller/src\<close>.

  A persisted record is what \<open>JSON.parse\<close> returned, so its \<open>state\<close> is any string.  The sweep
  threads one environment through the recovery of every record; each record gets its own
  \<open>BumpStateMachine\<close> (a \<open>ring\<close> of \<open>Ring_Bump\<close>) and its events are tagged with the tenant.
  The store is a directory: file names to contents, a content either a record or text that does
  not parse.  Locale \<open>tenant_state_store\<close> is what recovery relies on in a store.
\<close>

section \<open>Records\<close>

record persisted_tenant =
  pt_tenantId :: string
  pt_state :: string
  pt_pageSent :: bool
  pt_updatedAt :: string
  pt_bumpId :: "string option"
  pt_reason :: "string option"

definition all_states :: "bump_state list" where
  "all_states = [Pending, BackingUp, BackedUp, Applying, Verifying, Done, Closing, Reverting,
     Reverted, BackupFailed, Cancelled, FailedUnsafe, Closed]"

definition state_of_name :: "string \<Rightarrow> bump_state option" where
  "state_of_name t = List.find (\<lambda>st. state_name st = t) all_states"

lemma state_of_name_name [simp]: "state_of_name (state_name st) = Some st"
  by (cases st) (simp_all add: state_of_name_def all_states_def state_name_def)

lemma state_of_nameD: "state_of_name t = Some st \<Longrightarrow> t = state_name st"
  by (auto simp: state_of_name_def find_Some_iff)

section \<open>The sweep\<close>

record recovered_tenant =
  rt_tenantId :: string
  rt_machine :: bump
  rt_finalState :: bump_state

record 'w sweep =
  sw_world :: 'w
  sw_trace :: "(string \<times> ring_event) list"
  sw_recovered :: "recovered_tenant list"
  sw_failed :: "(string \<times> js_exn) list"

text \<open>The two guards that skip a record.\<close>

definition NO_ACTION_STATES :: "bump_state list" where
  "NO_ACTION_STATES = [Closed, BackupFailed, Cancelled]"

definition actionable :: "persisted_tenant \<Rightarrow> bool" where
  "actionable rec \<longleftrightarrow>
     \<not> (pt_state rec = state_name FailedUnsafe \<and> pt_pageSent rec) \<and>
     pt_state rec \<notin> set (map state_name NO_ACTION_STATES)"

text \<open>\<open>runRecoveryAction\<close>, on a machine already rehydrated in state \<open>st\<close>.\<close>

definition runRecoveryAction :: "'w bump_deps \<Rightarrow> persisted_tenant \<Rightarrow> ('w, bump_state) ring_prog" where
  "runRecoveryAction d rec = (case state_of_name (pt_state rec) of
       Some Pending \<Rightarrow> recoverAsCancelled d
     | Some BackingUp \<Rightarrow> recoverAsCancelled d
     | Some BackedUp \<Rightarrow> recoverAsCancelled d
     | Some Applying \<Rightarrow> recoverFromApplying d
     | Some Verifying \<Rightarrow> recoverFromRevertInFlight d
     | Some Reverting \<Rightarrow> recoverFromRevertInFlight d
     | Some Reverted \<Rightarrow> recoverFromReverted d
     | Some Closing \<Rightarrow> recoverFromClosing d
     | Some Done \<Rightarrow> get_state
     | Some FailedUnsafe \<Rightarrow>
         recoverUnpagedFailure d (coalesce (pt_reason rec) ''recovered unpaged failure after a crash'')
     | _ \<Rightarrow> throwE (JsError (''no recovery action defined for persisted state '' @ quoted (pt_state rec))))"

text \<open>
  A state that is none of the thirteen never reaches a method of the machine, so the state its
  object is built with cannot be observed; \<open>Closed\<close> stands for it.
\<close>

definition rehydrated :: "persisted_tenant \<Rightarrow> bump" where
  "rehydrated rec = new_bump (coalesce (pt_bumpId rec) (pt_tenantId rec)) None
     (Some (coalesce (state_of_name (pt_state rec)) Closed, Some (pt_pageSent rec)))"

definition recovery_ring :: "persisted_tenant \<Rightarrow> 'w \<Rightarrow> 'w ring" where
  "recovery_ring rec w = \<lparr>machine = rehydrated rec, trace = [],
     durable = Some (snapshot (pt_reason rec) (rehydrated rec)), world = w\<rparr>"

definition tagged :: "string \<Rightarrow> 'w ring \<Rightarrow> 'w sweep \<Rightarrow> 'w sweep" where
  "tagged tid s y = y\<lparr>sw_world := world s, sw_trace := sw_trace y @ map (Pair tid) (trace s)\<rparr>"

text \<open>The body of the \<open>for\<close> loop behind the guards: a throw is collected, a crash ends it all.\<close>

definition recoverOne ::
  "(string \<Rightarrow> js_exn + 'w bump_deps) \<Rightarrow> persisted_tenant \<Rightarrow> ('w sweep, js_exn, unit) prog" where
  "recoverOne buildDeps rec y = (let tid = pt_tenantId rec in
     case buildDeps tid of
       Inl e \<Rightarrow> (Ok (), y\<lparr>sw_failed := sw_failed y @ [(tid, e)]\<rparr>)
     | Inr d \<Rightarrow>
         (case runRecoveryAction d rec (recovery_ring rec (sw_world y)) of
            (Ok st, s) \<Rightarrow> (Ok (), (tagged tid s y)\<lparr>sw_recovered := sw_recovered y @
               [\<lparr>rt_tenantId = tid, rt_machine = machine s, rt_finalState = st\<rparr>]\<rparr>)
          | (Throw e, s) \<Rightarrow> (Ok (), (tagged tid s y)\<lparr>sw_failed := sw_failed y @ [(tid, e)]\<rparr>)
          | (Crash, s) \<Rightarrow> (Crash, tagged tid s y)))"

definition sweepRecords ::
  "(string \<Rightarrow> js_exn + 'w bump_deps) \<Rightarrow> persisted_tenant list \<Rightarrow> ('w sweep, js_exn, unit) prog" where
  "sweepRecords buildDeps records =
     forE records (\<lambda>rec. whenE (actionable rec) (recoverOne buildDeps rec))"

definition recoverPersistedTenants ::
  "('w, js_exn, persisted_tenant list) prog \<Rightarrow> (string \<Rightarrow> js_exn + 'w bump_deps) \<Rightarrow>
     ('w sweep, js_exn, recovered_tenant list \<times> (string \<times> js_exn) list) prog" where
  "recoverPersistedTenants list_records buildDeps y0 = (case list_records (sw_world y0) of
       (Ok records, w) \<Rightarrow>
         bindE (sweepRecords buildDeps records)
           (\<lambda>_. getE (\<lambda>y. (sw_recovered y, sw_failed y)))
           \<lparr>sw_world = w, sw_trace = [], sw_recovered = [], sw_failed = []\<rparr>
     | (Throw e, w) \<Rightarrow> (Throw e, y0\<lparr>sw_world := w\<rparr>)
     | (Crash, w) \<Rightarrow> (Crash, y0\<lparr>sw_world := w\<rparr>))"

section \<open>The store\<close>

datatype stored = StoredRecord persisted_tenant | Unparsable

text \<open>\<open>None\<close> is a directory that does not exist; the files are in \<open>readdir\<close> order.\<close>

type_synonym store_dir = "(string, stored) jsmap option"

definition file_safe :: string where
  "file_safe = uppers @ lowers @ digits @ ''._-''"

definition fileNameFor :: "string \<Rightarrow> string" where
  "fileNameFor tenantId =
     map (\<lambda>c. if c \<in> set file_safe then c else CHR ''_'') tenantId @ ''.json''"

definition store_save :: "persisted_tenant \<Rightarrow> store_dir \<Rightarrow> store_dir" where
  "store_save rec dir = Some (AList.update (fileNameFor (pt_tenantId rec)) (StoredRecord rec)
     (case dir of None \<Rightarrow> [] | Some files \<Rightarrow> files))"

definition parse_error :: js_exn where
  "parse_error = JsError ''SyntaxError''"

definition parse_stored :: "stored \<Rightarrow> js_exn + persisted_tenant" where
  "parse_stored c = (case c of StoredRecord rec \<Rightarrow> Inr rec | Unparsable \<Rightarrow> Inl parse_error)"

definition store_load :: "string \<Rightarrow> store_dir \<Rightarrow> js_exn + persisted_tenant option" where
  "store_load tenantId dir = (case dir of None \<Rightarrow> Inr None | Some files \<Rightarrow>
     (case map_of files (fileNameFor tenantId) of
        None \<Rightarrow> Inr None
      | Some c \<Rightarrow> (case parse_stored c of Inl e \<Rightarrow> Inl e | Inr rec \<Rightarrow> Inr (Some rec))))"

text \<open>\<open>rm\<close> forgives a missing file; opening a missing directory to sync it does not.\<close>

definition store_remove :: "string \<Rightarrow> store_dir \<Rightarrow> js_exn + store_dir" where
  "store_remove tenantId dir = (case dir of None \<Rightarrow> Inl (JsError ''ENOENT'')
     | Some files \<Rightarrow> Inr (Some (AList.delete (fileNameFor tenantId) files)))"

fun parse_all :: "(string \<times> stored) list \<Rightarrow> js_exn + persisted_tenant list" where
  "parse_all [] = Inr []"
| "parse_all ((name, c) # rest) =
     (if \<not> ends_with ''.json'' name then parse_all rest
      else case parse_stored c of
             Inl e \<Rightarrow> Inl e
           | Inr rec \<Rightarrow> (case parse_all rest of Inl e \<Rightarrow> Inl e | Inr recs \<Rightarrow> Inr (rec # recs)))"

definition store_list :: "store_dir \<Rightarrow> js_exn + persisted_tenant list" where
  "store_list dir = (case dir of None \<Rightarrow> Inr [] | Some files \<Rightarrow> parse_all files)"

section \<open>What a recovery returns\<close>

definition returns_state :: "('w, bump_state) ring_prog \<Rightarrow> bool" where
  "returns_state m \<longleftrightarrow>
     (\<forall>s. wp m (\<lambda>st s'. st = b_state (machine s')) (\<lambda>_ _. True) (\<lambda>_. True) s)"

lemma returns_state_rules:
  "returns_state get_state" "returns_state (throwE e)"
  "(\<And>x. returns_state (f x)) \<Longrightarrow> returns_state (bindE m f)"
  "returns_state k \<Longrightarrow> returns_state (thenE n k)"
  "(\<And>x. returns_state (f x)) \<Longrightarrow> (\<And>e. returns_state (h e)) \<Longrightarrow> returns_state (tryE m f h)"
  "(b \<Longrightarrow> returns_state k) \<Longrightarrow> (\<not> b \<Longrightarrow> returns_state k') \<Longrightarrow> returns_state (if b then k else k')"
  by (auto simp: returns_state_def get_state_def wp_def bindE_def thenE_def tryE_def getE_def throwE_def
      split: prod.splits outcome.splits)

lemma returns_state_lockRun:
  assumes "returns_state body" shows "returns_state (lockRun d body)"
  unfolding returns_state_def
proof
  fix s
  show "wp (lockRun d body) (\<lambda>st s'. st = b_state (machine s')) (\<lambda>_ _. True) (\<lambda>_. True) s"
    by (rule wp_lockRun)
      (use assms in \<open>auto simp: returns_state_def\<close>)
qed

lemma returns_state_recovery: "returns_state (runRecoveryAction d rec)"
  unfolding runRecoveryAction_def recoverAsCancelled_def recoverFromApplying_def
    recoverFromRevertInFlight_def recoverFromReverted_def recoverFromClosing_def
    recoverUnpagedFailure_def verifyAndFinish_def revertOrFailUnsafe_def failUnsafe_def
  by (auto split: option.split bump_state.split
      intro!: returns_state_rules returns_state_lockRun)

lemma recovery_final:
  "runRecoveryAction d rec s = (Ok st, s') \<Longrightarrow> st = b_state (machine s')"
  using returns_state_recovery [of d rec, unfolded returns_state_def, rule_format, of s]
  by (rule wp_OkD)

lemma emits_runRecoveryAction: "emits trace recovery_event (runRecoveryAction d rec)"
  unfolding runRecoveryAction_def get_state_def
  by (auto split: option.split bump_state.split intro!: emits_recovery emits_silent)

section \<open>What the sweep adds up to\<close>

definition swept_ids :: "'w sweep \<Rightarrow> string multiset" where
  "swept_ids y = mset (map rt_tenantId (sw_recovered y) @ map fst (sw_failed y))"

definition finals_ok :: "'w sweep \<Rightarrow> bool" where
  "finals_ok y \<longleftrightarrow> list_all (\<lambda>t. rt_finalState t = b_state (rt_machine t)) (sw_recovered y)"

lemma wp_recoverOne:
  "finals_ok y \<Longrightarrow> wp (recoverOne buildDeps rec)
     (\<lambda>_ y'. swept_ids y' = add_mset (pt_tenantId rec) (swept_ids y) \<and> finals_ok y')
     (\<lambda>_ _. False) (\<lambda>_. True) y"
  by (auto simp: wp_def recoverOne_def swept_ids_def finals_ok_def tagged_def Let_def
      split: sum.splits prod.splits outcome.splits dest: recovery_final)

lemma wp_sweepRecords:
  "finals_ok y \<Longrightarrow> wp (sweepRecords buildDeps records)
     (\<lambda>_ y'. swept_ids y' = mset (map pt_tenantId (filter actionable records)) + swept_ids y \<and> finals_ok y')
     (\<lambda>_ _. False) (\<lambda>_. True) y"
proof (induction records arbitrary: y)
  case Nil
  then show ?case by (simp add: sweepRecords_def)
next
  case (Cons rec records)
  have IH: "wp (forE records (\<lambda>rec. whenE (actionable rec) (recoverOne buildDeps rec)))
     (\<lambda>_ y'. swept_ids y' = mset (map pt_tenantId (filter actionable records)) + swept_ids y1 \<and> finals_ok y')
     (\<lambda>_ _. False) (\<lambda>_. True) y1" if "finals_ok y1" for y1
    using Cons.IH [OF that] by (simp add: sweepRecords_def)
  show ?case
  proof (cases "actionable rec")
    case True
    then show ?thesis
      unfolding sweepRecords_def
      apply simp
      apply (rule wp_mono [OF wp_recoverOne [OF Cons.prems]])
      subgoal for u y1 by (rule wp_mono [OF IH]) auto
      by auto
  next
    case False
    with IH [OF Cons.prems] show ?thesis by (simp add: sweepRecords_def)
  qed
qed

text \<open>The sweep isolates tenants and loses none: whatever their dependencies do, every record
  that still owes something ends up exactly once in \<open>recovered\<close> (with the state its machine is in)
  or in \<open>failed\<close>, every other record in neither, and no tenant's throw escapes the sweep.\<close>

theorem sweep_accounts_for_every_tenant:
  assumes "list_records (sw_world y0) = (Ok records, w)"
    and "recoverPersistedTenants list_records buildDeps y0 = (r, y)"
  shows "(\<forall>e. r \<noteq> Throw e) \<and> (\<forall>recovered failed. r = Ok (recovered, failed) \<longrightarrow>
    mset (map rt_tenantId recovered @ map fst failed) =
      mset (map pt_tenantId (filter actionable records)) \<and>
    (\<forall>t \<in> set recovered. rt_finalState t = b_state (rt_machine t)))"
proof -
  let ?y = "\<lparr>sw_world = w, sw_trace = [], sw_recovered = [], sw_failed = []\<rparr>"
  have "wp (sweepRecords buildDeps records)
     (\<lambda>_ y'. swept_ids y' = mset (map pt_tenantId (filter actionable records)) + swept_ids ?y \<and> finals_ok y')
     (\<lambda>_ _. False) (\<lambda>_. True) ?y"
    by (rule wp_sweepRecords) (simp add: finals_ok_def)
  with assms show ?thesis
    by (auto simp: recoverPersistedTenants_def wp_def bindE_def getE_def swept_ids_def finals_ok_def
        list_all_iff split: prod.splits outcome.splits)
qed

text \<open>A record for the witnesses, and a sweep state to start from.\<close>

definition sample_record :: "string \<Rightarrow> bump_state \<Rightarrow> persisted_tenant" where
  "sample_record tid st = \<lparr>pt_tenantId = tid, pt_state = state_name st, pt_pageSent = False,
     pt_updatedAt = [], pt_bumpId = None, pt_reason = None\<rparr>"

definition empty_sweep :: "unit sweep" where
  "empty_sweep = \<lparr>sw_world = (), sw_trace = [], sw_recovered = [], sw_failed = []\<rparr>"

lemma sweep_accounts_for_every_tenant_witness:
  "\<forall>e. fst (recoverPersistedTenants (returnE [sample_record ''t1'' Done, sample_record ''t2'' Closed])
     (\<lambda>_. Inr calm_deps) empty_sweep) \<noteq> Throw e"
  using sweep_accounts_for_every_tenant [of "returnE [sample_record ''t1'' Done, sample_record ''t2'' Closed]"
      empty_sweep, OF _ prod.collapse [symmetric]]
  by (auto simp: returnE_def)

lemma emits_recoverOne:
  fixes buildDeps :: "string \<Rightarrow> js_exn + 'w bump_deps"
  shows "emits sw_trace (\<lambda>tev. recovery_event (snd tev)) (recoverOne buildDeps rec)"
proof (rule emitsI)
  fix y :: "'w sweep"
  have ev: "list_all recovery_event (trace (snd (runRecoveryAction d rec (recovery_ring rec (sw_world y)))))" for d
    using emitsD [OF emits_runRecoveryAction, where s = "recovery_ring rec (sw_world y)"]
    by (auto simp: recovery_ring_def)
  show "\<exists>es. sw_trace (snd (recoverOne buildDeps rec y)) = sw_trace y @ es \<and>
      list_all (\<lambda>tev. recovery_event (snd tev)) es"
  proof (cases "buildDeps (pt_tenantId rec)")
    case (Inr d)
    obtain r s where "runRecoveryAction d rec (recovery_ring rec (sw_world y)) = (r, s)" by fastforce
    with ev [of d] Inr show ?thesis
      by (auto simp: recoverOne_def tagged_def Let_def list_all_iff split: outcome.split)
  qed (simp add: recoverOne_def Let_def)
qed

lemma emits_sweepRecords:
  assumes "\<And>rec. emits sw_trace P (recoverOne buildDeps rec)"
  shows "emits sw_trace P (sweepRecords buildDeps records)"
  unfolding sweepRecords_def by (induction records) (auto intro!: emits_intros assms)

text \<open>C23: Whatever states a crash left on disk and however the dependencies behave, the recovery
  sweep never takes a backup and never applies a migration for any tenant.\<close>

theorem sweep_never_applies:
  shows "\<not> (\<exists>tenant. (tenant, EvApply) \<in> set (sw_trace (snd (sweepRecords buildDeps records
      \<lparr>sw_world = w, sw_trace = [], sw_recovered = [], sw_failed = []\<rparr>))) \<or>
    (tenant, EvBackup) \<in> set (sw_trace (snd (sweepRecords buildDeps records
      \<lparr>sw_world = w, sw_trace = [], sw_recovered = [], sw_failed = []\<rparr>))))"
  using emitsD [OF emits_sweepRecords [where buildDeps = buildDeps and records = records, OF emits_recoverOne],
      where s = "\<lparr>sw_world = w, sw_trace = [], sw_recovered = [], sw_failed = []\<rparr>"]
  by (auto simp: list_all_iff recovery_event_def)

lemma recoverUnpagedFailure_pages:
  assumes "b_state (machine s) = FailedUnsafe" "\<not> b_pageSent (machine s)"
  shows "EvPage reason (b_bumpId (machine s) @ '':'' @ reason) \<in>
     set (trace (snd (recoverUnpagedFailure d reason s)))"
proof -
  let ?I = "\<lambda>u. EvPage reason (b_bumpId (machine s) @ '':'' @ reason) \<in> set (trace u)"
  have "wp (recoverUnpagedFailure d reason) (\<lambda>_. ?I) (\<lambda>_. ?I) ?I s"
    unfolding recoverUnpagedFailure_def get_state_def
    apply (simp add: assms)
    apply (rule wp_callD)
    subgoal for x u
      by (rule wp_persistSnapshot) (auto simp: awaited_def dedupeKey_def)
    by (auto simp: awaited_def dedupeKey_def)
  then show ?thesis by (auto simp: wp_def split: prod.splits outcome.splits)
qed

lemma recoverOne_appends: "\<exists>es. sw_trace (snd (recoverOne buildDeps rec y)) = sw_trace y @ es"
  by (auto simp: recoverOne_def tagged_def Let_def split: sum.split prod.split outcome.split)

lemma sweep_appends:
  "\<exists>es. sw_trace (snd (sweepRecords buildDeps records y)) = sw_trace y @ es"
proof -
  have "emits sw_trace (\<lambda>_. True) (recoverOne buildDeps rec)" for rec
    using recoverOne_appends by (auto simp: emits_def list_all_iff)
  from emitsD [OF emits_sweepRecords [OF this]] show ?thesis by blast
qed

text \<open>C24: An owed page is not lost to another tenant: a sweep that the process survives attempts
  the page of every \<open>failed-unsafe\<close> record not yet marked as paged whose dependencies can be
  built, with the key of the live run, whatever happened to the tenants before it.\<close>

theorem sweep_pages_every_owed_failure:
  assumes "rec \<in> set records" "pt_state rec = ''failed-unsafe''" "\<not> pt_pageSent rec"
    and "buildDeps (pt_tenantId rec) = Inr d"
    and "sweepRecords buildDeps records y = (Ok (), y')"
    and "reason = coalesce (pt_reason rec) ''recovered unpaged failure after a crash''"
  shows "(pt_tenantId rec, EvPage reason (coalesce (pt_bumpId rec) (pt_tenantId rec) @ '':'' @ reason))
    \<in> set (sw_trace y')"
  using assms(1,5)
proof (induction records arbitrary: y)
  case (Cons rec0 records)
  let ?key = "coalesce (pt_bumpId rec) (pt_tenantId rec) @ '':'' @ reason"
  obtain r1 y1 where one: "whenE (actionable rec0) (recoverOne buildDeps rec0) y = (r1, y1)" by fastforce
  from Cons.prems(2) one have r1: "r1 = Ok ()" and rest: "sweepRecords buildDeps records y1 = (Ok (), y')"
    by (auto simp: sweepRecords_def thenE_def bindE_def split: outcome.splits)
  show ?case
  proof (cases "rec \<in> set records")
    case True
    then show ?thesis using Cons.IH rest by blast
  next
    case False
    then have rec0: "rec0 = rec" using Cons.prems(1) by simp
    have st: "state_of_name (pt_state rec) = Some FailedUnsafe"
      using assms(2) state_of_name_name [of FailedUnsafe] by (simp add: state_name_def)
    have act: "actionable rec"
      using assms(2,3) by (simp add: actionable_def NO_ACTION_STATES_def state_name_def)
    let ?s = "recovery_ring rec (sw_world y)"
    have "EvPage reason ?key \<in> set (trace (snd (runRecoveryAction d rec ?s)))"
      using recoverUnpagedFailure_pages [of ?s reason d] st assms(3,6)
      by (simp add: runRecoveryAction_def recovery_ring_def rehydrated_def new_bump_def coalesce_def)
    then have "(pt_tenantId rec, EvPage reason ?key) \<in> set (sw_trace y1)"
      using one act assms(4) r1 rec0
      by (auto simp: whenE_def recoverOne_def tagged_def Let_def split: prod.splits outcome.splits)
    with sweep_appends [of buildDeps records y1] rest show ?thesis by auto
  qed
qed simp

lemma sweep_owed_witness_run:
  "fst (sweepRecords (\<lambda>t. if t = ''t1'' then Inl JsOther else Inr calm_deps)
     [sample_record ''t1'' Applying, sample_record ''t2'' FailedUnsafe] empty_sweep) = Ok ()"
  by (simp add: sweepRecords_def actionable_def NO_ACTION_STATES_def sample_record_def recoverOne_def
      runRecoveryAction_def recoverUnpagedFailure_def recovery_ring_def rehydrated_def new_bump_def
      state_of_name_def all_states_def state_name_def coalesce_def calm_deps_def empty_sweep_def
      get_state_def thenE_def bindE_def whenE_def getE_def modifyE_def returnE_def callD_def
      observe_def persistSnapshot_def snapshot_def set_pageSent_def tagged_def Let_def)

lemma sweep_pages_every_owed_failure_witness:
  "(''t2'', EvPage ''recovered unpaged failure after a crash''
      (''t2'' @ '':'' @ ''recovered unpaged failure after a crash''))
    \<in> set (sw_trace (snd (sweepRecords (\<lambda>t. if t = ''t1'' then Inl JsOther else Inr calm_deps)
     [sample_record ''t1'' Applying, sample_record ''t2'' FailedUnsafe] empty_sweep)))"
proof -
  let ?bd = "\<lambda>t. if t = ''t1'' then Inl JsOther else Inr calm_deps"
  let ?rs = "[sample_record ''t1'' Applying, sample_record ''t2'' FailedUnsafe]"
  obtain y' where y': "sweepRecords ?bd ?rs empty_sweep = (Ok (), y')"
    using sweep_owed_witness_run by (metis prod.collapse)
  have "(''t2'', EvPage ''recovered unpaged failure after a crash''
      (''t2'' @ '':'' @ ''recovered unpaged failure after a crash'')) \<in> set (sw_trace y')"
    using sweep_pages_every_owed_failure [of "sample_record ''t2'' FailedUnsafe" ?rs ?bd calm_deps,
        OF _ _ _ _ y' refl]
    by (simp add: sample_record_def state_name_def coalesce_def)
  then show ?thesis by (simp only: y' snd_conv)
qed

section \<open>The store as recovery sees it\<close>

text \<open>
  What a store promises: a save is read back until a later save or removal of the same file, and
  leaves every other file alone.  \<open>file_of\<close> is the identity under which a tenant is kept.
\<close>

locale tenant_state_store =
  fixes file_of :: "string \<Rightarrow> 'k"
    and save :: "persisted_tenant \<Rightarrow> 's \<Rightarrow> 's"
    and load :: "string \<Rightarrow> 's \<Rightarrow> js_exn + persisted_tenant option"
    and remove :: "string \<Rightarrow> 's \<Rightarrow> js_exn + 's"
  assumes load_save: "load t (save rec s) =
      (if file_of t = file_of (pt_tenantId rec) then Inr (Some rec) else load t s)"
    and load_remove: "remove t' s = Inr s' \<Longrightarrow>
      load t s' = (if file_of t = file_of t' then Inr None else load t s)"
begin

lemma load_after_saves:
  "load t (foldl (\<lambda>s rec. save rec s) s recs) =
     (case filter (\<lambda>rec. file_of (pt_tenantId rec) = file_of t) recs of
        [] \<Rightarrow> load t s | kept \<Rightarrow> Inr (Some (last kept)))"
  by (induction recs arbitrary: s) (auto simp: load_save split: list.split)

lemma load_other_after_saves:
  "\<forall>rec \<in> set recs. file_of (pt_tenantId rec) \<noteq> file_of t \<Longrightarrow>
     load t (foldl (\<lambda>s rec. save rec s) s recs) = load t s"
  by (induction recs arbitrary: s) (auto simp: load_save)

end

interpretation fs: tenant_state_store fileNameFor store_save store_load store_remove
  by unfold_locales
    (auto simp: store_save_def store_load_def store_remove_def parse_stored_def split: option.splits)

lemma safe_fileNameFor:
  "all_in file_safe t \<Longrightarrow> fileNameFor t = t @ ''.json''"
  by (simp add: fileNameFor_def all_in_def list_all_iff map_idI)

text \<open>For tenant ids made of the characters the file name keeps, the store is a map: after
  any sequence of saves, loading a tenant gives the last record saved for that very tenant, or what
  was there before if there was none.\<close>

theorem store_returns_last_save:
  assumes "all_in file_safe tenant" "\<And>rec. rec \<in> set recs \<Longrightarrow> all_in file_safe (pt_tenantId rec)"
  shows "store_load tenant (foldl (\<lambda>dir rec. store_save rec dir) dir recs) =
    (case filter (\<lambda>rec. pt_tenantId rec = tenant) recs of
       [] \<Rightarrow> store_load tenant dir | kept \<Rightarrow> Inr (Some (last kept)))"
proof -
  have "filter (\<lambda>rec. fileNameFor (pt_tenantId rec) = fileNameFor tenant) recs =
      filter (\<lambda>rec. pt_tenantId rec = tenant) recs"
    using assms by (intro filter_cong) (simp_all add: safe_fileNameFor)
  then show ?thesis by (simp add: fs.load_after_saves)
qed

lemma safe_ids: "all_in file_safe ''t1''" "all_in file_safe ''t2''"
  by (simp_all add: file_safe_def lowers_def digits_def)

lemma store_returns_last_save_witness:
  "store_load ''t1'' (foldl (\<lambda>dir rec. store_save rec dir) None
      [sample_record ''t1'' Pending, sample_record ''t2'' Done, sample_record ''t1'' Applying]) =
    Inr (Some (sample_record ''t1'' Applying))"
  by (rule trans [OF store_returns_last_save]) (use safe_ids in \<open>auto simp: sample_record_def\<close>)

end
