(* ===== verification/Async_Mutex.thy ===== *)
theory Async_Mutex
  imports Prelude
begin

text \<open>
  The promise-chain mutex, written three times in the sources with the same body:
  \<open>createApplyLock\<close> (\<open>ring-controller/src/applyLock.ts\<close>), \<open>createAsyncMutex\<close>
  (\<open>broker/src/asyncMutex.ts\<close>, used through \<open>slotLock.ts\<close>) and the \<open>queue\<close> of
  \<open>createTrafficCounterStore\<close> (\<open>demo-gate/src/trafficCounter.ts\<close>).

  \<open>chain\<close> is the closure's state: the result promise of every call made so far, each with the
  promise it was chained on, and \<open>tail\<close>, the promise the next call will chain on.  A step of the
  event loop calls \<open>run\<close>, starts a callback whose predecessor has settled (either way, which is
  \<open>tail.then(fn, fn)\<close>), or settles the promise of a callback that ran.  The invariant gives
  mutual exclusion, first-in first-out order and progress after a rejection; the locale
  \<open>fifo_lock\<close> states what clients rely on, and the client system \<open>sys\<close> shows that
  read-modify-write bodies run under the mutex are serialised.
\<close>

section \<open>The chain\<close>

datatype call_status = Queued | Running | Settled bool

record chain =
  calls :: "(nat option \<times> call_status) list"
  tail :: "nat option"

definition new_chain :: chain where
  "new_chain = \<lparr>calls = [], tail = None\<rparr>"

definition status_of :: "chain \<Rightarrow> nat \<Rightarrow> call_status option" where
  "status_of c i = (if i < length (calls c) then Some (snd (calls c ! i)) else None)"

fun is_settled :: "call_status \<Rightarrow> bool" where
  "is_settled (Settled _) = True"
| "is_settled _ = False"

text \<open>\<open>None\<close> is the initial \<open>Promise.resolve()\<close>.\<close>

fun promise_settled :: "chain \<Rightarrow> nat option \<Rightarrow> bool" where
  "promise_settled c None = True"
| "promise_settled c (Some i) = (case status_of c i of Some st \<Rightarrow> is_settled st | None \<Rightarrow> False)"

definition run_call :: "chain \<Rightarrow> chain" where
  "run_call c = c\<lparr>calls := calls c @ [(tail c, Queued)], tail := Some (length (calls c))\<rparr>"

definition set_status :: "chain \<Rightarrow> nat \<Rightarrow> call_status \<Rightarrow> chain" where
  "set_status c i st = c\<lparr>calls := (calls c)[i := (fst (calls c ! i), st)]\<rparr>"

definition start_call :: "chain \<Rightarrow> nat \<Rightarrow> chain option" where
  "start_call c i =
     (if status_of c i = Some Queued \<and> promise_settled c (fst (calls c ! i))
      then Some (set_status c i Running) else None)"

definition settle_call :: "chain \<Rightarrow> nat \<Rightarrow> bool \<Rightarrow> chain option" where
  "settle_call c i fulfilled =
     (if status_of c i = Some Running then Some (set_status c i (Settled fulfilled)) else None)"

inductive mutex_step :: "chain \<Rightarrow> chain \<Rightarrow> bool" where
  call: "mutex_step c (run_call c)"
| start: "start_call c i = Some c' \<Longrightarrow> mutex_step c c'"
| settle: "settle_call c i fulfilled = Some c' \<Longrightarrow> mutex_step c c'"

inductive mutex_reachable :: "chain \<Rightarrow> bool" where
  init: "mutex_reachable new_chain"
| step: "mutex_reachable c \<Longrightarrow> mutex_step c c' \<Longrightarrow> mutex_reachable c'"

inductive_cases mutex_stepE: "mutex_step c c'"

text \<open>
  The invariant: each call is chained on the one before it, and the calls are a settled prefix,
  at most one running call, and a queued rest.
\<close>

definition chained :: "chain \<Rightarrow> bool" where
  "chained c \<longleftrightarrow>
     (\<forall>i < length (calls c). fst (calls c ! i) = (if i = 0 then None else Some (i - 1))) \<and>
     tail c = (if calls c = [] then None else Some (length (calls c) - 1))"

definition staged :: "chain \<Rightarrow> bool" where
  "staged c \<longleftrightarrow> (\<forall>i < length (calls c). \<forall>j < i.
     snd (calls c ! i) \<noteq> Queued \<longrightarrow> is_settled (snd (calls c ! j)))"

definition chain_inv :: "chain \<Rightarrow> bool" where
  "chain_inv c \<longleftrightarrow> chained c \<and> staged c"

lemma chain_inv_new: "chain_inv new_chain"
  by (simp add: chain_inv_def chained_def staged_def new_chain_def)

lemma set_status_simps [simp]:
  "length (calls (set_status c i st)) = length (calls c)" "tail (set_status c i st) = tail c"
  "status_of (set_status c i st) j =
     (if j = i \<and> i < length (calls c) then Some st else status_of c j)"
  by (auto simp: set_status_def status_of_def)

lemma fst_calls_set_status:
  "j < length (calls c) \<Longrightarrow> fst (calls (set_status c i st) ! j) = fst (calls c ! j)"
  by (cases "i = j") (simp_all add: set_status_def)

lemma snd_calls_set_status:
  "j < length (calls c) \<Longrightarrow> snd (calls (set_status c i st) ! j) = (if j = i then st else snd (calls c ! j))"
  by (cases "i = j") (simp_all add: set_status_def)

lemma chained_set_status: "chained c \<Longrightarrow> chained (set_status c i st)"
  by (auto simp: chained_def fst_calls_set_status) (auto simp: set_status_def split: if_splits)

lemma chain_inv_step:
  assumes "chain_inv c" "mutex_step c c'" shows "chain_inv c'"
  using assms(2)
proof (cases rule: mutex_step.cases)
  case call
  with assms(1) show ?thesis
    by (auto simp: chain_inv_def chained_def staged_def run_call_def nth_append less_Suc_eq)
next
  case (start i)
  then have c': "c' = set_status c i Running" and i: "i < length (calls c)"
    and pred: "promise_settled c (fst (calls c ! i))" and q: "snd (calls c ! i) = Queued"
    by (auto simp: start_call_def status_of_def split: if_splits)
  have last: "is_settled (snd (calls c ! (i - 1)))" if "0 < i"
    using assms(1) that i pred
    by (auto simp: chain_inv_def chained_def status_of_def split: if_splits)
  have "is_settled (snd (calls c ! j))" if "j < i" for j
  proof (cases "j = i - 1")
    case True
    with last that show ?thesis by auto
  next
    case False
    with that have "j < i - 1" "snd (calls c ! (i - 1)) \<noteq> Queued" using last by auto
    with assms(1) i show ?thesis
      unfolding chain_inv_def staged_def by (meson less_imp_diff_less)
  qed
  moreover have "staged c" using assms(1) by (simp add: chain_inv_def)
  ultimately have "staged c'"
    using q unfolding staged_def c' by (auto simp: snd_calls_set_status) (metis is_settled.simps(2))
  with assms(1) show ?thesis by (simp add: chain_inv_def c' chained_set_status)
next
  case (settle i fulfilled)
  then have c': "c' = set_status c i (Settled fulfilled)" and r: "snd (calls c ! i) = Running"
    by (auto simp: settle_call_def status_of_def split: if_splits)
  with assms(1) show ?thesis
    by (auto simp: chain_inv_def chained_set_status staged_def snd_calls_set_status)
qed

lemma reachable_inv: "mutex_reachable c \<Longrightarrow> chain_inv c"
  by (induction rule: mutex_reachable.induct) (auto intro: chain_inv_new chain_inv_step)

section \<open>The interface of a first-in first-out lock\<close>

locale fifo_lock =
  fixes reachable :: "'c \<Rightarrow> bool" and status :: "'c \<Rightarrow> nat \<Rightarrow> call_status option"
  assumes before_settled:
      "reachable c \<Longrightarrow> status c i = Some st \<Longrightarrow> st \<noteq> Queued \<Longrightarrow> j < i \<Longrightarrow>
         \<exists>fulfilled. status c j = Some (Settled fulfilled)"
begin

lemma exclusive:
  "reachable c \<Longrightarrow> status c i = Some Running \<Longrightarrow> status c j = Some Running \<Longrightarrow> i = j"
  by (metis before_settled call_status.distinct(1,5) linorder_neqE_nat option.inject)

lemma after_queued:
  "reachable c \<Longrightarrow> status c i = Some Running \<Longrightarrow> i < j \<Longrightarrow> status c j = None \<or> status c j = Some Queued"
  by (metis before_settled call_status.distinct(5) option.exhaust option.inject)

text \<open>
  What the bodies did so far, read off in call order, ends with what the running one did: the
  bodies behind it have not begun.
\<close>

lemma serial_split:
  assumes "reachable c" "status c i = Some Running" "i < n"
    and "\<And>j. j < n \<Longrightarrow> status c j = Some Queued \<Longrightarrow> performed j = []"
    and "\<And>j. j < n \<Longrightarrow> status c j \<noteq> None"
  shows "concat (map performed [0..<n]) = concat (map performed [0..<i]) @ performed i"
proof -
  have "performed j = []" if "i < j" "j < n" for j
    using after_queued [OF assms(1,2) that(1)] assms(4,5) that by blast
  then have "concat (map performed [Suc i..<n]) = []" by simp
  moreover have "[0..<n] = [0..<i] @ i # [Suc i..<n]"
    using assms(3) by (metis less_imp_add_positive upt_add_eq_append upt_conv_Cons
        le0 less_add_same_cancel1 plus_nat.add_0)
  ultimately show ?thesis by simp
qed

end

interpretation mx: fifo_lock mutex_reachable status_of
proof
  fix c i st j
  assume "mutex_reachable c" "status_of c i = Some st" "st \<noteq> Queued" "j < i"
  then have "i < length (calls c)" "snd (calls c ! i) \<noteq> Queued" "staged c"
    using reachable_inv [of c] by (auto simp: status_of_def chain_inv_def split: if_splits)
  with \<open>j < i\<close> have "is_settled (snd (calls c ! j))" "j < length (calls c)"
    by (auto simp: staged_def)
  then show "\<exists>fulfilled. status_of c j = Some (Settled fulfilled)"
    by (cases "snd (calls c ! j)") (simp_all add: status_of_def)
qed

section \<open>Read-modify-write under the lock\<close>

text \<open>
  Callers whose bodies are sequences of atomic steps on a shared state \<open>'s\<close> (between two
  \<open>await\<close>s nothing else runs).  A body runs while its promise is pending and may stop early,
  rejecting.  \<open>performed\<close> is what each body has done so far.
\<close>

record 's sys =
  lock :: chain
  bodies :: "('s \<Rightarrow> 's) list list"
  progress :: "nat list"
  shared :: 's

definition performed :: "'s sys \<Rightarrow> nat \<Rightarrow> ('s \<Rightarrow> 's) list" where
  "performed y i = take (progress y ! i) (bodies y ! i)"

fun exec :: "('s \<Rightarrow> 's) list \<Rightarrow> 's \<Rightarrow> 's" where
  "exec [] x = x"
| "exec (f # fs) x = exec fs (f x)"

lemma exec_append: "exec (fs @ gs) x = exec gs (exec fs x)"
  by (induction fs arbitrary: x) auto

definition new_sys :: "'s \<Rightarrow> 's sys" where
  "new_sys x = \<lparr>lock = new_chain, bodies = [], progress = [], shared = x\<rparr>"

inductive sys_reachable :: "'s \<Rightarrow> 's sys \<Rightarrow> bool" for x0 :: 's where
  sys_init: "sys_reachable x0 (new_sys x0)"
| sys_call: "sys_reachable x0 y \<Longrightarrow> sys_reachable x0
     (y\<lparr>lock := run_call (lock y), bodies := bodies y @ [body], progress := progress y @ [0]\<rparr>)"
| sys_start: "sys_reachable x0 y \<Longrightarrow> start_call (lock y) i = Some c \<Longrightarrow> sys_reachable x0 (y\<lparr>lock := c\<rparr>)"
| sys_exec: "sys_reachable x0 y \<Longrightarrow> status_of (lock y) i = Some Running \<Longrightarrow>
     progress y ! i < length (bodies y ! i) \<Longrightarrow> sys_reachable x0
     (y\<lparr>shared := (bodies y ! i ! (progress y ! i)) (shared y),
        progress := (progress y)[i := Suc (progress y ! i)]\<rparr>)"
| sys_settle: "sys_reachable x0 y \<Longrightarrow> settle_call (lock y) i fulfilled = Some c \<Longrightarrow>
     (fulfilled \<longrightarrow> progress y ! i = length (bodies y ! i)) \<Longrightarrow> sys_reachable x0 (y\<lparr>lock := c\<rparr>)"

definition sys_inv :: "'s \<Rightarrow> 's sys \<Rightarrow> bool" where
  "sys_inv x0 y \<longleftrightarrow> mutex_reachable (lock y) \<and> length (bodies y) = length (calls (lock y)) \<and>
     length (progress y) = length (calls (lock y)) \<and>
     (\<forall>i < length (calls (lock y)). status_of (lock y) i = Some Queued \<longrightarrow> progress y ! i = 0) \<and>
     (\<forall>i < length (calls (lock y)). status_of (lock y) i = Some (Settled True) \<longrightarrow>
        progress y ! i = length (bodies y ! i)) \<and>
     shared y = exec (concat (map (performed y) [0..<length (calls (lock y))])) x0"

lemma sys_inv_lock:
  assumes "sys_inv x0 y" "mutex_step (lock y) c" "length (calls c) = length (calls (lock y))"
    and "\<And>i. status_of c i = Some Queued \<Longrightarrow> status_of (lock y) i = Some Queued"
    and "\<And>i. status_of c i = Some (Settled True) \<Longrightarrow> status_of (lock y) i = Some (Settled True) \<or>
          progress y ! i = length (bodies y ! i)"
  shows "sys_inv x0 (y\<lparr>lock := c\<rparr>)"
proof -
  have reach: "mutex_reachable c"
    using assms(1,2) by (auto simp: sys_inv_def intro: mutex_reachable.step)
  have perf: "performed (y\<lparr>lock := c\<rparr>) = performed y"
    by (rule ext) (simp add: performed_def)
  from assms(1) have "\<forall>i < length (calls (lock y)). status_of c i = Some (Settled True) \<longrightarrow>
      progress y ! i = length (bodies y ! i)"
    using assms(5) by (auto simp: sys_inv_def)
  with assms(1,4) reach show ?thesis
    by (simp add: sys_inv_def perf assms(3))
qed

lemma sys_inv_exec:
  assumes inv: "sys_inv x0 y" and run: "status_of (lock y) i = Some Running"
    and p: "progress y ! i < length (bodies y ! i)"
  shows "sys_inv x0 (y\<lparr>shared := (bodies y ! i ! (progress y ! i)) (shared y),
        progress := (progress y)[i := Suc (progress y ! i)]\<rparr>)" (is "sys_inv x0 ?y")
proof -
  let ?n = "length (calls (lock y))"
  have i: "i < ?n" using run by (simp add: status_of_def split: if_splits)
  have len: "length (progress y) = ?n" using inv by (simp add: sys_inv_def)
  have reach: "mutex_reachable (lock y)" using inv by (simp add: sys_inv_def)
  have queued: "performed z j = []" if "z = y \<or> z = ?y" "j < ?n" "status_of (lock y) j = Some Queued" for z j
  proof -
    have "j \<noteq> i" using that run by auto
    then show ?thesis
      using that inv run by (auto simp: sys_inv_def performed_def)
  qed
  have called: "status_of (lock y) j \<noteq> None" if "j < ?n" for j
    using that by (simp add: status_of_def)
  have split_y: "concat (map (performed y) [0..<?n]) = concat (map (performed y) [0..<i]) @ performed y i"
    by (rule mx.serial_split [OF reach run i]) (auto intro: queued simp: status_of_def)
  have split_z: "concat (map (performed ?y) [0..<?n]) = concat (map (performed ?y) [0..<i]) @ performed ?y i"
    by (rule mx.serial_split [OF reach run i]) (auto intro: queued simp: status_of_def)
  have before: "map (performed ?y) [0..<i] = map (performed y) [0..<i]"
    by (simp add: performed_def)
  have now: "performed ?y i = performed y i @ [bodies y ! i ! (progress y ! i)]"
    using i len p by (simp add: performed_def take_Suc_conv_app_nth)
  have "shared ?y = exec (concat (map (performed ?y) [0..<?n])) x0"
    using inv unfolding split_z before now
    by (simp add: sys_inv_def split_y exec_append)
  moreover have other: "(progress y)[i := Suc (progress y ! i)] ! j = progress y ! j"
    if "status_of (lock y) j = Some st" "st \<noteq> Running" for j st
    using that run by (metis nth_list_update_neq option.inject)
  ultimately show ?thesis
    using inv by (simp add: sys_inv_def other)
qed

lemma sys_reachable_inv: "sys_reachable x0 y \<Longrightarrow> sys_inv x0 y"
proof (induction rule: sys_reachable.induct)
  case sys_init
  show ?case
    using mutex_reachable.init by (simp add: sys_inv_def new_sys_def) (simp add: new_chain_def)
next
  case (sys_call y body)
  let ?n = "length (calls (lock y))"
  let ?y = "y\<lparr>lock := run_call (lock y), bodies := bodies y @ [body], progress := progress y @ [0]\<rparr>"
  have st: "status_of (run_call (lock y)) i = (if i = ?n then Some Queued else status_of (lock y) i)" for i
    by (auto simp: status_of_def run_call_def nth_append)
  have n: "length (calls (run_call (lock y))) = Suc ?n" by (simp add: run_call_def)
  have same: "map (performed ?y) [0..<?n] = map (performed y) [0..<?n]"
    using sys_call.IH by (simp add: performed_def sys_inv_def nth_append)
  have new: "performed ?y ?n = []"
    using sys_call.IH by (simp add: performed_def sys_inv_def nth_append)
  have "concat (map (performed ?y) [0..<Suc ?n]) = concat (map (performed y) [0..<?n])"
    using new by (simp add: same del: map_eq_conv)
  with sys_call.IH show ?case
    by (auto simp: sys_inv_def n st nth_append less_Suc_eq intro: mutex_reachable.step mutex_step.call)
next
  case (sys_start y i c)
  then show ?case
    by (intro sys_inv_lock [OF sys_start.IH mutex_step.start])
      (auto simp: start_call_def split: if_splits)
next
  case (sys_exec y i)
  then show ?case by (intro sys_inv_exec)
next
  case (sys_settle y i fulfilled c)
  then show ?case
    by (intro sys_inv_lock [OF sys_settle.IH mutex_step.settle])
      (auto simp: settle_call_def split: if_splits)
qed

section \<open>Properties\<close>

text \<open>C21: Mutual exclusion and order of the promise chain: once a call's callback has been
  started, every earlier call has settled and no other callback is running, however the calls were
  interleaved and whichever of them rejected.\<close>

theorem mutex_exclusive_fifo:
  assumes "mutex_reachable c" "status_of c i = Some Running"
  shows "(\<forall>j. status_of c j = Some Running \<longrightarrow> j = i) \<and>
    (\<forall>j < i. \<exists>fulfilled. status_of c j = Some (Settled fulfilled)) \<and>
    (\<forall>j > i. status_of c j = None \<or> status_of c j = Some Queued)"
  using assms mx.exclusive mx.before_settled [OF assms] mx.after_queued [OF assms] by blast

definition one_running :: chain where
  "one_running = the (start_call (run_call (run_call new_chain)) 0)"

lemma one_running_reachable: "mutex_reachable one_running"
proof (rule mutex_reachable.step [OF mutex_reachable.step [OF mutex_reachable.step [OF mutex_reachable.init mutex_step.call] mutex_step.call]])
  show "mutex_step (run_call (run_call new_chain)) one_running"
    by (rule mutex_step.start [where i = 0])
      (simp add: one_running_def start_call_def status_of_def run_call_def new_chain_def)
qed

lemma mutex_exclusive_fifo_witness:
  "status_of one_running 0 = Some Running \<and> status_of one_running 1 \<in> {None, Some Queued}"
proof -
  have "status_of one_running 0 = Some Running"
    by (simp add: one_running_def start_call_def status_of_def run_call_def new_chain_def set_status_def)
  with mutex_exclusive_fifo [OF one_running_reachable this] show ?thesis by auto
qed

lemma first_unsettled:
  assumes "status_of c i = Some st" "\<not> is_settled st"
  obtains k where "k \<le> i" "\<exists>st. status_of c k = Some st \<and> \<not> is_settled st"
    "\<forall>j < k. \<exists>st. status_of c j = Some st \<and> is_settled st"
proof -
  let ?P = "\<lambda>k. \<exists>st. status_of c k = Some st \<and> \<not> is_settled st"
  have P: "?P i" using assms by blast
  have "\<exists>st. status_of c j = Some st \<and> is_settled st" if "j < (LEAST k. ?P k)" for j
  proof -
    have "j < length (calls c)"
      using that Least_le [of ?P i, OF P] assms(1) by (auto simp: status_of_def split: if_splits)
    with not_less_Least [OF that] show ?thesis by (auto simp: status_of_def)
  qed
  with LeastI [of ?P, OF P] Least_le [of ?P, OF P] that show thesis by blast
qed

text \<open>The chain never wedges: while any call is pending, one callback is running, or the next
  one in order can be started now, even if every call before it was rejected; and settling a call
  changes the status of no other.\<close>

theorem mutex_never_wedges:
  assumes "mutex_reachable c" "status_of c i = Some st" "\<not> is_settled st"
  shows "\<exists>k \<le> i. status_of c k = Some Running \<and>
        (\<forall>fulfilled. \<exists>c'. settle_call c k fulfilled = Some c' \<and>
           status_of c' k = Some (Settled fulfilled) \<and> (\<forall>j. j \<noteq> k \<longrightarrow> status_of c' j = status_of c j)) \<or>
      status_of c k = Some Queued \<and> (\<exists>c'. start_call c k = Some c' \<and> status_of c' k = Some Running)"
proof -
  obtain k st' where k: "k \<le> i" "status_of c k = Some st'" "\<not> is_settled st'"
    and before: "\<forall>j < k. \<exists>st. status_of c j = Some st \<and> is_settled st"
    by (rule first_unsettled [OF assms(2,3)]) blast
  have kl: "k < length (calls c)" using k(2) by (simp add: status_of_def split: if_splits)
  have "promise_settled c (fst (calls c ! k))"
    using reachable_inv [OF assms(1)] kl before
    by (auto simp: chain_inv_def chained_def) (metis One_nat_def diff_Suc_less option.simps(5))
  with k kl show ?thesis
    by (intro exI [of _ k]) (cases st'; auto simp: start_call_def settle_call_def)
qed

lemma one_running_status:
  "status_of one_running 0 = Some Running" "status_of one_running 1 = Some Queued"
  by (simp_all add: one_running_def start_call_def status_of_def run_call_def new_chain_def set_status_def)

lemma mutex_never_wedges_witness:
  "\<exists>k \<le> (1 :: nat). status_of one_running k = Some Running \<or> status_of one_running k = Some Queued"
  using mutex_never_wedges [OF one_running_reachable one_running_status(2)] by fastforce

text \<open>C22: Serialisation: bodies that read and write shared state across several awaits, run under
  the chain, have the effect of running one after the other in call order: the state is the one
  reached by performing, call by call, what each body has done so far.\<close>

theorem mutex_serialises:
  assumes "sys_reachable x0 y"
  shows "shared y = exec (concat (map (\<lambda>i. take (progress y ! i) (bodies y ! i)) [0..<length (bodies y)])) x0"
proof -
  have "performed y = (\<lambda>i. take (progress y ! i) (bodies y ! i))"
    by (rule ext) (simp add: performed_def)
  with sys_reachable_inv [OF assms] show ?thesis by (simp add: sys_inv_def)
qed

definition counted_once :: "nat sys" where
  "counted_once = \<lparr>lock = the (start_call (run_call new_chain) 0), bodies = [[Suc]], progress = [1],
     shared = 1\<rparr>"

lemma counted_once_reachable: "sys_reachable 0 counted_once"
proof -
  let ?c = "the (start_call (run_call new_chain) 0)"
  have c: "start_call (run_call new_chain) 0 = Some ?c" "status_of ?c 0 = Some Running"
    by (simp_all add: start_call_def status_of_def run_call_def new_chain_def set_status_def)
  let ?y = "\<lparr>lock = run_call new_chain, bodies = [[Suc]], progress = [0], shared = 0\<rparr> :: nat sys"
  have "sys_reachable 0 ?y"
    using sys_reachable.sys_call [OF sys_reachable.sys_init [of 0], of "[Suc]"] by (simp add: new_sys_def)
  from sys_reachable.sys_start [OF this, of 0 ?c] c
  have "sys_reachable 0 (?y\<lparr>lock := ?c\<rparr>)" by simp
  from sys_reachable.sys_exec [OF this, of 0] c show ?thesis by (simp add: counted_once_def)
qed

lemma mutex_serialises_witness: "shared counted_once = exec [Suc] 0"
  using mutex_serialises [OF counted_once_reachable] by (simp add: counted_once_def)

end
