(* ===== verification/Lease.thy ===== *)
theory Lease
  imports Prelude "HOL-Library.Word"
begin

unbundle bit_operations_syntax

text \<open>
  The lease of a demo slot: \<open>src/render-core/src/lease.ts\<close>.

  The three branded string types are strings with the predicates of their patterns; a validator
  returns the string or an error that names the field (the wording of messages is not modelled).
  \<open>hashIdOf\<close> is 64-bit FNV-1a, on \<open>64 word\<close> where multiplication wraps.  \<open>JSON.parse\<close> is a
  parameter, from text to the \<open>json\<close> values below.
\<close>

text \<open>A number is a whole one, or the 64 bits of any other double: a fraction, an infinity or a NaN.\<close>

datatype js_number = Whole int | NotWhole "64 word"

datatype json = JNull | JBool bool | JNumber js_number | JString string | JArray "json list"
  | JObject "(string \<times> json) list"

datatype field_error = FieldValidationError string

type_synonym slot_name = string
type_synonym lease_id = string
type_synonym hash_id = string

record slot_lease_record =
  lr_slot :: slot_name
  lr_lease :: lease_id
  lr_hashId :: hash_id

definition slot_name_chars :: string where
  "slot_name_chars = lowers @ digits @ ''-''"

definition valid_slot_name :: "string \<Rightarrow> bool" where
  "valid_slot_name s \<longleftrightarrow> s \<noteq> [] \<and> length s \<le> 63 \<and> all_in slot_name_chars s \<and>
     hd s \<noteq> CHR ''-'' \<and> last s \<noteq> CHR ''-''"

text \<open>Crockford base32: the upper-case letters but I, L, O and U.\<close>

definition crockford :: string where
  "crockford = ''0123456789ABCDEFGHJKMNPQRSTVWXYZ''"

definition valid_lease_id :: "string \<Rightarrow> bool" where
  "valid_lease_id s \<longleftrightarrow> length s = 26 \<and> hd s \<in> set ''01234567'' \<and> all_in crockford s"

definition valid_hash_id :: "string \<Rightarrow> bool" where
  "valid_hash_id s \<longleftrightarrow> length s = 16 \<and> all_in hex_lower s"

text \<open>A value from JSON need not be a string: \<open>assertString\<close> refuses it first.\<close>

definition validate_string :: "(string \<Rightarrow> bool) \<Rightarrow> string \<Rightarrow> json option \<Rightarrow> field_error + string" where
  "validate_string ok field v = (case v of
       Some (JString s) \<Rightarrow> if ok s then Inr s else Inl (FieldValidationError field)
     | _ \<Rightarrow> Inl (FieldValidationError field))"

definition validateSlotName :: "json option \<Rightarrow> string \<Rightarrow> field_error + slot_name" where
  "validateSlotName v field = validate_string valid_slot_name field v"

definition validateLeaseId :: "json option \<Rightarrow> string \<Rightarrow> field_error + lease_id" where
  "validateLeaseId v field = validate_string valid_lease_id field v"

definition validateHashId :: "json option \<Rightarrow> string \<Rightarrow> field_error + hash_id" where
  "validateHashId v field = validate_string valid_hash_id field v"

section \<open>The hash tag\<close>

definition utf8_char :: "char \<Rightarrow> nat list" where
  "utf8_char c = (let n = of_char c in if n < 128 then [n] else [192 + n div 64, 128 + n mod 64])"

definition utf8 :: "string \<Rightarrow> nat list" where
  "utf8 s = concat (map utf8_char s)"

definition FNV_OFFSET_BASIS_64 :: "64 word" where
  "FNV_OFFSET_BASIS_64 = 0xcbf29ce484222325"

definition FNV_PRIME_64 :: "64 word" where
  "FNV_PRIME_64 = 0x100000001b3"

definition fnv1a64 :: "nat list \<Rightarrow> 64 word" where
  "fnv1a64 bytes = foldl (\<lambda>hash byte. (hash XOR of_nat byte) * FNV_PRIME_64) FNV_OFFSET_BASIS_64 bytes"

definition hex_digit :: "nat \<Rightarrow> char" where
  "hex_digit d = hex_lower ! d"

text \<open>\<open>hash.toString(16).padStart(16, '0')\<close>: sixteen digits, most significant first.\<close>

fun hex_digits :: "nat \<Rightarrow> nat \<Rightarrow> string" where
  "hex_digits 0 n = []"
| "hex_digits (Suc k) n = hex_digits k (n div 16) @ [hex_digit (n mod 16)]"

definition fnv1a64Hex :: "string \<Rightarrow> string" where
  "fnv1a64Hex text = hex_digits 16 (unat (fnv1a64 (utf8 text)))"

definition hashIdOf :: "string \<Rightarrow> hash_id" where
  "hashIdOf phc = fnv1a64Hex phc"

lemma hex_digit_in [simp]: "d < 16 \<Longrightarrow> hex_digit d \<in> set hex_lower"
  by (simp add: hex_digit_def hex_lower_def nth_mem del: list.set)

lemma hex_digits_form: "length (hex_digits k n) = k \<and> all_in hex_lower (hex_digits k n)"
  by (induction k arbitrary: n) simp_all

section \<open>The lease record\<close>

definition leaseRecordFileName :: "slot_name \<Rightarrow> string" where
  "leaseRecordFileName slot = slot @ ''.json''"

definition MAX_LEASE_RECORD_BYTES :: nat where
  "MAX_LEASE_RECORD_BYTES = 1024"

definition has_lease_keys :: "(string \<times> json) list \<Rightarrow> bool" where
  "has_lease_keys kvs \<longleftrightarrow> set (map fst kvs) = {''hashId'', ''lease'', ''slot''}"

definition parseSlotLeaseRecord ::
  "(string \<Rightarrow> json option) \<Rightarrow> string \<Rightarrow> slot_name \<Rightarrow> field_error + slot_lease_record" where
  "parseSlotLeaseRecord json_parse text expectedSlot =
     guardS (length text \<le> MAX_LEASE_RECORD_BYTES) (FieldValidationError ''leaseRecord'')
     (case json_parse text of
        Some (JObject kvs) \<Rightarrow>
          guardS (has_lease_keys kvs) (FieldValidationError ''leaseRecord'')
         (bindS (validateSlotName (map_of kvs ''slot'') ''leaseRecord.slot'') (\<lambda>slot.
          guardS (slot = expectedSlot) (FieldValidationError ''leaseRecord.slot'')
         (bindS (validateLeaseId (map_of kvs ''lease'') ''leaseRecord.lease'') (\<lambda>lease.
          bindS (validateHashId (map_of kvs ''hashId'') ''leaseRecord.hashId'') (\<lambda>hashId.
          Inr \<lparr>lr_slot = slot, lr_lease = lease, lr_hashId = hashId\<rparr>)))))
      | _ \<Rightarrow> Inl (FieldValidationError ''leaseRecord''))"

text \<open>What the broker writes, as \<open>JSON.stringify\<close> of the record.\<close>

definition lease_record_json :: "slot_lease_record \<Rightarrow> json" where
  "lease_record_json rec = JObject [(''slot'', JString (lr_slot rec)), (''lease'', JString (lr_lease rec)),
     (''hashId'', JString (lr_hashId rec))]"

definition valid_lease_record :: "slot_lease_record \<Rightarrow> bool" where
  "valid_lease_record rec \<longleftrightarrow> valid_slot_name (lr_slot rec) \<and> valid_lease_id (lr_lease rec) \<and>
     valid_hash_id (lr_hashId rec)"

lemma validate_string_Inr:
  "validate_string ok field v = Inr s \<longleftrightarrow> v = Some (JString s) \<and> ok s"
  by (auto simp: validate_string_def split: option.splits json.splits)

lemmas validate_Inr = validate_string_Inr validateSlotName_def validateLeaseId_def validateHashId_def

lemma parse_lease_record_valid:
  "parseSlotLeaseRecord json_parse text slot = Inr rec \<Longrightarrow> valid_lease_record rec \<and> lr_slot rec = slot"
  unfolding parseSlotLeaseRecord_def
  by (auto simp: guardS_Inr bindS_Inr valid_lease_record_def validate_Inr split: option.splits json.splits)

text \<open>None of the three can split a dot-separated cookie or name another directory.\<close>

lemma slot_name_plain: "valid_slot_name s \<Longrightarrow> CHR ''.'' \<notin> set s \<and> CHR ''/'' \<notin> set s"
  using all_in_notin [of slot_name_chars s "CHR ''.''"] all_in_notin [of slot_name_chars s "CHR ''/''"]
  by (simp add: valid_slot_name_def slot_name_chars_def lowers_def digits_def)

lemma lease_id_plain: "valid_lease_id s \<Longrightarrow> CHR ''.'' \<notin> set s"
  using all_in_notin [of crockford s "CHR ''.''"] by (simp add: valid_lease_id_def crockford_def)

section \<open>Properties\<close>

text \<open>The tag of any PHC string is a valid hash id, so a lease record made from it and a valid
  slot and lease is read back as itself for its own slot, and refused for every other slot.\<close>

theorem lease_record_roundtrip:
  assumes "valid_slot_name slot" "valid_lease_id lease" "length text \<le> MAX_LEASE_RECORD_BYTES"
    and "rec = \<lparr>lr_slot = slot, lr_lease = lease, lr_hashId = hashIdOf phc\<rparr>"
    and "json_parse text = Some (lease_record_json rec)"
  shows "parseSlotLeaseRecord json_parse text slot = Inr rec \<and>
    (\<forall>other. other \<noteq> slot \<longrightarrow> (\<exists>e. parseSlotLeaseRecord json_parse text other = Inl e))"
proof -
  have "valid_hash_id (hashIdOf phc)"
    by (simp add: valid_hash_id_def hashIdOf_def fnv1a64Hex_def hex_digits_form)
  moreover have "has_lease_keys [(''slot'', a), (''lease'', b), (''hashId'', c)]" for a b c
    by (auto simp: has_lease_keys_def)
  ultimately show ?thesis
    using assms by (auto simp: parseSlotLeaseRecord_def lease_record_json_def validateSlotName_def
        validateLeaseId_def validateHashId_def validate_string_def)
qed

lemma lease_record_roundtrip_witness:
  "parseSlotLeaseRecord (\<lambda>_. Some (lease_record_json \<lparr>lr_slot = ''demo-1'',
       lr_lease = ''01J9F4Q7ZC3M8V2K6X0R5T1B9D'', lr_hashId = hashIdOf ''x''\<rparr>)) ''{}'' ''demo-1'' =
     Inr \<lparr>lr_slot = ''demo-1'', lr_lease = ''01J9F4Q7ZC3M8V2K6X0R5T1B9D'', lr_hashId = hashIdOf ''x''\<rparr>"
  using lease_record_roundtrip [of "''demo-1''" "''01J9F4Q7ZC3M8V2K6X0R5T1B9D''" "''{}''" _ "''x''"
     "\<lambda>_. Some (lease_record_json \<lparr>lr_slot = ''demo-1'',
       lr_lease = ''01J9F4Q7ZC3M8V2K6X0R5T1B9D'', lr_hashId = hashIdOf ''x''\<rparr>)", OF _ _ _ refl refl]
  by (simp add: valid_slot_name_def valid_lease_id_def slot_name_chars_def lowers_def digits_def
      crockford_def MAX_LEASE_RECORD_BYTES_def)

end
