(* ===== verification/Gate_Concurrency.thy ===== *)
theory Gate_Concurrency
  imports Async_Mutex Lease
begin

text \<open>
  The two concurrent parts of the demo gate, under \<open>src/services/demo-gate/src\<close>: the
  derivation gate that bounds argon2id work (\<open>derivationGate.ts\<close>) and the traffic counter that
  serialises its read-modify-write of a file (\<open>trafficCounter.ts\<close>).

  The derivation gate is a step relation over its two variables and, as ghost state, which calls
  hold a place.  The traffic counter's \<open>increment\<close> is a body of two atomic steps, run under the
  promise chain of \<open>Async_Mutex\<close>; a file is its text, written by one atomic rename.
\<close>

section \<open>The derivation gate\<close>

record derivation_gate =
  dg_active :: nat
  dg_queue :: "nat list"
  dg_holders :: "nat list"

record gate_bounds =
  gb_maxConcurrent :: nat
  gb_maxQueued :: nat

datatype gate_config_error = BadMaxConcurrent | BadMaxQueued

definition createDerivationGate :: "int \<Rightarrow> int \<Rightarrow> gate_config_error + gate_bounds \<times> derivation_gate" where
  "createDerivationGate maxConcurrent maxQueued =
     guardS (maxConcurrent \<ge> 1) BadMaxConcurrent
    (guardS (maxQueued \<ge> 0) BadMaxQueued
    (Inr (\<lparr>gb_maxConcurrent = nat maxConcurrent, gb_maxQueued = nat maxQueued\<rparr>,
          \<lparr>dg_active = 0, dg_queue = [], dg_holders = []\<rparr>)))"

datatype gate_entry = GateStarted | GateQueued | GateFull

text \<open>\<open>run\<close> up to its first await or the start of \<open>fn\<close>.\<close>

definition gate_enter :: "gate_bounds \<Rightarrow> nat \<Rightarrow> derivation_gate \<Rightarrow> gate_entry \<times> derivation_gate" where
  "gate_enter b call g =
     (if dg_active g \<ge> gb_maxConcurrent b then
        (if length (dg_queue g) \<ge> gb_maxQueued b then (GateFull, g)
         else (GateQueued, g\<lparr>dg_queue := dg_queue g @ [call]\<rparr>))
      else (GateStarted, g\<lparr>dg_active := Suc (dg_active g), dg_holders := dg_holders g @ [call]\<rparr>))"

text \<open>The \<open>finally\<close> of a call whose \<open>fn\<close> settled: \<open>release\<close>, which hands its place on.\<close>

definition gate_release :: "nat \<Rightarrow> derivation_gate \<Rightarrow> derivation_gate" where
  "gate_release call g = (case dg_queue g of
       [] \<Rightarrow> g\<lparr>dg_active := dg_active g - 1, dg_holders := remove1 call (dg_holders g)\<rparr>
     | resume # rest \<Rightarrow>
         g\<lparr>dg_active := Suc (dg_active g - 1), dg_queue := rest,
           dg_holders := remove1 call (dg_holders g) @ [resume]\<rparr>)"

inductive gate_reachable :: "gate_bounds \<Rightarrow> derivation_gate \<Rightarrow> bool" for b where
  gate_new: "gate_reachable b \<lparr>dg_active = 0, dg_queue = [], dg_holders = []\<rparr>"
| gate_run: "gate_reachable b g \<Longrightarrow> gate_reachable b (snd (gate_enter b call g))"
| gate_done: "gate_reachable b g \<Longrightarrow> call \<in> set (dg_holders g) \<Longrightarrow> gate_reachable b (gate_release call g)"

inductive_cases gate_reachableE: "gate_reachable b g"

definition gate_inv :: "gate_bounds \<Rightarrow> derivation_gate \<Rightarrow> bool" where
  "gate_inv b g \<longleftrightarrow> dg_active g = length (dg_holders g) \<and> dg_active g \<le> gb_maxConcurrent b \<and>
     length (dg_queue g) \<le> gb_maxQueued b \<and>
     (dg_queue g \<noteq> [] \<longrightarrow> dg_active g = gb_maxConcurrent b)"

lemma gate_reachable_inv: "gate_reachable b g \<Longrightarrow> gate_inv b g"
proof (induction rule: gate_reachable.induct)
  case gate_new
  show ?case by (simp add: gate_inv_def)
next
  case (gate_run g call)
  then show ?case by (auto simp: gate_inv_def gate_enter_def)
next
  case (gate_done g call)
  then have "0 < length (dg_holders g)" by (cases "dg_holders g") auto
  with gate_done show ?case
    by (auto simp: gate_inv_def gate_release_def length_remove1 split: list.split)
qed

text \<open>C30: Bounded and work-conserving: at every moment at most \<open>maxConcurrent\<close> derivations hold a
  place and at most \<open>maxQueued\<close> wait, none waits while a place is free, so a full gate always has a
  holder whose end starts the longest waiting call; and a call is refused only when both bounds are
  reached.\<close>

theorem derivation_gate_bounded:
  assumes "gate_reachable b g" "0 < gb_maxConcurrent b"
  shows "length (dg_holders g) \<le> gb_maxConcurrent b \<and> length (dg_queue g) \<le> gb_maxQueued b \<and>
    (\<forall>first rest. dg_queue g = first # rest \<longrightarrow>
       (\<exists>h \<in> set (dg_holders g). first \<in> set (dg_holders (gate_release h g)) \<and> dg_queue (gate_release h g) = rest)) \<and>
    (\<forall>call. fst (gate_enter b call g) = GateFull \<longrightarrow>
       length (dg_holders g) = gb_maxConcurrent b \<and> length (dg_queue g) = gb_maxQueued b)"
proof -
  have inv: "gate_inv b g" by (rule gate_reachable_inv [OF assms(1)])
  have "\<exists>h \<in> set (dg_holders g). first \<in> set (dg_holders (gate_release h g)) \<and> dg_queue (gate_release h g) = rest"
    if "dg_queue g = first # rest" for first rest
  proof -
    have "dg_holders g \<noteq> []" using inv that assms(2) by (auto simp: gate_inv_def)
    then show ?thesis using that by (intro bexI [of _ "hd (dg_holders g)"]) (simp_all add: gate_release_def)
  qed
  with inv show ?thesis
    by (auto simp: gate_inv_def gate_enter_def split: if_splits)
qed

lemma derivation_gate_bounded_witness:
  "length (dg_holders (snd (gate_enter \<lparr>gb_maxConcurrent = 1, gb_maxQueued = 1\<rparr> 7
      \<lparr>dg_active = 0, dg_queue = [], dg_holders = []\<rparr>))) \<le> 1"
  using derivation_gate_bounded [OF gate_run [OF gate_new], of "\<lparr>gb_maxConcurrent = 1, gb_maxQueued = 1\<rparr>" 7]
  by simp

section \<open>The traffic counter\<close>

record traffic =
  tf_files :: "slot_name \<Rightarrow> string option"
  tf_current :: "nat \<Rightarrow> nat"

text \<open>\<open>Number.parseInt(text, 10)\<close>: white space, a sign, then as many digits as there are.\<close>

definition parse_int10 :: "string \<Rightarrow> int option" where
  "parse_int10 text =
     (let t = dropWhile (\<lambda>c. of_char c \<in> {9, 10, 11, 12, 13, 32, 160 :: nat}) text;
          negative = (t \<noteq> [] \<and> hd t = CHR ''-'');
          body = (if t \<noteq> [] \<and> (hd t = CHR ''-'' \<or> hd t = CHR ''+'') then tl t else t);
          ds = takeWhile (\<lambda>c. c \<in> set digits) body in
      if ds = [] then None
      else Some (if negative then - int (number_of_digits ds) else int (number_of_digits ds)))"

definition stored_count :: "string option \<Rightarrow> nat" where
  "stored_count file = (case file of None \<Rightarrow> 0
     | Some text \<Rightarrow> (case parse_int10 text of Some n \<Rightarrow> if n \<ge> 0 then nat n else 0 | None \<Rightarrow> 0))"

definition read_count :: "nat \<Rightarrow> slot_name \<Rightarrow> traffic \<Rightarrow> traffic" where
  "read_count call slot t = t\<lparr>tf_current := (tf_current t)(call := stored_count (tf_files t slot))\<rparr>"

definition writeCountAtomic :: "nat \<Rightarrow> slot_name \<Rightarrow> traffic \<Rightarrow> traffic" where
  "writeCountAtomic call slot t =
     t\<lparr>tf_files := (tf_files t)(slot := Some (show_nat (tf_current t call + 1)))\<rparr>"

definition increment_body :: "nat \<Rightarrow> slot_name \<Rightarrow> (traffic \<Rightarrow> traffic) list" where
  "increment_body call slot = [read_count call slot, writeCountAtomic call slot]"

lemma parse_show: "parse_int10 (show_nat n) = Some (int n)"
proof -
  have d: "all_in digits (show_nat n)" by simp
  obtain c cs where s: "show_nat n = c # cs" by (cases "show_nat n") auto
  have c: "c \<in> set digits" using d s by simp
  then have ns: "of_char c \<notin> {9, 10, 11, 12, 13, 32, 160 :: nat}" "c \<noteq> CHR ''-''" "c \<noteq> CHR ''+''"
    by (auto simp: digits_def)
  have "takeWhile (\<lambda>c. c \<in> set digits) (show_nat n) = show_nat n"
    using d by (simp add: all_in_def list_all_iff takeWhile_eq_all_conv)
  with ns s show ?thesis
    by (simp add: parse_int10_def Let_def) (metis number_of_show_nat)
qed

lemma stored_count_show [simp]: "stored_count (Some (show_nat n)) = n"
  by (simp add: stored_count_def parse_show)

lemma exec_increment:
  "stored_count (tf_files (exec (increment_body call slot) t) slot') =
     stored_count (tf_files t slot') + (if slot' = slot then 1 else 0)"
  by (simp add: increment_body_def read_count_def writeCountAtomic_def)

lemma exec_increments:
  "stored_count (tf_files (exec (concat (map (\<lambda>i. increment_body i (slots ! i)) [0..<n])) t) slot) =
     stored_count (tf_files t slot) + length (filter (\<lambda>i. slots ! i = slot) [0..<n])"
  by (induction n) (simp_all add: exec_append exec_increment)

text \<open>No admitted request is lost or counted twice: however the increments of concurrent
  requests interleave, once they have all gone through, the count stored for each slot is the old
  one plus the number of requests admitted for it.\<close>

theorem traffic_counts_every_request:
  assumes "sys_reachable t0 y"
    and "\<And>i. i < length (bodies y) \<Longrightarrow> bodies y ! i = increment_body i (slots ! i)"
    and "\<And>i. i < length (bodies y) \<Longrightarrow> status_of (lock y) i = Some (Settled True)"
  shows "stored_count (tf_files (shared y) slot) =
    stored_count (tf_files t0 slot) + length (filter (\<lambda>i. slots ! i = slot) [0..<length (bodies y)])"
proof -
  have inv: "sys_inv t0 y" by (rule sys_reachable_inv [OF assms(1)])
  then have n: "length (bodies y) = length (calls (lock y))" by (simp add: sys_inv_def)
  have "performed y i = increment_body i (slots ! i)" if "i < length (bodies y)" for i
    using that inv assms(2,3) n by (simp add: sys_inv_def performed_def)
  then have c: "map (performed y) [0..<length (bodies y)] = map (\<lambda>i. increment_body i (slots ! i)) [0..<length (bodies y)]"
    by simp
  have "shared y = exec (concat (map (performed y) [0..<length (bodies y)])) t0"
    using inv n by (simp add: sys_inv_def)
  then show ?thesis
    unfolding c by (simp add: exec_increments)
qed

definition no_traffic :: traffic where
  "no_traffic = \<lparr>tf_files = (\<lambda>_. None), tf_current = (\<lambda>_. 0)\<rparr>"

definition one_request :: "traffic sys" where
  "one_request = \<lparr>lock = set_status (set_status (run_call new_chain) 0 Running) 0 (Settled True),
     bodies = [increment_body 0 ''demo-1''], progress = [2],
     shared = exec (increment_body 0 ''demo-1'') no_traffic\<rparr>"

lemma one_request_reachable: "sys_reachable no_traffic one_request"
proof -
  let ?b = "increment_body 0 ''demo-1''"
  let ?c = "set_status (run_call new_chain) 0 Running"
  have st: "start_call (run_call new_chain) 0 = Some ?c" "status_of ?c 0 = Some Running"
    "settle_call ?c 0 True = Some (set_status ?c 0 (Settled True))"
    by (simp_all add: start_call_def settle_call_def status_of_def run_call_def new_chain_def)
       (simp_all add: set_status_def)
  have "sys_reachable no_traffic \<lparr>lock = run_call new_chain, bodies = [?b], progress = [0], shared = no_traffic\<rparr>"
    using sys_reachable.sys_call [OF sys_reachable.sys_init [of no_traffic], of ?b] by (simp add: new_sys_def)
  from sys_reachable.sys_start [OF this, of 0 ?c] st
  have "sys_reachable no_traffic \<lparr>lock = ?c, bodies = [?b], progress = [0], shared = no_traffic\<rparr>" by simp
  from sys_reachable.sys_exec [OF this, of 0] st
  have "sys_reachable no_traffic \<lparr>lock = ?c, bodies = [?b], progress = [1],
      shared = read_count 0 ''demo-1'' no_traffic\<rparr>" by (simp add: increment_body_def)
  from sys_reachable.sys_exec [OF this, of 0] st
  have "sys_reachable no_traffic \<lparr>lock = ?c, bodies = [?b], progress = [2],
      shared = exec ?b no_traffic\<rparr>" by (simp add: increment_body_def numeral_2_eq_2)
  from sys_reachable.sys_settle [OF this, of 0 True] st
  show ?thesis by (simp add: one_request_def increment_body_def)
qed

lemma traffic_counts_every_request_witness:
  "stored_count (tf_files (shared one_request) ''demo-1'') = 1"
proof -
  have st: "status_of (lock one_request) 0 = Some (Settled True)"
    by (simp add: one_request_def run_call_def new_chain_def)
  show ?thesis
    using traffic_counts_every_request [OF one_request_reachable, of "[''demo-1'']" "''demo-1''"] st
    by (simp add: one_request_def no_traffic_def stored_count_def)
qed

end
