(* ===== verification/Encoding.thy ===== *)
theory Encoding
  imports Prelude
begin

text \<open>
  Unpadded base64 as the gate uses it: Node's \<open>Buffer#toString\<close> and \<open>Buffer.from\<close> for
  \<open>base64url\<close> (cookie MACs) and for \<open>base64\<close> with the padding stripped (argon2id salts and tags).
  Bytes are naturals below 256, a text is a list of sextets through one of two alphabets.  The
  decoder ignores the bits of a last partial byte, as Node's does, so decoding is not injective:
  \<open>enc (dec s) = s\<close> is the canonicity check the argon2id parser makes.
\<close>

definition bytes :: "nat list \<Rightarrow> bool" where
  "bytes bs \<longleftrightarrow> list_all (\<lambda>b. b < 256) bs"

definition sextets :: "nat list \<Rightarrow> bool" where
  "sextets xs \<longleftrightarrow> list_all (\<lambda>x. x < 64) xs"

fun enc :: "nat list \<Rightarrow> nat list" where
  "enc [] = []"
| "enc [a] = [a div 4, (a mod 4) * 16]"
| "enc [a, b] = [a div 4, (a mod 4) * 16 + b div 16, (b mod 16) * 4]"
| "enc (a # b # c # r) =
     a div 4 # ((a mod 4) * 16 + b div 16) # ((b mod 16) * 4 + c div 64) # (c mod 64) # enc r"

fun dec :: "nat list \<Rightarrow> nat list" where
  "dec [] = []"
| "dec [x] = []"
| "dec [x, y] = [x * 4 + y div 16]"
| "dec [x, y, z] = [x * 4 + y div 16, (y mod 16) * 16 + z div 4]"
| "dec (x # y # z # w # r) =
     (x * 4 + y div 16) # ((y mod 16) * 16 + z div 4) # ((z mod 4) * 64 + w) # dec r"

lemma bytes_simps [simp]: "bytes []" "bytes (b # bs) \<longleftrightarrow> b < 256 \<and> bytes bs"
  and sextets_simps [simp]: "sextets []" "sextets (x # xs) \<longleftrightarrow> x < 64 \<and> sextets xs"
  by (simp_all add: bytes_def sextets_def)

lemma enc_sextets: "bytes bs \<Longrightarrow> sextets (enc bs)"
  by (induction bs rule: enc.induct) auto

lemma dec_enc: "bytes bs \<Longrightarrow> dec (enc bs) = bs"
proof (induction bs rule: enc.induct)
  case (4 a b c r)
  have "b div 16 < 16" "c div 64 < 4" using 4 by auto
  then have "(a mod 4 * 16 + b div 16) div 16 = a mod 4" "(a mod 4 * 16 + b div 16) mod 16 = b div 16"
    "(b mod 16 * 4 + c div 64) div 4 = b mod 16" "(b mod 16 * 4 + c div 64) mod 4 = c div 64"
    by simp_all
  with 4 show ?case by simp
next
  case (3 a b)
  have "b div 16 < 16" using 3 by auto
  then show ?case using 3 by simp
qed simp_all

lemma length_enc: "length (enc bs) = (4 * length bs + 2) div 3"
proof (induction bs rule: enc.induct)
  case (4 a b c r)
  then show ?case by simp
qed simp_all

lemma length_dec: "length (dec xs) = 3 * length xs div 4"
  by (induction xs rule: dec.induct) simp_all

lemma dec_bytes: "sextets xs \<Longrightarrow> bytes (dec xs)"
proof (induction xs rule: dec.induct)
  case (5 x y z w r)
  then have "y div 16 < 4" "z div 4 < 16" by auto
  moreover have "y mod 16 < 16" "z mod 4 < 4" by simp_all
  ultimately have "x * 4 + y div 16 < 256" "y mod 16 * 16 + z div 4 < 256" "z mod 4 * 64 + w < 256"
    using 5 by simp_all linarith+
  with 5 show ?case by simp
next
  case (3 x y)
  then have "y div 16 < 4" by auto
  with 3 show ?case by simp
next
  case (4 x y z)
  then have "y div 16 < 4" "z div 4 < 16" by auto
  moreover have "y mod 16 < 16" by simp
  ultimately show ?case using 4 by simp
qed simp_all

section \<open>Alphabets\<close>

definition base64_std :: string where
  "base64_std = uppers @ lowers @ digits @ ''+/''"

definition base64_url :: string where
  "base64_url = uppers @ lowers @ digits @ ''-_''"

definition char_pos :: "string \<Rightarrow> char \<Rightarrow> nat" where
  "char_pos alpha c = length (takeWhile (\<lambda>d. d \<noteq> c) alpha)"

definition b64_encode :: "string \<Rightarrow> nat list \<Rightarrow> string" where
  "b64_encode alpha bs = map (nth alpha) (enc bs)"

definition b64_decode :: "string \<Rightarrow> string \<Rightarrow> nat list" where
  "b64_decode alpha s = dec (map (char_pos alpha) s)"

lemma char_pos_nth: "distinct alpha \<Longrightarrow> i < length alpha \<Longrightarrow> char_pos alpha (alpha ! i) = i"
proof (induction alpha arbitrary: i)
  case (Cons a alpha)
  then show ?case
    by (cases i) (auto simp: char_pos_def)
qed simp

lemma nth_char_pos: "c \<in> set alpha \<Longrightarrow> char_pos alpha c < length alpha \<and> alpha ! char_pos alpha c = c"
  by (induction alpha) (auto simp: char_pos_def)

definition alphabet :: "string \<Rightarrow> bool" where
  "alphabet alpha \<longleftrightarrow> distinct alpha \<and> length alpha = 64"

lemma alphabets: "alphabet base64_std" "alphabet base64_url"
  by (simp_all add: alphabet_def base64_std_def base64_url_def uppers_def lowers_def digits_def)

lemma b64_roundtrip:
  assumes "alphabet alpha" "bytes bs" shows "b64_decode alpha (b64_encode alpha bs) = bs"
proof -
  have "map (char_pos alpha) (map (nth alpha) (enc bs)) = enc bs"
    using assms enc_sextets [OF assms(2)]
    by (auto simp: alphabet_def sextets_def list_all_iff char_pos_nth intro!: map_idI)
  then show ?thesis by (simp add: b64_decode_def b64_encode_def dec_enc [OF assms(2)])
qed

lemma b64_encode_form:
  assumes "alphabet alpha" "bytes bs"
  shows "all_in alpha (b64_encode alpha bs)" "length (b64_encode alpha bs) = (4 * length bs + 2) div 3"
  using enc_sextets [OF assms(2)] assms(1)
  by (auto simp: b64_encode_def all_in_def sextets_def list_all_iff alphabet_def length_enc)

lemma b64_decode_form:
  assumes "alphabet alpha" "all_in alpha s"
  shows "bytes (b64_decode alpha s)" "length (b64_decode alpha s) = 3 * length s div 4"
proof -
  have "sextets (map (char_pos alpha) s)"
    using assms nth_char_pos [of _ alpha] by (auto simp: sextets_def all_in_def list_all_iff alphabet_def)
  then show "bytes (b64_decode alpha s)" by (simp add: b64_decode_def dec_bytes)
qed (simp add: b64_decode_def length_dec)

lemma b64_canonical_inj:
  "b64_encode alpha (b64_decode alpha s) = s \<Longrightarrow> b64_encode alpha (b64_decode alpha t) = t \<Longrightarrow>
     b64_decode alpha s = b64_decode alpha t \<Longrightarrow> s = t"
  by metis

end
