(* ===== verification/Gate_Cookie.thy ===== *)
theory Gate_Cookie
  imports Encoding Lease
begin

text \<open>
  The demo gate's cookie: \<open>src/services/demo-gate/src/cookie.ts\<close>.

  A cookie is five dot-separated fields, the version, slot, lease, expiry and MAC.  The HMAC is a
  parameter \<open>hmac key payload\<close> (\<open>node:crypto\<close>); the timing of its comparison is not modelled.
  The pattern's character classes exclude the dot, so matching it is splitting at dots.
\<close>

definition COOKIE_NAME :: string where
  "COOKIE_NAME = ''__Host-bl_demo_gate''"

record gate_claim =
  gc_slot :: slot_name
  gc_lease :: lease_id
  gc_exp :: nat

datatype cookie_refusal = CookieMalformed | CookieSignature | CookieExpired

definition cookie_payload :: "string \<Rightarrow> string \<Rightarrow> string \<Rightarrow> string" where
  "cookie_payload slot lease expiry = join_with CHR ''.'' [''v1'', slot, lease, expiry]"

definition claim_payload :: "gate_claim \<Rightarrow> string" where
  "claim_payload c = cookie_payload (gc_slot c) (gc_lease c) (show_nat (gc_exp c))"

definition signCookie :: "('k \<Rightarrow> string \<Rightarrow> nat list) \<Rightarrow> 'k \<Rightarrow> gate_claim \<Rightarrow> string" where
  "signCookie hmac key c =
     claim_payload c @ [CHR ''.''] @ b64_encode base64_url (hmac key (claim_payload c))"

text \<open>\<open>COOKIE_PATTERN\<close>, with its four groups.\<close>

definition cookie_pattern :: "string \<Rightarrow> (string \<times> string \<times> string \<times> string) option" where
  "cookie_pattern value = (case split_on CHR ''.'' value of
       [v, slot, lease, expiry, tag] \<Rightarrow>
         (if v = ''v1'' \<and>
             slot \<noteq> [] \<and> length slot \<le> 63 \<and> all_in slot_name_chars slot \<and>
             length lease = 26 \<and> all_in (digits @ uppers) lease \<and>
             expiry \<noteq> [] \<and> length expiry \<le> 12 \<and> hd expiry \<noteq> CHR ''0'' \<and> all_in digits expiry \<and>
             length tag = 43 \<and> all_in base64_url tag
          then Some (slot, lease, expiry, tag) else None)
     | _ \<Rightarrow> None)"

definition verifyCookie ::
  "('k \<Rightarrow> string \<Rightarrow> nat list) \<Rightarrow> 'k \<Rightarrow> string \<Rightarrow> int \<Rightarrow> cookie_refusal + gate_claim" where
  "verifyCookie hmac key value nowSeconds = (case cookie_pattern value of
       None \<Rightarrow> Inl CookieMalformed
     | Some (slot, lease, expiry, tag) \<Rightarrow>
         guardS (b64_decode base64_url tag = hmac key (cookie_payload slot lease expiry)) CookieSignature
        (guardS (valid_slot_name slot \<and> valid_lease_id lease) CookieMalformed
        (guardS (nowSeconds < int (number_of_digits expiry)) CookieExpired
        (Inr \<lparr>gc_slot = slot, gc_lease = lease, gc_exp = number_of_digits expiry\<rparr>))))"

definition cookie_part :: "string \<Rightarrow> string list" where
  "cookie_part part = (case dropWhile (\<lambda>c. c \<noteq> CHR ''='') part of
       [] \<Rightarrow> []
     | _ # after \<Rightarrow>
         (if trim (takeWhile (\<lambda>c. c \<noteq> CHR ''='') part) = COOKIE_NAME then [trim after] else []))"

definition readGateCookies :: "string option \<Rightarrow> string list" where
  "readGateCookies header = (case header of
       None \<Rightarrow> []
     | Some h \<Rightarrow> (if h = [] then [] else concat (map cookie_part (split_on CHR '';'' h))))"

definition setCookieHeader :: "string \<Rightarrow> nat \<Rightarrow> string" where
  "setCookieHeader value maxAgeSeconds = COOKIE_NAME @ ''='' @ value @ ''; Path=/; Max-Age='' @
     show_nat maxAgeSeconds @ ''; HttpOnly; Secure; SameSite=Lax''"

section \<open>Decimal expiries\<close>

section \<open>Fields\<close>

lemma no_dot:
  "all_in slot_name_chars s \<Longrightarrow> CHR ''.'' \<notin> set s"
  "all_in (digits @ uppers) s \<Longrightarrow> CHR ''.'' \<notin> set s"
  "all_in digits s \<Longrightarrow> CHR ''.'' \<notin> set s"
  "all_in base64_url s \<Longrightarrow> CHR ''.'' \<notin> set s"
  using all_in_notin [of _ s "CHR ''.''"]
  by (auto simp: slot_name_chars_def digits_def uppers_def lowers_def base64_url_def)

lemma split_payload:
  "CHR ''.'' \<notin> set slot \<Longrightarrow> CHR ''.'' \<notin> set lease \<Longrightarrow> CHR ''.'' \<notin> set expiry \<Longrightarrow> CHR ''.'' \<notin> set tag \<Longrightarrow>
     split_on CHR ''.'' (cookie_payload slot lease expiry @ [CHR ''.''] @ tag) = [''v1'', slot, lease, expiry, tag]"
  by (simp add: cookie_payload_def split_on_append split_on_plain)

lemma crockford_subset: "set crockford \<subseteq> set (digits @ uppers)"
  by (auto simp: crockford_def digits_def uppers_def)

definition valid_claim :: "gate_claim \<Rightarrow> bool" where
  "valid_claim c \<longleftrightarrow> valid_slot_name (gc_slot c) \<and> valid_lease_id (gc_lease c) \<and>
     0 < gc_exp c \<and> gc_exp c < 10 ^ 12"

definition digest_of :: "('k \<Rightarrow> string \<Rightarrow> nat list) \<Rightarrow> bool" where
  "digest_of hmac \<longleftrightarrow> (\<forall>key payload. bytes (hmac key payload) \<and> length (hmac key payload) = 32)"

lemma cookie_pattern_Some:
  "cookie_pattern value = Some (slot, lease, expiry, tag) \<longleftrightarrow>
     split_on CHR ''.'' value = [''v1'', slot, lease, expiry, tag] \<and>
     slot \<noteq> [] \<and> length slot \<le> 63 \<and> all_in slot_name_chars slot \<and>
     length lease = 26 \<and> all_in (digits @ uppers) lease \<and>
     expiry \<noteq> [] \<and> length expiry \<le> 12 \<and> hd expiry \<noteq> CHR ''0'' \<and> all_in digits expiry \<and>
     length tag = 43 \<and> all_in base64_url tag"
  unfolding cookie_pattern_def by (auto split: list.splits)

lemma cookie_pattern_value:
  "cookie_pattern value = Some (slot, lease, expiry, tag) \<Longrightarrow>
     value = cookie_payload slot lease expiry @ [CHR ''.''] @ tag"
  using join_split [of "CHR ''.''" "value"] by (simp add: cookie_pattern_Some cookie_payload_def)

lemma verifyCookie_Inr:
  "verifyCookie hmac key value now = Inr c \<longleftrightarrow>
     (\<exists>expiry tag. cookie_pattern value = Some (gc_slot c, gc_lease c, expiry, tag) \<and>
        b64_decode base64_url tag = hmac key (cookie_payload (gc_slot c) (gc_lease c) expiry) \<and>
        valid_slot_name (gc_slot c) \<and> valid_lease_id (gc_lease c) \<and>
        gc_exp c = number_of_digits expiry \<and> now < int (gc_exp c))"
  by (cases c) (auto simp: verifyCookie_def guardS_Inr split: option.splits)

section \<open>Properties\<close>

text \<open>C25: A signed claim verifies to itself until it expires, and from its expiry on is refused as
  expired and nothing else.\<close>

theorem cookie_roundtrip:
  assumes "digest_of hmac" "valid_claim c"
  shows "verifyCookie hmac key (signCookie hmac key c) now =
    (if now < int (gc_exp c) then Inr c else Inl CookieExpired)"
proof -
  let ?tag = "b64_encode base64_url (hmac key (claim_payload c))"
  have d: "bytes (hmac key (claim_payload c))" "length (hmac key (claim_payload c)) = 32"
    using assms(1) by (simp_all add: digest_of_def)
  note tag = b64_encode_form [OF alphabets(2) d(1)]
  have slot: "gc_slot c \<noteq> []" "length (gc_slot c) \<le> 63" "all_in slot_name_chars (gc_slot c)"
    using assms(2) by (simp_all add: valid_claim_def valid_slot_name_def)
  have lease: "length (gc_lease c) = 26" "all_in (digits @ uppers) (gc_lease c)"
    using assms(2) all_in_mono [OF _ crockford_subset] by (simp_all add: valid_claim_def valid_lease_id_def)
  have e: "length (show_nat (gc_exp c)) \<le> 12" "hd (show_nat (gc_exp c)) \<noteq> CHR ''0''"
    using assms(2) by (simp_all add: valid_claim_def length_show_nat hd_show_nat)
  have "split_on CHR ''.'' (signCookie hmac key c) =
      [''v1'', gc_slot c, gc_lease c, show_nat (gc_exp c), ?tag]"
    using split_payload [OF no_dot(1) [OF slot(3)] no_dot(2) [OF lease(2)]
        no_dot(3) [OF all_in_show_nat [of "gc_exp c"]] no_dot(4) [OF tag(1)]]
    by (simp add: signCookie_def claim_payload_def)
  then have "cookie_pattern (signCookie hmac key c) =
      Some (gc_slot c, gc_lease c, show_nat (gc_exp c), ?tag)"
    using slot lease e tag d(2) by (simp add: cookie_pattern_Some)
  moreover have "b64_decode base64_url ?tag = hmac key (claim_payload c)"
    by (rule b64_roundtrip [OF alphabets(2) d(1)])
  ultimately show ?thesis
    using assms(2) by (simp add: verifyCookie_def claim_payload_def valid_claim_def guardS_def)
qed

definition sample_claim :: gate_claim where
  "sample_claim = \<lparr>gc_slot = ''demo-1'', gc_lease = ''01J9F4Q7ZC3M8V2K6X0R5T1B9D'', gc_exp = 1000\<rparr>"

definition sample_hmac :: "unit \<Rightarrow> string \<Rightarrow> nat list" where
  "sample_hmac key payload = replicate 32 (length payload mod 256)"

lemma sample_facts: "digest_of sample_hmac" "valid_claim sample_claim"
  by (simp_all add: digest_of_def sample_hmac_def bytes_def list_all_iff valid_claim_def sample_claim_def
      valid_slot_name_def valid_lease_id_def slot_name_chars_def lowers_def digits_def crockford_def)

lemma cookie_roundtrip_witness:
  "verifyCookie sample_hmac () (signCookie sample_hmac () sample_claim) 999 = Inr sample_claim"
  using cookie_roundtrip [OF sample_facts, of "()" 999] by (simp add: sample_claim_def)

text \<open>C26: Soundness: a cookie is accepted only if it carries, as its last field, the encoding of
  the HMAC of exactly the claim it is accepted for, that claim is well formed and has not expired,
  and no other claim has the same signed text.\<close>

theorem cookie_sound:
  assumes "verifyCookie hmac key value now = Inr c"
  shows "(\<exists>tag. value = claim_payload c @ [CHR ''.''] @ tag \<and> b64_decode base64_url tag = hmac key (claim_payload c)) \<and>
    valid_slot_name (gc_slot c) \<and> valid_lease_id (gc_lease c) \<and> now < int (gc_exp c) \<and>
    (\<forall>c'. valid_claim c' \<and> claim_payload c' = claim_payload c \<longrightarrow> c' = c)"
proof -
  obtain expiry tag where p: "cookie_pattern value = Some (gc_slot c, gc_lease c, expiry, tag)"
    and mac: "b64_decode base64_url tag = hmac key (cookie_payload (gc_slot c) (gc_lease c) expiry)"
    and v: "valid_slot_name (gc_slot c)" "valid_lease_id (gc_lease c)" "now < int (gc_exp c)"
    and e: "gc_exp c = number_of_digits expiry"
    using assms unfolding verifyCookie_Inr by blast
  have "show_nat (gc_exp c) = expiry"
    using p unfolding e cookie_pattern_Some by (intro show_number_of) auto
  then have pay: "claim_payload c = cookie_payload (gc_slot c) (gc_lease c) expiry"
    by (simp add: claim_payload_def)
  have inj: "c' = c" if "valid_claim c'" "claim_payload c' = claim_payload c" for c'
  proof -
    have split: "split_on CHR ''.'' (claim_payload x) = [''v1'', gc_slot x, gc_lease x, show_nat (gc_exp x)]"
      if "valid_slot_name (gc_slot x)" "valid_lease_id (gc_lease x)" for x
      using slot_name_plain [OF that(1)] lease_id_plain [OF that(2)] no_dot(3) [OF all_in_show_nat]
      by (simp add: claim_payload_def cookie_payload_def split_on_append split_on_plain)
    from that split [of c'] split [of c] v show ?thesis
      by (cases c'; cases c) (simp add: valid_claim_def show_nat_inj)
  qed
  have "value = claim_payload c @ [CHR ''.''] @ tag"
    using cookie_pattern_value [OF p] pay by simp
  with mac pay v inj show ?thesis by auto
qed

lemma cookie_sound_witness:
  "\<exists>tag. signCookie sample_hmac () sample_claim = claim_payload sample_claim @ [CHR ''.''] @ tag \<and>
     b64_decode base64_url tag = sample_hmac () (claim_payload sample_claim)"
  using cookie_sound [OF cookie_roundtrip_witness] by blast

end
