(* ===== verification/Gate_Argon.thy ===== *)
theory Gate_Argon
  imports Gate_Cookie
begin

text \<open>
  Passphrase hashes: \<open>src/services/demo-gate/src/argon2id.ts\<close>.

  The PHC pattern is matched by splitting at dollars and commas, which none of its character classes
  contains.  The key derivation is a parameter (\<open>node:crypto\<close>'s \<open>argon2\<close>): from message,
  parsed parameters and tag length to a computation that may fail.
\<close>

record argon2id_hash =
  ah_memoryKiB :: nat
  ah_passes :: nat
  ah_parallelism :: nat
  ah_salt :: "nat list"
  ah_tag :: "nat list"

datatype hash_format_error = HashFormatError string

definition in_limits :: "nat \<Rightarrow> nat \<times> nat \<Rightarrow> bool" where
  "in_limits v bounds \<longleftrightarrow> fst bounds \<le> v \<and> v \<le> snd bounds"

definition LIMITS_memoryKiB :: "nat \<times> nat" where
  "LIMITS_memoryKiB = (8 * 1024, 256 * 1024)"

definition LIMITS_passes :: "nat \<times> nat" where
  "LIMITS_passes = (1, 10)"

definition LIMITS_parallelism :: "nat \<times> nat" where
  "LIMITS_parallelism = (1, 8)"

definition LIMITS_saltBytes :: "nat \<times> nat" where
  "LIMITS_saltBytes = (8, 64)"

definition LIMITS_tagBytes :: "nat \<times> nat" where
  "LIMITS_tagBytes = (16, 64)"

text \<open>\<open>[1-9][0-9]{0,n-1}\<close> behind a prefix such as \<open>m=\<close>.\<close>

definition phc_number :: "string \<Rightarrow> nat \<Rightarrow> string \<Rightarrow> nat option" where
  "phc_number pre n s =
     (let ds = drop (length pre) s in
      if take (length pre) s = pre \<and> ds \<noteq> [] \<and> length ds \<le> n \<and> hd ds \<noteq> CHR ''0'' \<and> all_in digits ds
      then Some (number_of_digits ds) else None)"

definition phc_base64 :: "string \<Rightarrow> bool" where
  "phc_base64 s \<longleftrightarrow> s \<noteq> [] \<and> length s \<le> 128 \<and> all_in base64_std s"

definition phc_pattern :: "string \<Rightarrow> (nat \<times> nat \<times> nat \<times> string \<times> string) option" where
  "phc_pattern phc = (case split_on CHR ''$'' phc of
       [e, alg, v, ps, salt, tag] \<Rightarrow>
         (if e = [] \<and> alg = ''argon2id'' \<and> v = ''v=19'' \<and> phc_base64 salt \<and> phc_base64 tag then
            (case split_on CHR '','' ps of
               [m, t, p] \<Rightarrow>
                 (case (phc_number ''m='' 10 m, phc_number ''t='' 3 t, phc_number ''p='' 3 p) of
                    (Some mn, Some tn, Some pn) \<Rightarrow> Some (mn, tn, pn, salt, tag)
                  | _ \<Rightarrow> None)
             | _ \<Rightarrow> None)
          else None)
     | _ \<Rightarrow> None)"

definition decodeUnpaddedBase64 :: "string \<Rightarrow> string \<Rightarrow> hash_format_error + nat list" where
  "decodeUnpaddedBase64 s field =
     guardS (length s mod 4 \<noteq> 1) (HashFormatError field)
    (let decoded = b64_decode base64_std s in
     guardS (b64_encode base64_std decoded = s) (HashFormatError field)
    (Inr decoded))"

definition inRange :: "nat \<Rightarrow> nat \<times> nat \<Rightarrow> string \<Rightarrow> hash_format_error + nat" where
  "inRange v bounds field = guardS (in_limits v bounds) (HashFormatError field) (Inr v)"

definition parse_phc :: "string \<Rightarrow> hash_format_error + argon2id_hash" where
  "parse_phc phc = (case phc_pattern phc of
       None \<Rightarrow> Inl (HashFormatError ''hash'')
     | Some (m, t, p, saltB64, tagB64) \<Rightarrow>
         bindS (inRange p LIMITS_parallelism ''parallelism'') (\<lambda>parallelism.
         bindS (inRange m LIMITS_memoryKiB ''memory'') (\<lambda>memoryKiB.
         bindS (inRange t LIMITS_passes ''passes'') (\<lambda>passes.
         bindS (decodeUnpaddedBase64 saltB64 ''salt'') (\<lambda>salt.
         bindS (decodeUnpaddedBase64 tagB64 ''tag'') (\<lambda>tag.
         bindS (inRange (length salt) LIMITS_saltBytes ''salt length'') (\<lambda>_.
         bindS (inRange (length tag) LIMITS_tagBytes ''tag length'') (\<lambda>_.
         Inr \<lparr>ah_memoryKiB = memoryKiB, ah_passes = passes, ah_parallelism = parallelism,
              ah_salt = salt, ah_tag = tag\<rparr>))))))))"

definition parseArgon2idHash :: "json option \<Rightarrow> hash_format_error + argon2id_hash" where
  "parseArgon2idHash phc = (case phc of
       Some (JString s) \<Rightarrow> parse_phc s
     | _ \<Rightarrow> Inl (HashFormatError ''hash''))"

type_synonym 'w argon2 = "nat list \<Rightarrow> argon2id_hash \<Rightarrow> nat \<Rightarrow> ('w, js_exn, nat list) prog"

definition verifyPassphrase :: "'w argon2 \<Rightarrow> string \<Rightarrow> argon2id_hash \<Rightarrow> ('w, js_exn, bool) prog" where
  "verifyPassphrase argon2 passphrase hash =
     bindE (argon2 (utf8 passphrase) hash (length (ah_tag hash)))
       (\<lambda>derived. returnE (length derived = length (ah_tag hash) \<and> derived = ah_tag hash))"

text \<open>The string \<open>hashPassphrase\<close> returns for its parameters, salt and derived tag.\<close>

definition phc_params :: "nat \<Rightarrow> nat \<Rightarrow> nat \<Rightarrow> string" where
  "phc_params m t p = join_with CHR '','' [''m='' @ show_nat m, ''t='' @ show_nat t, ''p='' @ show_nat p]"

definition phc_string :: "argon2id_hash \<Rightarrow> string" where
  "phc_string h = join_with CHR ''$'' [[], ''argon2id'', ''v=19'',
     phc_params (ah_memoryKiB h) (ah_passes h) (ah_parallelism h),
     b64_encode base64_std (ah_salt h), b64_encode base64_std (ah_tag h)]"

definition DEFAULT_PARAMETERS :: "nat \<times> nat \<times> nat" where
  "DEFAULT_PARAMETERS = (64 * 1024, 3, 4)"

definition hashPassphrase ::
  "'w argon2 \<Rightarrow> ('w, js_exn, nat list) prog \<Rightarrow> string \<Rightarrow> nat \<times> nat \<times> nat \<Rightarrow> ('w, js_exn, string) prog" where
  "hashPassphrase argon2 randomBytes16 passphrase parameters = (case parameters of (m, t, p) \<Rightarrow>
     bindE randomBytes16 (\<lambda>salt.
     let h = \<lparr>ah_memoryKiB = m, ah_passes = t, ah_parallelism = p, ah_salt = salt, ah_tag = []\<rparr> in
     bindE (argon2 (utf8 passphrase) h 32) (\<lambda>tag.
     returnE (phc_string (h\<lparr>ah_tag := tag\<rparr>)))))"

definition valid_argon2id :: "argon2id_hash \<Rightarrow> bool" where
  "valid_argon2id h \<longleftrightarrow> in_limits (ah_memoryKiB h) LIMITS_memoryKiB \<and>
     in_limits (ah_passes h) LIMITS_passes \<and> in_limits (ah_parallelism h) LIMITS_parallelism \<and>
     bytes (ah_salt h) \<and> in_limits (length (ah_salt h)) LIMITS_saltBytes \<and>
     bytes (ah_tag h) \<and> in_limits (length (ah_tag h)) LIMITS_tagBytes"

lemmas limit_defs = in_limits_def LIMITS_memoryKiB_def LIMITS_passes_def LIMITS_parallelism_def
  LIMITS_saltBytes_def LIMITS_tagBytes_def

section \<open>The pattern read backwards\<close>

lemma phc_number_Some:
  "phc_number pre n s = Some v \<longleftrightarrow> s = pre @ show_nat v \<and> 0 < v \<and> length (show_nat v) \<le> n"
proof
  assume l: "phc_number pre n s = Some v"
  let ?ds = "drop (length pre) s"
  have "take (length pre) s = pre" "?ds \<noteq> []" "length ?ds \<le> n" "hd ?ds \<noteq> CHR ''0''" "all_in digits ?ds"
    "v = number_of_digits ?ds"
    using l by (auto simp: phc_number_def Let_def split: if_splits)
  moreover from this have "show_nat v = ?ds" "0 < v"
    using show_number_of [of ?ds] number_pos [of ?ds] by simp_all
  ultimately show "s = pre @ show_nat v \<and> 0 < v \<and> length (show_nat v) \<le> n"
    by (metis append_take_drop_id)
next
  assume "s = pre @ show_nat v \<and> 0 < v \<and> length (show_nat v) \<le> n"
  then show "phc_number pre n s = Some v"
    by (simp add: phc_number_def Let_def hd_show_nat)
qed

lemma no_dollar_comma:
  "all_in base64_std s \<Longrightarrow> CHR ''$'' \<notin> set s"
  "all_in digits s \<Longrightarrow> CHR ''$'' \<notin> set s \<and> CHR '','' \<notin> set s"
  using all_in_notin [of _ s "CHR ''$''"] all_in_notin [of _ s "CHR '',''"]
  by (auto simp: base64_std_def digits_def uppers_def lowers_def)

lemma split_params:
  "split_on CHR '','' (phc_params m t p) = [''m='' @ show_nat m, ''t='' @ show_nat t, ''p='' @ show_nat p]"
  unfolding phc_params_def by (rule split_join) (use no_dollar_comma(2) in auto)

lemma phc_pattern_Some:
  "phc_pattern phc = Some (m, t, p, salt, tag) \<longleftrightarrow>
     phc = join_with CHR ''$'' [[], ''argon2id'', ''v=19'', phc_params m t p, salt, tag] \<and>
     0 < m \<and> 0 < t \<and> 0 < p \<and> length (show_nat m) \<le> 10 \<and> length (show_nat t) \<le> 3 \<and>
     length (show_nat p) \<le> 3 \<and> phc_base64 salt \<and> phc_base64 tag" (is "?l \<longleftrightarrow> ?r")
proof
  assume ?l
  then obtain ps ms ts qs where s: "split_on CHR ''$'' phc = [[], ''argon2id'', ''v=19'', ps, salt, tag]"
    and c: "split_on CHR '','' ps = [ms, ts, qs]"
    and n: "phc_number ''m='' 10 ms = Some m" "phc_number ''t='' 3 ts = Some t" "phc_number ''p='' 3 qs = Some p"
    and b: "phc_base64 salt" "phc_base64 tag"
    unfolding phc_pattern_def by (auto split: list.splits if_splits option.splits)
  have "ps = phc_params m t p"
    using join_split [of "CHR '',''" ps] n by (simp add: c phc_params_def phc_number_Some)
  with s n b show ?r
    using join_split [of "CHR ''$''" phc] by (simp add: phc_number_Some)
next
  assume r: ?r
  have "CHR ''$'' \<notin> set (phc_params m t p)"
    using no_dollar_comma(2) by (auto simp: phc_params_def)
  moreover have "CHR ''$'' \<notin> set salt" "CHR ''$'' \<notin> set tag"
    using r no_dollar_comma(1) by (simp_all add: phc_base64_def)
  ultimately have "\<forall>q\<in>set [[], ''argon2id'', ''v=19'', phc_params m t p, salt, tag]. CHR ''$'' \<notin> set q"
    by simp
  from split_join [OF _ this] r
  have "split_on CHR ''$'' phc = [[], ''argon2id'', ''v=19'', phc_params m t p, salt, tag]"
    by (simp del: join_with.simps)
  moreover have "phc_number ''m='' 10 (''m='' @ show_nat m) = Some m"
    "phc_number ''t='' 3 (''t='' @ show_nat t) = Some t" "phc_number ''p='' 3 (''p='' @ show_nat p) = Some p"
    using r unfolding phc_number_Some by simp_all
  ultimately show ?l
    using r by (simp add: phc_pattern_def split_params)
qed

lemma decodeUnpadded_Inr:
  "decodeUnpaddedBase64 s field = Inr bs \<longleftrightarrow>
     length s mod 4 \<noteq> 1 \<and> bs = b64_decode base64_std s \<and> b64_encode base64_std bs = s"
  by (auto simp: decodeUnpaddedBase64_def guardS_Inr Let_def)

lemma inRange_Inr: "inRange v b field = Inr x \<longleftrightarrow> x = v \<and> in_limits v b"
  by (auto simp: inRange_def guardS_Inr)


lemma numerals_short:
  "in_limits m LIMITS_memoryKiB \<Longrightarrow> 0 < m \<and> length (show_nat m) \<le> 10"
  "in_limits t LIMITS_passes \<Longrightarrow> 0 < t \<and> length (show_nat t) \<le> 3"
  "in_limits p LIMITS_parallelism \<Longrightarrow> 0 < p \<and> length (show_nat p) \<le> 3"
  using length_show_nat [of 10 m] length_show_nat [of 3 t] length_show_nat [of 3 p]
  by (simp_all add: limit_defs)

lemma encoded_field:
  assumes "bytes bs" "8 \<le> length bs" "length bs \<le> 64"
  shows "phc_base64 (b64_encode base64_std bs)"
    "decodeUnpaddedBase64 (b64_encode base64_std bs) f = Inr bs"
proof -
  have len: "length (b64_encode base64_std bs) = (4 * length bs + 2) div 3"
    by (rule b64_encode_form(2) [OF alphabets(1) assms(1)])
  with assms show "phc_base64 (b64_encode base64_std bs)"
    using b64_encode_form(1) [OF alphabets(1) assms(1)] by (auto simp: phc_base64_def)
  have "(4 * length bs + 2) div 3 mod 4 \<noteq> 1"
    by presburger
  then show "decodeUnpaddedBase64 (b64_encode base64_std bs) f = Inr bs"
    by (simp add: decodeUnpadded_Inr len b64_roundtrip [OF alphabets(1) assms(1)])
qed

lemma parse_phc_string:
  assumes v: "valid_argon2id h" shows "parse_phc (phc_string h) = Inr h"
proof -
  have b: "bytes (ah_salt h)" "8 \<le> length (ah_salt h)" "length (ah_salt h) \<le> 64"
    "bytes (ah_tag h)" "8 \<le> length (ah_tag h)" "length (ah_tag h) \<le> 64"
    and l: "in_limits (ah_memoryKiB h) LIMITS_memoryKiB" "in_limits (ah_passes h) LIMITS_passes"
      "in_limits (ah_parallelism h) LIMITS_parallelism" "in_limits (length (ah_salt h)) LIMITS_saltBytes"
      "in_limits (length (ah_tag h)) LIMITS_tagBytes"
    using v by (auto simp: valid_argon2id_def in_limits_def LIMITS_saltBytes_def LIMITS_tagBytes_def)
  note salt = encoded_field [OF b(1-3)] and tag = encoded_field [OF b(4-6)]
  have "phc_pattern (phc_string h) = Some (ah_memoryKiB h, ah_passes h, ah_parallelism h,
      b64_encode base64_std (ah_salt h), b64_encode base64_std (ah_tag h))"
    unfolding phc_pattern_Some phc_string_def using numerals_short l salt(1) tag(1) by simp
  then show ?thesis
    by (simp add: parse_phc_def inRange_def l salt(2) tag(2))
qed

lemma parse_phc_Inr:
  assumes p: "parse_phc phc = Inr h" shows "phc = phc_string h \<and> valid_argon2id h"
proof -
  obtain m t p salt tag where s: "phc_pattern phc = Some (m, t, p, salt, tag)"
    using p by (auto simp: parse_phc_def split: option.splits)
  have h: "in_limits m LIMITS_memoryKiB" "in_limits t LIMITS_passes" "in_limits p LIMITS_parallelism"
    "b64_encode base64_std (b64_decode base64_std salt) = salt"
    "b64_encode base64_std (b64_decode base64_std tag) = tag"
    "in_limits (length (b64_decode base64_std salt)) LIMITS_saltBytes"
    "in_limits (length (b64_decode base64_std tag)) LIMITS_tagBytes"
    and eq: "h = \<lparr>ah_memoryKiB = m, ah_passes = t, ah_parallelism = p,
      ah_salt = b64_decode base64_std salt, ah_tag = b64_decode base64_std tag\<rparr>"
    using p by (auto simp: parse_phc_def s bindS_Inr inRange_Inr decodeUnpadded_Inr)
  have "all_in base64_std salt" "all_in base64_std tag"
    using s by (simp_all add: phc_pattern_Some phc_base64_def)
  then have "bytes (b64_decode base64_std salt)" "bytes (b64_decode base64_std tag)"
    using b64_decode_form(1) [OF alphabets(1)] by blast+
  then show ?thesis
    using s h by (simp add: eq phc_pattern_Some phc_string_def valid_argon2id_def)
qed

text \<open>C27: \<open>parseArgon2idHash\<close> accepts exactly the canonical spellings of hashes within the limits: a
  string parses to a hash if and only if it is the string \<open>hashPassphrase\<close> would print for that
  hash, and the hash's parameters, salt length and tag length are in range.  So no two strings parse
  to one hash, and everything the minting side prints within the limits is read back unchanged.\<close>

theorem argon2id_parse_exact:
  "parseArgon2idHash (Some (JString phc)) = Inr h \<longleftrightarrow> phc = phc_string h \<and> valid_argon2id h"
  using parse_phc_Inr parse_phc_string by (auto simp: parseArgon2idHash_def)

lemma verifyPassphrase_Ok:
  "verifyPassphrase argon2 pw h w = (Ok b, w') \<longleftrightarrow>
     (\<exists>derived. argon2 (utf8 pw) h (length (ah_tag h)) w = (Ok derived, w') \<and> b = (derived = ah_tag h))"
  by (auto simp: verifyPassphrase_def bindE_def returnE_def split: outcome.splits prod.splits)

end
