(* ===== verification/Gate_Slots.thy ===== *)
theory Gate_Slots
  imports Gate_Argon "HOL-Library.List_Lexorder" "HOL-Library.Char_ord"
begin

text \<open>
  The demo gate's slots file and lease records: \<open>src/services/demo-gate/src/slots.ts\<close>.

  \<open>json_parse\<close> stands for \<open>JSON.parse\<close> and \<open>decode\<close> for \<open>Buffer#toString('utf8')\<close>.  An error
  names the field or rule; the wording and the index of the entry are not modelled.  The map by host
  is an association list in insertion order.
\<close>

record gated_host =
  gh_host :: string
  gh_slot :: slot_name
  gh_hash :: argon2id_hash
  gh_hashId :: hash_id

record current_lease =
  cl_lease :: lease_id
  cl_hashId :: hash_id

type_synonym slots_map = "(string, gated_host) jsmap"

datatype slots_error = SlotsFormatError string | SlotsReadError js_exn

text \<open>One label of \<open>HOST_PATTERN\<close>, and the pattern.\<close>

definition host_label :: "string \<Rightarrow> bool" where
  "host_label l \<longleftrightarrow> l \<noteq> [] \<and> length l \<le> 63 \<and> all_in slot_name_chars l \<and>
     hd l \<noteq> CHR ''-'' \<and> last l \<noteq> CHR ''-''"

definition HOST_PATTERN :: "string \<Rightarrow> bool" where
  "HOST_PATTERN h \<longleftrightarrow> 1 \<le> length h \<and> length h \<le> 253 \<and>
     2 \<le> length (split_on CHR ''.'' h) \<and> list_all host_label (split_on CHR ''.'' h)"

definition MAX_SLOTS_BYTES :: nat where
  "MAX_SLOTS_BYTES = 256 * 1024"

text \<open>
  The own enumerable properties of a value whose \<open>typeof\<close> is \<open>'object'\<close> and that is not \<open>null\<close>:
  an array is such a value, with its indices as keys.
\<close>

definition object_entries :: "json \<Rightarrow> (string \<times> json) list option" where
  "object_entries v = (case v of
       JObject kvs \<Rightarrow> Some kvs
     | JArray xs \<Rightarrow> Some (zip (map show_nat [0..<length xs]) xs)
     | _ \<Rightarrow> None)"

definition sorted_keys :: "(string \<times> json) list \<Rightarrow> string" where
  "sorted_keys kvs = join_with CHR '','' (sort (map fst kvs))"

definition parseGate :: "json option \<Rightarrow> slots_error + argon2id_hash \<times> hash_id" where
  "parseGate gate = (case Option.bind gate object_entries of
       None \<Rightarrow> Inl (SlotsFormatError ''gate object'')
     | Some spec \<Rightarrow>
         guardS (map_of spec ''kind'' = Some (JString ''passphrase'')) (SlotsFormatError ''gate kind'')
        (guardS (sorted_keys spec = ''argon2idHash,kind'') (SlotsFormatError ''gate keys'')
        (case map_of spec ''argon2idHash'' of
           Some (JString phc) \<Rightarrow>
             (case parseArgon2idHash (Some (JString phc)) of
                Inl _ \<Rightarrow> Inl (SlotsFormatError ''gate hash'')
              | Inr h \<Rightarrow> Inr (h, hashIdOf phc))
         | _ \<Rightarrow> Inl (SlotsFormatError ''gate hash''))))"

definition entry_rest :: "(string \<times> json) list \<Rightarrow> string list" where
  "entry_rest kvs = filter (\<lambda>k. k \<notin> set [''host'', ''slot'', ''gate'']) (map fst kvs)"

text \<open>The body of \<open>root.slots.forEach\<close>, for the map and the set built so far.\<close>

definition parse_entry ::
  "json \<Rightarrow> slots_map \<times> slot_name list \<Rightarrow> slots_error + slots_map \<times> slot_name list" where
  "parse_entry entry st = (case st of (byHost, seenSlots) \<Rightarrow>
     (case object_entries entry of
       None \<Rightarrow> Inl (SlotsFormatError ''entry object'')
     | Some kvs \<Rightarrow>
         guardS (entry_rest kvs = []) (SlotsFormatError ''entry keys'')
        (case map_of kvs ''host'' of
           Some (JString host) \<Rightarrow>
             guardS (HOST_PATTERN host) (SlotsFormatError ''host'')
            (case validateSlotName (map_of kvs ''slot'') ''slot'' of
               Inl _ \<Rightarrow> Inl (SlotsFormatError ''slot'')
             | Inr slotName \<Rightarrow>
                 guardS (map_of byHost host = None) (SlotsFormatError ''host twice'')
                (guardS (slotName \<notin> set seenSlots) (SlotsFormatError ''slot twice'')
                (bindS (parseGate (map_of kvs ''gate'')) (\<lambda>(h, hid).
                   Inr (AList.update host \<lparr>gh_host = host, gh_slot = slotName, gh_hash = h, gh_hashId = hid\<rparr> byHost,
                        slotName # seenSlots)))))
         | _ \<Rightarrow> Inl (SlotsFormatError ''host''))))"

fun parse_entries ::
  "json list \<Rightarrow> slots_map \<times> slot_name list \<Rightarrow> slots_error + slots_map \<times> slot_name list" where
  "parse_entries [] st = Inr st"
| "parse_entries (e # es) st = bindS (parse_entry e st) (parse_entries es)"

definition parseSlots :: "(string \<Rightarrow> json option) \<Rightarrow> string \<Rightarrow> slots_error + slots_map" where
  "parseSlots json_parse text = (case json_parse text of
       None \<Rightarrow> Inl (SlotsFormatError ''json'')
     | Some root \<Rightarrow>
         (case Option.bind (object_entries root) (\<lambda>kvs. map_of kvs ''slots'') of
            Some (JArray entries) \<Rightarrow> bindS (parse_entries entries ([], [])) (\<lambda>(byHost, _). Inr byHost)
          | _ \<Rightarrow> Inl (SlotsFormatError ''slots array'')))"

text \<open>
  \<open>createSlotsSource\<close>: one call, for what \<open>readFile\<close> answers it, on the cached parse.
\<close>

type_synonym slots_cache = "(string \<times> slots_map) option"

definition slots_source ::
  "(string \<Rightarrow> json option) \<Rightarrow> js_exn + string \<Rightarrow> slots_cache \<Rightarrow> (slots_error + slots_map) \<times> slots_cache" where
  "slots_source json_parse readFile cached = (case readFile of
       Inl e \<Rightarrow> (Inl (SlotsReadError e), cached)
     | Inr text \<Rightarrow>
         (if length text > MAX_SLOTS_BYTES then (Inl (SlotsFormatError ''too large''), cached)
          else (case cached of
              Some (t, slots) \<Rightarrow>
                (if t \<noteq> text then
                   (case parseSlots json_parse text of
                      Inl e \<Rightarrow> (Inl e, cached)
                    | Inr m \<Rightarrow> (Inr m, Some (text, m)))
                 else (Inr slots, cached))
            | None \<Rightarrow>
                (case parseSlots json_parse text of
                   Inl e \<Rightarrow> (Inl e, cached)
                 | Inr m \<Rightarrow> (Inr m, Some (text, m))))))"

text \<open>Successive calls, one \<open>readFile\<close> answer each.\<close>

fun slots_calls ::
  "(string \<Rightarrow> json option) \<Rightarrow> (js_exn + string) list \<Rightarrow> slots_cache \<Rightarrow> (slots_error + slots_map) list" where
  "slots_calls json_parse [] cached = []"
| "slots_calls json_parse (r # rs) cached =
     (let (answer, cached') = slots_source json_parse r cached in answer # slots_calls json_parse rs cached')"

text \<open>What is at a path of the lease directory, opened for reading with \<open>O_NOFOLLOW\<close>.\<close>

datatype lease_file = Absent | SymbolicLink | Unreadable js_exn | Regular "nat list"

definition lease_reader ::
  "(string \<Rightarrow> json option) \<Rightarrow> (nat list \<Rightarrow> string) \<Rightarrow> (string \<Rightarrow> lease_file) \<Rightarrow> slot_name
     \<Rightarrow> js_exn + current_lease" where
  "lease_reader json_parse decode dir slot = (case dir (leaseRecordFileName slot) of
       Absent \<Rightarrow> Inl (JsError ''ENOENT'')
     | SymbolicLink \<Rightarrow> Inl (JsError ''ELOOP'')
     | Unreadable e \<Rightarrow> Inl e
     | Regular buffer \<Rightarrow>
         (case parseSlotLeaseRecord json_parse (decode (take (MAX_LEASE_RECORD_BYTES + 1) buffer)) slot of
            Inl (FieldValidationError f) \<Rightarrow> Inl (JsError f)
          | Inr rec \<Rightarrow> Inr \<lparr>cl_lease = lr_lease rec, cl_hashId = lr_hashId rec\<rparr>))"

section \<open>Well-formed slot maps\<close>

text \<open>Hosts and slots are both unique, and each entry carries a hash within the limits and its tag.\<close>

definition gated_ok :: "string \<times> gated_host \<Rightarrow> bool" where
  "gated_ok kv \<longleftrightarrow> gh_host (snd kv) = fst kv \<and> HOST_PATTERN (fst kv) \<and> valid_slot_name (gh_slot (snd kv)) \<and>
     valid_argon2id (gh_hash (snd kv)) \<and> gh_hashId (snd kv) = hashIdOf (phc_string (gh_hash (snd kv)))"

definition slots_ok :: "slots_map \<Rightarrow> bool" where
  "slots_ok m \<longleftrightarrow> distinct (map fst m) \<and> distinct (map (gh_slot \<circ> snd) m) \<and> list_all gated_ok m"

lemma parseGate_Inr:
  assumes "parseGate g = Inr (h, hid)"
  shows "valid_argon2id h \<and> hid = hashIdOf (phc_string h)"
proof -
  obtain phc where "parse_phc phc = Inr h" "hid = hashIdOf phc"
    using assms by (auto simp: parseGate_def guardS_Inr parseArgon2idHash_def split: option.splits json.splits sum.splits)
  then show ?thesis
    using parse_phc_Inr by blast
qed

lemma parse_entry_Inr:
  assumes "parse_entry e (m, seen) = Inr (m', seen')"
  obtains kv where "m' = m @ [kv]" "seen' = gh_slot (snd kv) # seen" "gated_ok kv"
    "fst kv \<notin> fst ` set m" "gh_slot (snd kv) \<notin> set seen"
proof -
  obtain host slot h hid where "HOST_PATTERN host" "valid_slot_name slot" "map_of m host = None"
    "slot \<notin> set seen" "valid_argon2id h \<and> hid = hashIdOf (phc_string h)" "seen' = slot # seen"
    and m': "m' = AList.update host \<lparr>gh_host = host, gh_slot = slot, gh_hash = h, gh_hashId = hid\<rparr> m"
    using assms by (auto simp: parse_entry_def guardS_Inr bindS_Inr validate_Inr dest!: parseGate_Inr
        split: option.splits json.splits sum.splits prod.splits)
  then show ?thesis
    by (intro that [of "(host, \<lparr>gh_host = host, gh_slot = slot, gh_hash = h, gh_hashId = hid\<rparr>)"])
      (simp_all add: update_absent map_of_eq_None_iff gated_ok_def)
qed

lemma parse_entries_ok:
  "parse_entries es (m, seen) = Inr (m', seen') \<Longrightarrow> slots_ok m \<Longrightarrow> set seen = (gh_slot \<circ> snd) ` set m \<Longrightarrow>
     slots_ok m' \<and> length m' = length m + length es"
proof (induction es arbitrary: m seen)
  case (Cons e es)
  from Cons.prems(1) obtain m1 seen1 where e: "parse_entry e (m, seen) = Inr (m1, seen1)"
    and es: "parse_entries es (m1, seen1) = Inr (m', seen')"
    by (auto simp: bindS_Inr)
  obtain kv where kv: "m1 = m @ [kv]" "seen1 = gh_slot (snd kv) # seen" "gated_ok kv"
    "fst kv \<notin> fst ` set m" "gh_slot (snd kv) \<notin> set seen"
    using parse_entry_Inr [OF e] .
  have "slots_ok m1" "set seen1 = (gh_slot \<circ> snd) ` set m1"
    using kv Cons.prems(2,3) by (auto simp: slots_ok_def)
  from Cons.IH [OF es this] kv(1) show ?case by simp
qed simp

lemma parseSlots_ok:
  assumes "parseSlots json_parse text = Inr m" shows "slots_ok m"
proof -
  obtain es seen where "parse_entries es ([], []) = Inr (m, seen)"
    using assms by (auto simp: parseSlots_def bindS_Inr split: option.splits json.splits)
  from parse_entries_ok [OF this] show ?thesis
    by (simp add: slots_ok_def)
qed

lemma slots_ok_lookup:
  assumes "slots_ok m" "map_of m host = Some g"
  shows "gated_ok (host, g)"
  using assms by (auto simp: slots_ok_def list_all_iff dest: map_of_SomeD)

text \<open>Two hosts never name the same slot.\<close>

lemma slots_ok_inj:
  assumes "slots_ok m" "map_of m h1 = Some g1" "map_of m h2 = Some g2" "gh_slot g1 = gh_slot g2"
  shows "h1 = h2"
proof -
  have "inj_on (gh_slot \<circ> snd) (set m)"
    using assms(1) by (simp add: slots_ok_def distinct_map)
  moreover have "(h1, g1) \<in> set m" "(h2, g2) \<in> set m"
    using assms(2,3) by (auto dest: map_of_SomeD)
  ultimately show ?thesis
    using assms(4) inj_onD [of "gh_slot \<circ> snd" "set m" "(h1, g1)" "(h2, g2)"] by simp
qed

section \<open>The cache\<close>

definition fresh_slots :: "(string \<Rightarrow> json option) \<Rightarrow> js_exn + string \<Rightarrow> slots_error + slots_map" where
  "fresh_slots json_parse readFile = bindS (case readFile of Inl e \<Rightarrow> Inl (SlotsReadError e) | Inr t \<Rightarrow> Inr t)
     (\<lambda>text. guardS (length text \<le> MAX_SLOTS_BYTES) (SlotsFormatError ''too large'') (parseSlots json_parse text))"

definition cache_ok :: "(string \<Rightarrow> json option) \<Rightarrow> slots_cache \<Rightarrow> bool" where
  "cache_ok json_parse cached \<longleftrightarrow> (case cached of None \<Rightarrow> True | Some (t, m) \<Rightarrow> parseSlots json_parse t = Inr m)"

lemma slots_source_fresh:
  assumes "cache_ok json_parse cached"
  shows "fst (slots_source json_parse r cached) = fresh_slots json_parse r \<and>
    cache_ok json_parse (snd (slots_source json_parse r cached))"
  using assms by (auto simp: slots_source_def fresh_slots_def cache_ok_def guardS_def split: sum.split option.splits)

lemma slots_calls_fresh:
  "cache_ok json_parse cached \<Longrightarrow> slots_calls json_parse rs cached = map (fresh_slots json_parse) rs"
proof (induction rs arbitrary: cached)
  case (Cons r rs)
  then show ?case
    using slots_source_fresh [OF Cons.prems, of r] by (auto split: prod.split)
qed simp

lemma fresh_slots_ok: "fresh_slots json_parse r = Inr m \<Longrightarrow> slots_ok m"
  by (auto simp: fresh_slots_def bindS_Inr guardS_Inr intro: parseSlots_ok split: sum.splits)

section \<open>Properties\<close>

text \<open>C28: Whatever the file held at earlier calls, each call of the slots source answers for the
  bytes it read now: the cached parse is never stale, no error is remembered, and every map it
  answers has distinct hosts, distinct slots, and hashes within the limits beside their own tags.\<close>

theorem slots_source_never_stale:
  "slots_calls json_parse reads None = map (fresh_slots json_parse) reads \<and>
     list_all (case_sum (\<lambda>_. True) slots_ok) (slots_calls json_parse reads None)"
proof -
  have "slots_calls json_parse reads None = map (fresh_slots json_parse) reads"
    by (rule slots_calls_fresh) (simp add: cache_ok_def)
  then show ?thesis
    by (auto simp: list_all_iff fresh_slots_ok split: sum.split)
qed

text \<open>The lease read for a slot is that of a well-formed record in the slot's own file.\<close>

lemma lease_reader_Inr:
  assumes "lease_reader json_parse decode dir slot = Inr cl"
  obtains buffer where "dir (leaseRecordFileName slot) = Regular buffer"
    "parseSlotLeaseRecord json_parse (decode (take (MAX_LEASE_RECORD_BYTES + 1) buffer)) slot =
       Inr \<lparr>lr_slot = slot, lr_lease = cl_lease cl, lr_hashId = cl_hashId cl\<rparr>"
proof -
  obtain buffer rec where d: "dir (leaseRecordFileName slot) = Regular buffer"
    and p: "parseSlotLeaseRecord json_parse (decode (take (MAX_LEASE_RECORD_BYTES + 1) buffer)) slot = Inr rec"
    and cl: "cl = \<lparr>cl_lease = lr_lease rec, cl_hashId = lr_hashId rec\<rparr>"
    using assms by (auto simp: lease_reader_def split: lease_file.splits sum.splits field_error.splits)
  from parse_lease_record_valid [OF p] have "rec = \<lparr>lr_slot = slot, lr_lease = cl_lease cl, lr_hashId = cl_hashId cl\<rparr>"
    using cl by (cases rec) simp
  with d p show ?thesis
    using that by blast
qed

end
