(* ===== verification/Gate_Page.thy ===== *)
theory Gate_Page
  imports Prelude
begin

text \<open>
  The passphrase page and the return path: \<open>src/services/demo-gate/src/page.ts\<close>.

  \<open>replace(/x/g, s)\<close> on a single character is \<open>replace_char\<close>; the five calls of \<open>escapeHtml\<close> are
  made in their order, the ampersand first.
\<close>

definition LOGIN_PATH :: string where
  "LOGIN_PATH = ''/__gate/login''"

definition MAX_RETURN_PATH :: nat where
  "MAX_RETURN_PATH = 2048"

definition backslash :: char where
  "backslash = CHR 0x5C"

text \<open>The class \<open>[\u0000-\u001f\u007f\\]\<close>.\<close>

definition control_or_backslash :: "char \<Rightarrow> bool" where
  "control_or_backslash c \<longleftrightarrow> of_char c < (32 :: nat) \<or> of_char c = (127 :: nat) \<or> c = backslash"

definition safeReturnPath :: "string option \<Rightarrow> string" where
  "safeReturnPath v = (case v of
       None \<Rightarrow> ''/''
     | Some path \<Rightarrow>
         (if path = [] \<or> length path > MAX_RETURN_PATH then ''/''
          else if \<not> starts_with ''/'' path \<or> starts_with ''//'' path \<or> starts_with [CHR ''/'', backslash] path
          then ''/''
          else if list_ex control_or_backslash path then ''/''
          else path))"

definition replace_char :: "char \<Rightarrow> string \<Rightarrow> string \<Rightarrow> string" where
  "replace_char c by s = concat (map (\<lambda>x. if x = c then by else [x]) s)"

definition quote :: char where
  "quote = CHR 0x22"

definition apostrophe :: char where
  "apostrophe = CHR 0x27"

definition escapeHtml :: "string \<Rightarrow> string" where
  "escapeHtml v =
     replace_char apostrophe ''&#39;''
    (replace_char quote ''&quot;''
    (replace_char CHR ''>'' ''&gt;''
    (replace_char CHR ''<'' ''&lt;''
    (replace_char CHR ''&'' ''&amp;'' v))))"

text \<open>A double-quoted attribute, and the page's lines.\<close>

definition attr :: "string \<Rightarrow> string \<Rightarrow> string" where
  "attr name v = name @ ''='' @ [quote] @ v @ [quote]"

definition notice :: "string option \<Rightarrow> string" where
  "notice message = (case message of
       None \<Rightarrow> []
     | Some m \<Rightarrow> (if m = [] then [] else ''<p '' @ attr ''role'' ''alert'' @ ''>'' @ escapeHtml m @ ''</p>''))"

definition page_head :: "string list" where
  "page_head = [
     ''<!doctype html>'',
     ''<html '' @ attr ''lang'' ''en'' @ ''>'',
     ''<head><meta '' @ attr ''charset'' ''utf-8'' @ ''><meta '' @ attr ''name'' ''viewport'' @ '' '' @
       attr ''content'' ''width=device-width, initial-scale=1'' @ ''>'',
     ''<meta '' @ attr ''name'' ''robots'' @ '' '' @ attr ''content'' ''noindex, nofollow'' @
       ''><title>DEMO_GATE_TITLE</title></head>'',
     ''<body>'', ''<main>'', ''<h1>DEMO_GATE_HEADING</h1>'']"

definition page_form :: "string \<Rightarrow> string list" where
  "page_form returnPath = [
     ''<form '' @ attr ''method'' ''post'' @ '' '' @ attr ''action'' LOGIN_PATH @ ''>'',
     ''<input '' @ attr ''type'' ''hidden'' @ '' '' @ attr ''name'' ''r'' @ '' '' @
       attr ''value'' (escapeHtml (safeReturnPath (Some returnPath))) @ ''>'',
     ''<label '' @ attr ''for'' ''passphrase'' @ ''>DEMO_GATE_PASSPHRASE_LABEL</label>'',
     ''<input '' @ attr ''id'' ''passphrase'' @ '' '' @ attr ''name'' ''passphrase'' @ '' '' @
       attr ''type'' ''password'' @ '' '' @ attr ''autocomplete'' ''current-password'' @ '' required '' @
       attr ''maxlength'' ''256'' @ ''>'',
     ''<button '' @ attr ''type'' ''submit'' @ ''>DEMO_GATE_SUBMIT</button>'',
     ''</form>'', ''</main>'', ''</body>'', ''</html>'', []]"

definition passphrasePage :: "string \<Rightarrow> string option \<Rightarrow> string" where
  "passphrasePage returnPath message =
     join_with CHR 0x0A (page_head @ [notice message] @ page_form returnPath)"

section \<open>Escaping\<close>

lemma concat_map_comp: "concat (map f (concat (map g s))) = concat (map (\<lambda>x. concat (map f (g x))) s)"
  by (induction s) simp_all

text \<open>The five passes are one pass: no replacement text is itself replaced.\<close>

definition escape_char :: "char \<Rightarrow> string" where
  "escape_char c =
     (if c = CHR ''&'' then ''&amp;'' else if c = CHR ''<'' then ''&lt;'' else if c = CHR ''>'' then ''&gt;''
      else if c = quote then ''&quot;'' else if c = apostrophe then ''&#39;'' else [c])"

lemma escapeHtml_char: "escapeHtml s = concat (map escape_char s)"
  unfolding escapeHtml_def replace_char_def concat_map_comp
  by (rule arg_cong [of _ _ concat], rule map_cong [OF refl])
    (simp add: escape_char_def quote_def apostrophe_def)

text \<open>The inverse a browser applies to the five entities.\<close>

fun unescape :: "string \<Rightarrow> string" where
  "unescape [] = []"
| "unescape (c # s) =
     (if c \<noteq> CHR ''&'' then c # unescape s
      else if starts_with ''amp;'' s then CHR ''&'' # unescape (drop 4 s)
      else if starts_with ''lt;'' s then CHR ''<'' # unescape (drop 3 s)
      else if starts_with ''gt;'' s then CHR ''>'' # unescape (drop 3 s)
      else if starts_with ''quot;'' s then quote # unescape (drop 5 s)
      else if starts_with ''#39;'' s then apostrophe # unescape (drop 4 s)
      else c # unescape s)"

declare unescape.simps [simp del]

lemma unescape_escape_char: "unescape (escape_char c @ s) = c # unescape s"
  by (simp add: escape_char_def starts_with_def unescape.simps(2) quote_def apostrophe_def)

lemma unescape_escape: "unescape (escapeHtml s) = s"
  unfolding escapeHtml_char by (induction s) (simp_all add: unescape_escape_char unescape.simps(1))

lemma escape_no_markup:
  "quote \<notin> set (escapeHtml s) \<and> apostrophe \<notin> set (escapeHtml s) \<and> CHR ''<'' \<notin> set (escapeHtml s) \<and>
     CHR ''>'' \<notin> set (escapeHtml s)"
proof -
  have "list_all (\<lambda>x. x \<noteq> quote \<and> x \<noteq> apostrophe \<and> x \<noteq> CHR ''<'' \<and> x \<noteq> CHR ''>'') (escape_char c)" for c
    by (auto simp: escape_char_def quote_def apostrophe_def)
  then show ?thesis
    unfolding escapeHtml_char by (fastforce simp: list_all_iff)
qed

section \<open>Return paths\<close>

text \<open>A path no browser reads as another origin: an absolute path of this host.\<close>

definition local_path :: "string \<Rightarrow> bool" where
  "local_path p \<longleftrightarrow> starts_with ''/'' p \<and> \<not> starts_with ''//'' p \<and> \<not> starts_with [CHR ''/'', backslash] p \<and>
     list_all (\<lambda>c. \<not> control_or_backslash c) p \<and> length p \<le> MAX_RETURN_PATH"

lemma root_local: "local_path ''/''"
  by (simp add: local_path_def starts_with_def control_or_backslash_def backslash_def MAX_RETURN_PATH_def)

lemma safeReturnPath_local: "local_path (safeReturnPath v)"
  using root_local
  by (auto simp: safeReturnPath_def local_path_def list_all_iff list_ex_iff split: option.split)

lemma safeReturnPath_fixed: "local_path p \<Longrightarrow> safeReturnPath (Some p) = p"
  by (auto simp: safeReturnPath_def local_path_def list_all_iff list_ex_iff starts_with_def)

section \<open>Properties\<close>

text \<open>The return path is always an absolute path of this host, with no control character,
  backslash or second leading slash; a path that is safe already is kept as it is; and the
  text escaped into the page's hidden field holds no quote or angle bracket and reads back as the path.\<close>

theorem return_path_safe:
  "local_path (safeReturnPath v) \<and> safeReturnPath (Some (safeReturnPath v)) = safeReturnPath v \<and>
     quote \<notin> set (escapeHtml (safeReturnPath v)) \<and> CHR ''<'' \<notin> set (escapeHtml (safeReturnPath v)) \<and>
     CHR ''>'' \<notin> set (escapeHtml (safeReturnPath v)) \<and>
     unescape (escapeHtml (safeReturnPath v)) = safeReturnPath v"
  using safeReturnPath_local safeReturnPath_fixed escape_no_markup unescape_escape by blast

end
