(* ===== verification/Gate_Ceiling.thy ===== *)
theory Gate_Ceiling
  imports Prelude
begin

text \<open>
  The per-source attempt ceiling: \<open>src/services/demo-gate/src/ceiling.ts\<close>.

  The closure's \<open>windows\<close> map is an association list in the \<open>Map\<close>'s iteration order.
  Times are milliseconds as integers.  \<open>ceiling_inv\<close> is what the comments claim of the table:
  keys are unique, the table is bounded, no window is over its limit, and windows are in order of
  their start.  The locale \<open>attempt_ceiling\<close> is the contract the login handler relies on.
\<close>

record ceiling_options =
  co_limit :: nat
  co_windowMs :: int
  co_maxSources :: nat

record ceiling_entry =
  ce_start :: int
  ce_count :: nat

type_synonym windows = "(string, ceiling_entry) jsmap"

datatype verdict = Allowed | Refused int

definition live :: "ceiling_options \<Rightarrow> int \<Rightarrow> ceiling_entry \<Rightarrow> bool" where
  "live opts nowMs entry \<longleftrightarrow> nowMs - ce_start entry < co_windowMs opts"

text \<open>The loop stops at the first live entry.\<close>

fun sweep_windows :: "ceiling_options \<Rightarrow> int \<Rightarrow> windows \<Rightarrow> windows" where
  "sweep_windows opts nowMs [] = []"
| "sweep_windows opts nowMs ((key, entry) # rest) =
     (if live opts nowMs entry then (key, entry) # rest else sweep_windows opts nowMs rest)"

definition liveEntry :: "ceiling_options \<Rightarrow> windows \<Rightarrow> string \<Rightarrow> int \<Rightarrow> ceiling_entry option" where
  "liveEntry opts w key nowMs = (case map_of w key of
       Some entry \<Rightarrow> if live opts nowMs entry then Some entry else None
     | None \<Rightarrow> None)"

text \<open>\<open>Math.ceil(ms / 1000)\<close> on whole milliseconds.\<close>

definition ceil_seconds :: "int \<Rightarrow> int" where
  "ceil_seconds ms = (ms + 999) div 1000"

definition decide :: "ceiling_options \<Rightarrow> windows \<Rightarrow> string \<Rightarrow> int \<Rightarrow> verdict \<times> windows" where
  "decide opts w key nowMs = (case liveEntry opts w key nowMs of
       None \<Rightarrow>
         (if length w \<ge> co_maxSources opts then
            (let w' = sweep_windows opts nowMs w in
             if length w' \<ge> co_maxSources opts then (Refused (ceil_seconds (co_windowMs opts)), w')
             else (Allowed, w'))
          else (Allowed, w))
     | Some entry \<Rightarrow>
         (if ce_count entry \<ge> co_limit opts then
            (let remaining = co_windowMs opts - (nowMs - ce_start entry) in
             (Refused (max 1 (ceil_seconds remaining)), w))
          else (Allowed, w)))"

definition attempt :: "ceiling_options \<Rightarrow> string \<Rightarrow> int \<Rightarrow> windows \<Rightarrow> verdict \<times> windows" where
  "attempt opts key nowMs w = (case decide opts w key nowMs of
       (Refused s, w') \<Rightarrow> (Refused s, w')
     | (Allowed, w') \<Rightarrow>
         (case liveEntry opts w' key nowMs of
            Some entry \<Rightarrow> (Allowed, AList.update key (entry\<lparr>ce_count := Suc (ce_count entry)\<rparr>) w')
          | None \<Rightarrow> (Allowed, AList.update key \<lparr>ce_start = nowMs, ce_count = 1\<rparr> (AList.delete key w'))))"

definition peek :: "ceiling_options \<Rightarrow> string \<Rightarrow> int \<Rightarrow> windows \<Rightarrow> verdict \<times> windows" where
  "peek opts key nowMs w = decide opts w key nowMs"

definition refund :: "string \<Rightarrow> windows \<Rightarrow> windows" where
  "refund key w = (case map_of w key of
       Some entry \<Rightarrow>
         (if ce_count entry > 0 then AList.update key (entry\<lparr>ce_count := ce_count entry - 1\<rparr>) w else w)
     | None \<Rightarrow> w)"

section \<open>The invariant\<close>

definition starts :: "windows \<Rightarrow> int list" where
  "starts w = map (\<lambda>kv. ce_start (snd kv)) w"

definition ceiling_inv :: "ceiling_options \<Rightarrow> windows \<Rightarrow> bool" where
  "ceiling_inv opts w \<longleftrightarrow> wf_map w \<and> length w \<le> co_maxSources opts \<and>
     (\<forall>kv \<in> set w. ce_count (snd kv) \<le> co_limit opts) \<and> sorted (starts w)"

text \<open>Times do not go back: no window starts later than now.\<close>

definition not_before :: "windows \<Rightarrow> int \<Rightarrow> bool" where
  "not_before w nowMs \<longleftrightarrow> (\<forall>kv \<in> set w. ce_start (snd kv) \<le> nowMs)"

lemma sweep_suffix: "\<exists>dead. w = dead @ sweep_windows opts nowMs w \<and> (\<forall>kv \<in> set dead. \<not> live opts nowMs (snd kv))"
proof (induction w)
  case (Cons kv w)
  then obtain dead where "w = dead @ sweep_windows opts nowMs w" "\<forall>kv \<in> set dead. \<not> live opts nowMs (snd kv)"
    by blast
  then have "\<exists>d. kv # w = d @ sweep_windows opts nowMs w \<and> (\<forall>kv \<in> set d. \<not> live opts nowMs (snd kv))"
    if "\<not> live opts nowMs (snd kv)"
    using that by (intro exI [of _ "kv # dead"]) auto
  then show ?case
    by (cases kv) (auto intro: exI [of _ "[]"])
qed simp

lemma length_sweep: "length (sweep_windows opts nowMs w) \<le> length w"
  using sweep_suffix [of w opts nowMs] by (metis le_add2 length_append)

lemma ceiling_inv_suffix: "ceiling_inv opts (u @ v) \<Longrightarrow> ceiling_inv opts v"
  by (auto simp: ceiling_inv_def wf_map_def starts_def sorted_append)

lemma ceiling_inv_sweep: "ceiling_inv opts w \<Longrightarrow> ceiling_inv opts (sweep_windows opts nowMs w)"
  by (metis sweep_suffix ceiling_inv_suffix)

lemma not_before_sweep: "not_before w t \<Longrightarrow> not_before (sweep_windows opts nowMs w) t"
  using sweep_suffix [of w opts nowMs] by (metis not_before_def Un_iff set_append)

text \<open>Order makes the early exit of the sweep complete: only live windows are left.\<close>

lemma sweep_complete:
  assumes "sorted (starts w)" "kv \<in> set (sweep_windows opts nowMs w)"
  shows "live opts nowMs (snd kv)"
  using assms
proof (induction w)
  case (Cons x w)
  then show ?case
    by (cases x) (auto simp: starts_def live_def split: if_splits)
qed simp

lemma map_of_sweep_live:
  assumes "wf_map w" "map_of w key = Some entry" "live opts nowMs entry"
  shows "map_of (sweep_windows opts nowMs w) key = Some entry"
proof -
  obtain dead where d: "w = dead @ sweep_windows opts nowMs w" "\<forall>kv \<in> set dead. \<not> live opts nowMs (snd kv)"
    using sweep_suffix by blast
  then have "map_of w key = (case map_of dead key of None \<Rightarrow> map_of (sweep_windows opts nowMs w) key | Some e \<Rightarrow> Some e)"
    by (metis map_add_def map_of_append)
  moreover have "map_of dead key \<noteq> Some entry"
    using d(2) assms(3) map_of_SomeD [of dead key entry] by (metis snd_conv)
  ultimately show ?thesis using assms(2) by (auto split: option.splits)
qed

lemma map_of_sweep_mono:
  "wf_map w \<Longrightarrow> map_of (sweep_windows opts nowMs w) key = Some entry \<Longrightarrow> map_of w key = Some entry"
  by (metis Un_iff map_of_SomeD map_of_eq_Some_iff set_append sweep_suffix wf_map_def)

lemma decide_windows:
  "snd (decide opts w key nowMs) = w \<or> snd (decide opts w key nowMs) = sweep_windows opts nowMs w"
  by (auto simp: decide_def Let_def split: option.split)

lemma ceiling_inv_decide: "ceiling_inv opts w \<Longrightarrow> ceiling_inv opts (snd (decide opts w key nowMs))"
  using decide_windows [of opts w key nowMs] ceiling_inv_sweep by metis

lemma not_before_decide: "not_before w t \<Longrightarrow> not_before (snd (decide opts w key nowMs)) t"
  using decide_windows [of opts w key nowMs] not_before_sweep by metis

lemma liveEntry_Some:
  "liveEntry opts w key nowMs = Some entry \<longleftrightarrow> map_of w key = Some entry \<and> live opts nowMs entry"
  by (auto simp: liveEntry_def split: option.split)

lemma liveEntry_sweep:
  assumes "wf_map w"
  shows "liveEntry opts (sweep_windows opts nowMs w) key nowMs = liveEntry opts w key nowMs"
proof -
  have "liveEntry opts (sweep_windows opts nowMs w) key nowMs = Some entry \<longleftrightarrow>
      liveEntry opts w key nowMs = Some entry" for entry
    using map_of_sweep_live [OF assms, of key entry opts nowMs]
      map_of_sweep_mono [OF assms, of opts nowMs key entry]
    unfolding liveEntry_Some by blast
  then show ?thesis by (metis not_Some_eq)
qed

lemma liveEntry_decide:
  "wf_map w \<Longrightarrow> liveEntry opts (snd (decide opts w key' nowMs)) key nowMs = liveEntry opts w key nowMs"
  using decide_windows [of opts w key' nowMs] liveEntry_sweep by metis

text \<open>An admitted source either has a live window with room, or a free slot in the table.\<close>

lemma decide_allowed:
  assumes "decide opts w key nowMs = (Allowed, w')"
  shows "case liveEntry opts w key nowMs of
      Some entry \<Rightarrow> ce_count entry < co_limit opts \<and> w' = w
    | None \<Rightarrow> length w' < co_maxSources opts"
  using assms by (auto simp: decide_def Let_def split: option.splits if_splits)

lemma starts_update:
  "wf_map w \<Longrightarrow> map_of w key = Some entry \<Longrightarrow> ce_start entry' = ce_start entry \<Longrightarrow>
     starts (AList.update key entry' w) = starts w"
  by (induction w) (auto simp: starts_def wf_map_Cons rev_image_eqI split: if_splits)

lemma set_update_subset: "set (AList.update k v m) \<subseteq> insert (k, v) (set m)"
  by (induction m) auto

lemma set_delete_subset: "set (AList.delete k m) \<subseteq> set m"
  by (induction m) auto

lemma not_before_update: "not_before w t \<Longrightarrow> ce_start e \<le> t \<Longrightarrow> not_before (AList.update k e w) t"
  using set_update_subset [of k e w] unfolding not_before_def by fastforce

lemma not_before_delete: "not_before w t \<Longrightarrow> not_before (AList.delete k w) t"
  using set_delete_subset [of k w] by (auto simp: not_before_def)

lemma not_before_map_of: "not_before w t \<Longrightarrow> map_of w k = Some e \<Longrightarrow> ce_start e \<le> t"
  by (fastforce simp: not_before_def dest: map_of_SomeD)

lemma length_update_found: "map_of m k = Some x \<Longrightarrow> length (AList.update k v m) = length m"
  by (rule length_update_present) (metis domI dom_map_of_conv_image_fst)

lemma delete_notin: "k \<notin> fst ` set (AList.delete k m)"
  by (induction m) auto

lemma starts_delete: "sorted (starts w) \<Longrightarrow> sorted (starts (AList.delete k w))"
  by (induction w) (use set_delete_subset [of k] in \<open>fastforce simp: starts_def\<close>)+

lemma ceiling_inv_count:
  assumes "ceiling_inv opts w" "map_of w key = Some entry" "n \<le> co_limit opts"
  shows "ceiling_inv opts (AList.update key (entry\<lparr>ce_count := n\<rparr>) w)"
  using assms set_update_subset [of key "entry\<lparr>ce_count := n\<rparr>" w]
    starts_update [of w key entry "entry\<lparr>ce_count := n\<rparr>"] length_update_found [OF assms(2)]
  by (auto simp: ceiling_inv_def)

lemma ceiling_inv_fresh:
  assumes "ceiling_inv opts w" "not_before w nowMs" "length w < co_maxSources opts" "0 < co_limit opts"
  shows "ceiling_inv opts (AList.update key \<lparr>ce_start = nowMs, ce_count = 1\<rparr> (AList.delete key w))"
proof -
  let ?d = "AList.delete key w"
  have app: "AList.update key \<lparr>ce_start = nowMs, ce_count = 1\<rparr> ?d = ?d @ [(key, \<lparr>ce_start = nowMs, ce_count = 1\<rparr>)]"
    by (rule update_absent) (rule delete_notin)
  have wf: "wf_map (AList.update key \<lparr>ce_start = nowMs, ce_count = 1\<rparr> ?d)"
    using assms(1) by (simp add: ceiling_inv_def)
  have len: "length ?d < co_maxSources opts"
    using length_delete_le [of key w] assms(3) by simp
  have counts: "\<forall>kv \<in> set ?d. ce_count (snd kv) \<le> co_limit opts"
    using assms(1) set_delete_subset [of key w] by (auto simp: ceiling_inv_def)
  have sorted: "sorted (starts ?d @ [nowMs])"
    using assms(1) starts_delete [of w key] not_before_delete [OF assms(2), of key]
    by (auto simp: ceiling_inv_def sorted_append not_before_def starts_def)
  show ?thesis
    unfolding ceiling_inv_def
  proof (intro conjI)
    show "sorted (starts (AList.update key \<lparr>ce_start = nowMs, ce_count = 1\<rparr> ?d))"
      unfolding app using sorted by (simp add: starts_def)
    show "length (AList.update key \<lparr>ce_start = nowMs, ce_count = 1\<rparr> ?d) \<le> co_maxSources opts"
      unfolding app using len by simp
    show "\<forall>kv \<in> set (AList.update key \<lparr>ce_start = nowMs, ce_count = 1\<rparr> ?d). ce_count (snd kv) \<le> co_limit opts"
      unfolding app using counts assms(4) by auto
  qed (rule wf)
qed

lemma attempt_inv:
  assumes "ceiling_inv opts w" "not_before w nowMs" "0 < co_limit opts"
  shows "ceiling_inv opts (snd (attempt opts key nowMs w)) \<and> not_before (snd (attempt opts key nowMs w)) nowMs"
proof -
  obtain v w' where d: "decide opts w key nowMs = (v, w')" by fastforce
  have inv: "ceiling_inv opts w'" and nb: "not_before w' nowMs"
    using ceiling_inv_decide [OF assms(1), of key nowMs] not_before_decide [OF assms(2), of opts key nowMs] d by simp_all
  have wf: "wf_map w" using assms(1) by (simp add: ceiling_inv_def)
  have le: "liveEntry opts w' key nowMs = liveEntry opts w key nowMs"
    using liveEntry_decide [OF wf, of opts key nowMs key] d by simp
  show ?thesis
  proof (cases v)
    case (Refused s)
    with d inv nb show ?thesis by (simp add: attempt_def)
  next
    case Allowed
    note da = decide_allowed [OF d [unfolded Allowed]]
    show ?thesis
    proof (cases "liveEntry opts w key nowMs")
      case None
      with da inv nb assms(3) ceiling_inv_fresh [of opts w' nowMs key] show ?thesis
        by (simp add: attempt_def d Allowed le not_before_update not_before_delete)
    next
      case (Some entry)
      with da have "ce_count entry < co_limit opts" "map_of w' key = Some entry"
        using le by (auto simp: liveEntry_Some)
      with Some inv nb ceiling_inv_count [of opts w' key entry "Suc (ce_count entry)"]
        not_before_map_of [of w' nowMs key entry]
      show ?thesis
        by (simp add: attempt_def d Allowed le not_before_update)
    qed
  qed
qed

lemma refund_inv:
  assumes "ceiling_inv opts w" shows "ceiling_inv opts (refund key w)"
proof (cases "map_of w key")
  case (Some entry)
  with assms have "ce_count entry \<le> co_limit opts"
    by (auto simp: ceiling_inv_def dest!: map_of_SomeD)
  with ceiling_inv_count [OF assms Some, of "ce_count entry - 1"] assms Some show ?thesis
    by (simp add: refund_def)
qed (simp add: refund_def assms)

lemma refund_not_before: "not_before w t \<Longrightarrow> not_before (refund key w) t"
  using not_before_map_of [of w t key] by (auto simp: refund_def not_before_update split: option.split)

section \<open>The contract of a ceiling\<close>

text \<open>
  What the login handler relies on: a peek predicts the attempt that follows it at the same time,
  and changes no live window; invariants are kept; a refund undoes a charge.
\<close>

locale attempt_ceiling =
  fixes inv :: "'t \<Rightarrow> int \<Rightarrow> bool"
    and peek_at attempt_at :: "string \<Rightarrow> int \<Rightarrow> 't \<Rightarrow> verdict \<times> 't"
    and refund_of :: "string \<Rightarrow> 't \<Rightarrow> 't"
    and charged :: "'t \<Rightarrow> string \<Rightarrow> int \<Rightarrow> nat"
  assumes inv_later: "inv t now \<Longrightarrow> now \<le> now' \<Longrightarrow> inv t now'"
    and inv_peek: "inv t now \<Longrightarrow> inv (snd (peek_at key now t)) now"
    and inv_attempt: "inv t now \<Longrightarrow> inv (snd (attempt_at key now t)) now"
    and inv_refund: "inv t now \<Longrightarrow> inv (refund_of key t) now"
    and peek_attempt: "inv t now \<Longrightarrow> fst (peek_at key now t) = Allowed \<Longrightarrow>
        fst (attempt_at key now (snd (peek_at key now t))) = Allowed"
    and peek_charged: "inv t now \<Longrightarrow> charged (snd (peek_at key' now t)) key now = charged t key now"
    and attempt_charged: "inv t now \<Longrightarrow> fst (attempt_at key now t) = Allowed \<Longrightarrow>
        charged (snd (attempt_at key now t)) key now = Suc (charged t key now)"
begin

lemma peek_then_attempt:
  "inv t now \<Longrightarrow> fst (peek_at key now t) = Allowed \<Longrightarrow>
     charged (snd (attempt_at key now (snd (peek_at key now t)))) key now = Suc (charged t key now)"
  by (simp add: attempt_charged inv_peek peek_attempt peek_charged)

end

definition ceiling_ok :: "ceiling_options \<Rightarrow> windows \<Rightarrow> int \<Rightarrow> bool" where
  "ceiling_ok opts w nowMs \<longleftrightarrow> ceiling_inv opts w \<and> not_before w nowMs \<and> 0 < co_limit opts \<and>
     0 < co_windowMs opts"

text \<open>What the live window of a source has been charged, 0 without one.\<close>

definition charged_now :: "ceiling_options \<Rightarrow> windows \<Rightarrow> string \<Rightarrow> int \<Rightarrow> nat" where
  "charged_now opts w key nowMs = (case liveEntry opts w key nowMs of None \<Rightarrow> 0 | Some e \<Rightarrow> ce_count e)"

lemma decide_again:
  assumes "ceiling_inv opts w" "decide opts w key nowMs = (Allowed, w')"
  shows "decide opts w' key nowMs = (Allowed, w')"
proof -
  have "wf_map w" using assms(1) by (simp add: ceiling_inv_def)
  from liveEntry_decide [OF this, of opts key nowMs key] decide_allowed [OF assms(2)] assms(2)
  show ?thesis
    by (cases "liveEntry opts w key nowMs") (auto simp: decide_def)
qed

lemma liveEntry_update:
  "live opts nowMs e \<Longrightarrow> liveEntry opts (AList.update key e w) key' nowMs =
     (if key' = key then Some e else liveEntry opts w key' nowMs)"
  by (auto simp: liveEntry_def)

lemma liveEntry_delete:
  "key' \<noteq> key \<Longrightarrow> liveEntry opts (AList.delete key w) key' nowMs = liveEntry opts w key' nowMs"
  by (simp add: liveEntry_def)

lemma attempt_cases:
  assumes "ceiling_inv opts w" "0 < co_windowMs opts" "attempt opts key nowMs w = (v, w')"
  shows "(\<exists>s. v = Refused s) \<and> (\<forall>k. liveEntry opts w' k nowMs = liveEntry opts w k nowMs) \<or>
    v = Allowed \<and> charged_now opts w key nowMs < max 1 (co_limit opts) \<and>
      (\<forall>k. liveEntry opts w' k nowMs = (if k = key then Some
         (case liveEntry opts w key nowMs of
            None \<Rightarrow> \<lparr>ce_start = nowMs, ce_count = 1\<rparr>
          | Some e \<Rightarrow> e\<lparr>ce_count := Suc (ce_count e)\<rparr>) else liveEntry opts w k nowMs))"
proof -
  have wf: "wf_map w" using assms(1) by (simp add: ceiling_inv_def)
  obtain d u where d: "decide opts w key nowMs = (d, u)" by fastforce
  note same = liveEntry_decide [OF wf, of opts key nowMs, unfolded d snd_conv]
  show ?thesis
  proof (cases d)
    case (Refused s)
    with assms(3) same show ?thesis by (auto simp: attempt_def d)
  next
    case Allowed
    note da = decide_allowed [OF d [unfolded Allowed]]
    have fresh: "live opts nowMs \<lparr>ce_start = nowMs, ce_count = Suc 0\<rparr>"
      using assms(2) by (simp add: live_def)
    show ?thesis
    proof (cases "liveEntry opts w key nowMs")
      case None
      with assms(3) same [of key] fresh have "w' = AList.update key \<lparr>ce_start = nowMs, ce_count = 1\<rparr> (AList.delete key u)" "v = Allowed"
        by (auto simp: attempt_def d Allowed)
      with None same fresh show ?thesis
        by (auto simp: charged_now_def liveEntry_update liveEntry_delete)
    next
      case (Some e)
      then have "live opts nowMs (e\<lparr>ce_count := Suc (ce_count e)\<rparr>)" by (simp add: liveEntry_Some live_def)
      with assms(3) same Some da show ?thesis
        by (auto simp: attempt_def d Allowed charged_now_def liveEntry_update)
    qed
  qed
qed

lemma not_before_later: "not_before w t \<Longrightarrow> t \<le> t' \<Longrightarrow> not_before w t'"
  by (fastforce simp: not_before_def)

interpretation cl: attempt_ceiling "ceiling_ok opts" "peek opts" "attempt opts" refund "charged_now opts"
  for opts
proof unfold_locales
  fix t now now' assume "ceiling_ok opts t now" "now \<le> now'"
  then show "ceiling_ok opts t now'" by (auto simp: ceiling_ok_def intro: not_before_later)
next
  fix t now key assume "ceiling_ok opts t now"
  then show "ceiling_ok opts (snd (peek opts key now t)) now"
    by (simp add: ceiling_ok_def peek_def ceiling_inv_decide not_before_decide)
next
  fix t now key assume "ceiling_ok opts t now"
  then show "ceiling_ok opts (snd (attempt opts key now t)) now"
    by (simp add: ceiling_ok_def attempt_inv)
next
  fix t now key assume "ceiling_ok opts t now"
  then show "ceiling_ok opts (refund key t) now"
    by (simp add: ceiling_ok_def refund_inv refund_not_before)
next
  fix t now key assume "ceiling_ok opts t now" "fst (peek opts key now t) = Allowed"
  moreover obtain u where "decide opts t key now = (Allowed, u)"
    using calculation by (cases "decide opts t key now") (simp add: peek_def)
  ultimately show "fst (attempt opts key now (snd (peek opts key now t))) = Allowed"
    using decide_again [of opts t key now u]
    by (simp add: ceiling_ok_def peek_def attempt_def split: option.split)
next
  fix t now key' key assume "ceiling_ok opts t now"
  then show "charged_now opts (snd (peek opts key' now t)) key now = charged_now opts t key now"
    by (simp add: ceiling_ok_def ceiling_inv_def peek_def charged_now_def liveEntry_decide)
next
  fix t now key assume ok: "ceiling_ok opts t now" "fst (attempt opts key now t) = Allowed"
  then obtain u where u: "attempt opts key now t = (Allowed, u)"
    by (cases "attempt opts key now t") simp
  with attempt_cases [OF _ _ u] ok
  show "charged_now opts (snd (attempt opts key now t)) key now = Suc (charged_now opts t key now)"
    by (auto simp: ceiling_ok_def charged_now_def split: option.splits)
qed

section \<open>Sequences of requests\<close>

datatype ceiling_op = Attempt string int | Peek string int | Refund string

text \<open>The calls arrive in order, at times from \<open>t0\<close> to \<open>t1\<close>.\<close>

fun timed :: "int \<Rightarrow> int \<Rightarrow> ceiling_op list \<Rightarrow> bool" where
  "timed t0 t1 [] = True"
| "timed t0 t1 (Attempt k t # ops) = (t0 \<le> t \<and> t \<le> t1 \<and> timed t t1 ops)"
| "timed t0 t1 (Peek k t # ops) = (t0 \<le> t \<and> t \<le> t1 \<and> timed t t1 ops)"
| "timed t0 t1 (Refund k # ops) = timed t0 t1 ops"

fun allowed_attempts :: "ceiling_options \<Rightarrow> string \<Rightarrow> ceiling_op list \<Rightarrow> windows \<Rightarrow> nat" where
  "allowed_attempts opts key [] w = 0"
| "allowed_attempts opts key (Attempt k t # ops) w =
     (if k = key \<and> fst (attempt opts k t w) = Allowed then 1 else 0) +
     allowed_attempts opts key ops (snd (attempt opts k t w))"
| "allowed_attempts opts key (Peek k t # ops) w = allowed_attempts opts key ops (snd (peek opts k t w))"
| "allowed_attempts opts key (Refund k # ops) w = allowed_attempts opts key ops (refund k w)"

fun run_ceiling :: "ceiling_options \<Rightarrow> ceiling_op list \<Rightarrow> windows \<Rightarrow> windows" where
  "run_ceiling opts [] w = w"
| "run_ceiling opts (Attempt k t # ops) w = run_ceiling opts ops (snd (attempt opts k t w))"
| "run_ceiling opts (Peek k t # ops) w = run_ceiling opts ops (snd (peek opts k t w))"
| "run_ceiling opts (Refund k # ops) w = run_ceiling opts ops (refund k w)"

text \<open>A window opened at or after \<open>t0\<close> is still open at any time before \<open>t0 + windowMs\<close>.\<close>

definition opened_since :: "ceiling_options \<Rightarrow> windows \<Rightarrow> string \<Rightarrow> int \<Rightarrow> int \<Rightarrow> bool" where
  "opened_since opts w key t0 t \<longleftrightarrow> (\<forall>e. liveEntry opts w key t = Some e \<longrightarrow> t0 \<le> ce_start e)"

lemma liveEntry_stays:
  assumes "opened_since opts w key t0 t" "t \<le> t'" "t' < t0 + co_windowMs opts"
  shows "liveEntry opts w key t' = liveEntry opts w key t"
proof (cases "map_of w key")
  case (Some e)
  with assms show ?thesis
    by (auto simp: liveEntry_def opened_since_def live_def)
qed (simp add: liveEntry_def)

lemma liveEntry_refund:
  assumes "wf_map w"
  shows "liveEntry opts (refund k w) key t = (if k = key then
     map_option (\<lambda>e. e\<lparr>ce_count := ce_count e - 1\<rparr>) (liveEntry opts w key t) else liveEntry opts w key t)"
  by (auto simp: refund_def liveEntry_def live_def split: option.split)

lemma metering:
  assumes "ceiling_ok opts w t" "opened_since opts w key t0 t" "t0 \<le> t" "timed t t1 ops"
    and "t1 < t0 + co_windowMs opts" "t \<le> t1"
  shows "allowed_attempts opts key ops w + charged_now opts w key t \<le>
     co_limit opts + length (filter (\<lambda>op. op = Refund key) ops)"
  using assms
proof (induction ops arbitrary: w t)
  case Nil
  then show ?case
    by (auto simp: charged_now_def liveEntry_Some ceiling_ok_def ceiling_inv_def split: option.split dest!: map_of_SomeD)
next
  case (Cons op ops)
  have wf: "wf_map w" using Cons.prems(1) by (simp add: ceiling_ok_def ceiling_inv_def)
  show ?case
  proof (cases op)
    case (Attempt k t')
    then have t': "t \<le> t'" "t' \<le> t1" "timed t' t1 ops" using Cons.prems(4) by auto
    obtain v w' where a: "attempt opts k t' w = (v, w')" by fastforce
    have ok: "ceiling_ok opts w t'" by (rule cl.inv_later [OF Cons.prems(1) t'(1)])
    have stays: "liveEntry opts w key t' = liveEntry opts w key t"
      using liveEntry_stays [OF Cons.prems(2) t'(1)] t'(2) Cons.prems(5) by simp
    have ok': "ceiling_ok opts w' t'" using cl.inv_attempt [OF ok, of k] a by simp
    have at_key: "liveEntry opts w' key t' = (if v = Allowed \<and> k = key then Some
         (case liveEntry opts w key t of
            None \<Rightarrow> \<lparr>ce_start = t', ce_count = 1\<rparr>
          | Some e \<Rightarrow> e\<lparr>ce_count := Suc (ce_count e)\<rparr>) else liveEntry opts w key t)"
      using attempt_cases [OF _ _ a] ok stays by (auto simp: ceiling_ok_def)
    have "opened_since opts w' key t0 t'"
      using Cons.prems(2,3) t'(1)
      by (auto simp: opened_since_def at_key split: option.splits if_splits)
    from Cons.IH [OF ok' this _ t'(3) Cons.prems(5) t'(2)] Cons.prems(3) t'(1)
    have IH: "allowed_attempts opts key ops w' + charged_now opts w' key t' \<le>
        co_limit opts + length (filter (\<lambda>op. op = Refund key) ops)" by simp
    have "(if k = key \<and> v = Allowed then 1 else 0) + charged_now opts w key t \<le> charged_now opts w' key t'"
      by (auto simp: charged_now_def at_key split: option.splits)
    with IH Attempt a show ?thesis by auto
  next
    case (Peek k t')
    then have t': "t \<le> t'" "t' \<le> t1" "timed t' t1 ops" using Cons.prems(4) by auto
    have ok: "ceiling_ok opts w t'" by (rule cl.inv_later [OF Cons.prems(1) t'(1)])
    have stays: "liveEntry opts w key t' = liveEntry opts w key t"
      using liveEntry_stays [OF Cons.prems(2) t'(1)] t'(2) Cons.prems(5) by simp
    have same: "liveEntry opts (snd (peek opts k t' w)) key t' = liveEntry opts w key t"
      using wf stays by (simp add: peek_def liveEntry_decide)
    have "opened_since opts (snd (peek opts k t' w)) key t0 t'"
      using Cons.prems(2) by (simp add: opened_since_def same)
    from Cons.IH [OF cl.inv_peek [OF ok, of k] this _ t'(3) Cons.prems(5) t'(2)] Cons.prems(3) t'(1) same
    show ?thesis using Peek by (simp add: charged_now_def)
  next
    case (Refund k)
    have r: "liveEntry opts (refund k w) key t = (if k = key then
        map_option (\<lambda>e. e\<lparr>ce_count := ce_count e - 1\<rparr>) (liveEntry opts w key t) else liveEntry opts w key t)"
      by (rule liveEntry_refund [OF wf])
    have os: "opened_since opts (refund k w) key t0 t"
      using Cons.prems(2) by (auto simp: opened_since_def r)
    have "charged_now opts w key t \<le> charged_now opts (refund k w) key t + (if k = key then 1 else 0)"
      by (auto simp: charged_now_def r split: option.split)
    with Cons.IH [OF cl.inv_refund [OF Cons.prems(1), of k] os Cons.prems(3)] Cons.prems(4-6)
    show ?thesis using Refund by auto
  qed
qed

section \<open>Properties\<close>

text \<open>C29: Metering: in any interleaving of attempts, peeks and refunds for any sources, at times
  that do not go back and span less than one window, a source that starts without a live window is
  allowed at most \<open>limit\<close> attempts, plus one for each refund it was given.\<close>

theorem ceiling_meters_window:
  assumes "ceiling_ok opts w t0" "liveEntry opts w key t0 = None"
    and "timed t0 t1 ops" "t0 \<le> t1" "t1 < t0 + co_windowMs opts"
  shows "allowed_attempts opts key ops w \<le> co_limit opts + length (filter (\<lambda>op. op = Refund key) ops)"
  using metering [OF assms(1) _ order_refl assms(3,5,4), of key] assms(2)
  by (simp add: opened_since_def charged_now_def)

definition small_options :: ceiling_options where
  "small_options = \<lparr>co_limit = 1, co_windowMs = 1000, co_maxSources = 2\<rparr>"

lemma small_ok: "ceiling_ok small_options [] t"
  by (simp add: ceiling_ok_def ceiling_inv_def not_before_def starts_def small_options_def)

lemma ceiling_meters_window_witness:
  "allowed_attempts small_options ''a'' [Attempt ''a'' 0, Attempt ''b'' 1, Attempt ''a'' 2, Refund ''a'', Attempt ''a'' 3] []
     \<le> 1 + 1"
  using ceiling_meters_window [OF small_ok, of "''a''" 0 3
      "[Attempt ''a'' 0, Attempt ''b'' 1, Attempt ''a'' 2, Refund ''a'', Attempt ''a'' 3]"]
  by (simp add: liveEntry_def small_options_def)

text \<open>The table stays bounded and ordered whatever is asked of it, and its bound is not spent on
  dead windows: after any such sequence it has at most \<open>maxSources\<close> entries, one per source, none
  over the limit, in order of their start; and an unknown source is refused only when every one of
  \<open>maxSources\<close> entries is a live window.\<close>

theorem ceiling_table_bounded:
  assumes "ceiling_ok opts w t0" "timed t0 t1 ops" "t0 \<le> t1" "w' = run_ceiling opts ops w"
  shows "ceiling_inv opts w' \<and>
    (\<forall>key s. liveEntry opts w' key t1 = None \<and> fst (attempt opts key t1 w') = Refused s \<longrightarrow>
       length (filter (\<lambda>kv. live opts t1 (snd kv)) w') = co_maxSources opts)"
proof -
  have ok: "ceiling_ok opts (run_ceiling opts ops w) t1"
    using assms(1-3)
  proof (induction ops arbitrary: w t0)
    case Nil
    then show ?case using cl.inv_later by simp
  next
    case (Cons op ops)
    show ?case
    proof (cases op)
      case (Attempt k t)
      with Cons.prems Cons.IH [OF cl.inv_attempt [OF cl.inv_later [OF Cons.prems(1), of t], of k]] show ?thesis
        by simp
    next
      case (Peek k t)
      with Cons.prems Cons.IH [OF cl.inv_peek [OF cl.inv_later [OF Cons.prems(1), of t], of k]] show ?thesis
        by simp
    next
      case (Refund k)
      with Cons.prems Cons.IH [OF cl.inv_refund [OF Cons.prems(1), of k]] show ?thesis by simp
    qed
  qed
  have "length (filter (\<lambda>kv. live opts t1 (snd kv)) w') = co_maxSources opts"
    if none: "liveEntry opts w' key t1 = None" and ref: "fst (attempt opts key t1 w') = Refused s" for key s
  proof -
    let ?s = "sweep_windows opts t1 w'"
    have inv: "ceiling_inv opts w'" using ok assms(4) by (simp add: ceiling_ok_def)
    have full: "co_maxSources opts \<le> length ?s"
      using none ref by (auto simp: attempt_def decide_def Let_def split: option.splits if_splits)
    obtain dead where d: "w' = dead @ ?s" "\<forall>kv \<in> set dead. \<not> live opts t1 (snd kv)"
      using sweep_suffix by blast
    have lv: "\<forall>kv \<in> set ?s. live opts t1 (snd kv)"
      using sweep_complete inv by (auto simp: ceiling_inv_def)
    have "filter (\<lambda>kv. live opts t1 (snd kv)) (dead @ ?s) = ?s"
      using d(2) lv by (simp add: filter_empty_conv)
    then have "filter (\<lambda>kv. live opts t1 (snd kv)) w' = ?s"
      using d(1) by simp
    with full length_sweep [of opts t1 w'] inv show ?thesis by (simp add: ceiling_inv_def)
  qed
  with ok assms(4) show ?thesis by (auto simp: ceiling_ok_def)
qed

lemma ceiling_table_bounded_witness:
  "ceiling_inv small_options (run_ceiling small_options [Attempt ''a'' 0, Attempt ''b'' 1, Attempt ''c'' 2] [])"
  using ceiling_table_bounded [OF small_ok, of 0 2 "[Attempt ''a'' 0, Attempt ''b'' 1, Attempt ''c'' 2]"]
  by simp

end
