(* ===== verification/Gate_App.thy ===== *)
theory Gate_App
  imports Gate_Slots Gate_Page Gate_Ceiling "HOL-Library.Sublist"
begin

text \<open>
  The demo gate's handler: \<open>src/services/demo-gate/src/app.ts\<close>.

  A request is handled in one computation over \<open>gate_state\<close>: the three attempt ceilings, whether a
  response has been sent, a ghost trace of what was read, derived and sent, and \<open>gs_w\<close>, everything
  outside the process.  Each \<open>await\<close> is followed by \<open>gd_others\<close>, an arbitrary change of the ceilings by
  other requests.  The dependencies (\<open>gate_deps\<close>) are parameters: the slots and lease readers, the
  derivation gate as the answer whether it admits this caller, the key derivation, the HMAC, the source
  resolver, the clock, and \<open>URLSearchParams#get\<close> on the body's bytes.
\<close>

datatype header = HNone | HOne string | HMany "string list"

record gate_request =
  rq_url :: "string option"
  rq_method :: string
  rq_host :: "string option"
  rq_cookie :: "string option"
  rq_forwardedUri :: header
  rq_forwardedFor :: header
  rq_contentType :: header
  rq_peer :: "string option"
  rq_chunks :: "nat list list"
  rq_aborted :: bool

datatype gate_event =
    ReadSlots slots_map
  | ReadLease slot_name current_lease
  | ReadClock int
  | Derived argon2id_hash bool
  | Sent nat "(string \<times> string) list" string
  | Counted slot_name
  | Logged
  | Destroyed

record 'w gate_state =
  gs_narrow :: windows
  gs_broad :: windows
  gs_malformed :: windows
  gs_headersSent :: bool
  gs_trace :: "gate_event list"
  gs_w :: 'w

record ('w, 'k) gate_deps =
  gd_slots :: "('w, js_exn, slots_map) prog"
  gd_leaseOf :: "slot_name \<Rightarrow> ('w, js_exn, current_lease) prog"
  gd_hmac :: "'k \<Rightarrow> string \<Rightarrow> nat list"
  gd_signingKey :: 'k
  gd_ceiling :: ceiling_options
  gd_broadCeiling :: ceiling_options
  gd_malformedCeiling :: ceiling_options
  gd_admit :: "('w, js_exn, bool) prog"
  gd_argon2 :: "'w argon2"
  gd_resolve :: "string option \<Rightarrow> header \<Rightarrow> string option"
  gd_resolveBroad :: "string option \<Rightarrow> header \<Rightarrow> string option"
  gd_cookieTtlSeconds :: nat
  gd_decoyHash :: argon2id_hash
  gd_nowMs :: "'w \<Rightarrow> int"
  gd_form :: "nat list \<Rightarrow> string \<Rightarrow> string option"
  gd_increment :: "(slot_name \<Rightarrow> ('w, js_exn, unit) prog) option"
  gd_others :: "'w \<Rightarrow> windows \<times> windows \<times> windows \<Rightarrow> windows \<times> windows \<times> windows"

type_synonym ('w, 'a) gate = "('w gate_state, js_exn, 'a) prog"

section \<open>Effects\<close>

definition after_await :: "('w, 'k) gate_deps \<Rightarrow> 'w \<Rightarrow> 'w gate_state \<Rightarrow> 'w gate_state" where
  "after_await deps w s = (case gd_others deps w (gs_narrow s, gs_broad s, gs_malformed s) of
     (n, b, m) \<Rightarrow> s\<lparr>gs_narrow := n, gs_broad := b, gs_malformed := m, gs_w := w\<rparr>)"

definition await :: "('w, 'k) gate_deps \<Rightarrow> ('w, js_exn, 'a) prog \<Rightarrow> ('w, 'a) gate" where
  "await deps m s = (case m (gs_w s) of (r, w) \<Rightarrow> (r, after_await deps w s))"

definition noteE :: "gate_event \<Rightarrow> ('w, unit) gate" where
  "noteE ev = modifyE (\<lambda>s. s\<lparr>gs_trace := gs_trace s @ [ev]\<rparr>)"

definition nowMs :: "('w, 'k) gate_deps \<Rightarrow> ('w, int) gate" where
  "nowMs deps = bindE (getE (\<lambda>s. gd_nowMs deps (gs_w s))) (\<lambda>t. thenE (noteE (ReadClock t)) (returnE t))"

definition COMMON_HEADERS :: "(string \<times> string) list" where
  "COMMON_HEADERS = [(''Cache-Control'', ''no-store''), (''X-Robots-Tag'', ''noindex, nofollow''),
     (''X-Content-Type-Options'', ''nosniff'')]"

definition PAGE_HEADERS :: "(string \<times> string) list" where
  "PAGE_HEADERS = [(''Content-Type'', ''text/html; charset=utf-8''),
     (''Content-Security-Policy'',
      ''default-src '' @ [apostrophe] @ ''none'' @ [apostrophe] @ ''; form-action '' @ [apostrophe] @ ''self'' @
      [apostrophe] @ ''; frame-ancestors '' @ [apostrophe] @ ''none'' @ [apostrophe] @ ''; base-uri '' @
      [apostrophe] @ ''none'' @ [apostrophe]),
     (''Referrer-Policy'', ''no-referrer'')]"

text \<open>\<open>writeHead\<close> throws once the headers are sent.\<close>

definition send :: "nat \<Rightarrow> string \<Rightarrow> (string \<times> string) list \<Rightarrow> ('w, unit) gate" where
  "send status body headers = bindE (getE gs_headersSent) (\<lambda>sent.
     if sent then throwE (JsError ''ERR_HTTP_HEADERS_SENT'')
     else thenE (modifyE (\<lambda>s. s\<lparr>gs_headersSent := True\<rparr>)) (noteE (Sent status (COMMON_HEADERS @ headers) body)))"

section \<open>Reading the request\<close>

text \<open>\<open>replace(/:\d+$/, '')\<close>.\<close>

definition drop_port :: "string \<Rightarrow> string" where
  "drop_port s = (let rest = dropWhile (\<lambda>c. c \<in> set digits) (rev s) in
     if length rest < length s \<and> rest \<noteq> [] \<and> hd rest = CHR '':'' then rev (tl rest) else s)"

definition hostOf :: "gate_request \<Rightarrow> string option" where
  "hostOf req = (case rq_host req of
       None \<Rightarrow> None
     | Some raw \<Rightarrow> (if raw = [] then None else Some (drop_port (toLowerCase raw))))"

definition headerValue :: "header \<Rightarrow> string option" where
  "headerValue h = (case h of HNone \<Rightarrow> None | HOne v \<Rightarrow> Some v
     | HMany vs \<Rightarrow> (case vs of [] \<Rightarrow> None | v # _ \<Rightarrow> Some v))"

definition MAX_BODY_BYTES :: nat where
  "MAX_BODY_BYTES = 2048"

definition MAX_PASSPHRASE_LENGTH :: nat where
  "MAX_PASSPHRASE_LENGTH = 256"

fun read_chunks :: "nat list list \<Rightarrow> nat list \<Rightarrow> nat list option" where
  "read_chunks [] acc = Some acc"
| "read_chunks (c # cs) acc =
     (if length acc + length c > MAX_BODY_BYTES then None else read_chunks cs (acc @ c))"

definition readBody :: "('w, 'k) gate_deps \<Rightarrow> gate_request \<Rightarrow> ('w, nat list option) gate" where
  "readBody deps req = await deps (case read_chunks (rq_chunks req) [] of
       None \<Rightarrow> returnE None
     | Some bs \<Rightarrow> if rq_aborted req then throwE (JsError ''aborted'') else returnE (Some bs))"

definition readSlots :: "('w, 'k) gate_deps \<Rightarrow> ('w, slots_map) gate" where
  "readSlots deps = bindE (await deps (gd_slots deps)) (\<lambda>m. thenE (noteE (ReadSlots m)) (returnE m))"

definition lookup_host :: "('w, 'k) gate_deps \<Rightarrow> string option \<Rightarrow> ('w, gated_host option) gate" where
  "lookup_host deps host = (case host of
       None \<Rightarrow> returnE None
     | Some h \<Rightarrow> bindE (readSlots deps) (\<lambda>m. returnE (map_of m h)))"

definition currentLease :: "('w, 'k) gate_deps \<Rightarrow> slot_name \<Rightarrow> ('w, current_lease option) gate" where
  "currentLease deps slot =
     tryE (await deps (gd_leaseOf deps slot))
       (\<lambda>cur. thenE (noteE (ReadLease slot cur)) (returnE (Some cur)))
       (\<lambda>_. returnE None)"

definition selectVerificationHash :: "gated_host option \<Rightarrow> bool \<Rightarrow> argon2id_hash \<Rightarrow> argon2id_hash" where
  "selectVerificationHash gated tied decoyHash =
     (case gated of Some g \<Rightarrow> (if tied then gh_hash g else decoyHash) | None \<Rightarrow> decoyHash)"

section \<open>The handlers\<close>

definition VERIFY_PATH :: string where
  "VERIFY_PATH = ''/__gate/verify''"

definition good_claims :: "('w, 'k) gate_deps \<Rightarrow> gate_request \<Rightarrow> int \<Rightarrow> slot_name \<Rightarrow> gate_claim list" where
  "good_claims deps req nowSeconds slot =
     concat (map (\<lambda>v. case verifyCookie (gd_hmac deps) (gd_signingKey deps) v nowSeconds of
         Inl _ \<Rightarrow> []
       | Inr claim \<Rightarrow> if gc_slot claim = slot then [claim] else []) (readGateCookies (rq_cookie req)))"

definition deny :: "gate_request \<Rightarrow> ('w, unit) gate" where
  "deny req = send 401 (passphrasePage (safeReturnPath (headerValue (rq_forwardedUri req))) None) PAGE_HEADERS"

definition admit_current ::
  "('w, 'k) gate_deps \<Rightarrow> gate_request \<Rightarrow> gated_host \<Rightarrow> gate_claim list \<Rightarrow> current_lease option \<Rightarrow> ('w, unit) gate" where
  "admit_current deps req g claims current = (case current of
       None \<Rightarrow> deny req
     | Some cur \<Rightarrow>
         if \<not> list_ex (\<lambda>claim. gc_lease claim = cl_lease cur) claims then deny req
         else thenE (send 200 [] [])
           (case gd_increment deps of
              None \<Rightarrow> returnE ()
            | Some increment \<Rightarrow> thenE (noteE (Counted (gh_slot g))) (await deps (increment (gh_slot g)))))"

definition verify_gated :: "('w, 'k) gate_deps \<Rightarrow> gate_request \<Rightarrow> gated_host option \<Rightarrow> ('w, unit) gate" where
  "verify_gated deps req gated = (case gated of
       None \<Rightarrow> deny req
     | Some g \<Rightarrow>
         bindE (nowMs deps) (\<lambda>now.
         let claims = good_claims deps req (now div 1000) (gh_slot g) in
         if claims = [] then deny req
         else bindE (currentLease deps (gh_slot g)) (admit_current deps req g claims)))"

definition verify :: "('w, 'k) gate_deps \<Rightarrow> gate_request \<Rightarrow> ('w, unit) gate" where
  "verify deps req = bindE (lookup_host deps (hostOf req)) (verify_gated deps req)"

definition on_ceiling :: "('w gate_state \<Rightarrow> windows) \<Rightarrow> (windows \<Rightarrow> 'w gate_state \<Rightarrow> 'w gate_state)
    \<Rightarrow> (windows \<Rightarrow> 'a \<times> windows) \<Rightarrow> ('w, 'a) gate" where
  "on_ceiling get put f s = (case f (get s) of (v, t) \<Rightarrow> (Ok v, put t s))"

definition on_narrow where "on_narrow = on_ceiling gs_narrow (\<lambda>t s. s\<lparr>gs_narrow := t\<rparr>)"
definition on_broad where "on_broad = on_ceiling gs_broad (\<lambda>t s. s\<lparr>gs_broad := t\<rparr>)"
definition on_malformed where "on_malformed = on_ceiling gs_malformed (\<lambda>t s. s\<lparr>gs_malformed := t\<rparr>)"

definition send_too_many :: "int \<Rightarrow> ('w, unit) gate" where
  "send_too_many retryAfterSeconds =
     send 429 (passphrasePage ''/'' (Some ''DEMO_GATE_TOO_MANY_ATTEMPTS''))
       (PAGE_HEADERS @ [(''Retry-After'', show_nat (nat retryAfterSeconds))])"

definition refuseMalformed :: "('w, 'k) gate_deps \<Rightarrow> string \<Rightarrow> ('w, unit) gate" where
  "refuseMalformed deps source =
     bindE (nowMs deps) (\<lambda>now.
     bindE (on_malformed (attempt (gd_malformedCeiling deps) source now)) (\<lambda>v. case v of
       Allowed \<Rightarrow> send 400 [] []
     | Refused s \<Rightarrow> send_too_many s))"

definition retry_seconds :: "verdict \<Rightarrow> int" where
  "retry_seconds v = (case v of Allowed \<Rightarrow> 0 | Refused s \<Rightarrow> s)"

definition tied_pair :: "gated_host option \<Rightarrow> current_lease option \<Rightarrow> bool" where
  "tied_pair gated current = (case (gated, current) of
     (Some g, Some cur) \<Rightarrow> cl_hashId cur = gh_hashId g | _ \<Rightarrow> False)"

definition wrong_passphrase :: "string \<Rightarrow> ('w, unit) gate" where
  "wrong_passphrase returnPath =
     send 401 (passphrasePage returnPath (Some ''DEMO_GATE_WRONG_PASSPHRASE'')) PAGE_HEADERS"

definition answer_login ::
  "('w, 'k) gate_deps \<Rightarrow> gated_host option \<Rightarrow> current_lease option \<Rightarrow> string \<Rightarrow> bool \<Rightarrow> ('w, unit) gate" where
  "answer_login deps gated current returnPath matched = (case (gated, current) of
       (Some g, Some cur) \<Rightarrow>
         if \<not> tied_pair gated current \<or> \<not> matched then wrong_passphrase returnPath
         else bindE (nowMs deps) (\<lambda>now.
           let exp = nat (now div 1000) + gd_cookieTtlSeconds deps;
               cookie = signCookie (gd_hmac deps) (gd_signingKey deps)
                 \<lparr>gc_slot = gh_slot g, gc_lease = cl_lease cur, gc_exp = exp\<rparr> in
           send 303 [] [(''Location'', returnPath),
             (''Set-Cookie'', setCookieHeader cookie (gd_cookieTtlSeconds deps))])
     | _ \<Rightarrow> wrong_passphrase returnPath)"

definition derive_gated ::
  "('w, 'k) gate_deps \<Rightarrow> string \<Rightarrow> string \<Rightarrow> string \<Rightarrow> string \<Rightarrow> gated_host option \<Rightarrow> current_lease option
     \<Rightarrow> ('w, unit) gate" where
  "derive_gated deps source broadSource passphrase returnPath gated current =
     (let hashToVerify = selectVerificationHash gated (tied_pair gated current) (gd_decoyHash deps) in
      bindE (await deps (gd_admit deps)) (\<lambda>admitted.
      if \<not> admitted then
        thenE (on_narrow (\<lambda>t. ((), refund source t)))
       (thenE (on_broad (\<lambda>t. ((), refund broadSource t)))
       (send 503 [] [(''Retry-After'', ''1'')]))
      else
        bindE (await deps (verifyPassphrase (gd_argon2 deps) passphrase hashToVerify)) (\<lambda>matched.
        thenE (noteE (Derived hashToVerify matched))
       (answer_login deps gated current returnPath matched))))"

definition derive_and_answer ::
  "('w, 'k) gate_deps \<Rightarrow> gate_request \<Rightarrow> string \<Rightarrow> string \<Rightarrow> string \<Rightarrow> string \<Rightarrow> ('w, unit) gate" where
  "derive_and_answer deps req source broadSource passphrase returnPath =
     bindE (lookup_host deps (hostOf req)) (\<lambda>gated.
     bindE (case gated of None \<Rightarrow> returnE None | Some g \<Rightarrow> currentLease deps (gh_slot g))
       (derive_gated deps source broadSource passphrase returnPath gated))"

definition attempt_login ::
  "('w, 'k) gate_deps \<Rightarrow> gate_request \<Rightarrow> string \<Rightarrow> string \<Rightarrow> string \<Rightarrow> string \<Rightarrow> ('w, unit) gate" where
  "attempt_login deps req source broadSource passphrase returnPath =
     bindE (nowMs deps) (\<lambda>attemptedAt.
     bindE (on_narrow (peek (gd_ceiling deps) source attemptedAt)) (\<lambda>narrowPeek.
     bindE (on_broad (peek (gd_broadCeiling deps) broadSource attemptedAt)) (\<lambda>broadPeek.
     if narrowPeek \<noteq> Allowed \<or> broadPeek \<noteq> Allowed then
       send_too_many (max (retry_seconds narrowPeek) (retry_seconds broadPeek))
     else
       thenE (bindE (on_narrow (attempt (gd_ceiling deps) source attemptedAt)) (\<lambda>_. returnE ()))
      (thenE (bindE (on_broad (attempt (gd_broadCeiling deps) broadSource attemptedAt)) (\<lambda>_. returnE ()))
      (derive_and_answer deps req source broadSource passphrase returnPath)))))"

definition is_form :: "gate_request \<Rightarrow> bool" where
  "is_form req \<longleftrightarrow>
     toLowerCase (trim (hd (split_on CHR '';'' (case headerValue (rq_contentType req) of None \<Rightarrow> [] | Some v \<Rightarrow> v))))
       = ''application/x-www-form-urlencoded''"

definition login :: "('w, 'k) gate_deps \<Rightarrow> gate_request \<Rightarrow> ('w, unit) gate" where
  "login deps req =
     (case (gd_resolve deps (rq_peer req) (rq_forwardedFor req),
            gd_resolveBroad deps (rq_peer req) (rq_forwardedFor req)) of
        (Some source, Some broadSource) \<Rightarrow>
          bindE (if is_form req then readBody deps req else returnE None) (\<lambda>body. case body of
            None \<Rightarrow> refuseMalformed deps source
          | Some bs \<Rightarrow>
              let passphrase = (case gd_form deps bs ''passphrase'' of None \<Rightarrow> [] | Some p \<Rightarrow> p);
                  returnPath = safeReturnPath (gd_form deps bs ''r'') in
              if length passphrase = 0 \<or> length passphrase > MAX_PASSPHRASE_LENGTH then refuseMalformed deps source
              else attempt_login deps req source broadSource passphrase returnPath)
      | _ \<Rightarrow> thenE (noteE Logged) (send 403 [] []))"

definition gate_handler :: "('w, 'k) gate_deps \<Rightarrow> gate_request \<Rightarrow> ('w, unit) gate" where
  "gate_handler deps req =
     (let path = takeWhile (\<lambda>c. c \<noteq> CHR ''?'') (case rq_url req of None \<Rightarrow> [] | Some u \<Rightarrow> u) in
      catchE
        (if path = VERIFY_PATH \<and> (rq_method req = ''GET'' \<or> rq_method req = ''HEAD'') then verify deps req
         else if path = LOGIN_PATH \<and> rq_method req = ''POST'' then login deps req
         else send 404 [] [])
        (\<lambda>e. thenE (noteE Logged)
          (bindE (getE gs_headersSent) (\<lambda>sent. if \<not> sent then send 500 [] [] else noteE Destroyed))))"

section \<open>Rules for the effects\<close>

named_theorems gate_wp \<open>weakest preconditions of the gate's effects\<close>

lemma after_await_simps [simp]:
  "gs_trace (after_await deps w s) = gs_trace s" "gs_headersSent (after_await deps w s) = gs_headersSent s"
  "gs_w (after_await deps w s) = w"
  by (simp_all add: after_await_def split: prod.split)

lemma wp_await [gate_wp]:
  "wp (await deps m) Q E C s =
     wp m (\<lambda>x w. Q x (after_await deps w s)) (\<lambda>e w. E e (after_await deps w s)) (\<lambda>w. C (after_await deps w s)) (gs_w s)"
  by (simp add: wp_def await_def split: outcome.split prod.split)

lemma wp_noteE [gate_wp]: "wp (noteE ev) Q E C s = Q () (s\<lparr>gs_trace := gs_trace s @ [ev]\<rparr>)"
  by (simp add: noteE_def)

lemma wp_nowMs [gate_wp]:
  "wp (nowMs deps) Q E C s =
     Q (gd_nowMs deps (gs_w s)) (s\<lparr>gs_trace := gs_trace s @ [ReadClock (gd_nowMs deps (gs_w s))]\<rparr>)"
  by (simp add: nowMs_def noteE_def)

lemma wp_on_ceiling [gate_wp]:
  "wp (on_ceiling rd put f) Q E C s = Q (fst (f (rd s))) (put (snd (f (rd s))) s)"
  by (simp add: wp_def on_ceiling_def split: prod.split)

lemma wp_send [gate_wp]:
  "wp (send status body headers) Q E C s =
     (if gs_headersSent s then E (JsError ''ERR_HTTP_HEADERS_SENT'') s
      else Q () (s\<lparr>gs_headersSent := True, gs_trace := gs_trace s @ [Sent status (COMMON_HEADERS @ headers) body]\<rparr>))"
  by (simp add: send_def noteE_def)

text \<open>A dependency answers anything, throws anything, or never returns.\<close>

lemma wp_any:
  "(\<And>x w'. Q x w') \<Longrightarrow> (\<And>e w'. E e w') \<Longrightarrow> (\<And>w'. C w') \<Longrightarrow> wp m Q E C w"
  by (simp add: wp_def split: outcome.split prod.split)

lemmas ceiling_effects = on_narrow_def on_broad_def on_malformed_def

section \<open>The shapes of a run\<close>

text \<open>Events that neither answer nor derive.\<close>

definition silent :: "gate_event \<Rightarrow> bool" where
  "silent ev \<longleftrightarrow> (case ev of ReadSlots _ \<Rightarrow> True | ReadLease _ _ \<Rightarrow> True | ReadClock _ \<Rightarrow> True | Logged \<Rightarrow> True | _ \<Rightarrow> False)"

lemma silent_simps [simp]:
  "silent (ReadSlots m)" "silent (ReadLease s c)" "silent (ReadClock t)" "silent Logged"
  "\<not> silent (Derived h ok)" "\<not> silent (Sent n hs b)" "\<not> silent (Counted s)" "\<not> silent Destroyed"
  by (simp_all add: silent_def)

inductive verify_run :: "('w, 'k) gate_deps \<Rightarrow> gate_request \<Rightarrow> gate_event list \<Rightarrow> bool"
  for deps req where
  denied: "list_all silent es \<Longrightarrow> verify_run deps req (es @ [Sent 401 hs b])"
| admitted: "hostOf req = Some host \<Longrightarrow> map_of m host = Some g \<Longrightarrow>
     claim \<in> set (good_claims deps req (now div 1000) (gh_slot g)) \<Longrightarrow> gc_lease claim = cl_lease cur \<Longrightarrow>
     list_all (\<lambda>ev. ev = Counted (gh_slot g)) es \<Longrightarrow>
     verify_run deps req ([ReadSlots m, ReadClock now, ReadLease (gh_slot g) cur, Sent 200 COMMON_HEADERS []] @ es)"

text \<open>What the slots file and the lease record read in a run agree on.\<close>

definition tied_reads :: "gate_request \<Rightarrow> gate_event list \<Rightarrow> gated_host \<Rightarrow> current_lease \<Rightarrow> bool" where
  "tied_reads req es g cur \<longleftrightarrow> (\<exists>m host. hostOf req = Some host \<and> ReadSlots m \<in> set es \<and> map_of m host = Some g \<and>
     ReadLease (gh_slot g) cur \<in> set es \<and> cl_hashId cur = gh_hashId g)"

inductive login_run :: "('w, 'k) gate_deps \<Rightarrow> gate_request \<Rightarrow> gate_event list \<Rightarrow> bool"
  for deps req where
  refused: "list_all silent es \<Longrightarrow> status \<in> {400, 403, 429, 503} \<Longrightarrow>
     login_run deps req (es @ [Sent status hs b])"
| decoy: "list_all silent es \<Longrightarrow> (\<And>g cur. \<not> tied_reads req es g cur) \<Longrightarrow>
     login_run deps req (es @ [Derived (gd_decoyHash deps) ok, Sent 401 hs b])"
| wrong: "list_all silent es \<Longrightarrow> tied_reads req es g cur \<Longrightarrow>
     login_run deps req (es @ [Derived (gh_hash g) False, Sent 401 hs b])"
| admitted: "list_all silent es \<Longrightarrow> tied_reads req es g cur \<Longrightarrow>
     login_run deps req (es @ [Derived (gh_hash g) True, ReadClock now,
       Sent 303 (COMMON_HEADERS @ [(''Location'', safeReturnPath r), (''Set-Cookie'', setCookieHeader
          (signCookie (gd_hmac deps) (gd_signingKey deps) \<lparr>gc_slot = gh_slot g, gc_lease = cl_lease cur,
             gc_exp = nat (now div 1000) + gd_cookieTtlSeconds deps\<rparr>) (gd_cookieTtlSeconds deps))]) []])"

text \<open>Where a handler leaves the trace: after a run of shape \<open>R\<close>, or before any answer.\<close>

definition done_post :: "(gate_event list \<Rightarrow> bool) \<Rightarrow> gate_event list \<Rightarrow> 'w gate_state \<Rightarrow> bool" where
  "done_post R t s \<longleftrightarrow> gs_headersSent s \<and> (\<exists>es. gs_trace s = t @ es \<and> R es)"

definition early :: "gate_event list \<Rightarrow> bool" where
  "early es \<longleftrightarrow> list_all silent es \<or> (\<exists>pre h ok. list_all silent pre \<and> (es = pre @ [Derived h ok] \<or>
     (\<exists>t. es = pre @ [Derived h ok, ReadClock t])))"

definition cut_post :: "(gate_event list \<Rightarrow> bool) \<Rightarrow> gate_event list \<Rightarrow> 'w gate_state \<Rightarrow> bool" where
  "cut_post R t s \<longleftrightarrow> done_post R t s \<or> \<not> gs_headersSent s \<and> (\<exists>es. gs_trace s = t @ es \<and> early es)"

lemma done_postI: "gs_headersSent s \<Longrightarrow> gs_trace s = t @ es \<Longrightarrow> R es \<Longrightarrow> done_post R t s"
  by (auto simp: done_post_def)

lemma cut_postI:
  "gs_headersSent s \<Longrightarrow> gs_trace s = t @ es \<Longrightarrow> R es \<Longrightarrow> cut_post R t s"
  "\<not> gs_headersSent s \<Longrightarrow> gs_trace s = t @ es \<Longrightarrow> list_all silent es \<Longrightarrow> cut_post R t s"
  by (auto simp: cut_post_def done_post_def early_def)

lemma good_claims_mem:
  assumes "claim \<in> set (good_claims deps req now slot)"
  obtains v where "v \<in> set (readGateCookies (rq_cookie req))"
    "verifyCookie (gd_hmac deps) (gd_signingKey deps) v now = Inr claim" "gc_slot claim = slot"
  using assms by (auto simp: good_claims_def split: sum.splits if_splits)

text \<open>Where the computation stands: the trace so far, and whether it has answered.\<close>

definition at :: "gate_event list \<Rightarrow> bool \<Rightarrow> 'w gate_state \<Rightarrow> bool" where
  "at t b s \<longleftrightarrow> gs_trace s = t \<and> gs_headersSent s = b"

lemma at_after_await [simp]: "at t b (after_await deps w s) = at t b s"
  by (simp add: at_def)

lemma wp_lookup_host:
  assumes "at t b s"
    and "host = None \<Longrightarrow> Q None s"
    and "\<And>h m s'. host = Some h \<Longrightarrow> at (t @ [ReadSlots m]) b s' \<Longrightarrow> Q (map_of m h) s'"
    and "\<And>e s'. at t b s' \<Longrightarrow> E e s'" and "\<And>s'. at t b s' \<Longrightarrow> C s'"
  shows "wp (lookup_host deps host) Q E C s"
proof (cases host)
  case (Some h)
  have "wp (gd_slots deps)
      (\<lambda>x w. Q (map_of x h) (after_await deps w s\<lparr>gs_trace := gs_trace s @ [ReadSlots x]\<rparr>))
      (\<lambda>e w. E e (after_await deps w s)) (\<lambda>w. C (after_await deps w s)) (gs_w s)"
    using assms(1) by (intro wp_any assms(3) [OF Some] assms(4,5)) (simp_all add: at_def)
  then show ?thesis
    by (simp add: Some lookup_host_def readSlots_def gate_wp)
qed (simp add: lookup_host_def assms(2))

lemma wp_currentLease:
  assumes "at t b s"
    and "\<And>cur s'. at (t @ [ReadLease slot cur]) b s' \<Longrightarrow> Q (Some cur) s'"
    and "\<And>s'. at t b s' \<Longrightarrow> Q None s'" and "\<And>s'. at t b s' \<Longrightarrow> C s'"
  shows "wp (currentLease deps slot) Q E C s"
  unfolding currentLease_def
  by (simp add: gate_wp, intro wp_any assms(2-4)) (use assms(1) in \<open>simp_all add: at_def\<close>)

lemma wp_await_any:
  assumes "at t b s" "\<And>x s'. at t b s' \<Longrightarrow> Q x s'" "\<And>e s'. at t b s' \<Longrightarrow> E e s'" "\<And>s'. at t b s' \<Longrightarrow> C s'"
  shows "wp (await deps m) Q E C s"
  unfolding wp_await by (intro wp_any assms(2-4)) (use assms(1) in simp_all)

lemma wp_nowMs_at:
  assumes "at t b s" "\<And>now s'. at (t @ [ReadClock now]) b s' \<Longrightarrow> Q now s'"
  shows "wp (nowMs deps) Q E C s"
  unfolding wp_nowMs using assms by (auto simp: at_def)

lemma wp_noteE_at:
  assumes "at t b s" "\<And>s'. at (t @ [ev]) b s' \<Longrightarrow> Q () s'"
  shows "wp (noteE ev) Q E C s"
  unfolding wp_noteE using assms by (auto simp: at_def)

lemma wp_send_at:
  assumes "at t False s" "\<And>s'. at (t @ [Sent status (COMMON_HEADERS @ headers) body]) True s' \<Longrightarrow> Q () s'"
  shows "wp (send status body headers) Q E C s"
  unfolding wp_send using assms by (auto simp: at_def)

text \<open>The three postconditions of a handler whose runs have the shape \<open>R\<close>.\<close>

definition run_wp :: "(gate_event list \<Rightarrow> bool) \<Rightarrow> gate_event list \<Rightarrow> ('w, unit) gate \<Rightarrow> 'w gate_state \<Rightarrow> bool" where
  "run_wp R t m = wp m (\<lambda>_. done_post R t) (\<lambda>_. cut_post R t) (cut_post R t)"

lemma cut_early: "at (t @ es) False s \<Longrightarrow> early es \<Longrightarrow> cut_post R t s"
  by (auto simp: at_def cut_post_def)

lemma early_silent: "list_all silent es \<Longrightarrow> early es"
  by (simp add: early_def)

lemma run_wp_send:
  assumes "at (t @ es) False s" "R (es @ [Sent status (COMMON_HEADERS @ headers) body])"
  shows "run_wp R t (send status body headers) s"
  unfolding run_wp_def
  by (rule wp_send_at [OF assms(1)]) (auto simp: at_def intro!: done_postI assms(2))

lemma run_wp_deny:
  "at (t @ es) False s \<Longrightarrow> list_all silent es \<Longrightarrow> run_wp (verify_run deps req) t (deny req) s"
  unfolding deny_def by (rule run_wp_send, assumption, rule verify_run.denied)

lemma admit_current_wp:
  fixes deps :: "('w, 'k) gate_deps"
  assumes host: "hostOf req = Some h" "map_of m h = Some g"
    and s: "at (t @ es @ (case current of None \<Rightarrow> [] | Some cur \<Rightarrow> [ReadLease (gh_slot g) cur])) False s"
    and es: "es = [ReadSlots m, ReadClock now]"
  shows "run_wp (verify_run deps req) t
    (admit_current deps req g (good_claims deps req (now div 1000) (gh_slot g)) current) s"
proof (cases current)
  case None
  with s es show ?thesis
    unfolding admit_current_def by (auto intro: run_wp_deny)
next
  case (Some cur)
  let ?pre = "[ReadSlots m, ReadClock now, ReadLease (gh_slot g) cur]"
  let ?claims = "good_claims deps req (now div 1000) (gh_slot g)"
  from s es Some have s': "at (t @ ?pre) False s" by simp
  show ?thesis
  proof (cases "list_ex (\<lambda>claim. gc_lease claim = cl_lease cur) ?claims")
    case False
    with Some run_wp_deny [OF s'] show ?thesis
      by (simp add: admit_current_def)
  next
    case True
    then obtain claim where c: "claim \<in> set ?claims" "gc_lease claim = cl_lease cur"
      by (auto simp: list_ex_iff)
    have run: "verify_run deps req (?pre @ Sent 200 COMMON_HEADERS [] # es')"
      if "list_all (\<lambda>ev. ev = Counted (gh_slot g)) es'" for es'
      using verify_run.admitted [OF host c that] by simp
    have post: "done_post (verify_run deps req) t s1 \<and> cut_post (verify_run deps req) t s1"
      if "at (t @ ?pre @ Sent 200 COMMON_HEADERS [] # es') True s1" "list_all (\<lambda>ev. ev = Counted (gh_slot g)) es'"
      for es' and s1 :: "'w gate_state"
      using run [OF that(2)] that(1) by (auto simp: at_def done_post_def cut_post_def)
    have counted: "run_wp (verify_run deps req) t (thenE (noteE (Counted (gh_slot g))) (await deps (inc (gh_slot g)))) s1"
      if "at (t @ ?pre @ [Sent 200 COMMON_HEADERS []]) True s1" for inc and s1 :: "'w gate_state"
      unfolding run_wp_def wp_thenE
    proof (rule wp_noteE_at [OF that])
      fix s2 :: "'w gate_state" assume "at ((t @ ?pre @ [Sent 200 COMMON_HEADERS []]) @ [Counted (gh_slot g)]) True s2"
      then have "at (t @ ?pre @ Sent 200 COMMON_HEADERS [] # [Counted (gh_slot g)]) True s2" by simp
      then show "wp (await deps (inc (gh_slot g))) (\<lambda>_. done_post (verify_run deps req) t)
          (\<lambda>_. cut_post (verify_run deps req) t) (cut_post (verify_run deps req) t) s2"
        by (rule wp_await_any) (use post [of "[Counted (gh_slot g)]"] in simp_all)
    qed
    show ?thesis
      unfolding run_wp_def admit_current_def using Some True
      by (simp, intro wp_send_at [OF s'] conjI impI allI)
        (use post [of "[]"] counted in \<open>auto simp: run_wp_def split: option.split\<close>)
  qed
qed

lemma verify_wp:
  fixes deps :: "('w, 'k) gate_deps"
  assumes s: "at t False s"
  shows "run_wp (verify_run deps req) t (verify deps req) s"
  unfolding run_wp_def verify_def wp_bindE
proof (rule wp_lookup_host [OF s])
  show "wp (verify_gated deps req None) (\<lambda>_. done_post (verify_run deps req) t)
     (\<lambda>_. cut_post (verify_run deps req) t) (cut_post (verify_run deps req) t) s"
    using run_wp_deny [of t "[]" s] s by (simp add: verify_gated_def run_wp_def)
next
  fix h m and s1 :: "'w gate_state" assume host: "hostOf req = Some h" and s1: "at (t @ [ReadSlots m]) False s1"
  show "wp (verify_gated deps req (map_of m h)) (\<lambda>_. done_post (verify_run deps req) t)
     (\<lambda>_. cut_post (verify_run deps req) t) (cut_post (verify_run deps req) t) s1"
  proof (cases "map_of m h")
    case None
    with run_wp_deny [OF s1] show ?thesis by (simp add: verify_gated_def run_wp_def)
  next
    case (Some g)
    have gated: "run_wp (verify_run deps req) t (let claims = good_claims deps req (now div 1000) (gh_slot g) in
         if claims = [] then deny req
         else bindE (currentLease deps (gh_slot g)) (admit_current deps req g claims)) s2"
      if s2: "at (t @ [ReadSlots m, ReadClock now]) False s2" for now and s2 :: "'w gate_state"
    proof (cases "good_claims deps req (now div 1000) (gh_slot g) = []")
      case True
      with run_wp_deny [OF s2] show ?thesis by simp
    next
      case False
      note admit = admit_current_wp [OF host Some, unfolded run_wp_def]
      show ?thesis
        unfolding run_wp_def Let_def using False
        by (simp, intro wp_currentLease [OF s2] admit [OF _ refl])
          (simp_all, (erule cut_early, simp add: early_silent)+)
    qed
    show ?thesis
      unfolding verify_gated_def Some option.case wp_bindE
      by (rule wp_nowMs_at [OF s1]) (use gated in \<open>simp add: run_wp_def\<close>)
  qed
next
  fix s1 :: "'w gate_state" assume "at t False s1"
  then show "cut_post (verify_run deps req) t s1"
    using cut_early [of t "[]"] by (simp add: early_silent)
  then show "cut_post (verify_run deps req) t s1" .
qed

text \<open>The parts of a login that read nothing about the slot.\<close>

definition clock_only :: "gate_event list \<Rightarrow> bool" where
  "clock_only es \<longleftrightarrow> list_all (\<lambda>ev. \<exists>t. ev = ReadClock t) es"

lemma clock_only_simps [simp]: "clock_only []" "clock_only (es @ fs) \<longleftrightarrow> clock_only es \<and> clock_only fs"
  "clock_only [ReadClock t]"
  by (simp_all add: clock_only_def)

lemma clock_only_silent: "clock_only es \<Longrightarrow> list_all silent es"
  by (auto simp: clock_only_def list_all_iff)

lemma clock_only_notin: "clock_only es \<Longrightarrow> ReadSlots m \<notin> set es \<and> ReadLease slot cur \<notin> set es"
  by (auto simp: clock_only_def list_all_iff)

lemma on_ceiling_at:
  "at t b s \<Longrightarrow> (\<And>v s'. at t b s' \<Longrightarrow> Q v s') \<Longrightarrow> wp (on_narrow f) Q E C s"
  "at t b s \<Longrightarrow> (\<And>v s'. at t b s' \<Longrightarrow> Q v s') \<Longrightarrow> wp (on_broad f) Q E C s"
  "at t b s \<Longrightarrow> (\<And>v s'. at t b s' \<Longrightarrow> Q v s') \<Longrightarrow> wp (on_malformed f) Q E C s"
  by (simp_all add: ceiling_effects wp_on_ceiling at_def)

text \<open>What the reads of the pair amount to.\<close>

definition pair_events :: "gate_request \<Rightarrow> gate_event list \<Rightarrow> gated_host option \<Rightarrow> current_lease option \<Rightarrow> bool" where
  "pair_events req es gated current \<longleftrightarrow> list_all silent es \<and>
     (\<forall>g cur. tied_reads req es g cur \<longleftrightarrow> gated = Some g \<and> current = Some cur \<and> tied_pair gated current)"

lemma pair_events_login:
  assumes p: "pair_events req es gated current"
  shows "tied_pair gated current \<Longrightarrow> gated = Some g \<Longrightarrow> current = Some cur \<Longrightarrow>
      login_run deps req (es @ [Derived (gh_hash g) False, Sent 401 hs b])"
    "\<not> tied_pair gated current \<Longrightarrow>
      login_run deps req (es @ [Derived (selectVerificationHash gated (tied_pair gated current) (gd_decoyHash deps)) ok, Sent 401 hs b])"
  using p login_run.wrong [of es req g cur deps hs b] login_run.decoy [of es req deps ok hs b]
  by (auto simp: pair_events_def selectVerificationHash_def split: option.splits)

lemma run_wp_wrong:
  assumes s: "at (t @ es @ [Derived h ok]) False s"
    and "\<And>hs b. login_run deps req (es @ [Derived h ok, Sent 401 hs b])"
  shows "run_wp (login_run deps req) t (wrong_passphrase returnPath) s"
  unfolding wrong_passphrase_def by (rule run_wp_send [OF s]) (use assms(2) in simp)

lemma answer_login_wp:
  fixes deps :: "('w, 'k) gate_deps" and s :: "'w gate_state"
  assumes p: "pair_events req es gated current"
    and s: "at (t @ es @ [Derived (selectVerificationHash gated (tied_pair gated current) (gd_decoyHash deps)) matched]) False s"
    and r: "returnPath = safeReturnPath r"
  shows "run_wp (login_run deps req) t (answer_login deps gated current returnPath matched) s"
proof (cases "tied_pair gated current")
  case False
  with run_wp_wrong [OF s pair_events_login(2) [OF p False]] show ?thesis
    by (auto simp: answer_login_def split: option.split)
next
  case tied: True
  then obtain g cur where gc: "gated = Some g" "current = Some cur"
    by (auto simp: tied_pair_def split: option.splits)
  have sel: "selectVerificationHash gated (tied_pair gated current) (gd_decoyHash deps) = gh_hash g"
    using tied gc by (simp add: selectVerificationHash_def)
  note s' = s [unfolded sel]
  show ?thesis
  proof (cases matched)
    case False
    have "run_wp (login_run deps req) t (wrong_passphrase returnPath) s"
      by (rule run_wp_wrong [OF s']) (use False pair_events_login(1) [OF p tied gc] in simp)
    with gc False show ?thesis by (simp add: answer_login_def)
  next
    case True
    have es: "list_all silent es" "tied_reads req es g cur"
      using p gc tied by (auto simp: pair_events_def)
    have step: "wp (nowMs deps) Q E C s"
      if "\<And>now s1. at (t @ es @ [Derived (gh_hash g) True, ReadClock now]) False s1 \<Longrightarrow> Q now s1" for Q E C
      by (rule wp_nowMs_at [OF s']) (use that True in simp)
    have fin: "run_wp (login_run deps req) t (send 303 [] [(''Location'', returnPath), (''Set-Cookie'', setCookieHeader
          (signCookie (gd_hmac deps) (gd_signingKey deps) \<lparr>gc_slot = gh_slot g, gc_lease = cl_lease cur,
             gc_exp = nat (now div 1000) + gd_cookieTtlSeconds deps\<rparr>) (gd_cookieTtlSeconds deps))]) s1"
      if "at (t @ es @ [Derived (gh_hash g) True, ReadClock now]) False s1" for now and s1 :: "'w gate_state"
      by (rule run_wp_send [OF that]) (use login_run.admitted [OF es] in \<open>simp add: r\<close>)
    show ?thesis
      unfolding run_wp_def answer_login_def using gc tied True
      by (simp add: Let_def, intro step fin [unfolded run_wp_def])
  qed
qed

lemma run_wp_cut:
  "at (t @ es) False s \<Longrightarrow> early es \<Longrightarrow> cut_post R t s"
  by (rule cut_early)

lemma refuse_503_wp:
  fixes deps :: "('w, 'k) gate_deps" and s :: "'w gate_state"
  assumes s: "at (t @ es) False s" and es: "list_all silent es"
  shows "run_wp (login_run deps req) t
    (thenE (on_narrow (\<lambda>t. ((), refund source t)))
      (thenE (on_broad (\<lambda>t. ((), refund broadSource t))) (send 503 [] hs))) s"
proof -
  have fin: "run_wp (login_run deps req) t (send 503 [] hs) s'" if "at (t @ es) False s'" for s' :: "'w gate_state"
    by (rule run_wp_send [OF that]) (rule login_run.refused [OF es], simp)
  show ?thesis
    unfolding run_wp_def wp_thenE
    by (rule on_ceiling_at(1) [OF s], erule on_ceiling_at(2)) (rule fin [unfolded run_wp_def])
qed

lemma derive_gated_wp:
  fixes deps :: "('w, 'k) gate_deps" and s :: "'w gate_state"
  assumes s: "at (t @ es) False s" and p: "pair_events req es gated current" and r: "returnPath = safeReturnPath r"
  shows "run_wp (login_run deps req) t (derive_gated deps source broadSource passphrase returnPath gated current) s"
proof -
  let ?h = "selectVerificationHash gated (tied_pair gated current) (gd_decoyHash deps)"
  have es: "list_all silent es" using p by (simp add: pair_events_def)
  have cut: "cut_post (login_run deps req) t s'" if "at (t @ es) False s'" for s' :: "'w gate_state"
    by (rule cut_early [OF that early_silent [OF es]])
  have derived: "wp (thenE (noteE (Derived ?h matched)) (answer_login deps gated current returnPath matched))
      (\<lambda>_. done_post (login_run deps req) t) (\<lambda>_. cut_post (login_run deps req) t) (cut_post (login_run deps req) t) s'"
    if "at (t @ es) False s'" for matched and s' :: "'w gate_state"
    unfolding wp_thenE
    by (rule wp_noteE_at [OF that], rule answer_login_wp [OF p _ r, unfolded run_wp_def]) simp
  show ?thesis
    unfolding run_wp_def derive_gated_def Let_def wp_bindE
  proof (rule wp_await_any [OF s]; (erule cut)?)
    fix admitted and s1 :: "'w gate_state" assume s1: "at (t @ es) False s1"
    show "wp (if \<not> admitted then
        thenE (on_narrow (\<lambda>t. ((), refund source t)))
       (thenE (on_broad (\<lambda>t. ((), refund broadSource t)))
       (send 503 [] [(''Retry-After'', ''1'')]))
      else bindE (await deps (verifyPassphrase (gd_argon2 deps) passphrase ?h)) (\<lambda>matched.
        thenE (noteE (Derived ?h matched)) (answer_login deps gated current returnPath matched)))
      (\<lambda>_. done_post (login_run deps req) t) (\<lambda>_. cut_post (login_run deps req) t) (cut_post (login_run deps req) t) s1"
      using refuse_503_wp [OF s1 es, unfolded run_wp_def]
      by (cases admitted) (simp_all only: simp_thms if_True if_False wp_bindE, rule wp_await_any [OF s1], (erule derived | erule cut)+)
  qed
qed

lemma pair_events_read:
  assumes pre: "clock_only pre" and h: "hostOf req = host"
  shows "host = None \<Longrightarrow> pair_events req pre None None"
    "host = Some h \<Longrightarrow> map_of m h = None \<Longrightarrow> pair_events req (pre @ [ReadSlots m]) None None"
    "host = Some h \<Longrightarrow> map_of m h = Some g \<Longrightarrow> pair_events req (pre @ [ReadSlots m]) (Some g) None"
    "host = Some h \<Longrightarrow> map_of m h = Some g \<Longrightarrow>
       pair_events req (pre @ [ReadSlots m, ReadLease (gh_slot g) cur]) (Some g) (Some cur)"
  using clock_only_silent [OF pre] clock_only_notin [OF pre] h
  by (auto simp: pair_events_def tied_reads_def tied_pair_def)

lemma derive_and_answer_wp:
  fixes deps :: "('w, 'k) gate_deps" and s :: "'w gate_state"
  assumes s: "at (t @ pre) False s" and pre: "clock_only pre" and r: "returnPath = safeReturnPath r"
  shows "run_wp (login_run deps req) t (derive_and_answer deps req source broadSource passphrase returnPath) s"
  unfolding run_wp_def derive_and_answer_def wp_bindE
proof (rule wp_lookup_host [OF s])
  let ?D = "\<lambda>_. done_post (login_run deps req) t" and ?X = "\<lambda>_. cut_post (login_run deps req) t"
    and ?C = "cut_post (login_run deps req) t"
  let ?k = "\<lambda>gated current. wp (derive_gated deps source broadSource passphrase returnPath gated current) ?D ?X ?C"
  note derive = derive_gated_wp [OF _ _ r, unfolded run_wp_def]
  {
    assume "hostOf req = None"
    then show "wp (case None of None \<Rightarrow> returnE None | Some g \<Rightarrow> currentLease deps (gh_slot g)) (?k None) ?X ?C s"
      using derive [OF s pair_events_read(1) [OF pre refl]] by simp
  next
    fix h m and s1 :: "'w gate_state"
    assume h: "hostOf req = Some h" and s1: "at ((t @ pre) @ [ReadSlots m]) False s1"
    then have s1': "at (t @ (pre @ [ReadSlots m])) False s1" by simp
    have silent: "list_all silent (pre @ [ReadSlots m])" using clock_only_silent [OF pre] by simp
    show "wp (case map_of m h of None \<Rightarrow> returnE None | Some g \<Rightarrow> currentLease deps (gh_slot g))
        (?k (map_of m h)) ?X ?C s1"
    proof (cases "map_of m h")
      case None
      with derive [OF s1' pair_events_read(2) [OF pre refl h None]] show ?thesis by simp
    next
      case (Some g)
      have "wp (currentLease deps (gh_slot g)) (?k (Some g)) ?X ?C s1"
      proof (rule wp_currentLease [OF s1'])
        fix cur and s2 :: "'w gate_state"
        assume "at ((t @ pre @ [ReadSlots m]) @ [ReadLease (gh_slot g) cur]) False s2"
        then show "?k (Some g) (Some cur) s2"
          using derive [OF _ pair_events_read(4) [OF pre refl h Some]] by simp
      next
        fix s2 :: "'w gate_state" assume "at (t @ pre @ [ReadSlots m]) False s2"
        then show "?k (Some g) None s2"
          by (rule derive [OF _ pair_events_read(3) [OF pre refl h Some]])
      qed (rule cut_early [OF _ early_silent [OF silent]])
      with Some show ?thesis by simp
    qed
  }
qed (rule cut_early [OF _ early_silent [OF clock_only_silent [OF pre]]], assumption)+

lemma cut_clock:
  "at (t @ pre) False s \<Longrightarrow> clock_only pre \<Longrightarrow> cut_post R t s"
  by (rule cut_early) (auto intro: early_silent clock_only_silent)

lemma send_too_many_wp:
  fixes deps :: "('w, 'k) gate_deps" and s :: "'w gate_state"
  assumes s: "at (t @ pre) False s" and pre: "clock_only pre"
  shows "run_wp (login_run deps req) t (send_too_many n) s"
  unfolding send_too_many_def
  by (rule run_wp_send [OF s], rule login_run.refused [OF clock_only_silent [OF pre]]) simp

lemma refuseMalformed_wp:
  fixes deps :: "('w, 'k) gate_deps" and s :: "'w gate_state"
  assumes s: "at t False s"
  shows "run_wp (login_run deps req) t (refuseMalformed deps source) s"
  unfolding run_wp_def refuseMalformed_def wp_bindE
proof (rule wp_nowMs_at [OF s], erule on_ceiling_at(3))
  fix now v and s1 :: "'w gate_state" assume s1: "at (t @ [ReadClock now]) False s1"
  have "run_wp (login_run deps req) t (case v of Allowed \<Rightarrow> send 400 [] [] | Refused n \<Rightarrow> send_too_many n) s1"
  proof (cases v)
    case Allowed
    show ?thesis
      unfolding Allowed verdict.case
      by (rule run_wp_send [OF s1], rule login_run.refused) simp_all
  next
    case (Refused n)
    with send_too_many_wp [OF s1] show ?thesis by simp
  qed
  then show "wp (case v of Allowed \<Rightarrow> send 400 [] [] | Refused n \<Rightarrow> send_too_many n)
      (\<lambda>_. done_post (login_run deps req) t) (\<lambda>_. cut_post (login_run deps req) t) (cut_post (login_run deps req) t) s1"
    by (simp add: run_wp_def)
qed

lemma attempt_login_wp:
  fixes deps :: "('w, 'k) gate_deps" and s :: "'w gate_state"
  assumes s: "at t False s" and r: "returnPath = safeReturnPath r"
  shows "run_wp (login_run deps req) t (attempt_login deps req source broadSource passphrase returnPath) s"
  unfolding run_wp_def attempt_login_def wp_bindE
proof (rule wp_nowMs_at [OF s], erule on_ceiling_at(1), erule on_ceiling_at(2))
  fix now np bp and s1 :: "'w gate_state" assume s1: "at (t @ [ReadClock now]) False s1"
  have c: "clock_only [ReadClock now]" by simp
  have charged: "run_wp (login_run deps req) t
      (thenE (bindE (on_narrow (attempt (gd_ceiling deps) source now)) (\<lambda>_. returnE ()))
      (thenE (bindE (on_broad (attempt (gd_broadCeiling deps) broadSource now)) (\<lambda>_. returnE ()))
      (derive_and_answer deps req source broadSource passphrase returnPath))) s1"
    unfolding run_wp_def wp_thenE wp_bindE wp_returnE
    by (rule on_ceiling_at(1) [OF s1], erule on_ceiling_at(2)) (erule derive_and_answer_wp [OF _ c r, unfolded run_wp_def])
  show "wp (if np \<noteq> Allowed \<or> bp \<noteq> Allowed then send_too_many (max (retry_seconds np) (retry_seconds bp))
      else thenE (bindE (on_narrow (attempt (gd_ceiling deps) source now)) (\<lambda>_. returnE ()))
      (thenE (bindE (on_broad (attempt (gd_broadCeiling deps) broadSource now)) (\<lambda>_. returnE ()))
      (derive_and_answer deps req source broadSource passphrase returnPath)))
      (\<lambda>_. done_post (login_run deps req) t) (\<lambda>_. cut_post (login_run deps req) t) (cut_post (login_run deps req) t) s1"
    using charged send_too_many_wp [OF s1 c]
    by (cases "np \<noteq> Allowed \<or> bp \<noteq> Allowed") (simp_all only: if_True if_False run_wp_def)
qed

definition on_route :: "string \<Rightarrow> string list \<Rightarrow> gate_request \<Rightarrow> bool" where
  "on_route path methods req \<longleftrightarrow>
     takeWhile (\<lambda>c. c \<noteq> CHR ''?'') (case rq_url req of None \<Rightarrow> [] | Some u \<Rightarrow> u) = path \<and> rq_method req \<in> set methods"

lemma login_wp:
  fixes deps :: "('w, 'k) gate_deps" and s :: "'w gate_state"
  assumes s: "at t False s"
  shows "run_wp (login_run deps req) t (login deps req) s"
proof -
  let ?D = "\<lambda>_. done_post (login_run deps req) t" and ?X = "\<lambda>_. cut_post (login_run deps req) t"
    and ?C = "cut_post (login_run deps req) t"
  have cut: "?C s'" if "at t False s'" for s' :: "'w gate_state"
    using cut_clock [of t "[]"] that by simp
  have forbidden: "run_wp (login_run deps req) t (thenE (noteE Logged) (send 403 [] [])) s"
    unfolding run_wp_def wp_thenE
    by (rule wp_noteE_at [OF s], rule run_wp_send [unfolded run_wp_def], assumption, rule login_run.refused) simp_all
  have body: "run_wp (login_run deps req) t (case body of
        None \<Rightarrow> refuseMalformed deps source
      | Some bs \<Rightarrow>
          let passphrase = (case gd_form deps bs ''passphrase'' of None \<Rightarrow> [] | Some p \<Rightarrow> p);
              returnPath = safeReturnPath (gd_form deps bs ''r'') in
          if length passphrase = 0 \<or> length passphrase > MAX_PASSPHRASE_LENGTH then refuseMalformed deps source
          else attempt_login deps req source broadSource passphrase returnPath) s1"
    if "at t False s1" for body source broadSource and s1 :: "'w gate_state"
    by (simp add: Let_def refuseMalformed_wp [OF that] attempt_login_wp [OF that refl] split: option.split)
  have sourced: "run_wp (login_run deps req) t (bindE (if is_form req then readBody deps req else returnE None) (\<lambda>body. case body of
        None \<Rightarrow> refuseMalformed deps source
      | Some bs \<Rightarrow>
          let passphrase = (case gd_form deps bs ''passphrase'' of None \<Rightarrow> [] | Some p \<Rightarrow> p);
              returnPath = safeReturnPath (gd_form deps bs ''r'') in
          if length passphrase = 0 \<or> length passphrase > MAX_PASSPHRASE_LENGTH then refuseMalformed deps source
          else attempt_login deps req source broadSource passphrase returnPath)) s" for source broadSource
  proof (cases "is_form req")
    case False
    then show ?thesis
      using refuseMalformed_wp [OF s, of deps req source] by (simp add: run_wp_def)
  next
    case True
    show ?thesis
      unfolding run_wp_def wp_bindE if_P [OF True] readBody_def
      by (rule wp_await_any [OF s]) (erule body [unfolded run_wp_def] cut)+
  qed
  show ?thesis
    unfolding login_def
    by (cases "gd_resolve deps (rq_peer req) (rq_forwardedFor req)";
        cases "gd_resolveBroad deps (rq_peer req) (rq_forwardedFor req)")
      (simp_all only: prod.case option.case forbidden sourced)
qed

section \<open>The whole handler\<close>

inductive gate_run :: "('w, 'k) gate_deps \<Rightarrow> gate_request \<Rightarrow> gate_event list \<Rightarrow> bool"
  for deps req where
  verified: "on_route VERIFY_PATH [''GET'', ''HEAD''] req \<Longrightarrow> verify_run deps req es \<Longrightarrow> gate_run deps req es"
| logged_in: "on_route LOGIN_PATH [''POST''] req \<Longrightarrow> login_run deps req es \<Longrightarrow> gate_run deps req es"
| not_found: "gate_run deps req [Sent 404 hs b]"
| failed: "early es \<Longrightarrow> gate_run deps req (es @ [Logged, Sent 500 hs b])"
| broken: "gate_run deps req es \<Longrightarrow> gate_run deps req (es @ [Logged, Destroyed])"

lemma handler_catch:
  fixes deps :: "('w, 'k) gate_deps" and s :: "'w gate_state"
  assumes cut: "cut_post (gate_run deps req) t s"
  shows "wp (thenE (noteE Logged) (bindE (getE gs_headersSent) (\<lambda>sent. if \<not> sent then send 500 [] [] else noteE Destroyed)))
    (\<lambda>_. done_post (gate_run deps req) t) (\<lambda>_ _. False) (cut_post (gate_run deps req) t) s"
proof (cases "gs_headersSent s")
  case True
  with cut obtain es where "gs_trace s = t @ es" "gate_run deps req es"
    by (auto simp: cut_post_def done_post_def)
  with True gate_run.broken [OF this(2)] show ?thesis
    by (auto simp: wp_noteE intro!: done_postI)
next
  case False
  with cut obtain es where "gs_trace s = t @ es" "early es"
    by (auto simp: cut_post_def done_post_def)
  with False gate_run.failed [OF this(2)] show ?thesis
    by (auto simp: wp_noteE wp_send intro!: done_postI)
qed

lemma done_post_mono: "done_post R t s \<Longrightarrow> (\<And>es. R es \<Longrightarrow> R' es) \<Longrightarrow> done_post R' t s"
  and cut_post_mono: "cut_post R t s \<Longrightarrow> (\<And>es. R es \<Longrightarrow> R' es) \<Longrightarrow> cut_post R' t s"
  by (auto simp: done_post_def cut_post_def)

lemma run_wp_mono: "run_wp R t m s \<Longrightarrow> (\<And>es. R es \<Longrightarrow> R' es) \<Longrightarrow> run_wp R' t m s"
  unfolding run_wp_def by (erule wp_mono) (blast intro: done_post_mono cut_post_mono)+

lemma handler_wp:
  fixes deps :: "('w, 'k) gate_deps" and s :: "'w gate_state"
  assumes s: "at t False s"
  shows "wp (gate_handler deps req) (\<lambda>_. done_post (gate_run deps req) t) (\<lambda>_ _. False) (cut_post (gate_run deps req) t) s"
proof -
  let ?path = "takeWhile (\<lambda>c. c \<noteq> CHR ''?'') (case rq_url req of None \<Rightarrow> [] | Some u \<Rightarrow> u)"
  let ?m = "if ?path = VERIFY_PATH \<and> (rq_method req = ''GET'' \<or> rq_method req = ''HEAD'') then verify deps req
    else if ?path = LOGIN_PATH \<and> rq_method req = ''POST'' then login deps req else send 404 [] []"
  have "run_wp (gate_run deps req) t ?m s"
  proof -
    have "run_wp (gate_run deps req) t (send 404 [] []) s"
      by (rule run_wp_send [of t "[]"]) (simp_all add: s gate_run.not_found)
    moreover have "run_wp (gate_run deps req) t (verify deps req) s" if "on_route VERIFY_PATH [''GET'', ''HEAD''] req"
      by (rule run_wp_mono [OF verify_wp [OF s]]) (rule gate_run.verified [OF that])
    moreover have "run_wp (gate_run deps req) t (login deps req) s" if "on_route LOGIN_PATH [''POST''] req"
      by (rule run_wp_mono [OF login_wp [OF s]]) (rule gate_run.logged_in [OF that])
    ultimately show ?thesis by (simp add: on_route_def)
  qed
  then show ?thesis
    unfolding gate_handler_def Let_def wp_catchE run_wp_def
    by (rule wp_mono) (assumption, erule handler_catch, assumption)
qed

text \<open>The events of one request, from a state that has sent nothing.\<close>

definition gate_events :: "('w, 'k) gate_deps \<Rightarrow> gate_request \<Rightarrow> 'w gate_state \<Rightarrow> gate_event list" where
  "gate_events deps req s = drop (length (gs_trace s)) (gs_trace (snd (gate_handler deps req (s\<lparr>gs_headersSent := False\<rparr>))))"

lemma gate_events_run:
  "gate_run deps req (gate_events deps req s) \<or>
     fst (gate_handler deps req (s\<lparr>gs_headersSent := False\<rparr>)) = Crash \<and> early (gate_events deps req s)"
proof -
  have "at (gs_trace s) False (s\<lparr>gs_headersSent := False\<rparr>)" by (simp add: at_def)
  from handler_wp [OF this, of deps req] show ?thesis
    unfolding gate_events_def wp_def
    by (auto simp: done_post_def cut_post_def split: prod.splits outcome.splits)
qed

definition answers :: "gate_event list \<Rightarrow> gate_event list" where
  "answers es = filter (\<lambda>ev. case ev of Sent _ _ _ \<Rightarrow> True | _ \<Rightarrow> False) es"

definition derivations :: "gate_event list \<Rightarrow> gate_event list" where
  "derivations es = filter (\<lambda>ev. case ev of Derived _ _ \<Rightarrow> True | _ \<Rightarrow> False) es"

lemma silent_counts: "list_all silent es \<Longrightarrow> answers es = [] \<and> derivations es = []"
  by (induction es) (auto simp: answers_def derivations_def silent_def split: gate_event.splits)

lemma silent_sentD: "list_all silent es \<Longrightarrow> Sent n hs b \<in> set es \<Longrightarrow> False"
  by (auto simp: list_all_iff)

lemma counted_counts: "list_all (\<lambda>ev. ev = Counted slot) es \<Longrightarrow> answers es = [] \<and> derivations es = []"
  by (induction es) (auto simp: answers_def derivations_def)

lemma counts_simps [simp]:
  "answers (es @ fs) = answers es @ answers fs" "derivations (es @ fs) = derivations es @ derivations fs"
  "answers (Sent n hs b # es) = Sent n hs b # answers es" "derivations (Sent n hs b # es) = derivations es"
  "answers (Derived h ok # es) = answers es" "derivations (Derived h ok # es) = Derived h ok # derivations es"
  "answers (ReadSlots m # es) = answers es" "derivations (ReadSlots m # es) = derivations es"
  "answers (ReadLease sl c # es) = answers es" "derivations (ReadLease sl c # es) = derivations es"
  "answers (ReadClock t # es) = answers es" "derivations (ReadClock t # es) = derivations es"
  "answers (Logged # es) = answers es" "derivations (Logged # es) = derivations es"
  "answers (Destroyed # es) = answers es" "derivations (Destroyed # es) = derivations es"
  "answers [] = []" "derivations [] = []"
  by (simp_all add: answers_def derivations_def)

lemma verify_run_counts: "verify_run deps req es \<Longrightarrow> length (answers es) = 1 \<and> derivations es = []"
  by (induction rule: verify_run.induct) (auto dest: silent_counts counted_counts)

lemma login_run_counts: "login_run deps req es \<Longrightarrow> length (answers es) = 1 \<and> length (derivations es) \<le> 1"
  by (induction rule: login_run.induct) (auto dest: silent_counts)

lemma early_counts: "early es \<Longrightarrow> answers es = [] \<and> length (derivations es) \<le> 1"
  by (auto simp: early_def dest: silent_counts)

lemma gate_run_counts: "gate_run deps req es \<Longrightarrow> length (answers es) = 1 \<and> length (derivations es) \<le> 1"
  by (induction rule: gate_run.induct) (auto dest: verify_run_counts login_run_counts early_counts)

lemma answers_NilD: "answers es = [] \<Longrightarrow> Sent n hs b \<notin> set es"
  by (auto simp: answers_def filter_empty_conv)

text \<open>A run of one of the two routes.\<close>

definition routed :: "('w, 'k) gate_deps \<Rightarrow> gate_request \<Rightarrow> gate_event list \<Rightarrow> bool" where
  "routed deps req es \<longleftrightarrow>
     on_route VERIFY_PATH [''GET'', ''HEAD''] req \<and> verify_run deps req es \<or>
     on_route LOGIN_PATH [''POST''] req \<and> login_run deps req es"

lemma gate_run_answer:
  "gate_run deps req es \<Longrightarrow> Sent n hs b \<in> set es \<Longrightarrow> n \<noteq> 404 \<Longrightarrow> n \<noteq> 500 \<Longrightarrow>
     \<exists>es' junk. es = es' @ junk \<and> Sent n hs b \<in> set es' \<and> routed deps req es'"
proof (induction rule: gate_run.induct)
  case (verified es)
  then have "routed deps req es" by (simp add: routed_def)
  with verified.prems show ?case by blast
next
  case (logged_in es)
  then have "routed deps req es" by (simp add: routed_def)
  with logged_in.prems show ?case by blast
next
  case (failed es hs' b')
  then show ?case using early_counts [of es] answers_NilD [of es n hs b] by auto
next
  case (broken es)
  then have "Sent n hs b \<in> set es" by simp
  with broken obtain es' junk where "es = es' @ junk" "Sent n hs b \<in> set es'" "routed deps req es'" by blast
  then show ?case by (intro exI [of _ es'] exI [of _ "junk @ [Logged, Destroyed]"]) simp
qed simp

lemma gate_events_answer:
  assumes "Sent n hs b \<in> set (gate_events deps req s)" "n \<noteq> 404" "n \<noteq> 500"
  obtains es junk where "gate_events deps req s = es @ junk" "Sent n hs b \<in> set es" "routed deps req es"
proof -
  have "gate_run deps req (gate_events deps req s)"
    using gate_events_run [of deps req s] assms(1) early_counts [of "gate_events deps req s"]
      answers_NilD [of "gate_events deps req s"] by blast
  from gate_run_answer [OF this assms] show ?thesis using that by blast
qed

lemma verify_run_200:
  assumes "verify_run deps req es" "Sent 200 hs b \<in> set es"
  obtains host m g now cur claim where "hostOf req = Some host" "map_of m host = Some g"
    "claim \<in> set (good_claims deps req (now div 1000) (gh_slot g))" "gc_lease claim = cl_lease cur"
    "prefix [ReadSlots m, ReadClock now, ReadLease (gh_slot g) cur] es"
  using assms by (cases rule: verify_run.cases) (auto dest: silent_sentD simp: prefix_def)

lemma login_run_303:
  assumes "login_run deps req es" "Sent 303 hs b \<in> set es"
  obtains pre g cur now r where "list_all silent pre" "tied_reads req pre g cur"
    "es = pre @ [Derived (gh_hash g) True, ReadClock now, Sent 303 hs b]"
    "hs = COMMON_HEADERS @ [(''Location'', safeReturnPath r), (''Set-Cookie'', setCookieHeader
       (signCookie (gd_hmac deps) (gd_signingKey deps) \<lparr>gc_slot = gh_slot g, gc_lease = cl_lease cur,
          gc_exp = nat (now div 1000) + gd_cookieTtlSeconds deps\<rparr>) (gd_cookieTtlSeconds deps))]"
  using assms
  by (cases rule: login_run.cases) (auto dest: silent_sentD)

section \<open>Properties\<close>

text \<open>C6: The gate admits (200) only a GET or HEAD of the verify path whose host is in the slots file as
  read by this request, with a cookie in the request that carries a valid MAC, has not expired at the
  clock read after that, names this host's slot, and names the lease read from the slot's record after
  the cookie was checked: nothing is admitted on an earlier read.\<close>

theorem verify_admits_current_lease:
  assumes "Sent 200 hs b \<in> set (gate_events deps req s)"
  shows "on_route VERIFY_PATH [''GET'', ''HEAD''] req \<and>
    (\<exists>host m g now cur claim v. hostOf req = Some host \<and> map_of m host = Some g \<and>
       prefix [ReadSlots m, ReadClock now, ReadLease (gh_slot g) cur] (gate_events deps req s) \<and>
       v \<in> set (readGateCookies (rq_cookie req)) \<and>
       verifyCookie (gd_hmac deps) (gd_signingKey deps) v (now div 1000) = Inr claim \<and>
       gc_slot claim = gh_slot g \<and> gc_lease claim = cl_lease cur)"
proof -
  obtain es junk where es: "gate_events deps req s = es @ junk" "Sent 200 hs b \<in> set es"
    and run: "routed deps req es"
    by (rule gate_events_answer [OF assms]) simp_all
  have "\<not> login_run deps req es"
    using es(2) by (auto elim!: login_run.cases dest: silent_sentD)
  with run have r: "on_route VERIFY_PATH [''GET'', ''HEAD''] req" "verify_run deps req es" unfolding routed_def by blast+
  from verify_run_200 [OF r(2) es(2)] obtain host m g now cur claim where
    "hostOf req = Some host" "map_of m host = Some g"
    "claim \<in> set (good_claims deps req (now div 1000) (gh_slot g))" "gc_lease claim = cl_lease cur"
    "prefix [ReadSlots m, ReadClock now, ReadLease (gh_slot g) cur] es" .
  moreover from good_claims_mem [OF this(3)] obtain v where "v \<in> set (readGateCookies (rq_cookie req))"
    "verifyCookie (gd_hmac deps) (gd_signingKey deps) v (now div 1000) = Inr claim" "gc_slot claim = gh_slot g" .
  moreover have "prefix [ReadSlots m, ReadClock now, ReadLease (gh_slot g) cur] (gate_events deps req s)"
    using calculation(5) unfolding es(1) by (rule prefix_prefix)
  ultimately show ?thesis using r(1) by blast
qed

text \<open>C7: The gate signs a visitor in (303) only on a POST of the login path, after the derivation of the
  passphrase against the hash of this host's slot matched, and only if the lease record read in this
  request carries the tag of that very hash; the cookie it sets verifies, until it expires, to a claim
  for that slot and that lease.\<close>

theorem login_admits_tied_lease:
  assumes "Sent 303 hs b \<in> set (gate_events deps req s)"
  shows "on_route LOGIN_PATH [''POST''] req \<and>
    (\<exists>pre g cur now cookie claim. prefix (pre @ [Derived (gh_hash g) True]) (gate_events deps req s) \<and>
       tied_reads req pre g cur \<and> cl_hashId cur = gh_hashId g \<and>
       (''Set-Cookie'', setCookieHeader cookie (gd_cookieTtlSeconds deps)) \<in> set hs \<and>
       claim = \<lparr>gc_slot = gh_slot g, gc_lease = cl_lease cur, gc_exp = nat (now div 1000) + gd_cookieTtlSeconds deps\<rparr> \<and>
       (digest_of (gd_hmac deps) \<and> valid_claim claim \<longrightarrow>
          (\<forall>t < int (gc_exp claim). verifyCookie (gd_hmac deps) (gd_signingKey deps) cookie t = Inr claim)))"
proof -
  obtain es junk where es: "gate_events deps req s = es @ junk" "Sent 303 hs b \<in> set es"
    and run: "routed deps req es"
    by (rule gate_events_answer [OF assms]) simp_all
  have "\<not> verify_run deps req es"
    using es(2) by (auto elim!: verify_run.cases dest: silent_sentD simp: list_all_iff)
  with run have r: "on_route LOGIN_PATH [''POST''] req" "login_run deps req es" unfolding routed_def by blast+
  from login_run_303 [OF r(2) es(2)] obtain pre g cur now ret where l: "tied_reads req pre g cur"
    "es = pre @ [Derived (gh_hash g) True, ReadClock now, Sent 303 hs b]"
    "hs = COMMON_HEADERS @ [(''Location'', safeReturnPath ret), (''Set-Cookie'', setCookieHeader
       (signCookie (gd_hmac deps) (gd_signingKey deps) \<lparr>gc_slot = gh_slot g, gc_lease = cl_lease cur,
          gc_exp = nat (now div 1000) + gd_cookieTtlSeconds deps\<rparr>) (gd_cookieTtlSeconds deps))]" .
  have "prefix (pre @ [Derived (gh_hash g) True]) (gate_events deps req s)"
    by (simp add: es(1) l(2))
  with r(1) l show ?thesis
    by (auto intro!: exI [of _ pre] exI [of _ g] exI [of _ cur] exI [of _ now]
        simp: cookie_roundtrip tied_reads_def)
qed

lemma login_run_derives:
  assumes "login_run deps req es" "Sent n hs b \<in> set es" "n = 401 \<or> n = 303"
  obtains pre h ok post where "es = pre @ Derived h ok # post" "derivations pre = []" "derivations post = []"
    "(\<exists>g cur. tied_reads req pre g cur \<and> h = gh_hash g \<and> ok = (n = 303)) \<or>
     (\<not> (\<exists>g cur. tied_reads req pre g cur) \<and> h = gd_decoyHash deps \<and> n = 401)"
  using assms(1)
proof cases
  case (refused es' status hs' b')
  with assms(2,3) show ?thesis by (auto dest: silent_sentD)
next
  case (decoy es' ok hs' b')
  with assms(2) silent_counts [OF decoy(2)] show ?thesis
    by (intro that [of es' "gd_decoyHash deps" ok "[Sent 401 hs' b']"]) (auto dest: silent_sentD)
next
  case (wrong es' g cur hs' b')
  with assms(2) silent_counts [OF wrong(2)] show ?thesis
    by (intro that [of es' "gh_hash g" False "[Sent 401 hs' b']"]) (auto dest: silent_sentD)
next
  case (admitted es' g cur now r)
  with assms(2) silent_counts [OF admitted(2)] show ?thesis
    by (intro that [of es' "gh_hash g" True "drop (Suc (length es')) es"]) (auto dest: silent_sentD)
qed

text \<open>Every run answers exactly once unless the process dies, and derives at most once.  A login that is
  answered 401 or 303 derived exactly once, so the cost of a guess does not tell the cases apart:
  against the hash of the host's slot when the slots file and the lease record read in this request are
  tied by the hash tag, and then the answer is 303 exactly if it matched; against the decoy otherwise,
  and then the answer is 401 even if the decoy matched.\<close>

theorem login_one_derivation:
  assumes "on_route LOGIN_PATH [''POST''] req"
    and "Sent n hs b \<in> set (gate_events deps req s)" "n = 401 \<or> n = 303"
  shows "length (answers (gate_events deps req s)) = 1 \<and>
    (\<exists>pre h ok. prefix (pre @ [Derived h ok]) (gate_events deps req s) \<and>
       derivations (gate_events deps req s) = [Derived h ok] \<and>
       ((\<exists>g cur. tied_reads req pre g cur \<and> h = gh_hash g \<and> ok = (n = 303)) \<or>
        (\<not> (\<exists>g cur. tied_reads req pre g cur) \<and> h = gd_decoyHash deps \<and> n = 401)))"
proof -
  obtain es junk where es: "gate_events deps req s = es @ junk" "Sent n hs b \<in> set es" "routed deps req es"
    by (rule gate_events_answer [OF assms(2)]) (use assms(3) in auto)
  have g: "gate_run deps req (gate_events deps req s)"
    using gate_events_run [of deps req s] assms(2) early_counts [of "gate_events deps req s"]
      answers_NilD [of "gate_events deps req s"] by blast
  have "login_run deps req es"
    using es(3) assms(1) by (auto simp: routed_def on_route_def VERIFY_PATH_def LOGIN_PATH_def)
  from login_run_derives [OF this es(2) assms(3)] obtain pre h ok post where
    d: "es = pre @ Derived h ok # post" "derivations pre = []" "derivations post = []"
    "(\<exists>g cur. tied_reads req pre g cur \<and> h = gh_hash g \<and> ok = (n = 303)) \<or>
     (\<not> (\<exists>g cur. tied_reads req pre g cur) \<and> h = gd_decoyHash deps \<and> n = 401)" .
  have "length (derivations (gate_events deps req s)) \<le> 1" using gate_run_counts [OF g] by simp
  then have "derivations (gate_events deps req s) = [Derived h ok]" by (simp add: es(1) d(1-3))
  moreover have "prefix (pre @ [Derived h ok]) (gate_events deps req s)" by (simp add: es(1) d(1))
  ultimately show ?thesis using gate_run_counts [OF g] d(4) by blast
qed

text \<open>A gate with one slot, whose dependencies always answer.\<close>

definition sample_phc_hash :: argon2id_hash where
  "sample_phc_hash = \<lparr>ah_memoryKiB = 65536, ah_passes = 3, ah_parallelism = 4, ah_salt = replicate 16 7, ah_tag = replicate 32 9\<rparr>"

definition sample_gated :: gated_host where
  "sample_gated = \<lparr>gh_host = ''demo.example'', gh_slot = ''demo-1'', gh_hash = sample_phc_hash, gh_hashId = ''0123456789abcdef''\<rparr>"

definition sample_deps :: "(unit, unit) gate_deps" where
  "sample_deps = \<lparr>gd_slots = returnE [(''demo.example'', sample_gated)],
     gd_leaseOf = (\<lambda>_. returnE \<lparr>cl_lease = ''01J9F4Q7ZC3M8V2K6X0R5T1B9D'', cl_hashId = ''0123456789abcdef''\<rparr>),
     gd_hmac = (\<lambda>_ _. replicate 32 0), gd_signingKey = (),
     gd_ceiling = \<lparr>co_limit = 3, co_windowMs = 1000, co_maxSources = 5\<rparr>,
     gd_broadCeiling = \<lparr>co_limit = 3, co_windowMs = 1000, co_maxSources = 5\<rparr>,
     gd_malformedCeiling = \<lparr>co_limit = 3, co_windowMs = 1000, co_maxSources = 5\<rparr>,
     gd_admit = returnE True, gd_argon2 = (\<lambda>_ _ n. returnE (replicate n 9)),
     gd_resolve = (\<lambda>_ _. Some ''s''), gd_resolveBroad = (\<lambda>_ _. Some ''b''),
     gd_cookieTtlSeconds = 60, gd_decoyHash = sample_phc_hash, gd_nowMs = (\<lambda>_. 5000),
     gd_form = (\<lambda>_ k. Some ''pw''), gd_increment = None, gd_others = (\<lambda>_ t. t)\<rparr>"

definition sample_request :: "string \<Rightarrow> string \<Rightarrow> gate_request" where
  "sample_request path verb = \<lparr>rq_url = Some path, rq_method = verb, rq_host = Some ''demo.example:443'',
     rq_cookie = Some (COOKIE_NAME @ ''=v1.demo-1.01J9F4Q7ZC3M8V2K6X0R5T1B9D.60.'' @ replicate 43 CHR ''A''),
     rq_forwardedUri = HNone, rq_forwardedFor = HNone,
     rq_contentType = HOne ''application/x-www-form-urlencoded; charset=utf-8'', rq_peer = None,
     rq_chunks = [[]], rq_aborted = False\<rparr>"

definition sample_state :: "unit gate_state" where
  "sample_state = \<lparr>gs_narrow = [], gs_broad = [], gs_malformed = [], gs_headersSent = False, gs_trace = [], gs_w = ()\<rparr>"

lemma sample_host: "hostOf (sample_request p v) = Some ''demo.example''"
  by (simp add: hostOf_def sample_request_def toLowerCase_def js_lower_char_def drop_port_def digits_def Let_def)

definition sample_cookie :: string where
  "sample_cookie = ''v1.demo-1.01J9F4Q7ZC3M8V2K6X0R5T1B9D.60.'' @ replicate 43 CHR ''A''"

lemma sample_cookies: "readGateCookies (rq_cookie (sample_request p v)) = [sample_cookie]"
  by code_simp

definition sample_gate_claim :: gate_claim where
  "sample_gate_claim = \<lparr>gc_slot = ''demo-1'', gc_lease = ''01J9F4Q7ZC3M8V2K6X0R5T1B9D'', gc_exp = 60\<rparr>"

lemma sample_zero_tag: "b64_encode base64_url (replicate 32 0) = replicate 43 CHR ''A''"
proof -
  have "enc (replicate 32 0) = replicate 43 0" by code_simp
  then show ?thesis by (simp add: b64_encode_def map_replicate base64_url_def uppers_def)
qed

lemma sample_sign: "signCookie (\<lambda>_ _. replicate 32 0) () sample_gate_claim = sample_cookie"
  by (simp add: signCookie_def sample_zero_tag claim_payload_def cookie_payload_def sample_gate_claim_def
      sample_cookie_def show_nat.simps digit_char_def digits_def)

lemma sample_verify: "now < 60 \<Longrightarrow> verifyCookie (\<lambda>_ _. replicate 32 0) () sample_cookie now = Inr sample_gate_claim"
  unfolding sample_sign [symmetric]
  by (subst cookie_roundtrip) (simp_all add: digest_of_def bytes_def list_all_iff valid_claim_def valid_slot_name_def
      valid_lease_id_def sample_gate_claim_def slot_name_chars_def lowers_def digits_def crockford_def)

lemmas effect_defs = bindE_def thenE_def returnE_def tryE_def catchE_def getE_def modifyE_def noteE_def await_def
  after_await_def nowMs_def send_def on_ceiling_def ceiling_effects

lemma sample_lookup: "lookup_host sample_deps (Some ''demo.example'') s =
    (Ok (Some sample_gated), s\<lparr>gs_trace := gs_trace s @ [ReadSlots [(''demo.example'', sample_gated)]]\<rparr>)"
  by (simp add: lookup_host_def readSlots_def effect_defs sample_deps_def)

lemma sample_lease: "currentLease sample_deps slot s =
    (Ok (Some \<lparr>cl_lease = ''01J9F4Q7ZC3M8V2K6X0R5T1B9D'', cl_hashId = ''0123456789abcdef''\<rparr>),
     s\<lparr>gs_trace := gs_trace s @ [ReadLease slot \<lparr>cl_lease = ''01J9F4Q7ZC3M8V2K6X0R5T1B9D'', cl_hashId = ''0123456789abcdef''\<rparr>]\<rparr>)"
  by (simp add: currentLease_def effect_defs sample_deps_def)

lemma sample_claims: "good_claims sample_deps (sample_request p v) 5 ''demo-1'' = [sample_gate_claim]"
  unfolding good_claims_def sample_cookies
  by (simp add: sample_deps_def sample_verify) (simp add: sample_gate_claim_def)

lemma sample_nowMs: "nowMs sample_deps s = (Ok 5000, s\<lparr>gs_trace := gs_trace s @ [ReadClock 5000]\<rparr>)"
  by (simp add: effect_defs sample_deps_def)

lemma sample_await: "await sample_deps (returnE x) s = (Ok x, s)"
  by (simp add: effect_defs sample_deps_def)

lemma sample_fields: "gh_slot sample_gated = ''demo-1''" "gh_hashId sample_gated = ''0123456789abcdef''"
  "gh_hash sample_gated = sample_phc_hash" "gd_increment sample_deps = None" "gd_admit sample_deps = returnE True"
  "verifyPassphrase (gd_argon2 sample_deps) pw sample_phc_hash = returnE True"
  "gd_resolve sample_deps p f = Some ''s''" "gd_resolveBroad sample_deps p f = Some ''b''"
  "gd_form sample_deps bs k = Some ''pw''"
  "gd_ceiling sample_deps = \<lparr>co_limit = 3, co_windowMs = 1000, co_maxSources = 5\<rparr>"
  "gd_broadCeiling sample_deps = \<lparr>co_limit = 3, co_windowMs = 1000, co_maxSources = 5\<rparr>"
  by (simp_all add: sample_gated_def sample_deps_def verifyPassphrase_def sample_phc_hash_def bindE_def returnE_def fun_eq_iff)

lemma sample_200: "Sent 200 COMMON_HEADERS [] \<in> set (gate_events sample_deps (sample_request VERIFY_PATH ''GET'') sample_state)"
proof -
  have "verify sample_deps (sample_request VERIFY_PATH ''GET'') (sample_state\<lparr>gs_headersSent := False\<rparr>) =
      (Ok (), sample_state\<lparr>gs_headersSent := True, gs_trace := [ReadSlots [(''demo.example'', sample_gated)],
         ReadClock 5000, ReadLease ''demo-1'' \<lparr>cl_lease = ''01J9F4Q7ZC3M8V2K6X0R5T1B9D'', cl_hashId = ''0123456789abcdef''\<rparr>,
         Sent 200 COMMON_HEADERS []]\<rparr>)"
    unfolding verify_def sample_host bindE_def sample_lookup
    by (simp add: verify_gated_def bindE_def sample_nowMs sample_fields sample_claims sample_lease admit_current_def
        Let_def sample_state_def thenE_def send_def getE_def modifyE_def noteE_def returnE_def)
      (simp add: sample_gate_claim_def)
  then show ?thesis
    by (simp add: gate_events_def gate_handler_def sample_request_def catchE_def VERIFY_PATH_def sample_state_def)
qed

lemma verify_admits_current_lease_witness:
  "\<exists>host m g now cur claim v. map_of m host = Some g \<and>
     prefix [ReadSlots m, ReadClock now, ReadLease (gh_slot g) cur]
       (gate_events sample_deps (sample_request VERIFY_PATH ''GET'') sample_state) \<and>
     v \<in> set (readGateCookies (rq_cookie (sample_request VERIFY_PATH ''GET''))) \<and>
     verifyCookie (gd_hmac sample_deps) (gd_signingKey sample_deps) v (now div 1000) = Inr claim \<and>
     gc_lease claim = cl_lease cur"
  using verify_admits_current_lease [OF sample_200] by blast

definition sample_login_headers :: "(string \<times> string) list" where
  "sample_login_headers = COMMON_HEADERS @ [(''Location'', ''/''), (''Set-Cookie'', setCookieHeader
     (signCookie (\<lambda>_ _. replicate 32 0) () \<lparr>gc_slot = ''demo-1'', gc_lease = ''01J9F4Q7ZC3M8V2K6X0R5T1B9D'', gc_exp = 65\<rparr>) 60)]"

lemma sample_303: "Sent 303 sample_login_headers [] \<in> set (gate_events sample_deps (sample_request LOGIN_PATH ''POST'') sample_state)"
proof -
  have form: "is_form (sample_request LOGIN_PATH ''POST'')"
    unfolding is_form_def sample_request_def by code_simp
  have root: "safeReturnPath (Some ''pw'') = ''/''"
    by (simp add: safeReturnPath_def starts_with_def MAX_RETURN_PATH_def)
  have "derive_and_answer sample_deps (sample_request LOGIN_PATH ''POST'') ''s'' ''b'' ''pw'' ''/'' s =
      (Ok (), s\<lparr>gs_headersSent := True, gs_trace := gs_trace s @ [ReadSlots [(''demo.example'', sample_gated)],
         ReadLease ''demo-1'' \<lparr>cl_lease = ''01J9F4Q7ZC3M8V2K6X0R5T1B9D'', cl_hashId = ''0123456789abcdef''\<rparr>,
         Derived sample_phc_hash True, ReadClock 5000, Sent 303 sample_login_headers []]\<rparr>)" if "\<not> gs_headersSent s" for s
    unfolding derive_and_answer_def sample_host bindE_def sample_lookup using that
    by (simp add: derive_gated_def bindE_def sample_fields sample_lease sample_await selectVerificationHash_def
        tied_pair_def answer_login_def sample_nowMs Let_def thenE_def send_def getE_def modifyE_def noteE_def)
      (simp add: sample_login_headers_def sample_deps_def)
  note derive = this
  have peek: "peek \<lparr>co_limit = 3, co_windowMs = 1000, co_maxSources = 5\<rparr> k 5000 [] = (Allowed, [])"
    "\<exists>w. attempt \<lparr>co_limit = 3, co_windowMs = 1000, co_maxSources = 5\<rparr> k 5000 [] = (Allowed, w)" for k
    by (simp_all add: peek_def attempt_def decide_def liveEntry_def)
  obtain w1 w2 where w: "attempt \<lparr>co_limit = 3, co_windowMs = 1000, co_maxSources = 5\<rparr> ''s'' 5000 [] = (Allowed, w1)"
    "attempt \<lparr>co_limit = 3, co_windowMs = 1000, co_maxSources = 5\<rparr> ''b'' 5000 [] = (Allowed, w2)"
    using peek(2) by blast
  have "attempt_login sample_deps (sample_request LOGIN_PATH ''POST'') ''s'' ''b'' ''pw'' ''/'' (sample_state\<lparr>gs_headersSent := False\<rparr>) =
      (Ok (), sample_state\<lparr>gs_narrow := w1, gs_broad := w2, gs_headersSent := True,
         gs_trace := [ReadClock 5000, ReadSlots [(''demo.example'', sample_gated)],
         ReadLease ''demo-1'' \<lparr>cl_lease = ''01J9F4Q7ZC3M8V2K6X0R5T1B9D'', cl_hashId = ''0123456789abcdef''\<rparr>,
         Derived sample_phc_hash True, ReadClock 5000, Sent 303 sample_login_headers []]\<rparr>)"
    by (simp add: attempt_login_def bindE_def sample_nowMs sample_fields ceiling_effects on_ceiling_def thenE_def
        returnE_def sample_state_def peek w derive)
  moreover have "rq_chunks (sample_request LOGIN_PATH ''POST'') = [[]]" "\<not> rq_aborted (sample_request LOGIN_PATH ''POST'')"
    by (simp_all add: sample_request_def)
  ultimately have "login sample_deps (sample_request LOGIN_PATH ''POST'') (sample_state\<lparr>gs_headersSent := False\<rparr>) =
      (Ok (), sample_state\<lparr>gs_narrow := w1, gs_broad := w2, gs_headersSent := True,
         gs_trace := [ReadClock 5000, ReadSlots [(''demo.example'', sample_gated)],
         ReadLease ''demo-1'' \<lparr>cl_lease = ''01J9F4Q7ZC3M8V2K6X0R5T1B9D'', cl_hashId = ''0123456789abcdef''\<rparr>,
         Derived sample_phc_hash True, ReadClock 5000, Sent 303 sample_login_headers []]\<rparr>)"
    by (simp add: login_def sample_fields form bindE_def readBody_def sample_await root MAX_PASSPHRASE_LENGTH_def
        MAX_BODY_BYTES_def Let_def)
  moreover have "rq_url (sample_request LOGIN_PATH ''POST'') = Some LOGIN_PATH" "rq_method (sample_request LOGIN_PATH ''POST'') = ''POST''"
    by (simp_all add: sample_request_def)
  ultimately show ?thesis
    by (simp add: gate_events_def gate_handler_def catchE_def sample_state_def) (simp add: VERIFY_PATH_def LOGIN_PATH_def)
qed

lemma login_admits_tied_lease_witness:
  "\<exists>pre g cur. prefix (pre @ [Derived (gh_hash g) True])
       (gate_events sample_deps (sample_request LOGIN_PATH ''POST'') sample_state) \<and>
     tied_reads (sample_request LOGIN_PATH ''POST'') pre g cur \<and> cl_hashId cur = gh_hashId g"
  using login_admits_tied_lease [OF sample_303] by blast

lemma login_one_derivation_witness:
  "length (answers (gate_events sample_deps (sample_request LOGIN_PATH ''POST'') sample_state)) = 1"
  using login_one_derivation [OF _ sample_303] by (simp add: on_route_def sample_request_def LOGIN_PATH_def)

end
