(* ===== verification/Broker_State.thy ===== *)
theory Broker_State
  imports Lease "HOL-Library.List_Lexorder" "HOL-Library.Char_ord"
begin

text \<open>
  The broker's data and files: \<open>src/services/broker/src/stateStore.ts\<close> (types, refusals, reads and
  writes), \<open>literals.ts\<close>, \<open>slotPorts.ts\<close>, \<open>slotLock.ts\<close>, \<open>drainFlag.ts\<close> and \<open>slotsFile.ts\<close>.

  A file is the value its JSON text stands for, or absent.  Every file operation asks \<open>bd_fate\<close> what
  becomes of it: it is done, it throws before or after taking effect, or the process dies before or after.
  A theorem about all fates is a theorem about every failed write and every crash point.  Slot literals
  are strings of decimal digits, as \<open>Number(slot)\<close> in \<open>slotPorts.ts\<close> takes them, for which
  \<open>localeCompare\<close> is the order of character codes.
\<close>

datatype colour = A | B

datatype phase = Free | Preparing | Running | Swapping | Stopping | Resetting | Detaching | Error

datatype evidence = Frozen | Detached | OtherMark string

record slot_state =
  ss_phase :: phase
  ss_colour :: "colour option"
  ss_descriptorHash :: "string option"
  ss_lastHashId :: "hash_id option"
  ss_swapTarget :: "colour option"
  ss_swapDescriptorHash :: "string option"
  ss_swapHashId :: "hash_id option"
  ss_trafficBaseline :: "int option"
  ss_oldColourStopped :: bool
  ss_evidence :: "evidence option"

text \<open>An object literal that names only the phase: every other field is \<open>undefined\<close>.\<close>

definition state_of :: "phase \<Rightarrow> hash_id option \<Rightarrow> slot_state" where
  "state_of p lastHashId = \<lparr>ss_phase = p, ss_colour = None, ss_descriptorHash = None, ss_lastHashId = lastHashId,
     ss_swapTarget = None, ss_swapDescriptorHash = None, ss_swapHashId = None, ss_trafficBaseline = None,
     ss_oldColourStopped = False, ss_evidence = None\<rparr>"

definition FREE_STATE :: slot_state where
  "FREE_STATE = state_of Free None"

fun otherColour :: "colour \<Rightarrow> colour" where
  "otherColour A = B"
| "otherColour B = A"

lemma otherColour_neq [simp]: "otherColour c \<noteq> c" "c \<noteq> otherColour c" "otherColour (otherColour c) = c"
  by (cases c; simp)+

lemma colour_cases: "c = A \<or> c = B"
  by (cases c) simp_all

section \<open>Refusals\<close>

definition holdsUnconfirmedEvidence :: "evidence option \<Rightarrow> bool" where
  "holdsUnconfirmedEvidence ev \<longleftrightarrow> ev \<noteq> None \<and> ev \<noteq> Some Detached"

datatype reset_refusal = StillDetaching | HoldsEvidence

definition resetRefusal :: "slot_state \<Rightarrow> reset_refusal option" where
  "resetRefusal st =
     (if ss_phase st = Detaching then Some StillDetaching
      else if holdsUnconfirmedEvidence (ss_evidence st) then Some HoldsEvidence
      else None)"

definition errorStateOf :: "slot_state \<Rightarrow> slot_state" where
  "errorStateOf st = (case ss_evidence st of
       None \<Rightarrow> state_of Error (ss_lastHashId st)
     | Some ev \<Rightarrow> (state_of Error (ss_lastHashId st))\<lparr>ss_evidence := Some ev\<rparr>)"

text \<open>False where \<open>assertHashRotated\<close> throws \<open>UnrotatedHashError\<close>.\<close>

definition hashRotated :: "slot_state \<Rightarrow> hash_id \<Rightarrow> bool" where
  "hashRotated st newHashId \<longleftrightarrow> \<not> (ss_lastHashId st \<noteq> None \<and> ss_lastHashId st = Some newHashId)"

definition LOCK_HELD_PHASES :: "phase list" where
  "LOCK_HELD_PHASES = [Preparing, Resetting]"

section \<open>Literals and ports\<close>

definition validateSlotLiteral :: "json option \<Rightarrow> string list \<Rightarrow> field_error + slot_name" where
  "validateSlotLiteral v allowed = (case v of
       Some (JString s) \<Rightarrow>
         bindS (validateSlotName (Some (JString s)) ''slot'') (\<lambda>slot.
         guardS (slot \<in> set allowed) (FieldValidationError ''slot'') (Inr slot))
     | _ \<Rightarrow> Inl (FieldValidationError ''slot''))"

definition slot_number :: "slot_name \<Rightarrow> nat" where
  "slot_number slot = number_of_digits slot"

definition slotPort :: "nat \<Rightarrow> slot_name \<Rightarrow> colour \<Rightarrow> nat" where
  "slotPort appPortBase slot c = appPortBase + slot_number slot * 2 + (if c = B then 1 else 0)"

definition slotHealthPort :: "nat \<Rightarrow> slot_name \<Rightarrow> nat" where
  "slotHealthPort healthPortBase slot = healthPortBase + slot_number slot"

definition slotUid :: "nat \<Rightarrow> slot_name \<Rightarrow> nat" where
  "slotUid uidBase slot = uidBase + slot_number slot"

record slot_ports =
  sp_a :: nat
  sp_b :: nat
  sp_health :: nat

definition slotAllocation :: "nat \<Rightarrow> nat \<Rightarrow> nat \<Rightarrow> slot_name \<Rightarrow> nat \<times> slot_ports" where
  "slotAllocation uidBase appPortBase healthPortBase slot = (slotUid uidBase slot,
     \<lparr>sp_a = slotPort appPortBase slot A, sp_b = slotPort appPortBase slot B,
      sp_health = slotHealthPort healthPortBase slot\<rparr>)"

lemma slotPort_inj:
  "slotPort base s c = slotPort base s' c' \<Longrightarrow> slot_number s = slot_number s' \<and> c = c'"
  using colour_cases [of c] colour_cases [of c'] by (auto simp: slotPort_def split: if_splits; presburger)

section \<open>The broker's state and its dependencies\<close>

record slots_entry =
  se_host :: string
  se_slot :: slot_name
  se_argon2idHash :: string

datatype slot_op = OpRender | OpArtefacts | OpStart colour | OpStop colour | OpReset | OpForget | OpConfigure nat

datatype broker_event =
    Called slot_name slot_op
  | Returned slot_name slot_op
  | ReadyAnswer nat bool
  | TrafficAnswer slot_name int
  | BatchAnswer slot_name bool
  | FlagAnswer slot_name colour bool

datatype broker_exn = HostConflictError string slot_name | BrokerError js_exn

datatype fate = Proceed | FailBefore | FailAfter | CrashBefore | CrashAfter

text \<open>A lease record file: what \<open>parseSlotLeaseRecord\<close> makes of it, \<open>None\<close> when it refuses it.\<close>

type_synonym lease_content = "slot_lease_record option"

record 'w broker =
  bk_states :: "slot_name \<Rightarrow> slot_state option"
  bk_entries :: "slots_entry list"
  bk_leases :: "slot_name \<Rightarrow> lease_content option"
  bk_drained :: "slot_name \<Rightarrow> colour \<Rightarrow> bool"
  bk_locks :: "slot_name list"
  bk_trace :: "broker_event list"
  bk_w :: 'w

datatype hostname = Ours string | Theirs string

datatype gate_spec = NoGate | PassphraseGate string

record descriptor =
  td_kind :: string
  td_gate :: gate_spec
  td_uid :: nat
  td_ports :: slot_ports
  td_hostname :: hostname
  td_rest :: json

record 'w broker_deps =
  bd_fate :: "'w \<Rightarrow> fate \<times> 'w"
  bd_others :: "'w \<Rightarrow> slots_entry list \<Rightarrow> slots_entry list"
  bd_slotLiterals :: "string list"
  bd_validate :: "json \<Rightarrow> field_error + descriptor"
  bd_descriptorHash :: "descriptor \<Rightarrow> string"
  bd_demoZone :: string
  bd_render :: "descriptor \<Rightarrow> ('w, js_exn, unit) prog"
  bd_writeArtefacts :: "slot_name \<Rightarrow> ('w, js_exn, unit) prog"
  bd_start :: "slot_name \<Rightarrow> colour \<Rightarrow> ('w, js_exn, unit) prog"
  bd_stop :: "slot_name \<Rightarrow> colour \<Rightarrow> ('w, js_exn, unit) prog"
  bd_reset :: "slot_name \<Rightarrow> ('w, js_exn, unit) prog"
  bd_forget :: "(slot_name \<Rightarrow> ('w, js_exn, unit) prog) option"
  bd_configure :: "nat \<Rightarrow> descriptor \<Rightarrow> slot_name \<Rightarrow> ('w, js_exn, unit) prog"
  bd_isReady :: "nat \<Rightarrow> ('w, js_exn, bool) prog"
  bd_isHealthy :: "nat \<Rightarrow> ('w, js_exn, bool) prog"
  bd_readCount :: "slot_name \<Rightarrow> ('w, js_exn, int) prog"
  bd_hasSubmittingBatch :: "slot_name \<Rightarrow> ('w, js_exn, bool) prog"
  bd_now :: "'w \<Rightarrow> int"
  bd_sleep :: "nat \<Rightarrow> 'w \<Rightarrow> 'w"
  bd_random10 :: "'w \<Rightarrow> nat list"
  bd_readyPollTimeoutMs :: int
  bd_fuel :: nat
  bd_appPortBase :: nat
  bd_healthPortBase :: nat
  bd_uidBase :: nat

type_synonym ('w, 'a) bprog = "('w broker, broker_exn, 'a) prog"

section \<open>Effects\<close>

text \<open>
  After an \<open>await\<close> the world has moved on, and requests for other slots may have rewritten the shared
  slots file, though not the entries of \<open>slot\<close>, whose lock is held; the per-slot files stay still.
\<close>

definition own_entries :: "slot_name \<Rightarrow> slots_entry list \<Rightarrow> slots_entry list" where
  "own_entries slot es = filter (\<lambda>e. se_slot e = slot) es"

definition settle :: "'w broker_deps \<Rightarrow> slot_name \<Rightarrow> 'w \<Rightarrow> 'w broker \<Rightarrow> 'w broker" where
  "settle deps slot w s = (let es = bd_others deps w (bk_entries s) in
     s\<lparr>bk_w := w,
       bk_entries := (if own_entries slot es = own_entries slot (bk_entries s) then es else bk_entries s)\<rparr>)"

definition io_error :: broker_exn where
  "io_error = BrokerError (JsError ''EIO'')"

definition disk_read :: "'w broker_deps \<Rightarrow> slot_name \<Rightarrow> ('w broker \<Rightarrow> 'a) \<Rightarrow> ('w, 'a) bprog" where
  "disk_read deps slot f s = (case bd_fate deps (bk_w s) of (ft, w) \<Rightarrow>
     let s' = settle deps slot w s in
     (case ft of
        Proceed \<Rightarrow> (Ok (f s'), s')
      | FailBefore \<Rightarrow> (Throw io_error, s') | FailAfter \<Rightarrow> (Throw io_error, s')
      | CrashBefore \<Rightarrow> (Crash, s') | CrashAfter \<Rightarrow> (Crash, s')))"

definition disk_write :: "'w broker_deps \<Rightarrow> slot_name \<Rightarrow> ('w broker \<Rightarrow> 'w broker) \<Rightarrow> ('w, unit) bprog" where
  "disk_write deps slot upd s = (case bd_fate deps (bk_w s) of (ft, w) \<Rightarrow>
     let s' = settle deps slot w s in
     (case ft of
        Proceed \<Rightarrow> (Ok (), upd s')
      | FailBefore \<Rightarrow> (Throw io_error, s') | FailAfter \<Rightarrow> (Throw io_error, upd s')
      | CrashBefore \<Rightarrow> (Crash, s') | CrashAfter \<Rightarrow> (Crash, upd s')))"

definition outside :: "'w broker_deps \<Rightarrow> slot_name \<Rightarrow> ('w, js_exn, 'a) prog \<Rightarrow> ('w, 'a) bprog" where
  "outside deps slot m s = (case m (bk_w s) of
       (Ok x, w) \<Rightarrow> (Ok x, settle deps slot w s)
     | (Throw e, w) \<Rightarrow> (Throw (BrokerError e), settle deps slot w s)
     | (Crash, w) \<Rightarrow> (Crash, settle deps slot w s))"

definition mark :: "broker_event \<Rightarrow> ('w, unit) bprog" where
  "mark ev = modifyE (\<lambda>s. s\<lparr>bk_trace := bk_trace s @ [ev]\<rparr>)"

text \<open>A call that acts on the slot: marked before it is made and after it has succeeded.\<close>

definition slot_call :: "'w broker_deps \<Rightarrow> slot_name \<Rightarrow> slot_op \<Rightarrow> ('w, js_exn, unit) prog \<Rightarrow> ('w, unit) bprog" where
  "slot_call deps slot op m = thenE (mark (Called slot op)) (thenE (outside deps slot m) (mark (Returned slot op)))"

text \<open>A question to the outside, marked with its answer.\<close>

definition slot_ask :: "'w broker_deps \<Rightarrow> slot_name \<Rightarrow> ('a \<Rightarrow> broker_event) \<Rightarrow> ('w, js_exn, 'a) prog \<Rightarrow> ('w, 'a) bprog" where
  "slot_ask deps slot ev m = bindE (outside deps slot m) (\<lambda>x. thenE (mark (ev x)) (returnE x))"

section \<open>The state file\<close>

definition state_file :: "slot_name \<Rightarrow> 'w broker \<Rightarrow> slot_state" where
  "state_file slot s = (case bk_states s slot of None \<Rightarrow> FREE_STATE | Some st \<Rightarrow> st)"

definition put_state :: "slot_name \<Rightarrow> slot_state \<Rightarrow> 'w broker \<Rightarrow> 'w broker" where
  "put_state slot st s = s\<lparr>bk_states := (bk_states s)(slot := Some st)\<rparr>"

definition readSlotState :: "'w broker_deps \<Rightarrow> slot_name \<Rightarrow> ('w, slot_state) bprog" where
  "readSlotState deps slot = disk_read deps slot (state_file slot)"

definition releaseHeldEvidence :: "'w broker_deps \<Rightarrow> slot_name \<Rightarrow> slot_state \<Rightarrow> ('w, unit) bprog" where
  "releaseHeldEvidence deps slot st = disk_write deps slot (put_state slot (st\<lparr>ss_evidence := Some Detached\<rparr>))"

definition carried :: "slot_state \<Rightarrow> slot_state \<Rightarrow> slot_state" where
  "carried existing st =
     (if ss_evidence st \<noteq> None \<or> \<not> holdsUnconfirmedEvidence (ss_evidence existing) then st
      else st\<lparr>ss_evidence := ss_evidence existing\<rparr>)"

definition writeSlotState :: "'w broker_deps \<Rightarrow> slot_name \<Rightarrow> slot_state \<Rightarrow> ('w, unit) bprog" where
  "writeSlotState deps slot st = bindE (readSlotState deps slot) (\<lambda>existing.
     if ss_evidence st = Some Detached \<and> ss_evidence existing \<noteq> Some Detached
     then throwE (BrokerError (JsError ''refusing to move held evidence''))
     else disk_write deps slot (put_state slot (carried existing st)))"

section \<open>Drain flags and locks\<close>

definition set_flag :: "slot_name \<Rightarrow> colour \<Rightarrow> bool \<Rightarrow> 'w broker \<Rightarrow> 'w broker" where
  "set_flag slot c b s = s\<lparr>bk_drained := (bk_drained s)(slot := (bk_drained s slot)(c := b))\<rparr>"

definition flag_set :: "'w broker_deps \<Rightarrow> slot_name \<Rightarrow> colour \<Rightarrow> ('w, unit) bprog" where
  "flag_set deps slot c = disk_write deps slot (set_flag slot c True)"

definition flag_clear :: "'w broker_deps \<Rightarrow> slot_name \<Rightarrow> colour \<Rightarrow> ('w, unit) bprog" where
  "flag_clear deps slot c = disk_write deps slot (set_flag slot c False)"

text \<open>Any failure to look answers "set".\<close>

definition flag_isSet :: "'w broker_deps \<Rightarrow> slot_name \<Rightarrow> colour \<Rightarrow> ('w, bool) bprog" where
  "flag_isSet deps slot c =
     bindE (catchE (disk_read deps slot (\<lambda>s. bk_drained s slot c)) (\<lambda>_. returnE True))
       (\<lambda>b. thenE (mark (FlagAnswer slot c b)) (returnE b))"

definition claim :: "slot_name \<Rightarrow> ('w, bool) bprog" where
  "claim slot = bindE (getE bk_locks) (\<lambda>held.
     if slot \<in> set held then returnE False
     else thenE (modifyE (\<lambda>s. s\<lparr>bk_locks := slot # bk_locks s\<rparr>)) (returnE True))"

definition release :: "slot_name \<Rightarrow> ('w, unit) bprog" where
  "release slot = modifyE (\<lambda>s. s\<lparr>bk_locks := removeAll slot (bk_locks s)\<rparr>)"

end
