(* ===== verification/Broker_Slots_File.thy ===== *)
theory Broker_Slots_File
  imports Broker_State "HOL-Library.Multiset"
begin

text \<open>
  The shared slots file and the lease records: \<open>src/services/broker/src/slotsFile.ts\<close>,
  \<open>leaseStore.ts\<close> and \<open>ulid.ts\<close>.

  The pure halves of the slots file's operations come first, with the locale \<open>slots_table\<close> that says
  what the handlers rely on; then the operations on the file.  A read-modify-write under the file's
  mutex sees no write by another slot in between (\<open>quiet_deps\<close>).
\<close>

section \<open>The table\<close>

definition sort_entries :: "slots_entry list \<Rightarrow> slots_entry list" where
  "sort_entries es = sort_key se_slot es"

definition conflict_of :: "string \<Rightarrow> slot_name \<Rightarrow> slots_entry list \<Rightarrow> slots_entry option" where
  "conflict_of host slot es = find (\<lambda>e. se_host e = host \<and> se_slot e \<noteq> slot) es"

definition upsert_entries :: "slots_entry \<Rightarrow> slots_entry list \<Rightarrow> slot_name + slots_entry list" where
  "upsert_entries entry es = (case conflict_of (se_host entry) (se_slot entry) es of
       Some c \<Rightarrow> Inl (se_slot c)
     | None \<Rightarrow> Inr (sort_entries (filter (\<lambda>e. se_slot e \<noteq> se_slot entry) es @ [entry])))"

definition remove_entries :: "slot_name \<Rightarrow> slots_entry list \<Rightarrow> slots_entry list" where
  "remove_entries slot es = (let nxt = filter (\<lambda>e. se_slot e \<noteq> slot) es in
     if length nxt \<noteq> length es then sort_entries nxt else es)"

definition entry_of :: "slots_entry list \<Rightarrow> slot_name \<Rightarrow> slots_entry option" where
  "entry_of es slot = find (\<lambda>e. se_slot e = slot) es"

text \<open>Slots are distinct, and so are hosts.\<close>

definition entries_ok :: "slots_entry list \<Rightarrow> bool" where
  "entries_ok es \<longleftrightarrow> distinct (map se_slot es) \<and> distinct (map se_host es)"

lemma set_sort_entries [simp]: "set (sort_entries es) = set es"
  by (simp add: sort_entries_def)

lemma distinct_map_sort: "distinct (map f (sort_entries es)) \<longleftrightarrow> distinct (map f es)"
  by (rule mset_eq_imp_distinct_iff) (simp add: sort_entries_def)

lemma entries_ok_sort [simp]: "entries_ok (sort_entries es) \<longleftrightarrow> entries_ok es"
  by (simp add: entries_ok_def distinct_map_sort)

lemma entries_ok_filter: "entries_ok es \<Longrightarrow> entries_ok (filter P es)"
  by (simp add: entries_ok_def distinct_map_filter)

lemma conflict_None:
  "conflict_of host slot es = None \<longleftrightarrow> (\<forall>e \<in> set es. se_host e = host \<longrightarrow> se_slot e = slot)"
  by (auto simp: conflict_of_def find_None_iff)

lemma conflict_Some:
  "conflict_of host slot es = Some c \<Longrightarrow> c \<in> set es \<and> se_host c = host \<and> se_slot c \<noteq> slot"
  by (auto simp: conflict_of_def find_Some_iff)

lemma entry_of_Some:
  assumes "entries_ok es"
  shows "entry_of es slot = Some e \<longleftrightarrow> e \<in> set es \<and> se_slot e = slot"
proof
  show "e \<in> set es \<and> se_slot e = slot" if "entry_of es slot = Some e"
    using that by (auto simp: entry_of_def find_Some_iff)
next
  assume e: "e \<in> set es \<and> se_slot e = slot"
  then obtain e' where e': "entry_of es slot = Some e'"
    by (cases "entry_of es slot") (auto simp: entry_of_def find_None_iff)
  then have "e' \<in> set es" "se_slot e' = slot"
    by (auto simp: entry_of_def find_Some_iff)
  with e assms have "e' = e"
    by (auto simp: entries_ok_def distinct_map inj_on_def)
  with e' show "entry_of es slot = Some e" by simp
qed

lemma entries_ok_upsert:
  assumes ok: "entries_ok es" and u: "upsert_entries entry es = Inr es'"
  shows "entries_ok es'" and "set es' = insert entry {e \<in> set es. se_slot e \<noteq> se_slot entry}"
proof -
  let ?rest = "filter (\<lambda>e. se_slot e \<noteq> se_slot entry) es"
  have es': "es' = sort_entries (?rest @ [entry])"
    and c: "\<forall>e \<in> set es. se_host e = se_host entry \<longrightarrow> se_slot e = se_slot entry"
    using u by (auto simp: upsert_entries_def conflict_None split: option.splits)
  then show "set es' = insert entry {e \<in> set es. se_slot e \<noteq> se_slot entry}" by auto
  have "entries_ok (?rest @ [entry])"
    using entries_ok_filter [OF ok] c by (auto simp: entries_ok_def)
  then show "entries_ok es'" by (simp add: es')
qed

lemma remove_entries_set: "set (remove_entries slot es) = {e \<in> set es. se_slot e \<noteq> slot}"
proof (cases "length (filter (\<lambda>e. se_slot e \<noteq> slot) es) = length es")
  case True
  have "se_slot e \<noteq> slot" if "e \<in> set es" for e
    using that True length_filter_less [of e es "\<lambda>e. se_slot e \<noteq> slot"] by auto
  moreover have "remove_entries slot es = es"
    using True by (simp add: remove_entries_def Let_def)
  ultimately show ?thesis by auto
next
  case False
  then show ?thesis by (simp add: remove_entries_def Let_def)
qed

lemma entries_ok_remove: "entries_ok es \<Longrightarrow> entries_ok (remove_entries slot es)"
  by (simp add: remove_entries_def Let_def entries_ok_filter)

text \<open>
  The contract of the table: at most one entry per slot and per host, an upsert that is refused names
  another holder of the host, one that is not replaces the slot's entry and no other, and a removal
  takes the slot's entry and no other.
\<close>

locale slots_table =
  fixes ok :: "'t \<Rightarrow> bool"
    and lookup :: "'t \<Rightarrow> slot_name \<Rightarrow> slots_entry option"
    and upsert :: "slots_entry \<Rightarrow> 't \<Rightarrow> slot_name + 't"
    and remove :: "slot_name \<Rightarrow> 't \<Rightarrow> 't"
  assumes lookup_slot: "ok t \<Longrightarrow> lookup t slot = Some e \<Longrightarrow> se_slot e = slot"
    and hosts_unique: "ok t \<Longrightarrow> lookup t s1 = Some e1 \<Longrightarrow> lookup t s2 = Some e2 \<Longrightarrow> se_host e1 = se_host e2 \<Longrightarrow> s1 = s2"
    and upsert_ok: "ok t \<Longrightarrow> upsert e t = Inr t' \<Longrightarrow>
        ok t' \<and> lookup t' slot = (if slot = se_slot e then Some e else lookup t slot)"
    and upsert_conflict: "ok t \<Longrightarrow> upsert e t = Inl holder \<Longrightarrow>
        holder \<noteq> se_slot e \<and> (\<exists>e'. lookup t holder = Some e' \<and> se_host e' = se_host e)"
    and remove_ok: "ok t \<Longrightarrow> ok (remove slot t) \<and> lookup (remove slot t) slot' = (if slot' = slot then None else lookup t slot')"
begin

text \<open>A host freed by its holder can be taken by another slot, and only then.\<close>

lemma move_host:
  assumes "ok t" "lookup t s1 = Some e1" "s1 \<noteq> s2" "e2 = \<lparr>se_host = se_host e1, se_slot = s2, se_argon2idHash = h\<rparr>"
  shows "(\<exists>holder. upsert e2 t = Inl holder) \<and> (\<exists>t'. upsert e2 (remove s1 t) = Inr t' \<and> lookup t' s2 = Some e2 \<and> lookup t' s1 = None)"
proof
  have e2: "se_host e2 = se_host e1" "se_slot e2 = s2" by (simp_all add: assms(4))
  have False if u: "upsert e2 t = Inr t'" for t'
  proof -
    have "ok t'" "lookup t' s1 = Some e1" "lookup t' s2 = Some e2"
      using upsert_ok [OF assms(1) u, of s1] upsert_ok [OF assms(1) u, of s2] assms(2,3) e2(2) by simp_all
    from hosts_unique [OF this] e2(1) assms(3) show False by simp
  qed
  then show "\<exists>holder. upsert e2 t = Inl holder" by (cases "upsert e2 t") auto
  have r: "ok (remove s1 t)" "lookup (remove s1 t) s1 = None"
    using remove_ok [OF assms(1), of s1 s1] by simp_all
  have False if u: "upsert e2 (remove s1 t) = Inl holder" for holder
  proof -
    obtain e' where e': "lookup (remove s1 t) holder = Some e'" "se_host e' = se_host e1"
      using upsert_conflict [OF r(1) u] e2(1) by auto
    then have "holder \<noteq> s1" using r(2) by auto
    then have "lookup t holder = Some e'" using remove_ok [OF assms(1), of s1 holder] e'(1) by simp
    from hosts_unique [OF assms(1) this assms(2) e'(2)] \<open>holder \<noteq> s1\<close> show False by simp
  qed
  then obtain t' where t': "upsert e2 (remove s1 t) = Inr t'" by (cases "upsert e2 (remove s1 t)") auto
  have "lookup t' s2 = Some e2" "lookup t' s1 = None"
    using upsert_ok [OF r(1) t', of s2] upsert_ok [OF r(1) t', of s1] e2(2) r(2) assms(3) by simp_all
  with t' show "\<exists>t'. upsert e2 (remove s1 t) = Inr t' \<and> lookup t' s2 = Some e2 \<and> lookup t' s1 = None" by blast
qed

end

interpretation st: slots_table entries_ok entry_of upsert_entries remove_entries
proof unfold_locales
  fix t slot e assume "entries_ok t" "entry_of t slot = Some e"
  then show "se_slot e = slot" by (simp add: entry_of_Some)
next
  fix t s1 e1 s2 e2
  assume "entries_ok t" "entry_of t s1 = Some e1" "entry_of t s2 = Some e2" "se_host e1 = se_host e2"
  then show "s1 = s2" by (auto simp: entry_of_Some) (auto simp: entries_ok_def distinct_map inj_on_def)
next
  fix t e t' slot assume ok: "entries_ok t" "upsert_entries e t = Inr t'"
  note u = entries_ok_upsert [OF ok]
  have "entry_of t' slot = Some x \<longleftrightarrow> (if slot = se_slot e then Some e else entry_of t slot) = Some x" for x
    unfolding entry_of_Some [OF u(1)] u(2) by (auto simp: entry_of_Some [OF ok(1)])
  with u(1) show "entries_ok t' \<and> entry_of t' slot = (if slot = se_slot e then Some e else entry_of t slot)"
    by (metis option.exhaust)
next
  fix t e holder assume ok: "entries_ok t" and "upsert_entries e t = Inl holder"
  then obtain c where "conflict_of (se_host e) (se_slot e) t = Some c" "holder = se_slot c"
    by (auto simp: upsert_entries_def split: option.splits)
  with conflict_Some [of "se_host e" "se_slot e" t c]
  show "holder \<noteq> se_slot e \<and> (\<exists>e'. entry_of t holder = Some e' \<and> se_host e' = se_host e)"
    by (auto simp: entry_of_Some [OF ok])
next
  fix t slot slot' assume ok: "entries_ok t"
  have "entry_of (remove_entries slot t) slot' = Some x \<longleftrightarrow> (if slot' = slot then None else entry_of t slot') = Some x" for x
    unfolding entry_of_Some [OF entries_ok_remove [OF ok]] remove_entries_set by (auto simp: entry_of_Some [OF ok])
  then show "entries_ok (remove_entries slot t) \<and>
      entry_of (remove_entries slot t) slot' = (if slot' = slot then None else entry_of t slot')"
    using entries_ok_remove [OF ok] by (metis option.exhaust)
qed

section \<open>The slots file\<close>

definition quiet_deps :: "'w broker_deps \<Rightarrow> 'w broker_deps" where
  "quiet_deps deps = deps\<lparr>bd_others := (\<lambda>_ es. es)\<rparr>"

definition put_entries :: "slots_entry list \<Rightarrow> 'w broker \<Rightarrow> 'w broker" where
  "put_entries es s = s\<lparr>bk_entries := es\<rparr>"

definition readEntries :: "'w broker_deps \<Rightarrow> slot_name \<Rightarrow> ('w, slots_entry list) bprog" where
  "readEntries deps slot = disk_read deps slot bk_entries"

definition writeEntries :: "'w broker_deps \<Rightarrow> slot_name \<Rightarrow> slots_entry list \<Rightarrow> ('w, unit) bprog" where
  "writeEntries deps slot es = disk_write (quiet_deps deps) slot (put_entries es)"

definition upsertSlotEntry :: "'w broker_deps \<Rightarrow> slots_entry \<Rightarrow> ('w, unit) bprog" where
  "upsertSlotEntry deps entry =
     bindE (readEntries deps (se_slot entry)) (\<lambda>es. case upsert_entries entry es of
       Inl holder \<Rightarrow> throwE (HostConflictError (se_host entry) holder)
     | Inr nxt \<Rightarrow> writeEntries deps (se_slot entry) nxt)"

definition hostHeldByAnotherSlot :: "'w broker_deps \<Rightarrow> string \<Rightarrow> slot_name \<Rightarrow> ('w, slot_name option) bprog" where
  "hostHeldByAnotherSlot deps host slot =
     bindE (readEntries deps slot) (\<lambda>es. returnE (map_option se_slot (conflict_of host slot es)))"

definition hostOfSlotEntry :: "'w broker_deps \<Rightarrow> slot_name \<Rightarrow> ('w, string option) bprog" where
  "hostOfSlotEntry deps slot = bindE (readEntries deps slot) (\<lambda>es. returnE (map_option se_host (entry_of es slot)))"

definition removeSlotEntry :: "'w broker_deps \<Rightarrow> slot_name \<Rightarrow> ('w, unit) bprog" where
  "removeSlotEntry deps slot =
     bindE (readEntries deps slot) (\<lambda>es.
       let nxt = filter (\<lambda>e. se_slot e \<noteq> slot) es in
       whenE (length nxt \<noteq> length es) (writeEntries deps slot (sort_entries nxt)))"

section \<open>Lease identifiers\<close>

fun encodeBigIntBase32 :: "nat \<Rightarrow> nat \<Rightarrow> string" where
  "encodeBigIntBase32 v 0 = []"
| "encodeBigIntBase32 v (Suc chars) = encodeBigIntBase32 (v div 32) chars @ [crockford ! (v mod 32)]"

definition bytes_value :: "nat list \<Rightarrow> nat" where
  "bytes_value bs = foldl (\<lambda>v b. v * 256 + b) 0 bs"

text \<open>A negative time leaves the alphabet, and the validation throws.\<close>

definition generateLeaseId :: "int \<Rightarrow> nat list \<Rightarrow> field_error + lease_id" where
  "generateLeaseId nowMs randomBytes =
     (if nowMs < 0 then Inl (FieldValidationError ''lease'')
      else validateLeaseId (Some (JString (encodeBigIntBase32 (nat nowMs) 10 @
        encodeBigIntBase32 (bytes_value randomBytes) 16))) ''lease'')"

lemma crockford_length: "length crockford = 32"
  by (simp add: crockford_def)

lemma base32_form: "length (encodeBigIntBase32 v k) = k \<and> all_in crockford (encodeBigIntBase32 v k)"
proof (induction k arbitrary: v)
  case (Suc k)
  have "crockford ! (v mod 32) \<in> set crockford"
    by (rule nth_mem) (simp add: crockford_length)
  with Suc show ?case by simp
qed simp

lemma crockford_inj: "i < 32 \<Longrightarrow> j < 32 \<Longrightarrow> crockford ! i = crockford ! j \<Longrightarrow> i = j"
proof -
  have "distinct crockford" by (simp add: crockford_def)
  then show "i < 32 \<Longrightarrow> j < 32 \<Longrightarrow> crockford ! i = crockford ! j \<Longrightarrow> i = j"
    by (simp add: nth_eq_iff_index_eq crockford_length)
qed

lemma base32_inj:
  "v < 32 ^ k \<Longrightarrow> w < 32 ^ k \<Longrightarrow> encodeBigIntBase32 v k = encodeBigIntBase32 w k \<Longrightarrow> v = w"
proof (induction k arbitrary: v w)
  case (Suc k)
  then have "v div 32 < 32 ^ k" "w div 32 < 32 ^ k" by (auto simp: less_mult_imp_div_less mult.commute)
  with Suc have "v div 32 = w div 32" "crockford ! (v mod 32) = crockford ! (w mod 32)" by auto
  moreover from this(2) have "v mod 32 = w mod 32" by (intro crockford_inj) simp_all
  ultimately show ?case by (metis div_mult_mod_eq)
qed simp

lemma bytes_value_bound:
  "list_all (\<lambda>b. b < 256) bs \<Longrightarrow> foldl (\<lambda>v b. v * 256 + b) n bs < (n + 1) * (256 :: nat) ^ length bs"
proof (induction bs arbitrary: n)
  case (Cons b bs)
  then have "foldl (\<lambda>v b. v * 256 + b) (n * 256 + b) bs < (n * 256 + b + 1) * 256 ^ length bs" by simp
  also have "\<dots> \<le> ((n + 1) * 256) * 256 ^ length bs"
    using Cons.prems by (intro mult_right_mono) auto
  finally show ?case by (simp add: algebra_simps)
qed simp

lemma base32_first:
  "v < 8 * 32 ^ k \<Longrightarrow> hd (encodeBigIntBase32 v (Suc k)) \<in> set ''01234567''"
proof (induction k arbitrary: v)
  case 0
  then have "v \<in> {0, 1, 2, 3, 4, 5, 6, 7}" by auto
  then show ?case by (auto simp: crockford_def)
next
  case (Suc k)
  have "encodeBigIntBase32 (v div 32) (Suc k) \<noteq> []"
    using base32_form [of "v div 32" "Suc k"] by (metis length_0_conv nat.distinct(1))
  then have "hd (encodeBigIntBase32 v (Suc (Suc k))) = hd (encodeBigIntBase32 (v div 32) (Suc k))"
    by (subst encodeBigIntBase32.simps) (simp add: hd_append)
  moreover have "v div 32 < 8 * 32 ^ k" using Suc.prems by (simp add: less_mult_imp_div_less mult.commute mult.left_commute)
  ultimately show ?case using Suc.IH by metis
qed

section \<open>Lease records\<close>

definition put_lease :: "slot_name \<Rightarrow> lease_content option \<Rightarrow> 'w broker \<Rightarrow> 'w broker" where
  "put_lease slot l s = s\<lparr>bk_leases := (bk_leases s)(slot := l)\<rparr>"

text \<open>Anything but a well-formed record that carries \<open>hashId\<close> is no lease to keep.\<close>

definition tiedLeaseOf :: "'w broker_deps \<Rightarrow> slot_name \<Rightarrow> hash_id \<Rightarrow> ('w, lease_id option) bprog" where
  "tiedLeaseOf deps slot hashId =
     catchE (bindE (disk_read deps slot (\<lambda>s. bk_leases s slot)) (\<lambda>file.
       returnE (case file of
           Some (Some rec) \<Rightarrow> (if lr_hashId rec = hashId then Some (lr_lease rec) else None)
         | _ \<Rightarrow> None)))
       (\<lambda>_. returnE None)"

definition writeLeaseAndHash ::
  "'w broker_deps \<Rightarrow> string \<Rightarrow> slot_name \<Rightarrow> string \<Rightarrow> bool \<Rightarrow> ('w, lease_id \<times> hash_id) bprog" where
  "writeLeaseAndHash deps host slot argon2idHash keepTiedLease =
     (let hashId = hashIdOf argon2idHash in
      thenE (upsertSlotEntry deps \<lparr>se_host = host, se_slot = slot, se_argon2idHash = argon2idHash\<rparr>)
     (bindE (if keepTiedLease then tiedLeaseOf deps slot hashId else returnE None) (\<lambda>kept.
      bindE (case kept of
          Some lease \<Rightarrow> returnE lease
        | None \<Rightarrow> bindE (getE (\<lambda>s. generateLeaseId (bd_now deps (bk_w s)) (bd_random10 deps (bk_w s)))) (\<lambda>r.
            case r of Inl _ \<Rightarrow> throwE (BrokerError (JsError ''lease'')) | Inr lease \<Rightarrow> returnE lease)) (\<lambda>lease.
      thenE (disk_write deps slot (put_lease slot (Some (Some \<lparr>lr_slot = slot, lr_lease = lease, lr_hashId = hashId\<rparr>))))
     (returnE (lease, hashId))))))"

definition clearLeaseAndHash :: "'w broker_deps \<Rightarrow> slot_name \<Rightarrow> ('w, unit) bprog" where
  "clearLeaseAndHash deps slot = thenE (removeSlotEntry deps slot) (disk_write deps slot (put_lease slot None))"

text \<open>Every lease id the broker mints in the range of a ULID's clock is one the gate accepts.\<close>

lemma generated_lease_valid:
  assumes "0 \<le> now" "now < 2 ^ 48"
  shows "\<exists>lease. generateLeaseId now rnd = Inr lease \<and> valid_lease_id lease"
proof -
  let ?s = "encodeBigIntBase32 (nat now) 10 @ encodeBigIntBase32 (bytes_value rnd) 16"
  have n: "encodeBigIntBase32 (nat now) (Suc 9) \<noteq> []"
    using base32_form [of "nat now" "Suc 9"] by (metis length_0_conv nat.distinct(1))
  have "nat now < 8 * 32 ^ 9" using assms by simp
  from base32_first [OF this] n have "hd ?s \<in> set ''01234567''"
    by (metis hd_append eval_nat_numeral(2,3) semiring_norm(26-28) Suc_numeral numeral_eq_Suc pred_numeral_simps(3))
  then have "valid_lease_id ?s"
    using base32_form [of "nat now" 10] base32_form [of "bytes_value rnd" 16] by (simp add: valid_lease_id_def)
  with assms show ?thesis by (simp add: generateLeaseId_def validateLeaseId_def validate_string_def)
qed

text \<open>Different random bytes or different milliseconds give different leases.\<close>

lemma generated_leases_differ:
  assumes "generateLeaseId now1 r1 = Inr lease" "generateLeaseId now2 r2 = Inr lease"
    and "now1 < 2 ^ 48" "now2 < 2 ^ 48" "list_all (\<lambda>b. b < 256) r1" "list_all (\<lambda>b. b < 256) r2"
    "length r1 = 10" "length r2 = 10"
  shows "now1 = now2 \<and> bytes_value r1 = bytes_value r2"
proof -
  have pos: "0 \<le> now1" "0 \<le> now2" using assms(1,2) by (auto simp: generateLeaseId_def split: if_splits)
  with assms(1,2) have "encodeBigIntBase32 (nat now1) 10 @ encodeBigIntBase32 (bytes_value r1) 16 =
      encodeBigIntBase32 (nat now2) 10 @ encodeBigIntBase32 (bytes_value r2) 16"
    by (auto simp: generateLeaseId_def validateLeaseId_def validate_string_def split: if_splits)
  then have e: "encodeBigIntBase32 (nat now1) 10 = encodeBigIntBase32 (nat now2) 10"
      "encodeBigIntBase32 (bytes_value r1) 16 = encodeBigIntBase32 (bytes_value r2) 16"
    using base32_form by (metis append_eq_append_conv)+
  have "nat now1 < 32 ^ 10" "nat now2 < 32 ^ 10" using pos assms(3,4) by simp_all
  from base32_inj [OF this e(1)] have "now1 = now2" using pos by simp
  moreover have "bytes_value r1 < 32 ^ 16" "bytes_value r2 < 32 ^ 16"
    using bytes_value_bound [OF assms(5), of 0] bytes_value_bound [OF assms(6), of 0] assms(7,8)
    by (simp_all add: bytes_value_def)
  then have "bytes_value r1 = bytes_value r2" using base32_inj e(2) by blast
  ultimately show ?thesis by simp
qed

end
