(* ===== verification/Broker_Calculus.thy ===== *)
theory Broker_Calculus
  imports Broker_Slots_File
begin

text \<open>
  A calculus for the broker's handlers.  A handler for \<open>slot\<close> reads and writes only that slot's files,
  its entry of the slots file, and its lock: its \<open>view\<close>.  \<open>vc slot m Q E C v\<close> says that from every
  state with view \<open>v\<close>, whatever the faults, the outside and the other slots do, \<open>m\<close> ends in a view that
  satisfies \<open>Q\<close> on a value, \<open>E\<close> on a throw and \<open>C\<close> on the death of the process.  The rules in \<open>vcg\<close>
  compute sufficient conditions; every crash point is the end of some execution, so a condition \<open>C\<close>
  holds at all of them.
\<close>

named_theorems vcg \<open>verification conditions of the broker's operations\<close>

record slot_view =
  sv_file :: "slot_state option"
  sv_entries :: "slots_entry list"
  sv_lease :: "lease_content option"
  sv_drained :: "colour \<Rightarrow> bool"
  sv_locked :: bool
  sv_trace :: "broker_event list"

definition view :: "slot_name \<Rightarrow> 'w broker \<Rightarrow> slot_view" where
  "view slot s = \<lparr>sv_file = bk_states s slot, sv_entries = own_entries slot (bk_entries s),
     sv_lease = bk_leases s slot, sv_drained = bk_drained s slot, sv_locked = (slot \<in> set (bk_locks s)),
     sv_trace = bk_trace s\<rparr>"

text \<open>The state the file stands for: an absent file is a free slot.\<close>

definition sv_state :: "slot_view \<Rightarrow> slot_state" where
  "sv_state v = (case sv_file v of None \<Rightarrow> FREE_STATE | Some st \<Rightarrow> st)"

lemma sv_state_simps [simp]:
  "sv_state (v\<lparr>sv_file := Some st\<rparr>) = st" "sv_state (v\<lparr>sv_entries := es\<rparr>) = sv_state v"
  "sv_state (v\<lparr>sv_lease := l\<rparr>) = sv_state v" "sv_state (v\<lparr>sv_drained := d\<rparr>) = sv_state v"
  "sv_state (v\<lparr>sv_locked := b\<rparr>) = sv_state v" "sv_state (v\<lparr>sv_trace := t\<rparr>) = sv_state v"
  by (simp_all add: sv_state_def)

definition vc :: "slot_name \<Rightarrow> ('w, 'a) bprog \<Rightarrow> ('a \<Rightarrow> slot_view \<Rightarrow> bool) \<Rightarrow> (broker_exn \<Rightarrow> slot_view \<Rightarrow> bool)
    \<Rightarrow> (slot_view \<Rightarrow> bool) \<Rightarrow> slot_view \<Rightarrow> bool" where
  "vc slot m Q E C v \<longleftrightarrow> (\<forall>s. view slot s = v \<longrightarrow>
     wp m (\<lambda>x s'. Q x (view slot s')) (\<lambda>e s'. E e (view slot s')) (\<lambda>s'. C (view slot s')) s)"

lemma vcI:
  "(\<And>s. view slot s = v \<Longrightarrow> wp m (\<lambda>x s'. Q x (view slot s')) (\<lambda>e s'. E e (view slot s')) (\<lambda>s'. C (view slot s')) s)
     \<Longrightarrow> vc slot m Q E C v"
  by (simp add: vc_def)

lemma vcD:
  "vc slot m Q E C (view slot s) \<Longrightarrow>
     wp m (\<lambda>x s'. Q x (view slot s')) (\<lambda>e s'. E e (view slot s')) (\<lambda>s'. C (view slot s')) s"
  by (simp add: vc_def)

lemma vc_Ok: "vc slot m Q E C (view slot s) \<Longrightarrow> m s = (Ok x, s') \<Longrightarrow> Q x (view slot s')"
  and vc_Throw: "vc slot m Q E C (view slot s) \<Longrightarrow> m s = (Throw e, s') \<Longrightarrow> E e (view slot s')"
  and vc_Crash: "vc slot m Q E C (view slot s) \<Longrightarrow> m s = (Crash, s') \<Longrightarrow> C (view slot s')"
  by (auto dest!: vcD simp: wp_def)

text \<open>A condition that holds wherever the computation ends.\<close>

lemma vc_always:
  assumes "vc slot m (\<lambda>_. P) (\<lambda>_. P) P (view slot s)" shows "P (view slot (snd (m s)))"
  using vcD [OF assms] by (auto simp: wp_def split: prod.splits outcome.splits)

section \<open>Structural rules\<close>

lemma vc_returnE [vcg]: "Q x v \<Longrightarrow> vc slot (returnE x) Q E C v"
  and vc_throwE [vcg]: "E e v \<Longrightarrow> vc slot (throwE e) Q E C v"
  by (simp_all add: vc_def)

lemma vc_bindE [vcg]: "vc slot m (\<lambda>x. vc slot (f x) Q E C) E C v \<Longrightarrow> vc slot (bindE m f) Q E C v"
  unfolding vc_def wp_bindE by (blast intro: wp_mono)

lemma vc_thenE [vcg]: "vc slot m (\<lambda>_. vc slot k Q E C) E C v \<Longrightarrow> vc slot (thenE m k) Q E C v"
  unfolding thenE_def by (rule vc_bindE)

lemma vc_tryE [vcg]:
  "vc slot m (\<lambda>x. vc slot (k x) Q E C) (\<lambda>e. vc slot (h e) Q E C) C v \<Longrightarrow> vc slot (tryE m k h) Q E C v"
  unfolding vc_def wp_tryE by (blast intro: wp_mono)

lemma vc_catchE [vcg]:
  "vc slot m Q (\<lambda>e. vc slot (h e) Q E C) C v \<Longrightarrow> vc slot (catchE m h) Q E C v"
  unfolding vc_def wp_catchE by (blast intro: wp_mono)

lemma vc_finallyE [vcg]:
  "vc slot m (\<lambda>x. vc slot fin (\<lambda>_. Q x) E C) (\<lambda>e. vc slot fin (\<lambda>_. E e) E C) C v \<Longrightarrow>
     vc slot (finallyE m fin) Q E C v"
  unfolding vc_def wp_finallyE by (blast intro: wp_mono)

lemma vc_whenE [vcg]: "(b \<Longrightarrow> vc slot m Q E C v) \<Longrightarrow> (\<not> b \<Longrightarrow> Q () v) \<Longrightarrow> vc slot (whenE b m) Q E C v"
  by (simp add: whenE_def vc_returnE)

lemma vc_if [vcg]:
  "(b \<Longrightarrow> vc slot m Q E C v) \<Longrightarrow> (\<not> b \<Longrightarrow> vc slot n Q E C v) \<Longrightarrow> vc slot (if b then m else n) Q E C v"
  by simp

lemma vc_case_option [vcg]:
  "(x = None \<Longrightarrow> vc slot m Q E C v) \<Longrightarrow> (\<And>y. x = Some y \<Longrightarrow> vc slot (n y) Q E C v) \<Longrightarrow>
     vc slot (case x of None \<Rightarrow> m | Some y \<Rightarrow> n y) Q E C v"
  by (cases x) auto

lemma vc_case_sum [vcg]:
  "(\<And>y. x = Inl y \<Longrightarrow> vc slot (m y) Q E C v) \<Longrightarrow> (\<And>y. x = Inr y \<Longrightarrow> vc slot (n y) Q E C v) \<Longrightarrow>
     vc slot (case x of Inl y \<Rightarrow> m y | Inr y \<Rightarrow> n y) Q E C v"
  by (cases x) auto

lemma vc_mono:
  assumes "vc slot m Q E C v" "\<And>x v. Q x v \<Longrightarrow> Q' x v" "\<And>e v. E e v \<Longrightarrow> E' e v" "\<And>v. C v \<Longrightarrow> C' v"
  shows "vc slot m Q' E' C' v"
  using assms(1) by (auto simp: vc_def wp_def intro: assms(2-4) split: prod.splits outcome.splits)

lemma vc_conj:
  "vc slot m Q E C v \<Longrightarrow> vc slot m Q' E' C' v \<Longrightarrow>
     vc slot m (\<lambda>x v. Q x v \<and> Q' x v) (\<lambda>e v. E e v \<and> E' e v) (\<lambda>v. C v \<and> C' v) v"
  by (auto simp: vc_def wp_def split: prod.splits outcome.splits)

section \<open>Rules for the effects\<close>

lemma view_settle [simp]: "view slot (settle deps slot w s) = view slot s"
  by (simp add: view_def settle_def Let_def)

lemma view_fields:
  "bk_states s slot = sv_file (view slot s)" "bk_leases s slot = sv_lease (view slot s)"
  "bk_drained s slot = sv_drained (view slot s)" "own_entries slot (bk_entries s) = sv_entries (view slot s)"
  "(slot \<in> set (bk_locks s)) = sv_locked (view slot s)" "state_file slot s = sv_state (view slot s)"
  by (simp_all add: view_def sv_state_def state_file_def)

lemma view_upd:
  "view slot (put_state slot st s) = (view slot s)\<lparr>sv_file := Some st\<rparr>"
  "view slot (put_lease slot l s) = (view slot s)\<lparr>sv_lease := l\<rparr>"
  "view slot (set_flag slot c b s) = (view slot s)\<lparr>sv_drained := (sv_drained (view slot s))(c := b)\<rparr>"
  "view slot (put_entries es s) = (view slot s)\<lparr>sv_entries := own_entries slot es\<rparr>"
  by (simp_all add: view_def put_state_def put_lease_def set_flag_def put_entries_def)

lemma vc_disk_read:
  assumes "\<And>s. view slot s = v \<Longrightarrow> Q (f s) v" "E io_error v" "C v"
  shows "vc slot (disk_read deps slot f) Q E C v"
  using assms by (auto simp: vc_def wp_def disk_read_def Let_def split: prod.split fate.split)

lemma vc_disk_write:
  assumes "\<And>s. view slot s = v \<Longrightarrow> view slot (upd s) = v'"
    and "Q () v'" "E io_error v" "E io_error v'" "C v" "C v'"
  shows "vc slot (disk_write deps slot upd) Q E C v"
  using assms by (auto simp: vc_def wp_def disk_write_def Let_def split: prod.split fate.split)

lemma vc_outside [vcg]:
  assumes "\<And>x. Q x v" "\<And>e. E (BrokerError e) v" "C v"
  shows "vc slot (outside deps slot m) Q E C v"
  using assms by (auto simp: vc_def wp_def outside_def split: prod.split outcome.split)

lemma vc_mark [vcg]: "Q () (v\<lparr>sv_trace := sv_trace v @ [ev]\<rparr>) \<Longrightarrow> vc slot (mark ev) Q E C v"
  by (auto simp: vc_def mark_def view_def)

lemma vc_slot_call [vcg]:
  assumes "Q () (v\<lparr>sv_trace := sv_trace v @ [Called slot op, Returned slot op]\<rparr>)"
    and "\<And>e. E (BrokerError e) (v\<lparr>sv_trace := sv_trace v @ [Called slot op]\<rparr>)"
    and "C (v\<lparr>sv_trace := sv_trace v @ [Called slot op]\<rparr>)"
  shows "vc slot (slot_call deps slot op m) Q E C v"
  unfolding slot_call_def by (rule vcg | simp add: assms)+

lemma vc_slot_ask [vcg]:
  assumes "\<And>x. Q x (v\<lparr>sv_trace := sv_trace v @ [ev x]\<rparr>)" "\<And>e. E (BrokerError e) v" "C v"
  shows "vc slot (slot_ask deps slot ev m) Q E C v"
  unfolding slot_ask_def by (rule vcg | simp add: assms)+

lemma vc_readSlotState [vcg]:
  assumes "Q (sv_state v) v" "E io_error v" "C v"
  shows "vc slot (readSlotState deps slot) Q E C v"
  unfolding readSlotState_def by (rule vc_disk_read) (use assms in \<open>auto simp: view_fields\<close>)

lemma vc_writeSlotState [vcg]:
  assumes "Q () (v\<lparr>sv_file := Some (carried (sv_state v) st)\<rparr>)" "\<And>e. E (BrokerError e) v"
    and "E io_error (v\<lparr>sv_file := Some (carried (sv_state v) st)\<rparr>)" "C v"
    and "C (v\<lparr>sv_file := Some (carried (sv_state v) st)\<rparr>)"
  shows "vc slot (writeSlotState deps slot st) Q E C v"
  unfolding writeSlotState_def
  by (rule vc_bindE, rule vc_readSlotState, rule vc_if, rule vc_throwE, rule assms,
      rule vc_disk_write [where v' = "v\<lparr>sv_file := Some (carried (sv_state v) st)\<rparr>"])
    (use assms in \<open>auto simp: view_upd io_error_def\<close>)

lemma vc_flag_set [vcg]:
  assumes "Q () (v\<lparr>sv_drained := (sv_drained v)(c := True)\<rparr>)" "E io_error v"
    "E io_error (v\<lparr>sv_drained := (sv_drained v)(c := True)\<rparr>)" "C v" "C (v\<lparr>sv_drained := (sv_drained v)(c := True)\<rparr>)"
  shows "vc slot (flag_set deps slot c) Q E C v"
  unfolding flag_set_def by (rule vc_disk_write [where v' = "v\<lparr>sv_drained := (sv_drained v)(c := True)\<rparr>"]) (use assms in \<open>auto simp: view_upd\<close>)

lemma vc_flag_clear [vcg]:
  assumes "Q () (v\<lparr>sv_drained := (sv_drained v)(c := False)\<rparr>)" "E io_error v"
    "E io_error (v\<lparr>sv_drained := (sv_drained v)(c := False)\<rparr>)" "C v" "C (v\<lparr>sv_drained := (sv_drained v)(c := False)\<rparr>)"
  shows "vc slot (flag_clear deps slot c) Q E C v"
  unfolding flag_clear_def by (rule vc_disk_write [where v' = "v\<lparr>sv_drained := (sv_drained v)(c := False)\<rparr>"]) (use assms in \<open>auto simp: view_upd\<close>)

lemma vc_flag_isSet [vcg]:
  assumes "Q (sv_drained v c) (v\<lparr>sv_trace := sv_trace v @ [FlagAnswer slot c (sv_drained v c)]\<rparr>)"
    and "Q True (v\<lparr>sv_trace := sv_trace v @ [FlagAnswer slot c True]\<rparr>)" and "C v"
  shows "vc slot (flag_isSet deps slot c) Q E C v"
  unfolding flag_isSet_def
  by (rule vc_bindE, rule vc_catchE, rule vc_disk_read) (use assms in \<open>auto simp: view_fields intro!: vcg\<close>)

lemma vc_claim [vcg]:
  assumes "sv_locked v \<Longrightarrow> Q False v" "\<not> sv_locked v \<Longrightarrow> Q True (v\<lparr>sv_locked := True\<rparr>)"
  shows "vc slot (claim slot) Q E C v"
  using assms by (auto simp: vc_def claim_def view_def)

lemma vc_release [vcg]: "Q () (v\<lparr>sv_locked := False\<rparr>) \<Longrightarrow> vc slot (release slot) Q E C v"
  by (auto simp: vc_def release_def view_def)

section \<open>Rules for the slots file and the lease\<close>

lemma own_sort: "own_entries slot (sort_entries es) = own_entries slot es"
proof -
  have "sorted (map se_slot (filter (\<lambda>e. se_slot e = slot) es))"
    by (induction es) auto
  then show ?thesis
    by (simp add: own_entries_def sort_entries_def filter_sort sort_key_id_if_sorted)
qed

lemma own_filter: "own_entries slot (filter (\<lambda>e. se_slot e \<noteq> slot) es) = []"
  by (simp add: own_entries_def filter_empty_conv)

lemma find_own: "find (\<lambda>e. se_slot e = slot) es = find (\<lambda>e. se_slot e = slot) (own_entries slot es)"
  by (induction es) (auto simp: own_entries_def)

lemma entry_of_own: "entry_of es slot = (case own_entries slot es of [] \<Rightarrow> None | e # _ \<Rightarrow> Some e)"
proof (cases "own_entries slot es")
  case (Cons e r)
  then have "e \<in> set (own_entries slot es)" by simp
  then have "se_slot e = slot" by (simp add: own_entries_def)
  with Cons show ?thesis by (simp add: entry_of_def find_own [of slot es])
qed (simp add: entry_of_def find_own [of slot es])

lemma vc_readEntries:
  assumes "\<And>es. own_entries slot es = sv_entries v \<Longrightarrow> Q es v" "E io_error v" "C v"
  shows "vc slot (readEntries deps slot) Q E C v"
  unfolding readEntries_def by (rule vc_disk_read) (use assms in \<open>auto simp: view_fields\<close>)

lemma vc_writeEntries:
  assumes "Q () (v\<lparr>sv_entries := own_entries slot es\<rparr>)" "E io_error v"
    "E io_error (v\<lparr>sv_entries := own_entries slot es\<rparr>)" "C v" "C (v\<lparr>sv_entries := own_entries slot es\<rparr>)"
  shows "vc slot (writeEntries deps slot es) Q E C v"
  unfolding writeEntries_def
  by (rule vc_disk_write [where v' = "v\<lparr>sv_entries := own_entries slot es\<rparr>"]) (use assms in \<open>auto simp: view_upd\<close>)

lemma vc_upsertSlotEntry [vcg]:
  assumes "slot = se_slot entry"
    and "Q () (v\<lparr>sv_entries := [entry]\<rparr>)" and "\<And>holder. holder \<noteq> slot \<Longrightarrow> E (HostConflictError (se_host entry) holder) v"
    and "E io_error v" "E io_error (v\<lparr>sv_entries := [entry]\<rparr>)" "C v" "C (v\<lparr>sv_entries := [entry]\<rparr>)"
  shows "vc slot (upsertSlotEntry deps entry) Q E C v"
proof -
  have own: "own_entries slot nxt = [entry]" if "upsert_entries entry es = Inr nxt" for es nxt
  proof -
    have "nxt = sort_entries (filter (\<lambda>e. se_slot e \<noteq> slot) es @ [entry])"
      using that assms(1) by (auto simp: upsert_entries_def split: option.splits)
    then show ?thesis
      using own_filter [of slot es] assms(1) by (simp add: own_sort) (simp add: own_entries_def)
  qed
  have held: "holder \<noteq> slot" if "upsert_entries entry es = Inl holder" for es holder
    using that assms(1) conflict_Some [of "se_host entry" slot es] by (auto simp: upsert_entries_def split: option.splits)
  show ?thesis
    unfolding upsertSlotEntry_def assms(1) [symmetric]
    by (rule vc_bindE, rule vc_readEntries, rule vc_case_sum)
      (use assms in \<open>auto intro!: vc_throwE vc_writeEntries dest: own held\<close>)
qed

lemma vc_hostHeld [vcg]:
  assumes "\<And>r. r \<noteq> Some slot \<Longrightarrow> Q r v" "E io_error v" "C v"
  shows "vc slot (hostHeldByAnotherSlot deps host slot) Q E C v"
proof -
  have "map_option se_slot (conflict_of host slot es) \<noteq> Some slot" for es
    using conflict_Some [of host slot es] by auto
  then show ?thesis
    unfolding hostHeldByAnotherSlot_def
    by (intro vc_bindE vc_readEntries vc_returnE assms)
qed

definition sv_host :: "slot_view \<Rightarrow> string option" where
  "sv_host v = (case sv_entries v of [] \<Rightarrow> None | e # _ \<Rightarrow> Some (se_host e))"

lemma vc_hostOfSlotEntry [vcg]:
  assumes "Q (sv_host v) v" "E io_error v" "C v"
  shows "vc slot (hostOfSlotEntry deps slot) Q E C v"
  unfolding hostOfSlotEntry_def
  by (intro vc_bindE vc_readEntries vc_returnE)
    (use assms in \<open>auto simp: entry_of_own sv_host_def split: list.splits\<close>)

lemma vc_removeSlotEntry [vcg]:
  assumes "Q () (v\<lparr>sv_entries := []\<rparr>)" "E io_error v" "E io_error (v\<lparr>sv_entries := []\<rparr>)" "C v" "C (v\<lparr>sv_entries := []\<rparr>)"
  shows "vc slot (removeSlotEntry deps slot) Q E C v"
proof -
  have keep: "v\<lparr>sv_entries := []\<rparr> = v"
    if "length (filter (\<lambda>e. se_slot e \<noteq> slot) es) = length es" "own_entries slot es = sv_entries v" for es
  proof -
    have "se_slot e \<noteq> slot" if "e \<in> set es" for e
      using that length_filter_less [of e es "\<lambda>e. se_slot e \<noteq> slot"] \<open>length _ = length es\<close> by auto
    then have "own_entries slot es = []" by (auto simp: own_entries_def filter_empty_conv)
    with that(2) show ?thesis by simp
  qed
  show ?thesis
    unfolding removeSlotEntry_def Let_def
    by (rule vc_bindE, rule vc_readEntries, rule vc_whenE)
      (use assms keep in \<open>auto intro!: vc_writeEntries simp: own_sort own_filter\<close>)
qed

lemma vc_put_lease [vcg]:
  assumes "Q () (v\<lparr>sv_lease := l\<rparr>)" "E io_error v" "E io_error (v\<lparr>sv_lease := l\<rparr>)" "C v" "C (v\<lparr>sv_lease := l\<rparr>)"
  shows "vc slot (disk_write deps slot (put_lease slot l)) Q E C v"
  by (rule vc_disk_write [where v' = "v\<lparr>sv_lease := l\<rparr>"]) (use assms in \<open>auto simp: view_upd\<close>)

lemma vc_getE: "(\<And>s. view slot s = v \<Longrightarrow> Q (f s) v) \<Longrightarrow> vc slot (getE f) Q E C v"
  by (auto simp: vc_def)

lemma vc_clearLeaseAndHash [vcg]:
  assumes "Q () (v\<lparr>sv_entries := [], sv_lease := None\<rparr>)"
    and "E io_error v" "E io_error (v\<lparr>sv_entries := []\<rparr>)" "E io_error (v\<lparr>sv_entries := [], sv_lease := None\<rparr>)"
    and "C v" "C (v\<lparr>sv_entries := []\<rparr>)" "C (v\<lparr>sv_entries := [], sv_lease := None\<rparr>)"
  shows "vc slot (clearLeaseAndHash deps slot) Q E C v"
  unfolding clearLeaseAndHash_def by (rule vcg | simp add: assms)+

end
