(* ===== verification/Broker_Handlers.thy ===== *)
theory Broker_Handlers
  imports Broker_Calculus
begin

text \<open>
  The broker's request handlers: \<open>handleReconcile\<close>, \<open>attemptColourSwap\<close>, \<open>attemptStopOldColour\<close>,
  \<open>handleStop\<close>, \<open>handleReset\<close> and \<open>handleStatus\<close> of \<open>src/services/broker/src/app.ts\<close>, with \<open>hostOf.ts\<close>
  and the polling loop of \<open>ghostReadiness.ts\<close>.

  A reply carries its status and the fields the callers act on; the text of an error is a tag.  The
  renderer, the wrapper, the Admin API and the checkers are computations over the world.
\<close>

datatype reply_body =
    PhaseBody phase "colour option" "string option"
  | ErrorBody string
  | StatusBody phase bool
  | NoBody

datatype reply = Reply nat reply_body

definition lift_sum :: "field_error + 'a \<Rightarrow> ('w, 'a) bprog" where
  "lift_sum r = (case r of Inl e \<Rightarrow> throwE (BrokerError (JsError ''field'')) | Inr x \<Rightarrow> returnE x)"

definition hostOf_descriptor :: "descriptor \<Rightarrow> string \<Rightarrow> string" where
  "hostOf_descriptor d demoZone = (case td_hostname d of
       Ours sub \<Rightarrow> sub @ ''.'' @ demoZone
     | Theirs fqdn \<Rightarrow> fqdn)"

section \<open>Waiting for Ghost\<close>

definition isReady :: "'w broker_deps \<Rightarrow> slot_name \<Rightarrow> nat \<Rightarrow> ('w, bool) bprog" where
  "isReady deps slot port = slot_ask deps slot (ReadyAnswer port) (bd_isReady deps port)"

text \<open>
  The loop of \<open>waitUntilReady\<close>.  Without fuel it has not returned yet, and the process can only die;
  \<open>wait_returns\<close> below says how much fuel is enough.
\<close>

definition pollIntervalMs :: nat where
  "pollIntervalMs = 200"

definition sleep :: "'w broker_deps \<Rightarrow> slot_name \<Rightarrow> nat \<Rightarrow> ('w, unit) bprog" where
  "sleep deps slot ms = outside deps slot (modifyE (bd_sleep deps ms))"

fun poll_ready :: "'w broker_deps \<Rightarrow> slot_name \<Rightarrow> nat \<Rightarrow> int \<Rightarrow> nat \<Rightarrow> ('w, bool) bprog" where
  "poll_ready deps slot port deadline 0 = (\<lambda>s. (Crash, s))"
| "poll_ready deps slot port deadline (Suc fuel) =
     bindE (isReady deps slot port) (\<lambda>ready.
     if ready then returnE True
     else bindE (getE (\<lambda>s. bd_now deps (bk_w s))) (\<lambda>now.
       if now \<ge> deadline then returnE False
       else thenE (sleep deps slot pollIntervalMs) (poll_ready deps slot port deadline fuel)))"

definition waitUntilReady :: "'w broker_deps \<Rightarrow> slot_name \<Rightarrow> nat \<Rightarrow> int \<Rightarrow> ('w, bool) bprog" where
  "waitUntilReady deps slot port deadlineMs =
     bindE (getE (\<lambda>s. bd_now deps (bk_w s) + deadlineMs)) (\<lambda>deadline.
       poll_ready deps slot port deadline (bd_fuel deps))"

section \<open>Reconcile\<close>

definition FRESH_COLOUR :: colour where
  "FRESH_COLOUR = A"

definition app_port :: "'w broker_deps \<Rightarrow> slot_name \<Rightarrow> colour \<Rightarrow> nat" where
  "app_port deps slot c = slotPort (bd_appPortBase deps) slot c"

text \<open>Rendering, writing, starting and configuring one colour, common to a fresh deploy and a swap.\<close>

definition deploy_colour :: "'w broker_deps \<Rightarrow> slot_name \<Rightarrow> descriptor \<Rightarrow> colour \<Rightarrow> ('w, unit) bprog" where
  "deploy_colour deps slot d c =
     thenE (slot_call deps slot OpRender (bd_render deps d))
    (thenE (slot_call deps slot OpArtefacts (bd_writeArtefacts deps slot))
    (thenE (slot_call deps slot (OpStart c) (bd_start deps slot c))
    (slot_call deps slot (OpConfigure (app_port deps slot c)) (bd_configure deps (app_port deps slot c) d slot))))"

definition fresh_attempt :: "'w broker_deps \<Rightarrow> slot_name \<Rightarrow> descriptor \<Rightarrow> string \<Rightarrow> string \<Rightarrow> ('w, unit) bprog" where
  "fresh_attempt deps slot d host argon2idHash =
     thenE (flag_set deps slot FRESH_COLOUR)
    (thenE (deploy_colour deps slot d FRESH_COLOUR)
    (thenE (writeLeaseAndHash deps host slot argon2idHash False)
    (flag_clear deps slot FRESH_COLOUR)))"

definition forget :: "'w broker_deps \<Rightarrow> slot_name \<Rightarrow> ('w, unit) bprog" where
  "forget deps slot = (case bd_forget deps of None \<Rightarrow> returnE () | Some f \<Rightarrow> slot_call deps slot OpForget (f slot))"

definition wipe :: "'w broker_deps \<Rightarrow> slot_name \<Rightarrow> ('w, unit) bprog" where
  "wipe deps slot = thenE (forget deps slot) (slot_call deps slot OpReset (bd_reset deps slot))"

definition revoke_and_wipe :: "'w broker_deps \<Rightarrow> slot_name \<Rightarrow> ('w, unit) bprog" where
  "revoke_and_wipe deps slot = thenE (clearLeaseAndHash deps slot) (wipe deps slot)"

text \<open>\<open>HostConflictError\<close> out of the first attempt.\<close>

definition conflict_teardown :: "'w broker_deps \<Rightarrow> slot_name \<Rightarrow> slot_state \<Rightarrow> ('w, reply) bprog" where
  "conflict_teardown deps slot st =
     thenE (writeSlotState deps slot (state_of Resetting (ss_lastHashId st)))
    (tryE (revoke_and_wipe deps slot)
      (\<lambda>_. thenE (writeSlotState deps slot (state_of Free (ss_lastHashId st)))
         (returnE (Reply 409 (ErrorBody ''host conflict''))))
      (\<lambda>_. thenE (writeSlotState deps slot (state_of Error (ss_lastHashId st)))
         (returnE (Reply 503 (PhaseBody Error None None)))))"

text \<open>Any other failure of the first attempt: reset, drain both colours, and try once more.\<close>

definition reset_and_retry :: "'w broker_deps \<Rightarrow> slot_name \<Rightarrow> slot_state \<Rightarrow> descriptor \<Rightarrow> string \<Rightarrow> string
    \<Rightarrow> ('w, unit) bprog" where
  "reset_and_retry deps slot st d host argon2idHash =
     thenE (revoke_and_wipe deps slot)
    (thenE (flag_set deps slot A)
    (thenE (flag_set deps slot B)
    (fresh_attempt deps slot d host argon2idHash)))"

definition running_fresh :: "string \<Rightarrow> hash_id \<Rightarrow> slot_state" where
  "running_fresh hash newHashId =
     (state_of Running (Some newHashId))\<lparr>ss_colour := Some FRESH_COLOUR, ss_descriptorHash := Some hash\<rparr>"

definition finish_fresh :: "'w broker_deps \<Rightarrow> slot_name \<Rightarrow> string \<Rightarrow> hash_id \<Rightarrow> ('w, reply) bprog" where
  "finish_fresh deps slot hash newHashId =
     thenE (writeSlotState deps slot (running_fresh hash newHashId))
       (returnE (Reply 200 (PhaseBody Running (Some FRESH_COLOUR) None)))"

definition fresh_failed :: "'w broker_deps \<Rightarrow> slot_name \<Rightarrow> slot_state \<Rightarrow> descriptor \<Rightarrow> string \<Rightarrow> string \<Rightarrow> string
    \<Rightarrow> hash_id \<Rightarrow> broker_exn \<Rightarrow> ('w, reply) bprog" where
  "fresh_failed deps slot st d host argon2idHash hash newHashId firstErr = (case firstErr of
       HostConflictError _ _ \<Rightarrow> conflict_teardown deps slot st
     | BrokerError _ \<Rightarrow>
         thenE (writeSlotState deps slot (state_of Resetting (ss_lastHashId st)))
        (tryE (reset_and_retry deps slot st d host argon2idHash)
          (\<lambda>_. finish_fresh deps slot hash newHashId)
          (\<lambda>_. thenE (writeSlotState deps slot (state_of Error (ss_lastHashId st)))
             (returnE (Reply 503 (PhaseBody Error None None))))))"

definition fresh_deploy :: "'w broker_deps \<Rightarrow> slot_name \<Rightarrow> slot_state \<Rightarrow> descriptor \<Rightarrow> string \<Rightarrow> string \<Rightarrow> string
    \<Rightarrow> hash_id \<Rightarrow> ('w, reply) bprog" where
  "fresh_deploy deps slot st d host argon2idHash hash newHashId =
     (if resetRefusal st \<noteq> None then returnE (Reply 409 (ErrorBody ''evidence''))
      else if \<not> hashRotated st newHashId then returnE (Reply 409 (ErrorBody ''unrotated hash''))
      else bindE (hostHeldByAnotherSlot deps host slot) (\<lambda>heldBy.
        if heldBy \<noteq> None then returnE (Reply 409 (ErrorBody ''host held''))
        else thenE (writeSlotState deps slot (state_of Preparing (ss_lastHashId st)))
          (tryE (fresh_attempt deps slot d host argon2idHash)
            (\<lambda>_. finish_fresh deps slot hash newHashId)
            (fresh_failed deps slot st d host argon2idHash hash newHashId))))"

section \<open>Colour swap\<close>

definition pre_swap_state :: "slot_state \<Rightarrow> colour \<Rightarrow> slot_state" where
  "pre_swap_state st live = (state_of Running (ss_lastHashId st))
     \<lparr>ss_colour := Some live, ss_descriptorHash := ss_descriptorHash st\<rparr>"

definition swap_marker :: "slot_state \<Rightarrow> colour \<Rightarrow> string \<Rightarrow> hash_id \<Rightarrow> slot_state" where
  "swap_marker st live hash newHashId = (state_of Swapping (ss_lastHashId st))
     \<lparr>ss_colour := Some live, ss_descriptorHash := ss_descriptorHash st, ss_swapTarget := Some (otherColour live),
      ss_swapDescriptorHash := Some hash, ss_swapHashId := Some newHashId\<rparr>"

definition deploy_target :: "'w broker_deps \<Rightarrow> slot_name \<Rightarrow> descriptor \<Rightarrow> string \<Rightarrow> string \<Rightarrow> colour \<Rightarrow> ('w, unit) bprog" where
  "deploy_target deps slot d host argon2idHash tgt =
     thenE (deploy_colour deps slot d tgt)
    (bindE (waitUntilReady deps slot (app_port deps slot tgt) (bd_readyPollTimeoutMs deps)) (\<lambda>ready.
     if \<not> ready then throwE (BrokerError (JsError ''never answered 200''))
     else thenE (writeLeaseAndHash deps host slot argon2idHash True)
       (flag_clear deps slot tgt)))"

definition finish_swap :: "'w broker_deps \<Rightarrow> slot_name \<Rightarrow> colour \<Rightarrow> string \<Rightarrow> hash_id \<Rightarrow> ('w, reply) bprog" where
  "finish_swap deps slot tgt hash newHashId =
     bindE (slot_ask deps slot (TrafficAnswer slot) (bd_readCount deps slot)) (\<lambda>trafficBaseline.
     thenE (writeSlotState deps slot ((state_of Running (Some newHashId))
        \<lparr>ss_colour := Some tgt, ss_descriptorHash := Some hash, ss_trafficBaseline := Some trafficBaseline\<rparr>))
     (returnE (Reply 200 (PhaseBody Running (Some tgt) None))))"

definition move_traffic :: "'w broker_deps \<Rightarrow> slot_name \<Rightarrow> slot_state \<Rightarrow> colour \<Rightarrow> string \<Rightarrow> hash_id \<Rightarrow> ('w, reply) bprog" where
  "move_traffic deps slot st live hash newHashId =
     (let tgt = otherColour live in
      if tgt = B then
        bindE (isReady deps slot (app_port deps slot tgt)) (\<lambda>stillReady.
        if \<not> stillReady then
          thenE (writeSlotState deps slot (pre_swap_state st live))
            (returnE (Reply 503 (PhaseBody Running (Some live) (Some ''other colour unhealthy''))))
        else thenE (flag_set deps slot live) (finish_swap deps slot tgt hash newHashId))
      else finish_swap deps slot tgt hash newHashId)"

definition attemptColourSwap :: "'w broker_deps \<Rightarrow> slot_name \<Rightarrow> slot_state \<Rightarrow> colour \<Rightarrow> descriptor \<Rightarrow> string \<Rightarrow> string
    \<Rightarrow> string \<Rightarrow> hash_id \<Rightarrow> ('w, reply) bprog" where
  "attemptColourSwap deps slot st live d host argon2idHash hash newHashId =
     bindE (hostHeldByAnotherSlot deps host slot) (\<lambda>heldBy.
     if heldBy \<noteq> None then returnE (Reply 409 (ErrorBody ''host held''))
     else bindE (hostOfSlotEntry deps slot) (\<lambda>runningHost.
     if runningHost \<noteq> Some host then returnE (Reply 409 (ErrorBody ''different tenancy''))
     else thenE (flag_set deps slot (otherColour live))
         (thenE (writeSlotState deps slot (swap_marker st live hash newHashId))
         (tryE (deploy_target deps slot d host argon2idHash (otherColour live))
           (\<lambda>_. move_traffic deps slot st live hash newHashId)
           (\<lambda>err. thenE (writeSlotState deps slot (pre_swap_state st live))
              (returnE (Reply 503 (PhaseBody Running (Some live) (Some ''swap failed'')))))))))"

section \<open>The reconcile handler\<close>

definition reconcile_locked :: "'w broker_deps \<Rightarrow> slot_name \<Rightarrow> descriptor \<Rightarrow> string \<Rightarrow> ('w, reply) bprog" where
  "reconcile_locked deps slot d argon2idHash =
     (let newHashId = hashIdOf argon2idHash;
          hash = bd_descriptorHash deps d;
          host = hostOf_descriptor d (bd_demoZone deps) in
      bindE (readSlotState deps slot) (\<lambda>st.
      case ss_colour st of
        Some live \<Rightarrow>
          (if ss_phase st = Running then
             (if ss_descriptorHash st = Some hash then returnE (Reply 200 (PhaseBody Running (Some live) None))
              else attemptColourSwap deps slot st live d host argon2idHash hash newHashId)
           else if ss_phase st \<noteq> Free then returnE (Reply 409 (ErrorBody ''occupied''))
           else fresh_deploy deps slot st d host argon2idHash hash newHashId)
      | None \<Rightarrow>
          (if ss_phase st \<noteq> Free then returnE (Reply 409 (ErrorBody ''occupied''))
           else fresh_deploy deps slot st d host argon2idHash hash newHashId)))"

definition with_slot_lock :: "slot_name \<Rightarrow> ('w, reply) bprog \<Rightarrow> ('w, reply) bprog" where
  "with_slot_lock slot body = bindE (claim slot) (\<lambda>got.
     if \<not> got then returnE (Reply 409 (ErrorBody ''locked''))
     else finallyE body (release slot))"

definition handleReconcile :: "'w broker_deps \<Rightarrow> json option \<Rightarrow> json \<Rightarrow> ('w, reply) bprog" where
  "handleReconcile deps slotValue body =
     bindE (lift_sum (validateSlotLiteral slotValue (bd_slotLiterals deps))) (\<lambda>slot.
     case bd_validate deps body of
       Inl e \<Rightarrow> returnE (Reply 400 (ErrorBody ''descriptor''))
     | Inr d \<Rightarrow>
         (if td_kind d \<noteq> ''demo'' then returnE (Reply 400 (ErrorBody ''not a demo''))
          else (case td_gate d of
              NoGate \<Rightarrow> returnE (Reply 500 (ErrorBody ''no gate''))
            | PassphraseGate argon2idHash \<Rightarrow>
                (if (td_uid d, td_ports d) \<noteq> slotAllocation (bd_uidBase deps) (bd_appPortBase deps) (bd_healthPortBase deps) slot
                 then returnE (Reply 400 (ErrorBody ''allocation''))
                 else with_slot_lock slot (reconcile_locked deps slot d argon2idHash)))))"

section \<open>Stop, reset and status\<close>

definition stopping_state :: "slot_state \<Rightarrow> colour \<Rightarrow> slot_state" where
  "stopping_state st live = (state_of Stopping (ss_lastHashId st))
     \<lparr>ss_colour := Some live, ss_descriptorHash := ss_descriptorHash st, ss_trafficBaseline := ss_trafficBaseline st\<rparr>"

definition stopped_state :: "slot_state \<Rightarrow> colour \<Rightarrow> slot_state" where
  "stopped_state st live = (state_of Running (ss_lastHashId st))
     \<lparr>ss_colour := Some live, ss_descriptorHash := ss_descriptorHash st, ss_trafficBaseline := ss_trafficBaseline st,
      ss_oldColourStopped := True\<rparr>"

text \<open>The drain flag is asked first, and Ghost only when it is clear.\<close>

definition colour_live :: "'w broker_deps \<Rightarrow> slot_name \<Rightarrow> colour \<Rightarrow> ('w, bool) bprog" where
  "colour_live deps slot c = bindE (flag_isSet deps slot c) (\<lambda>drained.
     if drained then returnE False else isReady deps slot (app_port deps slot c))"

definition refuse_stop :: "colour \<Rightarrow> string \<Rightarrow> ('w, reply) bprog" where
  "refuse_stop live why = returnE (Reply 503 (PhaseBody Running (Some live) (Some why)))"

definition attemptStopOldColour :: "'w broker_deps \<Rightarrow> slot_name \<Rightarrow> slot_state \<Rightarrow> ('w, reply) bprog" where
  "attemptStopOldColour deps slot st = (case (ss_colour st, ss_trafficBaseline st) of
       (Some live, Some baseline) \<Rightarrow>
         if ss_oldColourStopped st then returnE (Reply 200 (PhaseBody Running (Some live) None))
         else
           bindE (slot_ask deps slot (TrafficAnswer slot) (bd_readCount deps slot)) (\<lambda>currentTraffic.
           if currentTraffic \<le> baseline then refuse_stop live ''no traffic''
           else bindE (slot_ask deps slot (BatchAnswer slot) (bd_hasSubmittingBatch deps slot)) (\<lambda>submitting.
           if submitting then refuse_stop live ''submitting''
           else bindE (colour_live deps slot live) (\<lambda>stillLive.
           if \<not> stillLive then refuse_stop live ''not live''
           else
             thenE (writeSlotState deps slot (stopping_state st live))
            (thenE (slot_call deps slot (OpStop (otherColour live)) (bd_stop deps slot (otherColour live)))
            (thenE (writeSlotState deps slot (stopped_state st live))
            (returnE (Reply 200 (PhaseBody Running (Some live) None))))))))
     | _ \<Rightarrow> returnE (Reply 409 (ErrorBody ''no old colour'')))"

definition stop_locked :: "'w broker_deps \<Rightarrow> slot_name \<Rightarrow> ('w, reply) bprog" where
  "stop_locked deps slot = bindE (readSlotState deps slot) (\<lambda>st.
     if ss_phase st \<noteq> Running then returnE (Reply 409 (ErrorBody ''not running''))
     else attemptStopOldColour deps slot st)"

definition handleStop :: "'w broker_deps \<Rightarrow> json option \<Rightarrow> ('w, reply) bprog" where
  "handleStop deps slotValue =
     bindE (lift_sum (validateSlotLiteral slotValue (bd_slotLiterals deps))) (\<lambda>slot.
       with_slot_lock slot (stop_locked deps slot))"

definition reset_locked :: "'w broker_deps \<Rightarrow> slot_name \<Rightarrow> ('w, reply) bprog" where
  "reset_locked deps slot = bindE (readSlotState deps slot) (\<lambda>st.
     if resetRefusal st \<noteq> None then returnE (Reply 409 (ErrorBody ''evidence''))
     else
       thenE (writeSlotState deps slot (state_of Resetting (ss_lastHashId st)))
      (thenE (clearLeaseAndHash deps slot)
      (tryE (wipe deps slot)
        (\<lambda>_. thenE (flag_set deps slot A)
           (thenE (flag_set deps slot B)
           (thenE (writeSlotState deps slot (state_of Free (ss_lastHashId st)))
           (returnE (Reply 200 (PhaseBody Free None None))))))
        (\<lambda>_. thenE (writeSlotState deps slot (state_of Error (ss_lastHashId st)))
           (returnE (Reply 503 (PhaseBody Error None None)))))))"

definition handleReset :: "'w broker_deps \<Rightarrow> json option \<Rightarrow> ('w, reply) bprog" where
  "handleReset deps slotValue =
     bindE (lift_sum (validateSlotLiteral slotValue (bd_slotLiterals deps))) (\<lambda>slot.
       with_slot_lock slot (reset_locked deps slot))"

definition handleStatus :: "'w broker_deps \<Rightarrow> json option \<Rightarrow> ('w, reply) bprog" where
  "handleStatus deps slotParam = (case validateSlotLiteral slotParam (bd_slotLiterals deps) of
       Inl _ \<Rightarrow> returnE (Reply 404 NoBody)
     | Inr slot \<Rightarrow>
         bindE (readSlotState deps slot) (\<lambda>st.
         bindE (if ss_phase st = Running \<and> ss_colour st \<noteq> None
                then outside deps slot (bd_isHealthy deps (slotHealthPort (bd_healthPortBase deps) slot))
                else returnE False) (\<lambda>healthy.
         returnE (Reply 200 (StatusBody (ss_phase st) healthy)))))"

end
