(* ===== verification/Broker_Rules.thy ===== *)
theory Broker_Rules
  imports Broker_Handlers
begin

text \<open>
  Rules for the operations the broker's handlers share, the lock among them, and the invariants of a
  slot's view: \<open>vinv slot P m\<close> says that \<open>m\<close> keeps \<open>P\<close> wherever it ends, crash included.
\<close>

section \<open>Rules for the composite operations\<close>

lemma vc_lift_sum [vcg]:
  "(\<And>x. r = Inr x \<Longrightarrow> Q x v) \<Longrightarrow> (\<And>e. E (BrokerError e) v) \<Longrightarrow> vc slot (lift_sum r) Q E C v"
  by (auto simp: lift_sum_def intro!: vcg)

lemma bind_lift_Inr [simp]: "bindE (lift_sum (Inr x)) f = f x"
  by (rule ext) (simp add: lift_sum_def bindE_def returnE_def)

lemma otherColour_eq [simp]: "(otherColour c = A) = (c = B)" "(otherColour c = B) = (c = A)"
  by (cases c; simp)+

text \<open>A reconcile that passes every check made before the lock is claimed.\<close>

definition reconcile_request :: "'w broker_deps \<Rightarrow> json option \<Rightarrow> json \<Rightarrow> slot_name \<Rightarrow> descriptor \<Rightarrow> string \<Rightarrow> bool" where
  "reconcile_request deps lit body slot d phc \<longleftrightarrow> validateSlotLiteral lit (bd_slotLiterals deps) = Inr slot \<and>
     bd_validate deps body = Inr d \<and> td_kind d = ''demo'' \<and> td_gate d = PassphraseGate phc \<and>
     (td_uid d, td_ports d) = slotAllocation (bd_uidBase deps) (bd_appPortBase deps) (bd_healthPortBase deps) slot"

lemma reconcile_request:
  "reconcile_request deps lit body slot d phc \<Longrightarrow>
     handleReconcile deps lit body = with_slot_lock slot (reconcile_locked deps slot d phc)"
  by (simp add: reconcile_request_def handleReconcile_def)

lemma carried_phase [simp]: "ss_phase (carried old st) = ss_phase st"
  "ss_colour (carried old st) = ss_colour st" "ss_descriptorHash (carried old st) = ss_descriptorHash st"
  "ss_lastHashId (carried old st) = ss_lastHashId st" "ss_swapTarget (carried old st) = ss_swapTarget st"
  "ss_swapDescriptorHash (carried old st) = ss_swapDescriptorHash st" "ss_swapHashId (carried old st) = ss_swapHashId st"
  "ss_trafficBaseline (carried old st) = ss_trafficBaseline st" "ss_oldColourStopped (carried old st) = ss_oldColourStopped st"
  by (simp_all add: carried_def)

lemma state_of_fields [simp]:
  "ss_phase (state_of p h) = p" "ss_colour (state_of p h) = None" "ss_lastHashId (state_of p h) = h"
  "ss_evidence (state_of p h) = None" "ss_descriptorHash (state_of p h) = None" "ss_trafficBaseline (state_of p h) = None"
  "ss_swapTarget (state_of p h) = None" "ss_oldColourStopped (state_of p h) = False"
  by (simp_all add: state_of_def)

lemma carried_evidence:
  "ss_evidence st = None \<Longrightarrow> holdsUnconfirmedEvidence (ss_evidence old) \<Longrightarrow> ss_evidence (carried old st) = ss_evidence old"
  "\<not> holdsUnconfirmedEvidence (ss_evidence old) \<Longrightarrow> carried old st = st"
  by (simp_all add: carried_def)

lemma resetRefusal_None: "resetRefusal st = None \<longleftrightarrow> ss_phase st \<noteq> Detaching \<and> \<not> holdsUnconfirmedEvidence (ss_evidence st)"
  by (simp add: resetRefusal_def)

lemma holds_None [simp]: "\<not> holdsUnconfirmedEvidence None"
  by (simp add: holdsUnconfirmedEvidence_def)

lemma vc_forget [vcg]:
  assumes "Q () v" "Q () (v\<lparr>sv_trace := sv_trace v @ [Called slot OpForget, Returned slot OpForget]\<rparr>)"
    and "\<And>e. E (BrokerError e) (v\<lparr>sv_trace := sv_trace v @ [Called slot OpForget]\<rparr>)"
    and "C (v\<lparr>sv_trace := sv_trace v @ [Called slot OpForget]\<rparr>)"
  shows "vc slot (forget deps slot) Q E C v"
  unfolding forget_def by (rule vcg | simp add: assms)+

text \<open>The lease a deploy writes is one it made, or with \<open>keep\<close> the one already tied to the same hash.\<close>

definition lease_from :: "slot_view \<Rightarrow> bool \<Rightarrow> hash_id \<Rightarrow> lease_id \<Rightarrow> bool" where
  "lease_from v keep hashId lease \<longleftrightarrow> (\<exists>now rnd. generateLeaseId now rnd = Inr lease) \<or>
     keep \<and> (\<exists>rec. sv_lease v = Some (Some rec) \<and> lr_hashId rec = hashId \<and> lr_lease rec = lease)"

lemma lease_from_simps [simp]:
  "lease_from (v\<lparr>sv_file := st\<rparr>) = lease_from v" "lease_from (v\<lparr>sv_entries := es\<rparr>) = lease_from v"
  "lease_from (v\<lparr>sv_drained := d\<rparr>) = lease_from v" "lease_from (v\<lparr>sv_trace := t\<rparr>) = lease_from v"
  "lease_from (v\<lparr>sv_locked := b\<rparr>) = lease_from v"
  by (intro ext; simp add: lease_from_def)+

lemma vc_writeLeaseAndHash [vcg]:
  fixes v :: slot_view and host phc :: string and slot :: slot_name
  defines "entry \<equiv> \<lparr>se_host = host, se_slot = slot, se_argon2idHash = phc\<rparr>"
  assumes "\<And>lease. lease_from v keep (hashIdOf phc) lease \<Longrightarrow> Q (lease, hashIdOf phc)
      (v\<lparr>sv_entries := [entry], sv_lease := Some (Some \<lparr>lr_slot = slot, lr_lease = lease, lr_hashId = hashIdOf phc\<rparr>)\<rparr>)"
    and "\<And>holder. holder \<noteq> slot \<Longrightarrow> E (HostConflictError host holder) v"
    and "\<And>e. E (BrokerError e) v" "\<And>e. E (BrokerError e) (v\<lparr>sv_entries := [entry]\<rparr>)"
    and "\<And>e l. E (BrokerError e) (v\<lparr>sv_entries := [entry], sv_lease := l\<rparr>)"
    and "C v" "C (v\<lparr>sv_entries := [entry]\<rparr>)" "\<And>l. C (v\<lparr>sv_entries := [entry], sv_lease := l\<rparr>)"
  shows "vc slot (writeLeaseAndHash deps host slot phc keep) Q E C v"
proof -
  let ?v = "v\<lparr>sv_entries := [entry]\<rparr>"
  have put: "vc slot (thenE (disk_write deps slot (put_lease slot (Some (Some \<lparr>lr_slot = slot, lr_lease = lease, lr_hashId = hashIdOf phc\<rparr>))))
      (returnE (lease, hashIdOf phc))) Q E C ?v" if "lease_from v keep (hashIdOf phc) lease" for lease
    using that by (auto intro!: vcg assms simp: io_error_def)
  have mint: "vc slot (bindE (bindE (getE (\<lambda>s. generateLeaseId (bd_now deps (bk_w s)) (bd_random10 deps (bk_w s)))) (\<lambda>r.
      case r of Inl _ \<Rightarrow> throwE (BrokerError (JsError ''lease'')) | Inr lease \<Rightarrow> returnE lease)) (\<lambda>lease.
      thenE (disk_write deps slot (put_lease slot (Some (Some \<lparr>lr_slot = slot, lr_lease = lease, lr_hashId = hashIdOf phc\<rparr>))))
      (returnE (lease, hashIdOf phc)))) Q E C ?v"
    by (rule vc_bindE, rule vc_bindE, rule vc_getE, rule vc_case_sum)
      (auto intro!: vc_throwE vc_returnE put assms simp: lease_from_def)
  have tied: "vc slot (tiedLeaseOf deps slot (hashIdOf phc)) (\<lambda>r v'. v' = ?v \<and> (\<forall>lease. r = Some lease \<longrightarrow>
      (\<exists>rec. sv_lease v = Some (Some rec) \<and> lr_hashId rec = hashIdOf phc \<and> lr_lease rec = lease))) E C ?v"
    unfolding tiedLeaseOf_def
    by (rule vc_catchE, rule vc_bindE, rule vc_disk_read)
      (auto intro!: vc_returnE assms simp: view_fields split: option.splits)
  have kept: "vc slot (if keep then tiedLeaseOf deps slot (hashIdOf phc) else returnE None)
      (\<lambda>r v'. v' = ?v \<and> (\<forall>lease. r = Some lease \<longrightarrow> lease_from v keep (hashIdOf phc) lease)) E C ?v"
    by (rule vc_if, rule vc_mono [OF tied]) (auto intro!: vc_returnE simp: lease_from_def)
  show ?thesis
    unfolding writeLeaseAndHash_def Let_def entry_def [symmetric]
    apply (rule vc_thenE, rule vc_upsertSlotEntry)
    subgoal by (simp add: entry_def)
    subgoal
      apply (rule vc_bindE, rule vc_mono [OF kept])
      subgoal for r v'
        by (cases r) (use mint in \<open>simp_all add: vc_bindE vc_returnE put\<close>)
      by assumption+
    subgoal for holder
      using assms(3) [of holder] by (simp add: entry_def)
    by (simp_all only: io_error_def assms(3-))
qed

section \<open>The lock\<close>

lemma vc_with_slot_lock [vcg]:
  assumes "sv_locked v \<Longrightarrow> Q (Reply 409 (ErrorBody ''locked'')) v"
    and "\<not> sv_locked v \<Longrightarrow> vc slot body (\<lambda>x v. Q x (v\<lparr>sv_locked := False\<rparr>)) (\<lambda>e v. E e (v\<lparr>sv_locked := False\<rparr>)) C
      (v\<lparr>sv_locked := True\<rparr>)"
  shows "vc slot (with_slot_lock slot body) Q E C v"
  unfolding with_slot_lock_def
  by (rule vc_bindE, rule vc_claim) (auto intro!: vc_returnE vc_finallyE vc_release assms intro: vc_mono [OF assms(2)])

section \<open>Invariants of the view\<close>

definition vinv :: "slot_name \<Rightarrow> (slot_view \<Rightarrow> bool) \<Rightarrow> ('w, 'a) bprog \<Rightarrow> bool" where
  "vinv slot P m \<longleftrightarrow> (\<forall>v. P v \<longrightarrow> vc slot m (\<lambda>_. P) (\<lambda>_. P) P v)"

named_theorems vinv_intros \<open>structural rules for invariants of the view\<close>

lemma vinvI: "(\<And>v. P v \<Longrightarrow> vc slot m (\<lambda>_. P) (\<lambda>_. P) P v) \<Longrightarrow> vinv slot P m"
  by (simp add: vinv_def)

lemma vinvD: "vinv slot P m \<Longrightarrow> P v \<Longrightarrow> vc slot m (\<lambda>_. P) (\<lambda>_. P) P v"
  by (simp add: vinv_def)

lemma vinv_end: "vinv slot P m \<Longrightarrow> P (view slot s) \<Longrightarrow> P (view slot (snd (m s)))"
  by (rule vc_always) (rule vinvD)

lemma vinv_returnE [vinv_intros]: "vinv slot P (returnE x)"
  and vinv_throwE [vinv_intros]: "vinv slot P (throwE e)"
  by (auto intro!: vinvI vcg)

lemma vinv_bindE [vinv_intros]: "vinv slot P m \<Longrightarrow> (\<And>x. vinv slot P (f x)) \<Longrightarrow> vinv slot P (bindE m f)"
  by (rule vinvI, rule vc_bindE, rule vc_mono, erule (1) vinvD) (auto dest: vinvD)

lemma vinv_thenE [vinv_intros]: "vinv slot P m \<Longrightarrow> vinv slot P k \<Longrightarrow> vinv slot P (thenE m k)"
  unfolding thenE_def by (rule vinv_bindE)

lemma vinv_tryE [vinv_intros]:
  "vinv slot P m \<Longrightarrow> (\<And>x. vinv slot P (k x)) \<Longrightarrow> (\<And>e. vinv slot P (h e)) \<Longrightarrow> vinv slot P (tryE m k h)"
  by (rule vinvI, rule vc_tryE, rule vc_mono, erule (1) vinvD) (simp_all add: vinvD)

lemma vinv_catchE [vinv_intros]:
  "vinv slot P m \<Longrightarrow> (\<And>e. vinv slot P (h e)) \<Longrightarrow> vinv slot P (catchE m h)"
  by (rule vinvI, rule vc_catchE, rule vc_mono, erule (1) vinvD) (auto dest: vinvD)

lemma vinv_whenE [vinv_intros]: "vinv slot P m \<Longrightarrow> vinv slot P (whenE b m)"
  by (simp add: whenE_def vinv_returnE)

lemma vinv_if [vinv_intros]:
  "(b \<Longrightarrow> vinv slot P m) \<Longrightarrow> (\<not> b \<Longrightarrow> vinv slot P n) \<Longrightarrow> vinv slot P (if b then m else n)"
  by simp

lemma vinv_case_option [vinv_intros]:
  "(x = None \<Longrightarrow> vinv slot P m) \<Longrightarrow> (\<And>y. x = Some y \<Longrightarrow> vinv slot P (n y)) \<Longrightarrow>
     vinv slot P (case x of None \<Rightarrow> m | Some y \<Rightarrow> n y)"
  by (cases x) auto

lemma vinv_case_sum [vinv_intros]:
  "(\<And>y. vinv slot P (m y)) \<Longrightarrow> (\<And>y. vinv slot P (n y)) \<Longrightarrow>
     vinv slot P (case x of Inl y \<Rightarrow> m y | Inr y \<Rightarrow> n y)"
  by (cases x) auto

lemma vinv_readState [vinv_intros]:
  "(\<And>v. P v \<Longrightarrow> vinv slot P (f (sv_state v))) \<Longrightarrow> vinv slot P (bindE (readSlotState deps slot) f)"
  by (rule vinvI, rule vc_bindE, rule vc_readSlotState) (auto intro: vinvD)

lemma vinv_two_options:
  "(\<And>a b. vinv slot P (m a b)) \<Longrightarrow> vinv slot P n \<Longrightarrow> vinv slot P (case (x, y) of (Some a, Some b) \<Rightarrow> m a b | _ \<Rightarrow> n)"
  by (cases x; cases y) simp_all

lemma vinv_exn:
  "(\<And>h s. vinv slot P (m h s)) \<Longrightarrow> (\<And>e. vinv slot P (n e)) \<Longrightarrow>
     vinv slot P (case e of HostConflictError h s \<Rightarrow> m h s | BrokerError e \<Rightarrow> n e)"
  by (cases e) simp_all

lemma vinv_outside [vinv_intros]: "vinv slot P (outside deps slot m)"
  and vinv_hostHeld [vinv_intros]: "vinv slot P (hostHeldByAnotherSlot deps host slot)"
  and vinv_hostOf [vinv_intros]: "vinv slot P (hostOfSlotEntry deps slot)"
  and vinv_lift_sum [vinv_intros]: "vinv slot P (lift_sum r)"
  by (auto intro!: vinvI vcg)

lemma vinv_disk_read [vinv_intros]: "vinv slot P (disk_read deps slot f)"
  by (auto intro!: vinvI vc_disk_read)

lemma vinv_getE [vinv_intros]: "vinv slot P (getE f)"
  by (auto intro!: vinvI vc_getE)

lemma vinv_writeState:
  assumes "\<And>v. P v \<Longrightarrow> P (v\<lparr>sv_file := Some (carried (sv_state v) st)\<rparr>)"
  shows "vinv slot P (writeSlotState deps slot st)"
  by (auto intro!: vinvI vcg assms)

lemma vinv_slot_call:
  assumes "\<And>v. P v \<Longrightarrow> P (v\<lparr>sv_trace := sv_trace v @ [Called slot op]\<rparr>)"
    and "\<And>v. P v \<Longrightarrow> P (v\<lparr>sv_trace := sv_trace v @ [Called slot op, Returned slot op]\<rparr>)"
  shows "vinv slot P (slot_call deps slot op m)"
  by (auto intro!: vinvI vcg assms)

lemma vinv_slot_ask:
  assumes "\<And>v x. P v \<Longrightarrow> P (v\<lparr>sv_trace := sv_trace v @ [ev x]\<rparr>)"
  shows "vinv slot P (slot_ask deps slot ev m)"
  by (auto intro!: vinvI vcg assms)

lemma vinv_flags:
  assumes "\<And>v b. P v \<Longrightarrow> P (v\<lparr>sv_drained := (sv_drained v)(c := b)\<rparr>)"
  shows "vinv slot P (flag_set deps slot c)" "vinv slot P (flag_clear deps slot c)"
  by (auto intro!: vinvI vcg assms)

lemma vinv_isSet:
  assumes "\<And>v b. P v \<Longrightarrow> P (v\<lparr>sv_trace := sv_trace v @ [FlagAnswer slot c b]\<rparr>)"
  shows "vinv slot P (flag_isSet deps slot c)"
  by (auto intro!: vinvI vcg assms)

lemma vinv_crash: "vinv slot P (\<lambda>s. (Crash, s))"
  by (auto simp: vinv_def vc_def wp_def)

lemma vinv_lock:
  assumes "vinv slot P body" "\<And>v b. P v \<Longrightarrow> P (v\<lparr>sv_locked := b\<rparr>)"
  shows "vinv slot P (with_slot_lock slot body)"
proof (rule vinvI, rule vc_with_slot_lock)
  fix v assume "P v"
  then have "P (v\<lparr>sv_locked := True\<rparr>)" by (rule assms(2))
  from vinvD [OF assms(1) this]
  show "vc slot body (\<lambda>_ v. P (v\<lparr>sv_locked := False\<rparr>)) (\<lambda>_ v. P (v\<lparr>sv_locked := False\<rparr>)) P (v\<lparr>sv_locked := True\<rparr>)"
    by (rule vc_mono) (auto intro: assms(2))
qed

lemma vinv_lease:
  assumes "\<And>v es. P v \<Longrightarrow> P (v\<lparr>sv_entries := es\<rparr>)" "\<And>v l. P v \<Longrightarrow> P (v\<lparr>sv_lease := l\<rparr>)"
  shows "vinv slot P (writeLeaseAndHash deps host slot phc keep)" "vinv slot P (clearLeaseAndHash deps slot)"
proof -
  have up: "vinv slot P (upsertSlotEntry deps \<lparr>se_host = host, se_slot = slot, se_argon2idHash = phc\<rparr>)"
    by (auto intro!: vinvI vcg assms)
  have tied: "vinv slot P (tiedLeaseOf deps slot h)" for h
    unfolding tiedLeaseOf_def by (intro vinv_intros vinv_disk_read)
  have put: "vinv slot P (disk_write deps slot (put_lease slot l))" for l
    by (auto intro!: vinvI vcg assms)
  show "vinv slot P (writeLeaseAndHash deps host slot phc keep)"
    unfolding writeLeaseAndHash_def Let_def by (intro vinv_intros up tied put)
  show "vinv slot P (clearLeaseAndHash deps slot)"
    by (auto intro!: vinvI vcg assms)
qed

lemma vinv_poll:
  assumes "\<And>v b. P v \<Longrightarrow> P (v\<lparr>sv_trace := sv_trace v @ [ReadyAnswer port b]\<rparr>)"
  shows "vinv slot P (poll_ready deps slot port deadline fuel)"
proof (induction fuel)
  case (Suc fuel)
  then show ?case
    unfolding poll_ready.simps isReady_def sleep_def by (intro vinv_intros vinv_slot_ask assms)
qed (simp add: vinv_crash)

lemma vinv_wait:
  "(\<And>v b. P v \<Longrightarrow> P (v\<lparr>sv_trace := sv_trace v @ [ReadyAnswer port b]\<rparr>)) \<Longrightarrow>
     vinv slot P (waitUntilReady deps slot port ms)"
  unfolding waitUntilReady_def by (intro vinv_intros vinv_poll)

end
