(* ===== verification/Broker_Recovery.thy ===== *)
theory Broker_Recovery
  imports Broker_Rules
begin

text \<open>
  Recovery of a slot whose handler died: \<open>recoverSwapInFlight\<close>, \<open>recoverStoppingSlot\<close> and
  \<open>recoverCrashedSlots\<close> of \<open>src/services/broker/src/stateStore.ts\<close>.
\<close>

definition isLive :: "'w broker_deps \<Rightarrow> slot_name \<Rightarrow> colour \<Rightarrow> ('w, bool) bprog" where
  "isLive deps slot c = bindE (flag_isSet deps slot c) (\<lambda>drained.
     if drained then returnE False
     else waitUntilReady deps slot (app_port deps slot c) (bd_readyPollTimeoutMs deps))"

definition adopted_state :: "slot_state \<Rightarrow> colour \<Rightarrow> slot_state" where
  "adopted_state st tgt = (state_of Running (case ss_swapHashId st of None \<Rightarrow> ss_lastHashId st | Some h \<Rightarrow> Some h))
     \<lparr>ss_colour := Some tgt, ss_descriptorHash := ss_swapDescriptorHash st\<rparr>"

definition adoptTarget :: "'w broker_deps \<Rightarrow> slot_name \<Rightarrow> slot_state \<Rightarrow> colour \<Rightarrow> ('w, unit) bprog" where
  "adoptTarget deps slot st tgt = writeSlotState deps slot (adopted_state st tgt)"

definition revertToSource :: "'w broker_deps \<Rightarrow> slot_name \<Rightarrow> slot_state \<Rightarrow> colour \<Rightarrow> colour \<Rightarrow> ('w, unit) bprog" where
  "revertToSource deps slot st source tgt =
     thenE (flag_set deps slot tgt) (writeSlotState deps slot (pre_swap_state st source))"

definition failClosed :: "'w broker_deps \<Rightarrow> slot_name \<Rightarrow> slot_state \<Rightarrow> ('w, unit) bprog" where
  "failClosed deps slot st = writeSlotState deps slot (errorStateOf st)"

definition fall_back :: "'w broker_deps \<Rightarrow> slot_name \<Rightarrow> slot_state \<Rightarrow> colour \<Rightarrow> colour \<Rightarrow> ('w, unit) bprog" where
  "fall_back deps slot st source tgt = bindE (isLive deps slot source) (\<lambda>sourceLive.
     if sourceLive then revertToSource deps slot st source tgt else failClosed deps slot st)"

definition recoverSwapInFlight :: "'w broker_deps \<Rightarrow> slot_name \<Rightarrow> slot_state \<Rightarrow> ('w, unit) bprog" where
  "recoverSwapInFlight deps slot st = (case (ss_colour st, ss_swapTarget st) of
       (Some source, Some tgt) \<Rightarrow>
         bindE (isLive deps slot tgt) (\<lambda>targetLive.
         if \<not> targetLive then fall_back deps slot st source tgt
         else if tgt = A then adoptTarget deps slot st tgt
         else bindE (isLive deps slot source) (\<lambda>sourceStillLive.
           if \<not> sourceStillLive then adoptTarget deps slot st tgt
           else bindE (isReady deps slot (app_port deps slot tgt)) (\<lambda>ready.
             if ready then thenE (flag_set deps slot source) (adoptTarget deps slot st tgt)
             else fall_back deps slot st source tgt)))
     | _ \<Rightarrow> failClosed deps slot st)"

definition recoverStoppingSlot :: "'w broker_deps \<Rightarrow> slot_name \<Rightarrow> slot_state \<Rightarrow> ('w, unit) bprog" where
  "recoverStoppingSlot deps slot st = (case ss_colour st of
       None \<Rightarrow> failClosed deps slot st
     | Some survivor \<Rightarrow>
         bindE (colour_live deps slot survivor) (\<lambda>survivorLive.
         if \<not> survivorLive then failClosed deps slot st
         else
           thenE (slot_call deps slot (OpStop (otherColour survivor)) (bd_stop deps slot (otherColour survivor)))
             (writeSlotState deps slot (stopped_state st survivor))))"

text \<open>The body of the loop; \<open>stopRecovery\<close> is whether a wrapper was passed to retry a stop with.\<close>

definition recoverSlot :: "'w broker_deps \<Rightarrow> bool \<Rightarrow> slot_name \<Rightarrow> ('w, unit) bprog" where
  "recoverSlot deps stopRecovery slot = bindE (readSlotState deps slot) (\<lambda>st.
     if ss_phase st = Swapping then recoverSwapInFlight deps slot st
     else if ss_phase st = Stopping then
       (if stopRecovery then recoverStoppingSlot deps slot st else failClosed deps slot st)
     else if ss_phase st \<in> set LOCK_HELD_PHASES then
       thenE (whenE (ss_phase st = Resetting) (clearLeaseAndHash deps slot)) (failClosed deps slot st)
     else returnE ())"

definition recoverCrashedSlots :: "'w broker_deps \<Rightarrow> bool \<Rightarrow> slot_name list \<Rightarrow> ('w, unit) bprog" where
  "recoverCrashedSlots deps stopRecovery slotLiterals = forE slotLiterals (recoverSlot deps stopRecovery)"

section \<open>Polling\<close>

text \<open>A poll appends only answers of the port, and its result says whether one of them was positive.\<close>

definition polled :: "nat \<Rightarrow> slot_view \<Rightarrow> bool \<Rightarrow> slot_view \<Rightarrow> bool" where
  "polled port v b v' \<longleftrightarrow>
     (\<exists>bs. v' = v\<lparr>sv_trace := sv_trace v @ map (ReadyAnswer port) bs\<rparr> \<and> b = (True \<in> set bs))"

lemma polled_refl: "polled port v False v"
  unfolding polled_def by (rule exI [of _ "[]"]) simp

lemma polled_one: "polled port v b (v\<lparr>sv_trace := sv_trace v @ [ReadyAnswer port b]\<rparr>)"
  unfolding polled_def by (rule exI [of _ "[b]"]) simp

lemma polled_step:
  "polled port (v\<lparr>sv_trace := sv_trace v @ [ReadyAnswer port False]\<rparr>) b v' \<Longrightarrow> polled port v b v'"
  unfolding polled_def by (auto intro: exI [of _ "False # _"])

lemma vc_poll:
  "vc slot (poll_ready deps slot port deadline fuel) (polled port v)
     (\<lambda>e v'. polled port v False v' \<and> (\<exists>e'. e = BrokerError e')) (polled port v False) v"
proof (induction fuel arbitrary: v)
  case 0
  show ?case by (auto simp: vc_def wp_def polled_refl)
next
  case (Suc fuel)
  have later: "vc slot (poll_ready deps slot port deadline fuel) (polled port v)
     (\<lambda>e v'. polled port v False v' \<and> (\<exists>e'. e = BrokerError e')) (polled port v False)
     (v\<lparr>sv_trace := sv_trace v @ [ReadyAnswer port False]\<rparr>)"
    by (rule vc_mono [OF Suc.IH]) (auto dest: polled_step)
  show ?case
    unfolding poll_ready.simps isReady_def sleep_def
    by (auto intro!: vcg vc_getE later simp: polled_one [where b = True] polled_one [where b = False] polled_refl)
qed

lemma vc_wait [vcg]:
  assumes "\<And>b bs. b = (True \<in> set bs) \<Longrightarrow> Q b (v\<lparr>sv_trace := sv_trace v @ map (ReadyAnswer port) bs\<rparr>)"
    and "\<And>e bs. E (BrokerError e) (v\<lparr>sv_trace := sv_trace v @ map (ReadyAnswer port) bs\<rparr>)"
    and "\<And>bs. C (v\<lparr>sv_trace := sv_trace v @ map (ReadyAnswer port) bs\<rparr>)"
  shows "vc slot (waitUntilReady deps slot port ms) Q E C v"
  unfolding waitUntilReady_def
  by (rule vc_bindE, rule vc_getE, rule vc_mono [OF vc_poll])
    (unfold polled_def, (elim conjE exE, simp only:, rule assms, blast?)+)

text \<open>Such answers are the only events in the image of \<open>ReadyAnswer\<close>.\<close>

lemma not_answer [simp]:
  "Called slot op \<notin> ReadyAnswer port ` X" "Returned slot op \<notin> ReadyAnswer port ` X"
  "(ReadyAnswer port b \<in> ReadyAnswer port' ` X) = (port = port' \<and> b \<in> X)"
  by auto

end
