(* ===== verification/Broker_Sample.thy ===== *)
theory Broker_Sample
  imports Broker_Rules
begin

text \<open>
  A concrete broker the properties are applied at: two slots, a clock as the world, no faults, and an
  outside that answers as a healthy slot does.
\<close>

definition sample_descriptor :: descriptor where
  "sample_descriptor = \<lparr>td_kind = ''demo'', td_gate = PassphraseGate ''$argon2id$'', td_uid = 2003,
     td_ports = \<lparr>sp_a = 9006, sp_b = 9007, sp_health = 7003\<rparr>, td_hostname = Ours ''demo'', td_rest = JNull\<rparr>"

definition sample_broker :: "nat broker_deps" where
  "sample_broker = \<lparr>bd_fate = (\<lambda>w. (Proceed, w)), bd_others = (\<lambda>_ es. es), bd_slotLiterals = [''3'', ''4''],
     bd_validate = (\<lambda>_. Inr sample_descriptor), bd_descriptorHash = (\<lambda>_. ''new''), bd_demoZone = ''example'',
     bd_render = (\<lambda>_. returnE ()), bd_writeArtefacts = (\<lambda>_. returnE ()), bd_start = (\<lambda>_ _. returnE ()),
     bd_stop = (\<lambda>_ _. returnE ()), bd_reset = (\<lambda>_. returnE ()), bd_forget = None,
     bd_configure = (\<lambda>_ _ _. returnE ()), bd_isReady = (\<lambda>_. returnE True), bd_isHealthy = (\<lambda>_. returnE True),
     bd_readCount = (\<lambda>_. returnE 7), bd_hasSubmittingBatch = (\<lambda>_. returnE False), bd_now = int,
     bd_sleep = (\<lambda>ms w. w + ms), bd_random10 = (\<lambda>_. replicate 10 1), bd_readyPollTimeoutMs = 1000, bd_fuel = 9,
     bd_appPortBase = 9000, bd_healthPortBase = 7000, bd_uidBase = 2000\<rparr>"

text \<open>The sample broker with slot 3 in state \<open>st\<close>, colour \<open>A\<close> serving and \<open>B\<close> drained.\<close>

definition sample_at :: "slot_state \<Rightarrow> nat broker" where
  "sample_at st = \<lparr>bk_states = [''3'' \<mapsto> st], bk_entries = [\<lparr>se_host = ''demo.example'', se_slot = ''3'', se_argon2idHash = ''old''\<rparr>],
     bk_leases = Map.empty, bk_drained = (\<lambda>_ c. c = B), bk_locks = [], bk_trace = [], bk_w = 0\<rparr>"

definition sample_running :: slot_state where
  "sample_running = (state_of Running (Some ''old''))\<lparr>ss_colour := Some A, ss_descriptorHash := Some ''old''\<rparr>"

abbreviation sample_lit :: "json option" where
  "sample_lit \<equiv> Some (JString ''3'')"

lemma sample_lit_ok: "validateSlotLiteral sample_lit (bd_slotLiterals sample_broker) = Inr ''3''"
  by (simp add: validateSlotLiteral_def sample_broker_def validateSlotName_def validate_string_def valid_slot_name_def
      all_in_def bindS_def guardS_def slot_name_chars_def digits_def)

lemma sample_reconcile_request: "reconcile_request sample_broker sample_lit JNull ''3'' sample_descriptor ''$argon2id$''"
  by (simp add: reconcile_request_def sample_lit_ok)
    (simp add: sample_broker_def sample_descriptor_def slotAllocation_def slotUid_def slotPort_def slotHealthPort_def
      slot_number_def number_of_digits_def digit_val_def digits_def)

lemma sample_at_fields [simp]:
  "bk_locks (sample_at st) = []" "state_file ''3'' (sample_at st) = st" "bk_drained (sample_at st) ''3'' c = (c = B)"
  "bk_trace (sample_at st) = []"
  by (simp_all add: sample_at_def state_file_def)

section \<open>Evaluation without faults\<close>

definition calm :: "'w broker_deps \<Rightarrow> bool" where
  "calm deps \<longleftrightarrow> bd_fate deps = (\<lambda>w. (Proceed, w)) \<and> bd_others deps = (\<lambda>_ es. es)"

lemma calm_settle: "calm deps \<Longrightarrow> settle deps slot w s = s\<lparr>bk_w := w\<rparr>"
  by (simp add: calm_def settle_def)

named_theorems calm_wp \<open>evaluation of the primitives where nothing fails\<close>

lemma calm_read [calm_wp]: "calm deps \<Longrightarrow> wp (disk_read deps slot f) Q E C s = Q (f s) s"
  and calm_write [calm_wp]: "calm deps \<Longrightarrow> wp (disk_write deps slot upd) Q' E C s = Q' () (upd s)"
  by (simp_all add: wp_def disk_read_def disk_write_def calm_settle Let_def) (simp_all add: calm_def)

lemma calm_outside [calm_wp]:
  "calm deps \<Longrightarrow> wp (outside deps slot (returnE x)) Q E C s = Q x s"
  by (simp add: wp_def outside_def calm_settle returnE_def)

lemma calm_mark [calm_wp]: "wp (mark ev) Q E C s = Q () (s\<lparr>bk_trace := bk_trace s @ [ev]\<rparr>)"
  by (simp add: mark_def)

lemma calm_sample [simp]: "calm sample_broker"
  by (simp add: calm_def sample_broker_def)

end
