(* ===== verification/Broker_Reset.thy ===== *)
theory Broker_Reset
  imports Broker_Sample
begin

text \<open>
  What the broker's reset promises: evidence that is held is never touched, a slot is free only after
  its wipe, and access is revoked before anything that can fail.
\<close>

section \<open>Comparing views\<close>

text \<open>Two views that differ at most in who holds the lock.\<close>

definition same_files :: "slot_view \<Rightarrow> slot_view \<Rightarrow> bool" where
  "same_files v v' \<longleftrightarrow> v'\<lparr>sv_locked := False\<rparr> = v\<lparr>sv_locked := False\<rparr>"

lemma same_files_simps [simp]:
  "same_files v v" "same_files (v\<lparr>sv_locked := b\<rparr>) v' = same_files v v'"
  "same_files v (v'\<lparr>sv_locked := b\<rparr>) = same_files v v'"
  by (simp_all add: same_files_def)

lemma both_drained: "(d(A := True))(B := True) = (\<lambda>_. True)"
  by (rule ext) (use colour_cases in auto)

text \<open>Nothing is left that a visitor could log in with.\<close>

definition revoked :: "slot_view \<Rightarrow> bool" where
  "revoked v \<longleftrightarrow> sv_entries v = [] \<and> sv_lease v = None"

lemma revoked_simps [simp]:
  "revoked (v\<lparr>sv_entries := [], sv_lease := None\<rparr>)" "revoked (v\<lparr>sv_locked := b\<rparr>) = revoked v"
  "revoked (v\<lparr>sv_trace := t\<rparr>) = revoked v" "revoked (v\<lparr>sv_file := st\<rparr>) = revoked v"
  "revoked (v\<lparr>sv_drained := d\<rparr>) = revoked v"
  by (simp_all add: revoked_def)

definition wiped :: "slot_name \<Rightarrow> broker_event list \<Rightarrow> slot_view \<Rightarrow> bool" where
  "wiped slot t v \<longleftrightarrow> (\<exists>es. sv_trace v = t @ es \<and> Returned slot OpReset \<in> set es) \<and> revoked v"

section \<open>Where a reset can end\<close>

definition reset_cut :: "slot_name \<Rightarrow> slot_view \<Rightarrow> slot_view \<Rightarrow> bool" where
  "reset_cut slot v v' \<longleftrightarrow> same_files v v' \<or>
     resetRefusal (sv_state v) = None \<and>
     (ss_phase (sv_state v') = Resetting \<and> (sv_trace v' = sv_trace v \<or> revoked v') \<or>
      ss_phase (sv_state v') = Error \<and> revoked v' \<or>
      ss_phase (sv_state v') = Free \<and> wiped slot (sv_trace v) v' \<and> sv_drained v' = (\<lambda>_. True))"

definition reset_reply :: "slot_name \<Rightarrow> slot_view \<Rightarrow> reply \<Rightarrow> slot_view \<Rightarrow> bool" where
  "reset_reply slot v r v' \<longleftrightarrow>
     r = Reply 409 (ErrorBody ''evidence'') \<and> resetRefusal (sv_state v) \<noteq> None \<and> same_files v v' \<or>
     r = Reply 200 (PhaseBody Free None None) \<and> resetRefusal (sv_state v) = None \<and>
       sv_state v' = state_of Free (ss_lastHashId (sv_state v)) \<and> wiped slot (sv_trace v) v' \<and> sv_drained v' = (\<lambda>_. True) \<or>
     r = Reply 503 (PhaseBody Error None None) \<and> resetRefusal (sv_state v) = None \<and>
       sv_state v' = state_of Error (ss_lastHashId (sv_state v)) \<and> revoked v'"

lemma reset_locked_vc:
  "vc slot (reset_locked deps slot) (reset_reply slot v) (\<lambda>_. reset_cut slot v) (reset_cut slot v) v"
proof (cases "resetRefusal (sv_state v) = None")
  case False
  then show ?thesis
    unfolding reset_locked_def by (auto intro!: vcg simp: reset_reply_def reset_cut_def)
next
  case True
  then have ev: "\<not> holdsUnconfirmedEvidence (ss_evidence (sv_state v))" by (simp add: resetRefusal_None)
  show ?thesis
    unfolding reset_locked_def wipe_def
    apply (intro vcg)
    apply (simp_all add: True reset_reply_def reset_cut_def wiped_def carried_evidence(2) ev both_drained)
    done
qed

lemma reset_lock_irrelevant:
  "reset_cut slot (v\<lparr>sv_locked := b\<rparr>) v' = reset_cut slot v v'" "reset_cut slot v (v'\<lparr>sv_locked := b\<rparr>) = reset_cut slot v v'"
  "reset_reply slot (v\<lparr>sv_locked := b\<rparr>) r v' = reset_reply slot v r v'"
  "reset_reply slot v r (v'\<lparr>sv_locked := b\<rparr>) = reset_reply slot v r v'"
  by (simp_all add: reset_cut_def reset_reply_def wiped_def)

lemma reset_vc:
  assumes "validateSlotLiteral lit (bd_slotLiterals deps) = Inr slot" "\<not> sv_locked v"
  shows "vc slot (handleReset deps lit) (reset_reply slot v) (\<lambda>_. reset_cut slot v) (reset_cut slot v) v"
  unfolding handleReset_def assms(1) bind_lift_Inr
  by (rule vc_with_slot_lock)
    (use assms(2) in \<open>auto intro!: vc_mono [OF reset_locked_vc] simp: reset_lock_irrelevant\<close>)

lemma reset_cut_or_reply: "reset_reply slot v r v' \<Longrightarrow> reset_cut slot v v'"
  by (auto simp: reset_reply_def reset_cut_def wiped_def)

section \<open>Properties\<close>

text \<open>A reset of a slot nobody holds answers 200 only when the slot's wipe has returned, nothing is
  left to log in with, both colours are drained and the state is free with the hash it last had; 503
  only when the state is \<open>error\<close> and the visitor's access is revoked all the same; 409 only for a slot
  that is detaching or holds evidence, and then no file has changed and nothing was called.  However a
  write fails and wherever the process dies, the slot is found unchanged, or resetting with access
  revoked before the first call to the outside, or in \<open>error\<close> and revoked, or properly free.\<close>

theorem reset_outcomes:
  assumes "validateSlotLiteral lit (bd_slotLiterals deps) = Inr slot" "slot \<notin> set (bk_locks s)"
  shows "wp (handleReset deps lit)
     (\<lambda>r s'. reset_reply slot (view slot s) r (view slot s') \<and> slot \<notin> set (bk_locks s'))
     (\<lambda>_ s'. reset_cut slot (view slot s) (view slot s') \<and> slot \<notin> set (bk_locks s'))
     (\<lambda>s'. reset_cut slot (view slot s) (view slot s')) s"
proof -
  have v: "\<not> sv_locked (view slot s)" using assms(2) by (simp add: view_def)
  have "vc slot (handleReset deps lit) (\<lambda>_ v'. \<not> sv_locked v') (\<lambda>_ v'. \<not> sv_locked v') (\<lambda>_. True) (view slot s)"
    unfolding handleReset_def assms(1) bind_lift_Inr
    by (rule vc_with_slot_lock) (use v in \<open>auto intro!: vc_mono [OF reset_locked_vc]\<close>)
  from vcD [OF vc_conj [OF reset_vc [OF assms(1) v] this]]
  show ?thesis by (rule wp_mono) (auto simp: view_def)
qed

lemma reset_outcomes_witness:
  "wp (handleReset sample_broker sample_lit)
     (\<lambda>r s'. reset_reply ''3'' (view ''3'' (sample_at sample_running)) r (view ''3'' s') \<and> ''3'' \<notin> set (bk_locks s'))
     (\<lambda>_ s'. reset_cut ''3'' (view ''3'' (sample_at sample_running)) (view ''3'' s') \<and> ''3'' \<notin> set (bk_locks s'))
     (\<lambda>s'. reset_cut ''3'' (view ''3'' (sample_at sample_running)) (view ''3'' s')) (sample_at sample_running)"
  by (rule reset_outcomes [OF sample_lit_ok]) simp

end
