(* ===== verification/Broker_Swap.thy ===== *)
theory Broker_Swap
  imports Broker_Recovery Broker_Reset
begin

text \<open>
  What a colour swap promises at every point where it can end: a colour of the slot serves, the slot is
  never wiped, and a marker with a clear flag means the target was rebuilt and answered.
\<close>

section \<open>Where a swap can end\<close>

definition destructive :: "slot_name \<Rightarrow> broker_event set" where
  "destructive slot = {Called slot OpReset, Called slot OpForget, Called slot (OpStop A), Called slot (OpStop B)}"

text \<open>The swap's own events: nothing destructive, and what the target was put through.\<close>

definition rebuilt :: "nat \<Rightarrow> slot_name \<Rightarrow> colour \<Rightarrow> broker_event list \<Rightarrow> bool" where
  "rebuilt port slot tgt es \<longleftrightarrow>
     Returned slot (OpStart tgt) \<in> set es \<and> Returned slot (OpConfigure port) \<in> set es \<and> ReadyAnswer port True \<in> set es"

text \<open>The live colour serves, or the rebuilt second colour does.\<close>

definition serving :: "nat \<Rightarrow> slot_name \<Rightarrow> colour \<Rightarrow> broker_event list \<Rightarrow> slot_view \<Rightarrow> bool" where
  "serving port slot live es v \<longleftrightarrow> \<not> sv_drained v live \<or>
     otherColour live = B \<and> \<not> sv_drained v B \<and> rebuilt port slot B es"

text \<open>The marker with the target's flag clear, or the final state: the target was rebuilt.\<close>

definition marker_sound :: "nat \<Rightarrow> slot_name \<Rightarrow> colour \<Rightarrow> broker_event list \<Rightarrow> slot_view \<Rightarrow> bool" where
  "marker_sound port slot live es v \<longleftrightarrow>
     (ss_phase (sv_state v) = Swapping \<and> \<not> sv_drained v (otherColour live) \<or>
      ss_colour (sv_state v) = Some (otherColour live) \<longrightarrow> rebuilt port slot (otherColour live) es)"

text \<open>A running state names a colour whose flag is clear.\<close>

definition running_serves :: "slot_view \<Rightarrow> bool" where
  "running_serves v \<longleftrightarrow>
     (ss_phase (sv_state v) = Running \<longrightarrow> (\<exists>c. ss_colour (sv_state v) = Some c \<and> \<not> sv_drained v c))"

definition swap_phase :: "slot_state \<Rightarrow> colour \<Rightarrow> slot_state \<Rightarrow> bool" where
  "swap_phase st live st' \<longleftrightarrow>
     ss_phase st' = Swapping \<and> ss_colour st' = Some live \<and> ss_swapTarget st' = Some (otherColour live) \<and>
       ss_descriptorHash st' = ss_descriptorHash st \<or>
     ss_phase st' = Running \<and> (ss_colour st' = Some live \<and> ss_descriptorHash st' = ss_descriptorHash st \<or>
       ss_colour st' = Some (otherColour live))"

definition swap_cut :: "nat \<Rightarrow> slot_name \<Rightarrow> colour \<Rightarrow> slot_view \<Rightarrow> slot_view \<Rightarrow> bool" where
  "swap_cut port slot live v v' \<longleftrightarrow> (\<exists>es. sv_trace v' = sv_trace v @ es \<and> set es \<inter> destructive slot = {} \<and>
     serving port slot live es v' \<and> marker_sound port slot live es v' \<and> running_serves v' \<and>
     swap_phase (sv_state v) live (sv_state v'))"

text \<open>What the answer says of the state it leaves.\<close>

definition swap_reply :: "colour \<Rightarrow> string \<Rightarrow> string \<Rightarrow> string \<Rightarrow> slot_name \<Rightarrow> slot_view \<Rightarrow> reply \<Rightarrow> slot_view \<Rightarrow> bool" where
  "swap_reply live host phc hash slot v r v' \<longleftrightarrow> (let tgt = otherColour live in
     r = Reply 200 (PhaseBody Running (Some tgt) None) \<and> ss_phase (sv_state v') = Running \<and>
       ss_colour (sv_state v') = Some tgt \<and> ss_descriptorHash (sv_state v') = Some hash \<and>
       ss_lastHashId (sv_state v') = Some (hashIdOf phc) \<and> ss_trafficBaseline (sv_state v') \<noteq> None \<and>
       \<not> sv_drained v' tgt \<and> sv_drained v' live = (tgt = B \<or> sv_drained v live) \<and>
       sv_entries v' = [\<lparr>se_host = host, se_slot = slot, se_argon2idHash = phc\<rparr>] \<and>
       (\<exists>lease. lease_from v True (hashIdOf phc) lease \<and>
          sv_lease v' = Some (Some \<lparr>lr_slot = slot, lr_lease = lease, lr_hashId = hashIdOf phc\<rparr>)) \<or>
     (\<exists>why. r = Reply 503 (PhaseBody Running (Some live) (Some why))) \<and> ss_phase (sv_state v') = Running \<and>
       ss_colour (sv_state v') = Some live \<and> ss_descriptorHash (sv_state v') = ss_descriptorHash (sv_state v) \<and>
       sv_drained v' live = sv_drained v live \<or>
     (\<exists>why. r = Reply 409 (ErrorBody why)) \<and> same_files v v')"

lemmas swap_defs = swap_cut_def swap_reply_def serving_def marker_sound_def running_serves_def rebuilt_def destructive_def swap_phase_def
  swap_marker_def pre_swap_state_def

lemma attemptColourSwap_vc:
  assumes "ss_phase (sv_state v) = Running" "ss_colour (sv_state v) = Some live" "\<not> sv_drained v live"
  shows "vc slot (attemptColourSwap deps slot (sv_state v) live d host phc hash (hashIdOf phc))
     (\<lambda>r v'. swap_cut (app_port deps slot (otherColour live)) slot live v v' \<and> swap_reply live host phc hash slot v r v')
     (\<lambda>_. swap_cut (app_port deps slot (otherColour live)) slot live v)
     (swap_cut (app_port deps slot (otherColour live)) slot live v) v"
  unfolding attemptColourSwap_def deploy_target_def deploy_colour_def move_traffic_def finish_swap_def isReady_def Let_def
  apply (intro vcg)
  apply (simp_all add: swap_defs assms Let_def)
  using assms(3) apply simp_all
  done

text \<open>Comparisons of swaps look through the lock.\<close>

lemma swap_lock_irrelevant:
  "swap_cut port slot live (v\<lparr>sv_locked := b\<rparr>) = swap_cut port slot live v"
  "swap_cut port slot live v (v'\<lparr>sv_locked := b\<rparr>) = swap_cut port slot live v v'"
  "swap_reply live host phc hash slot (v\<lparr>sv_locked := b\<rparr>) = swap_reply live host phc hash slot v"
  "swap_reply live host phc hash slot v r (v'\<lparr>sv_locked := b\<rparr>) = swap_reply live host phc hash slot v r v'"
  by ((intro ext)?, simp add: swap_cut_def swap_reply_def serving_def marker_sound_def running_serves_def Let_def)+

lemma reconcile_swaps_vc:
  assumes "reconcile_request deps lit body slot d phc" "\<not> sv_locked v"
    and "ss_phase (sv_state v) = Running" "ss_colour (sv_state v) = Some live"
    and "ss_descriptorHash (sv_state v) \<noteq> Some (bd_descriptorHash deps d)" "\<not> sv_drained v live"
  shows "vc slot (handleReconcile deps lit body)
     (\<lambda>r v'. swap_cut (app_port deps slot (otherColour live)) slot live v v' \<and>
        swap_reply live (hostOf_descriptor d (bd_demoZone deps)) phc (bd_descriptorHash deps d) slot v r v')
     (\<lambda>_. swap_cut (app_port deps slot (otherColour live)) slot live v)
     (swap_cut (app_port deps slot (otherColour live)) slot live v) v"
proof -
  have same: "swap_cut port slot live v v" for port
    using assms(3,4,6) by (simp add: swap_defs)
  have locked: "vc slot (reconcile_locked deps slot d phc)
     (\<lambda>r v'. swap_cut (app_port deps slot (otherColour live)) slot live v v' \<and>
        swap_reply live (hostOf_descriptor d (bd_demoZone deps)) phc (bd_descriptorHash deps d) slot v r v')
     (\<lambda>_. swap_cut (app_port deps slot (otherColour live)) slot live v)
     (swap_cut (app_port deps slot (otherColour live)) slot live v) (v\<lparr>sv_locked := True\<rparr>)"
    unfolding reconcile_locked_def Let_def
    apply (rule vc_bindE, rule vc_readSlotState)
    subgoal
      using attemptColourSwap_vc [of "v\<lparr>sv_locked := True\<rparr>" live slot deps d "hostOf_descriptor d (bd_demoZone deps)" phc
          "bd_descriptorHash deps d"] assms(3-6)
      by (simp add: swap_lock_irrelevant)
    by (simp_all add: swap_lock_irrelevant same)
  show ?thesis
    unfolding reconcile_request [OF assms(1)]
    by (rule vc_with_slot_lock) (use assms(2) in \<open>auto intro!: vc_mono [OF locked] simp: swap_lock_irrelevant\<close>)
qed

section \<open>Properties\<close>

text \<open>C1: While a running slot is moved to another descriptor, at every point where the handler can end, with
  any write failing and the process dying anywhere, a colour of the slot serves: the live colour's drain
  flag is clear, or the second colour's is and that colour was started, configured and answered 200 in
  this swap.  The slot is never reset, forgotten or stopped, its state is the swap marker or one of the
  two running states, and if it is the marker with the target's flag clear, or names the target, then the
  target was rebuilt and answered; a state that is running names a colour whose flag is clear.\<close>

theorem swap_always_serves:
  assumes "reconcile_request deps lit body slot d phc" "slot \<notin> set (bk_locks s)"
    and "ss_phase (state_file slot s) = Running" "ss_colour (state_file slot s) = Some live"
    and "ss_descriptorHash (state_file slot s) \<noteq> Some (bd_descriptorHash deps d)" "\<not> bk_drained s slot live"
  shows "swap_cut (app_port deps slot (otherColour live)) slot live (view slot s)
     (view slot (snd (handleReconcile deps lit body s)))"
  by (rule vc_always, rule vc_mono [OF reconcile_swaps_vc [OF assms(1)]]) (use assms in \<open>simp_all add: view_fields\<close>)

lemma swap_always_serves_witness:
  "swap_cut (app_port sample_broker ''3'' (otherColour A)) ''3'' A (view ''3'' (sample_at sample_running))
     (view ''3'' (snd (handleReconcile sample_broker sample_lit JNull (sample_at sample_running))))"
  by (rule swap_always_serves [OF sample_reconcile_request]) (simp_all add: sample_running_def sample_broker_def)

text \<open>The answer of a colour swap is the truth about the state it leaves.  200: the state is running on the
  target with the new descriptor and hash and a traffic baseline, the target's flag is clear, the source's
  is set exactly when the target is the second colour, the slots file holds the new hash under the host,
  and the lease is tied to it and is the old one when the hash has not changed.  503: the state is running
  on the live colour with the old descriptor, and that colour's flag is as it was.  409: no file changed.\<close>

theorem swap_answers_truly:
  assumes "reconcile_request deps lit body slot d phc" "slot \<notin> set (bk_locks s)"
    and "ss_phase (state_file slot s) = Running" "ss_colour (state_file slot s) = Some live"
    and "ss_descriptorHash (state_file slot s) \<noteq> Some (bd_descriptorHash deps d)" "\<not> bk_drained s slot live"
  shows "wp (handleReconcile deps lit body)
     (\<lambda>r s'. swap_reply live (hostOf_descriptor d (bd_demoZone deps)) phc (bd_descriptorHash deps d) slot
        (view slot s) r (view slot s')) (\<lambda>_ _. True) (\<lambda>_. True) s"
proof -
  have "vc slot (handleReconcile deps lit body)
     (\<lambda>r v'. swap_cut (app_port deps slot (otherColour live)) slot live (view slot s) v' \<and>
        swap_reply live (hostOf_descriptor d (bd_demoZone deps)) phc (bd_descriptorHash deps d) slot (view slot s) r v')
     (\<lambda>_. swap_cut (app_port deps slot (otherColour live)) slot live (view slot s))
     (swap_cut (app_port deps slot (otherColour live)) slot live (view slot s)) (view slot s)"
    by (rule reconcile_swaps_vc [OF assms(1)]) (use assms in \<open>simp_all add: view_fields\<close>)
  from vcD [OF this] show ?thesis by (rule wp_mono) blast+
qed

lemma swap_answers_truly_witness:
  "wp (handleReconcile sample_broker sample_lit JNull)
     (\<lambda>r s'. swap_reply A (hostOf_descriptor sample_descriptor (bd_demoZone sample_broker)) ''$argon2id$''
        (bd_descriptorHash sample_broker sample_descriptor) ''3'' (view ''3'' (sample_at sample_running)) r (view ''3'' s'))
     (\<lambda>_ _. True) (\<lambda>_. True) (sample_at sample_running)"
  by (rule swap_answers_truly [OF sample_reconcile_request]) (simp_all add: sample_running_def sample_broker_def)

end
