(* ===== verification/Broker_Frame.thy ===== *)
theory Broker_Frame
  imports Broker_Recovery
begin

text \<open>
  Invariants of the broker's whole state.  The locale \<open>kept\<close> is the contract between an invariant and the
  operations a request is made of; inside it every handler is shown to keep the invariant.  It is
  interpreted twice: for what a request for one slot leaves alone of every other slot, and for the
  uniqueness of slots and hosts in the shared slots file.
\<close>

fun concerns :: "slot_name \<Rightarrow> broker_event \<Rightarrow> bool" where
  "concerns slot (Called s op) = (s = slot)"
| "concerns slot (Returned s op) = (s = slot)"
| "concerns slot (TrafficAnswer s n) = (s = slot)"
| "concerns slot (BatchAnswer s b) = (s = slot)"
| "concerns slot (FlagAnswer s c b) = (s = slot)"
| "concerns slot (ReadyAnswer port b) = False"

section \<open>The contract\<close>

text \<open>\<open>mine\<close> are the slots that may be handled.\<close>

locale kept =
  fixes deps :: "'w broker_deps" and I :: "'w broker \<Rightarrow> bool" and mine :: "slot_name \<Rightarrow> bool"
  assumes settled: "I s \<Longrightarrow> I (settle deps slot w s)"
    and put_state: "mine slot \<Longrightarrow> I s \<Longrightarrow> I (put_state slot st s)"
    and put_lease: "mine slot \<Longrightarrow> I s \<Longrightarrow> I (put_lease slot l s)"
    and put_flag: "mine slot \<Longrightarrow> I s \<Longrightarrow> I (set_flag slot c b s)"
    and marked: "(\<And>slot. concerns slot e \<Longrightarrow> mine slot) \<Longrightarrow> I s \<Longrightarrow> I (s\<lparr>bk_trace := bk_trace s @ [e]\<rparr>)"
    and claimed: "mine slot \<Longrightarrow> I s \<Longrightarrow> I (s\<lparr>bk_locks := slot # bk_locks s\<rparr>)"
    and released: "mine slot \<Longrightarrow> I s \<Longrightarrow> I (s\<lparr>bk_locks := removeAll slot (bk_locks s)\<rparr>)"
    and upserted: "keeps I (upsertSlotEntry deps entry)"
    and removed: "keeps I (removeSlotEntry deps slot)"
begin

lemma k_read: "keeps I (disk_read deps slot f)"
  by (rule keepsI) (simp add: disk_read_def Let_def settled split: prod.split fate.split)

lemma k_write: "(\<And>s. I s \<Longrightarrow> I (upd s)) \<Longrightarrow> keeps I (disk_write deps slot upd)"
  by (rule keepsI) (simp add: disk_write_def Let_def settled split: prod.split fate.split)

lemma k_outside: "keeps I (outside deps slot m)"
  by (rule keepsI) (simp add: outside_def settled split: prod.split outcome.split)

lemma k_mark: "(\<And>slot. concerns slot ev \<Longrightarrow> mine slot) \<Longrightarrow> keeps I (mark ev)"
  unfolding mark_def by (rule keeps_modifyE) (rule marked)

lemma k_crash: "keeps I (\<lambda>s. (Crash, s))"
  by (simp add: keeps_def)

lemma k_claim: "mine slot \<Longrightarrow> keeps I (claim slot)"
  unfolding claim_def by (intro keeps_intros keeps_modifyE claimed)

lemma k_release: "mine slot \<Longrightarrow> keeps I (release slot)"
  unfolding release_def by (intro keeps_modifyE released)

lemma k_two_options:
  "(\<And>a b. keeps I (m a b)) \<Longrightarrow> keeps I n \<Longrightarrow> keeps I (case (x, y) of (Some a, Some b) \<Rightarrow> m a b | _ \<Rightarrow> n)"
  by (cases x; cases y) simp_all

lemma k_exn:
  "(\<And>h s. keeps I (m h s)) \<Longrightarrow> (\<And>e. keeps I (n e)) \<Longrightarrow>
     keeps I (case e of HostConflictError h s \<Rightarrow> m h s | BrokerError e \<Rightarrow> n e)"
  by (cases e) simp_all

lemma k_lift: "keeps I (lift_sum r)"
  by (simp add: lift_sum_def keeps_intros)

lemma k_call: "mine slot \<Longrightarrow> keeps I (slot_call deps slot op m)"
  unfolding slot_call_def by (intro keeps_intros k_mark k_outside) simp_all

lemma k_ask: "(\<And>x slot'. concerns slot' (ev x) \<Longrightarrow> mine slot') \<Longrightarrow> keeps I (slot_ask deps slot ev m)"
  unfolding slot_ask_def by (intro keeps_intros k_mark k_outside)

lemma k_asks:
  "keeps I (slot_ask deps slot (ReadyAnswer port) m)"
  "mine slot \<Longrightarrow> keeps I (slot_ask deps slot (TrafficAnswer slot) m')"
  "mine slot \<Longrightarrow> keeps I (slot_ask deps slot (BatchAnswer slot) m)"
  by (rule k_ask; simp)+

lemma k_files:
  "keeps I (readSlotState deps slot)"
  "mine slot \<Longrightarrow> keeps I (writeSlotState deps slot st)"
  "mine slot \<Longrightarrow> keeps I (flag_set deps slot c)"
  "mine slot \<Longrightarrow> keeps I (flag_clear deps slot c)"
  "mine slot \<Longrightarrow> keeps I (flag_isSet deps slot c)"
  "mine slot \<Longrightarrow> keeps I (disk_write deps slot (put_lease slot l))"
  unfolding readSlotState_def writeSlotState_def flag_set_def flag_clear_def flag_isSet_def
  by (intro keeps_intros k_read k_write k_mark put_state put_flag put_lease; simp)+

lemma k_entries: "keeps I (hostHeldByAnotherSlot deps host slot)" "keeps I (hostOfSlotEntry deps slot)"
  unfolding hostHeldByAnotherSlot_def hostOfSlotEntry_def readEntries_def by (intro keeps_intros k_read)+

lemma k_lease:
  "mine slot \<Longrightarrow> keeps I (writeLeaseAndHash deps host slot phc keep)"
  "mine slot \<Longrightarrow> keeps I (clearLeaseAndHash deps slot)"
  unfolding writeLeaseAndHash_def clearLeaseAndHash_def tiedLeaseOf_def Let_def
  by (intro keeps_intros k_read k_files upserted removed; assumption)+

lemma k_ready: "keeps I (isReady deps slot port)"
  unfolding isReady_def by (rule k_asks)

lemma k_poll: "keeps I (poll_ready deps slot port deadline fuel)"
  by (induction fuel) (auto simp: sleep_def intro!: keeps_intros k_ready k_outside k_crash)

lemma k_wait: "keeps I (waitUntilReady deps slot port ms)"
  unfolding waitUntilReady_def by (intro keeps_intros k_poll)

lemmas k_intros = keeps_intros k_outside k_two_options k_exn k_lift k_call k_asks k_files k_entries k_lease k_ready k_wait

lemma k_lock: "mine slot \<Longrightarrow> keeps I m \<Longrightarrow> keeps I (with_slot_lock slot m)"
  unfolding with_slot_lock_def by (intro k_intros k_claim k_release)

lemma k_wipe:
  assumes "mine slot"
  shows "keeps I (wipe deps slot)"
  unfolding wipe_def forget_def by (intro k_intros assms)

lemma k_deploy_colour:
  assumes "mine slot"
  shows "keeps I (deploy_colour deps slot d c)"
  unfolding deploy_colour_def by (intro k_intros assms)

lemma k_fresh:
  assumes "mine slot"
  shows "keeps I (fresh_deploy deps slot st d host phc hash h)"
  unfolding fresh_deploy_def fresh_attempt_def fresh_failed_def conflict_teardown_def reset_and_retry_def revoke_and_wipe_def
    finish_fresh_def
  by (intro k_intros k_wipe k_deploy_colour assms)

lemma k_swap:
  assumes "mine slot"
  shows "keeps I (attemptColourSwap deps slot st live d host phc hash h)"
  unfolding attemptColourSwap_def deploy_target_def move_traffic_def finish_swap_def Let_def
  by (intro k_intros k_deploy_colour assms)

lemma k_bodies:
  assumes "mine slot"
  shows "keeps I (reconcile_locked deps slot d phc)"
    and "keeps I (stop_locked deps slot)"
    and "keeps I (reset_locked deps slot)"
    and "keeps I (recoverSlot deps b slot)"
  unfolding reconcile_locked_def Let_def stop_locked_def attemptStopOldColour_def refuse_stop_def colour_live_def
    reset_locked_def recoverSlot_def recoverSwapInFlight_def recoverStoppingSlot_def failClosed_def fall_back_def
    adoptTarget_def revertToSource_def isLive_def
  by (intro k_intros k_fresh k_swap k_wipe assms)+

lemma k_status: "keeps I (handleStatus deps lit)"
  unfolding handleStatus_def by (intro k_intros)

text \<open>Where every slot may be handled, every handler and the recovery keep the invariant.\<close>

lemma k_handlers:
  assumes "\<And>slot. mine slot"
  shows "keeps I (handleReconcile deps lit body)" "keeps I (handleStop deps lit)" "keeps I (handleReset deps lit)"
    "keeps I (recoverCrashedSlots deps b slots)"
  unfolding handleReconcile_def handleStop_def handleReset_def recoverCrashedSlots_def
  by (auto intro!: keeps_bindE k_lift keeps_returnE keeps_forE k_lock k_bodies assms split: sum.split gate_spec.split)

end

section \<open>Other slots\<close>

definition untouched :: "slot_name \<Rightarrow> 'w broker \<Rightarrow> 'w broker \<Rightarrow> bool" where
  "untouched slot s0 s \<longleftrightarrow> bk_states s slot = bk_states s0 slot \<and> bk_leases s slot = bk_leases s0 slot \<and>
     bk_drained s slot = bk_drained s0 slot \<and> (slot \<in> set (bk_locks s)) = (slot \<in> set (bk_locks s0)) \<and>
     (\<exists>es. bk_trace s = bk_trace s0 @ es \<and> list_all (\<lambda>e. \<not> concerns slot e) es)"

lemma untouched_refl: "untouched slot s s"
  by (auto simp: untouched_def)

lemma untouched_trans: "untouched slot s0 s1 \<Longrightarrow> untouched slot s1 s2 \<Longrightarrow> untouched slot s0 s2"
  by (auto simp: untouched_def)

lemma untouched_updates:
  "untouched slot s0 s \<Longrightarrow> untouched slot s0 (settle deps slot' w s)"
  "untouched slot s0 s \<Longrightarrow> untouched slot s0 (put_entries es s)"
  "slot' \<noteq> slot \<Longrightarrow> untouched slot s0 s \<Longrightarrow> untouched slot s0 (put_state slot' st s)"
  "slot' \<noteq> slot \<Longrightarrow> untouched slot s0 s \<Longrightarrow> untouched slot s0 (put_lease slot' l s)"
  "slot' \<noteq> slot \<Longrightarrow> untouched slot s0 s \<Longrightarrow> untouched slot s0 (set_flag slot' c b s)"
  by (simp_all add: untouched_def settle_def Let_def put_entries_def put_state_def put_lease_def set_flag_def)

lemma untouched_entries:
  "keeps (untouched slot s0) (upsertSlotEntry deps entry)" "keeps (untouched slot s0) (removeSlotEntry deps slot')"
proof -
  have read: "keeps (untouched slot s0) (readEntries deps slot')" for slot'
    unfolding readEntries_def
    by (rule keepsI) (simp add: disk_read_def Let_def untouched_updates split: prod.split fate.split)
  have put: "keeps (untouched slot s0) (writeEntries deps slot' es)" for slot' es
    unfolding writeEntries_def
    by (rule keepsI) (simp add: disk_write_def Let_def untouched_updates split: prod.split fate.split)
  show "keeps (untouched slot s0) (upsertSlotEntry deps entry)" "keeps (untouched slot s0) (removeSlotEntry deps slot')"
    unfolding upsertSlotEntry_def removeSlotEntry_def Let_def by (intro keeps_intros read put)+
qed

lemma untouched_mark:
  "(\<And>slot'. concerns slot' e \<Longrightarrow> slot' \<noteq> slot) \<Longrightarrow> untouched slot s0 s \<Longrightarrow>
     untouched slot s0 (s\<lparr>bk_trace := bk_trace s @ [e]\<rparr>)"
  unfolding untouched_def by fastforce

interpretation frame: kept deps "untouched slot s0" "\<lambda>slot'. slot' \<noteq> slot" for deps slot s0
  by unfold_locales (simp_all add: untouched_updates untouched_entries untouched_mark, simp_all add: untouched_def)

section \<open>The slots file\<close>

text \<open>Other slots' requests, by the same handlers, keep the table well formed.\<close>

definition others_ok :: "'w broker_deps \<Rightarrow> bool" where
  "others_ok deps \<longleftrightarrow> (\<forall>w es. entries_ok es \<longrightarrow> entries_ok (bd_others deps w es))"

definition table_ok :: "'w broker_deps \<Rightarrow> 'w broker \<Rightarrow> bool" where
  "table_ok deps s \<longleftrightarrow> (others_ok deps \<longrightarrow> entries_ok (bk_entries s))"

lemma table_ok_settle: "table_ok deps s \<Longrightarrow> table_ok deps (settle deps slot w s)"
  by (auto simp: table_ok_def others_ok_def settle_def Let_def)

lemma table_ok_updates:
  "table_ok deps s \<Longrightarrow> table_ok deps (put_state slot st s)" "table_ok deps s \<Longrightarrow> table_ok deps (put_lease slot l s)"
  "table_ok deps s \<Longrightarrow> table_ok deps (set_flag slot c b s)"
  by (simp_all add: table_ok_def put_state_def put_lease_def set_flag_def)

lemma table_ok_read:
  assumes "\<And>es. (others_ok deps \<Longrightarrow> entries_ok es) \<Longrightarrow> keeps (table_ok deps) (f es)"
  shows "keeps (table_ok deps) (bindE (readEntries deps slot) f)"
proof (rule keepsI)
  fix s assume "table_ok deps s"
  then have ok: "table_ok deps (settle deps slot w s)" for w by (rule table_ok_settle)
  then have "others_ok deps \<Longrightarrow> entries_ok (bk_entries (settle deps slot w s))" for w by (simp add: table_ok_def)
  then have "keeps (table_ok deps) (f (bk_entries (settle deps slot w s)))" for w by (rule assms)
  then show "table_ok deps (snd (bindE (readEntries deps slot) f s))"
    using ok by (auto simp: bindE_def readEntries_def disk_read_def Let_def keeps_def split: prod.splits fate.splits)
qed

lemma table_ok_put:
  assumes "others_ok deps \<Longrightarrow> entries_ok es"
  shows "keeps (table_ok deps) (writeEntries deps slot es)"
proof (rule keepsI)
  fix s assume "table_ok deps s"
  moreover have "settle (quiet_deps deps) slot w s = s\<lparr>bk_w := w\<rparr>" for w by (simp add: settle_def quiet_deps_def)
  ultimately show "table_ok deps (snd (writeEntries deps slot es s))"
    using assms by (simp add: writeEntries_def disk_write_def Let_def table_ok_def put_entries_def split: prod.split fate.split)
qed

lemma table_ok_entries:
  "keeps (table_ok deps) (upsertSlotEntry deps entry)" "keeps (table_ok deps) (removeSlotEntry deps slot)"
proof -
  have "keeps (table_ok deps) (case upsert_entries entry es of Inl holder \<Rightarrow> throwE (HostConflictError (se_host entry) holder)
      | Inr nxt \<Rightarrow> writeEntries deps (se_slot entry) nxt)" if "others_ok deps \<Longrightarrow> entries_ok es" for es
    using that by (auto intro!: keeps_throwE table_ok_put dest: entries_ok_upsert(1) split: sum.split)
  then show "keeps (table_ok deps) (upsertSlotEntry deps entry)"
    unfolding upsertSlotEntry_def by (rule table_ok_read)
  show "keeps (table_ok deps) (removeSlotEntry deps slot)"
    unfolding removeSlotEntry_def Let_def
    by (intro table_ok_read keeps_whenE table_ok_put) (simp add: entries_ok_filter)
qed

interpretation table: kept deps "table_ok deps" "\<lambda>_. True" for deps
  by unfold_locales (simp_all add: table_ok_settle table_ok_updates table_ok_entries, simp_all add: table_ok_def)

end
