(* ===== verification/Broker_Recovered.thy ===== *)
theory Broker_Recovered
  imports Broker_Swap Broker_Frame
begin

text \<open>
  What boot recovery makes of a slot whose handler died: no phase that only a running handler holds is
  left, a slot is given back as running only on a colour that was just seen to serve, and a swap that died
  anywhere is adopted only where its target had been rebuilt.
\<close>

section \<open>Where the recovery of a swap can end\<close>

text \<open>The state names a colour whose flag is clear and which has just answered 200.\<close>

definition settled_on :: "nat \<Rightarrow> colour \<Rightarrow> broker_event list \<Rightarrow> slot_state \<Rightarrow> (colour \<Rightarrow> bool) \<Rightarrow> bool" where
  "settled_on port c es st drained \<longleftrightarrow> ss_phase st = Running \<and> ss_colour st = Some c \<and> \<not> drained c \<and>
     ReadyAnswer port True \<in> set es"

text \<open>From state \<open>st\<close> and flags \<open>dr\<close>, with events \<open>es\<close>, to \<open>st'\<close> and \<open>dr'\<close>.\<close>

definition swap_outcome :: "'w broker_deps \<Rightarrow> slot_name \<Rightarrow> slot_state \<Rightarrow> (colour \<Rightarrow> bool) \<Rightarrow> broker_event list
    \<Rightarrow> slot_state \<Rightarrow> (colour \<Rightarrow> bool) \<Rightarrow> bool" where
  "swap_outcome deps slot st dr es st' dr' \<longleftrightarrow> set es \<inter> destructive slot = {} \<and>
     (ss_phase st' = Error \<and> dr' = dr \<or>
      (\<exists>tgt. ss_swapTarget st = Some tgt \<and> \<not> dr tgt \<and> settled_on (app_port deps slot tgt) tgt es st' dr' \<and>
         ss_descriptorHash st' = ss_swapDescriptorHash st \<and>
         ss_lastHashId st' = (case ss_swapHashId st of None \<Rightarrow> ss_lastHashId st | Some h \<Rightarrow> Some h)) \<or>
      (\<exists>source tgt. ss_colour st = Some source \<and> ss_swapTarget st = Some tgt \<and>
         settled_on (app_port deps slot source) source es st' dr' \<and> dr' tgt \<and>
         ss_descriptorHash st' = ss_descriptorHash st \<and> ss_lastHashId st' = ss_lastHashId st))"

definition swap_recovered :: "'w broker_deps \<Rightarrow> slot_name \<Rightarrow> slot_view \<Rightarrow> slot_view \<Rightarrow> bool" where
  "swap_recovered deps slot v v' \<longleftrightarrow> (\<exists>es. sv_trace v' = sv_trace v @ es \<and>
     swap_outcome deps slot (sv_state v) (sv_drained v) es (sv_state v') (sv_drained v'))"

text \<open>A recovery cut short leaves the marker for the next one, or is complete, and never drains the last colour.\<close>

definition swap_recovery_cut :: "'w broker_deps \<Rightarrow> slot_name \<Rightarrow> slot_view \<Rightarrow> slot_view \<Rightarrow> bool" where
  "swap_recovery_cut deps slot v v' \<longleftrightarrow>
     (\<exists>es. sv_trace v' = sv_trace v @ es \<and> set es \<inter> destructive slot = {}) \<and>
     (sv_file v' = sv_file v \<or> swap_recovered deps slot v v') \<and>
     ((\<exists>c. \<not> sv_drained v c) \<longrightarrow> (\<exists>c. \<not> sv_drained v' c))"

lemma errorStateOf_fields [simp]:
  "ss_phase (errorStateOf st) = Error" "ss_lastHashId (errorStateOf st) = ss_lastHashId st"
  "ss_evidence (errorStateOf st) = ss_evidence st" "ss_colour (errorStateOf st) = None"
  by (simp_all add: errorStateOf_def split: option.split)

text \<open>Events that are answers only.\<close>

fun is_answer :: "broker_event \<Rightarrow> bool" where
  "is_answer (Called slot op) = False"
| "is_answer (Returned slot op) = False"
| "is_answer _ = True"

definition asked :: "broker_event list \<Rightarrow> bool" where
  "asked es \<longleftrightarrow> list_all is_answer es"

lemma asked_simps [simp]:
  "asked []" "asked (e # es) \<longleftrightarrow> is_answer e \<and> asked es" "asked (es @ es') \<longleftrightarrow> asked es \<and> asked es'"
  "asked (map (ReadyAnswer port) bs)"
  by (auto simp: asked_def list_all_iff)

lemma asked_not [simp]: "asked es \<Longrightarrow> Called slot op \<notin> set es"
  by (auto simp: asked_def list_all_iff)

lemma vc_isLive [vcg]:
  assumes "\<And>es. asked es \<Longrightarrow> Q False (v\<lparr>sv_trace := sv_trace v @ es\<rparr>)"
    and "\<And>es. asked es \<Longrightarrow> \<not> sv_drained v c \<Longrightarrow> ReadyAnswer (app_port deps slot c) True \<in> set es \<Longrightarrow>
      Q True (v\<lparr>sv_trace := sv_trace v @ es\<rparr>)"
    and "\<And>e es. asked es \<Longrightarrow> E (BrokerError e) (v\<lparr>sv_trace := sv_trace v @ es\<rparr>)"
    and "\<And>es. asked es \<Longrightarrow> C (v\<lparr>sv_trace := sv_trace v @ es\<rparr>)"
  shows "vc slot (isLive deps slot c) Q E C v"
proof -
  let ?p = "app_port deps slot c"
  have ends: "Q b (v\<lparr>sv_trace := sv_trace v @ FlagAnswer slot c False # map (ReadyAnswer ?p) bs\<rparr>)"
    if "\<not> sv_drained v c" "b \<Longrightarrow> True \<in> set bs" for b bs
    using that assms(1) [of "FlagAnswer slot c False # map (ReadyAnswer ?p) bs"]
      assms(2) [of "FlagAnswer slot c False # map (ReadyAnswer ?p) bs"] by (cases b) auto
  have thrown: "E (BrokerError e) (v\<lparr>sv_trace := sv_trace v @ FlagAnswer slot c False # map (ReadyAnswer ?p) bs\<rparr>)" for e bs
    using assms(3) [of "FlagAnswer slot c False # map (ReadyAnswer ?p) bs"] by simp
  have died: "C (v\<lparr>sv_trace := sv_trace v @ FlagAnswer slot c False # map (ReadyAnswer ?p) bs\<rparr>)" for bs
    using assms(4) [of "FlagAnswer slot c False # map (ReadyAnswer ?p) bs"] by simp
  have early: "C v" "Q False (v\<lparr>sv_trace := sv_trace v @ [FlagAnswer slot c True]\<rparr>)"
    using assms(4) [of "[]"] assms(1) [of "[FlagAnswer slot c True]"] by simp_all
  show ?thesis
    unfolding isLive_def
    by (intro vcg) (simp_all add: ends thrown died early)
qed

lemma recoverSwapInFlight_vc:
  assumes "ss_swapTarget (sv_state v) = map_option otherColour (ss_colour (sv_state v))"
  shows "vc slot (recoverSwapInFlight deps slot (sv_state v)) (\<lambda>_. swap_recovered deps slot v)
     (\<lambda>_. swap_recovery_cut deps slot v) (swap_recovery_cut deps slot v) v"
proof (cases "ss_colour (sv_state v)")
  case None
  then show ?thesis
    using assms unfolding recoverSwapInFlight_def failClosed_def
    apply simp
    apply (intro vcg)
    apply (simp_all add: swap_recovered_def swap_outcome_def swap_recovery_cut_def)
    done
next
  case (Some source)
  show ?thesis
    using assms unfolding recoverSwapInFlight_def failClosed_def fall_back_def revertToSource_def adoptTarget_def
      isReady_def Some
    apply (simp split del: if_split)
    apply (intro vcg)
    apply (simp_all add: Some swap_recovered_def swap_outcome_def swap_recovery_cut_def settled_on_def destructive_def adopted_state_def
      pre_swap_state_def)
    apply (use otherColour_neq(1) [of source] otherColour_neq(1) [of source, symmetric] in \<open>blast\<close>)+
    done
qed

section \<open>Recovering one slot\<close>

definition stop_outcome :: "'w broker_deps \<Rightarrow> slot_name \<Rightarrow> slot_state \<Rightarrow> broker_event list \<Rightarrow> slot_state \<Rightarrow> (colour \<Rightarrow> bool) \<Rightarrow> bool" where
  "stop_outcome deps slot st es st' dr' \<longleftrightarrow>
     ss_phase st' = Error \<and> set es \<inter> destructive slot = {} \<or>
     (\<exists>c. ss_colour st = Some c \<and> settled_on (app_port deps slot c) c es st' dr' \<and> ss_oldColourStopped st' \<and>
        ss_descriptorHash st' = ss_descriptorHash st \<and> Returned slot (OpStop (otherColour c)) \<in> set es)"

definition slot_outcome :: "'w broker_deps \<Rightarrow> slot_name \<Rightarrow> slot_state \<Rightarrow> (colour \<Rightarrow> bool) \<Rightarrow> broker_event list
    \<Rightarrow> slot_state \<Rightarrow> lease_content option \<Rightarrow> (colour \<Rightarrow> bool) \<Rightarrow> bool" where
  "slot_outcome deps slot st dr es st' lease' dr' \<longleftrightarrow> (case ss_phase st of
       Swapping \<Rightarrow> swap_outcome deps slot st dr es st' dr'
     | Stopping \<Rightarrow> stop_outcome deps slot st es st' dr'
     | Resetting \<Rightarrow> ss_phase st' = Error \<and> lease' = None
     | Preparing \<Rightarrow> ss_phase st' = Error
     | _ \<Rightarrow> st' = st \<and> dr' = dr \<and> set es \<inter> destructive slot = {})"

definition slot_recovered :: "'w broker_deps \<Rightarrow> slot_name \<Rightarrow> slot_view \<Rightarrow> slot_view \<Rightarrow> bool" where
  "slot_recovered deps slot v v' \<longleftrightarrow> (\<exists>es. sv_trace v' = sv_trace v @ es \<and>
     slot_outcome deps slot (sv_state v) (sv_drained v) es (sv_state v') (sv_lease v') (sv_drained v'))"

definition marker_ok :: "slot_state \<Rightarrow> bool" where
  "marker_ok st \<longleftrightarrow> (ss_phase st = Swapping \<longrightarrow> ss_swapTarget st = map_option otherColour (ss_colour st))"

lemma recoverStopping_vc:
  "vc slot (recoverStoppingSlot deps slot (sv_state v))
     (\<lambda>_ v'. \<exists>es. sv_trace v' = sv_trace v @ es \<and> stop_outcome deps slot (sv_state v) es (sv_state v') (sv_drained v'))
     (\<lambda>_ _. True) (\<lambda>_. True) v"
  unfolding recoverStoppingSlot_def failClosed_def colour_live_def isReady_def
  apply (intro vcg)
  apply (simp_all add: stop_outcome_def destructive_def settled_on_def stopped_state_def)
  done

lemma recoverSlot_vc:
  assumes "marker_ok (sv_state v)"
  shows "vc slot (recoverSlot deps b slot) (\<lambda>_. slot_recovered deps slot v) (\<lambda>_ _. True) (\<lambda>_. True) v"
proof -
  let ?st = "sv_state v"
  have swap: "vc slot (recoverSwapInFlight deps slot ?st) (\<lambda>_. slot_recovered deps slot v) (\<lambda>_ _. True) (\<lambda>_. True) v"
    if "ss_phase ?st = Swapping"
    by (rule vc_mono [OF recoverSwapInFlight_vc])
      (use that assms in \<open>auto simp: marker_ok_def slot_recovered_def slot_outcome_def swap_recovered_def\<close>)
  have stop: "vc slot (recoverStoppingSlot deps slot ?st) (\<lambda>_. slot_recovered deps slot v) (\<lambda>_ _. True) (\<lambda>_. True) v"
    if "ss_phase ?st = Stopping"
    by (rule vc_mono [OF recoverStopping_vc]) (use that in \<open>auto simp: slot_recovered_def slot_outcome_def\<close>)
  show ?thesis
    unfolding recoverSlot_def failClosed_def
    apply (rule vc_bindE, rule vc_readSlotState)
      apply (rule vc_if, erule swap, rule vc_if, rule vc_if, erule stop)
      apply (intro vcg; simp add: slot_recovered_def slot_outcome_def stop_outcome_def destructive_def)
     apply (cases "ss_phase ?st"; intro vcg; simp add: slot_recovered_def slot_outcome_def destructive_def LOCK_HELD_PHASES_def)
    by simp_all
qed

section \<open>Recovering them all\<close>

lemma destructive_concerns: "e \<in> destructive slot \<Longrightarrow> concerns slot e"
  by (auto simp: destructive_def)

lemma not_destructive: "list_all (\<lambda>e. \<not> concerns slot e) es \<Longrightarrow> set es \<inter> destructive slot = {}"
  by (auto simp: list_all_iff dest: destructive_concerns)

lemma settled_on_mono: "settled_on port c es st dr \<Longrightarrow> set es \<subseteq> set es' \<Longrightarrow> settled_on port c es' st dr"
  by (auto simp: settled_on_def)

lemma slot_outcome_mono:
  assumes "slot_outcome deps slot st dr es st' lease' dr'"
    and d: "set es \<inter> destructive slot = {} \<Longrightarrow> set es' \<inter> destructive slot = {}" and m: "set es \<subseteq> set es'"
  shows "slot_outcome deps slot st dr es' st' lease' dr'"
proof -
  have swap: "swap_outcome deps slot st dr es' st' dr'" if "swap_outcome deps slot st dr es st' dr'"
    using that d settled_on_mono [OF _ m] unfolding swap_outcome_def by blast
  have stop: "stop_outcome deps slot st es' st' dr'" if "stop_outcome deps slot st es st' dr'"
    using that d m settled_on_mono [OF _ m] unfolding stop_outcome_def by blast
  from assms(1) d swap stop show ?thesis
    unfolding slot_outcome_def by (cases "ss_phase st") simp_all
qed

lemma slot_outcome_frame:
  assumes "slot_outcome deps slot st dr es st' lease' dr'"
    and "list_all (\<lambda>e. \<not> concerns slot e) es0" "list_all (\<lambda>e. \<not> concerns slot e) es1"
  shows "slot_outcome deps slot st dr (es0 @ es @ es1) st' lease' dr'"
  by (rule slot_outcome_mono [OF assms(1)])
    (use not_destructive [OF assms(2)] not_destructive [OF assms(3)] in \<open>auto simp: Int_Un_distrib2\<close>)

lemma slot_recovered_frame:
  assumes "untouched slot s0 s1" "slot_recovered deps slot (view slot s1) (view slot s2)" "untouched slot s2 s3"
  shows "slot_recovered deps slot (view slot s0) (view slot s3)"
proof -
  obtain es0 where es0: "bk_trace s1 = bk_trace s0 @ es0" "list_all (\<lambda>e. \<not> concerns slot e) es0"
    using assms(1) by (auto simp: untouched_def)
  obtain es1 where es1: "bk_trace s3 = bk_trace s2 @ es1" "list_all (\<lambda>e. \<not> concerns slot e) es1"
    using assms(3) by (auto simp: untouched_def)
  have same: "sv_state (view slot s1) = sv_state (view slot s0)" "sv_drained (view slot s1) = sv_drained (view slot s0)"
    "sv_state (view slot s3) = sv_state (view slot s2)" "sv_drained (view slot s3) = sv_drained (view slot s2)"
    "sv_lease (view slot s3) = sv_lease (view slot s2)"
    using assms(1,3) by (simp_all add: untouched_def view_def sv_state_def)
  obtain es where es: "bk_trace s2 = bk_trace s1 @ es" "slot_outcome deps slot (sv_state (view slot s0)) (sv_drained (view slot s0)) es
      (sv_state (view slot s2)) (sv_lease (view slot s2)) (sv_drained (view slot s2))"
    using assms(2) by (auto simp: slot_recovered_def same) (auto simp: view_def)
  from slot_outcome_frame [OF this(2) es0(2) es1(2)] show ?thesis
    unfolding slot_recovered_def same
    by (intro exI [of _ "es0 @ es @ es1"]) (simp add: view_def es0 es1 es(1))
qed

lemma recover_all:
  assumes "distinct slots" "slot \<in> set slots" "marker_ok (state_file slot s)"
  shows "wp (recoverCrashedSlots deps b slots) (\<lambda>_ s'. slot_recovered deps slot (view slot s) (view slot s'))
     (\<lambda>_ _. True) (\<lambda>_. True) s"
  using assms unfolding recoverCrashedSlots_def
proof (induction slots arbitrary: s)
  case (Cons x slots)
  show ?case
  proof (cases "x = slot")
    case True
    then have "slot \<notin> set slots" using Cons.prems(1) by simp
    then have rest: "keeps (untouched slot s1) (forE slots (recoverSlot deps b))" for s1
      by (intro keeps_intros frame.k_bodies) auto
    have after: "wp (forE slots (recoverSlot deps b)) (\<lambda>_ s'. slot_recovered deps slot (view slot s) (view slot s'))
        (\<lambda>_ _. True) (\<lambda>_. True) s1" if "slot_recovered deps slot (view slot s) (view slot s1)" for s1
      by (rule wp_mono [OF keeps_wpD [OF rest untouched_refl]])
        (simp_all add: slot_recovered_frame [OF untouched_refl that])
    have "vc slot (recoverSlot deps b slot) (\<lambda>_. slot_recovered deps slot (view slot s)) (\<lambda>_ _. True) (\<lambda>_. True) (view slot s)"
      by (rule recoverSlot_vc) (use Cons.prems(3) in \<open>simp add: view_fields\<close>)
    from vcD [OF this] show ?thesis
      unfolding True forE.simps wp_thenE by (rule wp_mono) (simp_all add: after)
  next
    case False
    have "wp (recoverSlot deps b x) (\<lambda>_. untouched slot s) (\<lambda>_. untouched slot s) (untouched slot s) s"
      using keeps_wpD [OF frame.k_bodies(4) [OF False] untouched_refl] .
    then show ?thesis
      unfolding forE.simps wp_thenE
    proof (rule wp_mono)
      fix s1 assume u: "untouched slot s s1"
      then have "marker_ok (state_file slot s1)"
        using Cons.prems(3) by (simp add: untouched_def state_file_def)
      then have "wp (forE slots (recoverSlot deps b)) (\<lambda>_ s'. slot_recovered deps slot (view slot s1) (view slot s'))
          (\<lambda>_ _. True) (\<lambda>_. True) s1"
        by (intro Cons.IH) (use Cons.prems False in auto)
      then show "wp (forE slots (recoverSlot deps b)) (\<lambda>_ s'. slot_recovered deps slot (view slot s) (view slot s'))
          (\<lambda>_ _. True) (\<lambda>_. True) s1"
        by (rule wp_mono) (simp_all add: slot_recovered_frame [OF u _ untouched_refl])
    qed simp_all
  qed
qed simp

end
