(* ===== verification/Broker_Crash.thy ===== *)
theory Broker_Crash
  imports Broker_Recovered
begin

text \<open>
  A swap and the recovery after it, composed: the process dies anywhere in \<open>attemptColourSwap\<close>, boots
  again with no locks held, and runs \<open>recoverCrashedSlots\<close>.
\<close>

definition reboot :: "'w broker \<Rightarrow> 'w broker" where
  "reboot s = s\<lparr>bk_locks := []\<rparr>"

lemma reboot_fields [simp]:
  "state_file slot (reboot s) = state_file slot s" "bk_drained (reboot s) = bk_drained s"
  "bk_trace (reboot s) = bk_trace s" "bk_leases (reboot s) = bk_leases s"
  by (simp_all add: reboot_def state_file_def)

text \<open>What is left of a swap from \<open>live\<close> once recovery has run, \<open>es\<close> all its events and the recovery's.\<close>

definition swap_settled :: "nat \<Rightarrow> slot_name \<Rightarrow> colour \<Rightarrow> slot_state \<Rightarrow> broker_event list \<Rightarrow> slot_state \<Rightarrow> (colour \<Rightarrow> bool) \<Rightarrow> bool" where
  "swap_settled port slot live st es st' dr' \<longleftrightarrow> set es \<inter> destructive slot = {} \<and>
     (ss_phase st' = Error \<or>
      ss_phase st' = Running \<and> (\<exists>c. ss_colour st' = Some c \<and> \<not> dr' c \<and>
        (c = live \<and> ss_descriptorHash st' = ss_descriptorHash st \<or>
         c = otherColour live \<and> rebuilt port slot c es)))"

lemma swap_cut_marker_ok: "swap_cut port slot live v v' \<Longrightarrow> marker_ok (sv_state v')"
  by (auto simp: swap_cut_def swap_phase_def marker_ok_def)

lemma swap_then_recovery:
  assumes cut: "swap_cut port slot live v v1"
    and out: "slot_outcome deps slot (sv_state v1) (sv_drained v1) es2 st' lease' dr'"
    and es: "sv_trace v1 = sv_trace v @ es1"
  shows "swap_settled port slot live (sv_state v) (es1 @ es2) st' dr'"
proof -
  from cut es have c: "set es1 \<inter> destructive slot = {}" "marker_sound port slot live es1 v1" "running_serves v1"
      "swap_phase (sv_state v) live (sv_state v1)"
    by (auto simp: swap_cut_def)
  have more: "rebuilt port slot c (es1 @ es2)" if "rebuilt port slot c es1" for c
    using that by (auto simp: rebuilt_def)
  from c(4) consider
      (marker) "ss_phase (sv_state v1) = Swapping" "ss_colour (sv_state v1) = Some live"
        "ss_swapTarget (sv_state v1) = Some (otherColour live)" "ss_descriptorHash (sv_state v1) = ss_descriptorHash (sv_state v)"
    | (run) "ss_phase (sv_state v1) = Running"
        "ss_colour (sv_state v1) = Some live \<and> ss_descriptorHash (sv_state v1) = ss_descriptorHash (sv_state v) \<or>
         ss_colour (sv_state v1) = Some (otherColour live)"
    by (auto simp: swap_phase_def)
  then show ?thesis
  proof cases
    case marker
    have "rebuilt port slot (otherColour live) (es1 @ es2)" if "\<not> sv_drained v1 (otherColour live)"
      using c(2) marker(1) that more by (simp add: marker_sound_def)
    with out marker c(1) show ?thesis
      by (auto simp: slot_outcome_def swap_outcome_def swap_settled_def settled_on_def)
  next
    case run
    with out have "st' = sv_state v1" "dr' = sv_drained v1" "set es2 \<inter> destructive slot = {}"
      by (simp_all add: slot_outcome_def)
    with run c more show ?thesis
      by (auto simp: running_serves_def marker_sound_def swap_settled_def)
  qed
qed

section \<open>Properties\<close>

text \<open>C3: A swap that dies anywhere is repaired by the boot recovery that follows.  When the recovery returns,
  the slot is running on a colour whose drain flag is clear, the old colour with the old descriptor or the
  new colour, which was then started, configured and answered 200 before the crash; or it is in \<open>error\<close>.
  Neither the swap nor the recovery reset, forgot or stopped the slot.\<close>

theorem crashed_swap_recovers:
  assumes "reconcile_request deps lit body slot d phc" "slot \<notin> set (bk_locks s)"
    and "ss_phase (state_file slot s) = Running" "ss_colour (state_file slot s) = Some live"
    and "ss_descriptorHash (state_file slot s) \<noteq> Some (bd_descriptorHash deps d)" "\<not> bk_drained s slot live"
    and "distinct slots" "slot \<in> set slots"
  shows "wp (recoverCrashedSlots deps b slots)
     (\<lambda>_ s'. \<exists>es. bk_trace s' = bk_trace s @ es \<and>
        swap_settled (app_port deps slot (otherColour live)) slot live (state_file slot s) es
          (state_file slot s') (bk_drained s' slot))
     (\<lambda>_ _. True) (\<lambda>_. True) (reboot (snd (handleReconcile deps lit body s)))"
proof -
  let ?s1 = "snd (handleReconcile deps lit body s)" and ?port = "app_port deps slot (otherColour live)"
  have cut: "swap_cut ?port slot live (view slot s) (view slot ?s1)"
    by (rule vc_always, rule vc_mono [OF reconcile_swaps_vc [OF assms(1)]]) (use assms in \<open>simp_all add: view_fields\<close>)
  then obtain es1 where es1: "bk_trace ?s1 = bk_trace s @ es1" by (auto simp: swap_cut_def view_def)
  have "state_file slot (reboot ?s1) = sv_state (view slot ?s1)"
    by (simp add: view_def sv_state_def state_file_def reboot_def)
  then have "marker_ok (state_file slot (reboot ?s1))"
    using swap_cut_marker_ok [OF cut] by simp
  from recover_all [OF assms(7,8) this, of deps b] show ?thesis
  proof (rule wp_mono)
    fix s' assume "slot_recovered deps slot (view slot (reboot ?s1)) (view slot s')"
    then obtain es2 where es2: "bk_trace s' = bk_trace ?s1 @ es2"
        "slot_outcome deps slot (sv_state (view slot ?s1)) (sv_drained (view slot ?s1)) es2
           (state_file slot s') (bk_leases s' slot) (bk_drained s' slot)"
      by (auto simp: slot_recovered_def view_def sv_state_def state_file_def reboot_def)
    from swap_then_recovery [OF cut this(2), of es1] es1
    have "swap_settled ?port slot live (state_file slot s) (es1 @ es2) (state_file slot s') (bk_drained s' slot)"
      by (simp add: view_def sv_state_def state_file_def)
    with es1 es2(1) show "\<exists>es. bk_trace s' = bk_trace s @ es \<and>
        swap_settled ?port slot live (state_file slot s) es (state_file slot s') (bk_drained s' slot)"
      by (intro exI [of _ "es1 @ es2"]) simp
  qed simp_all
qed

text \<open>The sample broker, its process dying after its sixth file operation: the marker is on disk.\<close>

definition sample_crash :: "nat broker_deps" where
  "sample_crash = sample_broker\<lparr>bd_fate := (\<lambda>w. (if w = 5 then CrashAfter else Proceed, w + 1))\<rparr>"

lemma crashed_swap_recovers_witness:
  "wp (recoverCrashedSlots sample_crash True [''3'', ''4''])
     (\<lambda>_ s'. \<exists>es. bk_trace s' = bk_trace (sample_at sample_running) @ es \<and>
        swap_settled (app_port sample_crash ''3'' (otherColour A)) ''3'' A (state_file ''3'' (sample_at sample_running)) es
          (state_file ''3'' s') (bk_drained s' ''3''))
     (\<lambda>_ _. True) (\<lambda>_. True) (reboot (snd (handleReconcile sample_crash sample_lit JNull (sample_at sample_running))))"
proof -
  have "reconcile_request sample_crash sample_lit JNull ''3'' sample_descriptor ''$argon2id$''"
    using sample_reconcile_request by (simp add: reconcile_request_def sample_crash_def)
  then show ?thesis
    by (rule crashed_swap_recovers) (simp_all add: sample_running_def sample_crash_def sample_broker_def)
qed

text \<open>
  Recovery takes a source that does not answer for one that was drained: it adopts the second colour while
  the first one's flag is still clear, so that the edge goes back to the first as soon as it answers.
\<close>

definition sample_slow_source :: "nat broker_deps" where
  "sample_slow_source = sample_broker\<lparr>bd_isReady := (\<lambda>port. returnE (port = 7)), bd_appPortBase := 0,
     bd_readyPollTimeoutMs := 0, bd_fuel := 1\<rparr>"

definition sample_both_clear :: "nat broker" where
  "sample_both_clear = (sample_at (swap_marker sample_running A ''new'' ''h''))\<lparr>bk_drained := (\<lambda>_ _. False)\<rparr>"

lemma recovery_adopts_beside_undrained_source:
  "wp (recoverSlot sample_slow_source True ''3'') (\<lambda>_ s'. ss_phase (state_file ''3'' s') = Running \<and>
      ss_colour (state_file ''3'' s') = Some B \<and> \<not> bk_drained s' ''3'' A) (\<lambda>_ _. False) (\<lambda>_. False) sample_both_clear"
proof -
  have c: "calm sample_slow_source" "bd_appPortBase sample_slow_source = 0" "bd_readyPollTimeoutMs sample_slow_source = 0"
      "bd_isReady sample_slow_source = (\<lambda>port. returnE (port = 7))" "bd_fuel sample_slow_source = Suc 0"
    by (simp_all add: calm_def sample_slow_source_def sample_broker_def)
  have d: "state_file ''3'' sample_both_clear = swap_marker sample_running A ''new'' ''h''" "bk_drained sample_both_clear = (\<lambda>_ _. False)"
      "slot_number ''3'' = 3"
    by (simp_all add: sample_both_clear_def sample_at_def state_file_def slot_number_def number_of_digits_def digit_val_def digits_def)
  show ?thesis
    by (simp add: calm_wp c d recoverSlot_def readSlotState_def writeSlotState_def recoverSwapInFlight_def isLive_def
        flag_isSet_def waitUntilReady_def isReady_def slot_ask_def adoptTarget_def app_port_def slotPort_def swap_marker_def)
      (simp add: d state_file_def put_state_def adopted_state_def carried_def)
qed

end
