(* ===== verification/Broker_Deploy.thy ===== *)
theory Broker_Deploy
  imports Broker_Reset "HOL-Library.Sublist"
begin

text \<open>
  Deploying into a free slot: the first attempt, the teardown after a host conflict, the one retry behind a
  wipe; the replay of a reconcile that is already done; and the lock.
\<close>

section \<open>What a deploy asks of the outside\<close>

definition called :: "slot_name \<Rightarrow> slot_op \<Rightarrow> broker_event list" where
  "called slot op = [Called slot op, Returned slot op]"

text \<open>One full attempt, and one full wipe; \<open>forget\<close> is optional.\<close>

definition deploy_calls :: "'w broker_deps \<Rightarrow> slot_name \<Rightarrow> broker_event list" where
  "deploy_calls deps slot = called slot OpRender @ called slot OpArtefacts @ called slot (OpStart A) @
     called slot (OpConfigure (app_port deps slot A))"

definition wipe_calls :: "'w broker_deps \<Rightarrow> slot_name \<Rightarrow> broker_event list" where
  "wipe_calls deps slot = (if bd_forget deps = None then [] else called slot OpForget) @ called slot OpReset"

lemmas call_defs = called_def deploy_calls_def wipe_calls_def

lemma wipe_calls_end: "wipe_calls deps slot \<noteq> []" "Returned slot OpReset \<in> set (wipe_calls deps slot)"
  by (simp_all add: call_defs)

section \<open>One attempt\<close>

text \<open>The gate will admit the new hash only: its entry, and a lease made for it.\<close>

definition admits_only :: "slot_name \<Rightarrow> string \<Rightarrow> string \<Rightarrow> slot_view \<Rightarrow> bool" where
  "admits_only slot host phc v \<longleftrightarrow> sv_entries v = [\<lparr>se_host = host, se_slot = slot, se_argon2idHash = phc\<rparr>] \<and>
     (\<exists>lease now rnd. generateLeaseId now rnd = Inr lease \<and>
        sv_lease v = Some (Some \<lparr>lr_slot = slot, lr_lease = lease, lr_hashId = hashIdOf phc\<rparr>))"

lemma admits_only_file [simp]:
  "admits_only slot host phc (v\<lparr>sv_file := st\<rparr>) = admits_only slot host phc v"
  "admits_only slot host phc (v\<lparr>sv_locked := b\<rparr>) = admits_only slot host phc v"
  by (simp_all add: admits_only_def)

definition attempted :: "'w broker_deps \<Rightarrow> slot_name \<Rightarrow> string \<Rightarrow> string \<Rightarrow> slot_view \<Rightarrow> slot_view \<Rightarrow> bool" where
  "attempted deps slot host phc v v' \<longleftrightarrow> sv_file v' = sv_file v \<and> sv_trace v' = sv_trace v @ deploy_calls deps slot \<and>
     sv_drained v' = (sv_drained v)(A := False) \<and> admits_only slot host phc v'"

text \<open>An attempt cut short: a prefix of its calls, made only while colour A is drained.\<close>

definition attempt_cut :: "'w broker_deps \<Rightarrow> slot_name \<Rightarrow> broker_event list \<Rightarrow> slot_view \<Rightarrow> slot_view \<Rightarrow> bool" where
  "attempt_cut deps slot p v v' \<longleftrightarrow> prefix p (deploy_calls deps slot) \<and> sv_file v' = sv_file v \<and>
     sv_trace v' = sv_trace v @ p \<and> sv_drained v' B = sv_drained v B \<and>
     (p \<noteq> deploy_calls deps slot \<longrightarrow> sv_entries v' = sv_entries v \<and> sv_lease v' = sv_lease v \<and>
        (p \<noteq> [] \<longrightarrow> sv_drained v' A))"

lemma fresh_attempt_vc:
  "vc slot (fresh_attempt deps slot d host phc) (\<lambda>_. attempted deps slot host phc v)
     (\<lambda>e v'. \<exists>p. attempt_cut deps slot p v v' \<and>
        (\<forall>h holder. e = HostConflictError h holder \<longrightarrow> p = deploy_calls deps slot \<and> sv_drained v' A))
     (\<lambda>v'. \<exists>p. attempt_cut deps slot p v v') v"
  unfolding fresh_attempt_def deploy_colour_def FRESH_COLOUR_def
  by (intro vcg) (auto simp: attempted_def admits_only_def attempt_cut_def call_defs lease_from_def io_error_def)

section \<open>Revoking and wiping\<close>

definition wipe_cut :: "'w broker_deps \<Rightarrow> slot_name \<Rightarrow> broker_event list \<Rightarrow> slot_view \<Rightarrow> slot_view \<Rightarrow> bool" where
  "wipe_cut deps slot q v v' \<longleftrightarrow> prefix q (wipe_calls deps slot) \<and> sv_file v' = sv_file v \<and>
     sv_drained v' = sv_drained v \<and> sv_trace v' = sv_trace v @ q \<and> (q \<noteq> [] \<longrightarrow> revoked v')"

lemma revoke_and_wipe_vc:
  "vc slot (revoke_and_wipe deps slot) (\<lambda>_. wipe_cut deps slot (wipe_calls deps slot) v)
     (\<lambda>_ v'. \<exists>q. wipe_cut deps slot q v v') (\<lambda>v'. \<exists>q. wipe_cut deps slot q v v') v"
  unfolding revoke_and_wipe_def wipe_def forget_def
  by (intro vcg) (auto simp: wipe_cut_def call_defs revoked_def)

text \<open>The retry: revoke and wipe, then drain both colours, then one more attempt.\<close>

definition retry_cut :: "'w broker_deps \<Rightarrow> slot_name \<Rightarrow> broker_event list \<Rightarrow> broker_event list \<Rightarrow> slot_view \<Rightarrow> slot_view \<Rightarrow> bool" where
  "retry_cut deps slot w p v v' \<longleftrightarrow> prefix w (wipe_calls deps slot) \<and> prefix p (deploy_calls deps slot) \<and>
     (p \<noteq> [] \<longrightarrow> w = wipe_calls deps slot) \<and> sv_file v' = sv_file v \<and> sv_trace v' = sv_trace v @ w @ p \<and>
     (w = [] \<longrightarrow> sv_drained v' = sv_drained v) \<and> (w \<noteq> [] \<and> p \<noteq> deploy_calls deps slot \<longrightarrow> revoked v') \<and>
     (p \<noteq> [] \<longrightarrow> sv_drained v' B \<and> (p \<noteq> deploy_calls deps slot \<longrightarrow> sv_drained v' A))"

definition retried :: "'w broker_deps \<Rightarrow> slot_name \<Rightarrow> string \<Rightarrow> string \<Rightarrow> slot_view \<Rightarrow> slot_view \<Rightarrow> bool" where
  "retried deps slot host phc v v' \<longleftrightarrow> sv_file v' = sv_file v \<and> admits_only slot host phc v' \<and>
     sv_trace v' = sv_trace v @ wipe_calls deps slot @ deploy_calls deps slot \<and> sv_drained v' = (\<lambda>c. c = B)"

lemma deploy_calls_some: "deploy_calls deps slot \<noteq> []"
  by (simp add: call_defs)

lemma only_B: "(d(A := True, B := True))(A := False) = (\<lambda>c. c = B)" "d(A := False, B := True) = (\<lambda>c. c = B)"
  by (auto intro!: ext simp: fun_upd_def intro: colour.exhaust)

lemma reset_and_retry_vc:
  "vc slot (reset_and_retry deps slot st d host phc) (\<lambda>_. retried deps slot host phc v)
     (\<lambda>_ v'. \<exists>w p. retry_cut deps slot w p v v') (\<lambda>v'. \<exists>w p. retry_cut deps slot w p v v') v"
proof -
  let ?cut = "\<lambda>v'. \<exists>w p. retry_cut deps slot w p v v'" and ?W = "wipe_calls deps slot"
  have wiping: "?cut v'" if "wipe_cut deps slot w v v'" for v' w
    using that deploy_calls_some [of deps slot] by (intro exI [of _ w] exI [of _ "[]"]) (simp add: retry_cut_def wipe_cut_def)
  have drained: "?cut (v1\<lparr>sv_drained := dr\<rparr>)" if "wipe_cut deps slot ?W v v1" for v1 dr
    using that deploy_calls_some [of deps slot] wipe_calls_end(1) [of deps slot]
    by (intro exI [of _ ?W] exI [of _ "[]"]) (simp add: retry_cut_def wipe_cut_def revoked_def)
  have attempt: "vc slot (fresh_attempt deps slot d host phc) (\<lambda>_. retried deps slot host phc v) (\<lambda>_. ?cut) ?cut
      (v1\<lparr>sv_drained := dr(A := True, B := True)\<rparr>)" if v1: "wipe_cut deps slot ?W v v1" for v1 dr
  proof (rule vc_mono [OF fresh_attempt_vc])
    fix v2 assume "attempted deps slot host phc (v1\<lparr>sv_drained := dr(A := True, B := True)\<rparr>) v2"
    with v1 show "retried deps slot host phc v v2" by (simp add: retried_def attempted_def wipe_cut_def only_B)
  next
    have cut: "?cut v2" if "attempt_cut deps slot p (v1\<lparr>sv_drained := dr(A := True, B := True)\<rparr>) v2" for p v2
      using that v1 wipe_calls_end(1) [of deps slot]
      by (intro exI [of _ ?W] exI [of _ p]) (simp add: retry_cut_def attempt_cut_def wipe_cut_def revoked_def)
    then show "?cut v2" if "\<exists>p. attempt_cut deps slot p (v1\<lparr>sv_drained := dr(A := True, B := True)\<rparr>) v2 \<and> X p" for v2 X
      using that by blast
    from cut show "?cut v2" if "\<exists>p. attempt_cut deps slot p (v1\<lparr>sv_drained := dr(A := True, B := True)\<rparr>) v2" for v2
      using that by blast
  qed
  have flags: "vc slot (thenE (flag_set deps slot A) (thenE (flag_set deps slot B) (fresh_attempt deps slot d host phc)))
      (\<lambda>_. retried deps slot host phc v) (\<lambda>_. ?cut) ?cut v1" if "wipe_cut deps slot ?W v v1" for v1
    using attempt [OF that, of "sv_drained v1"] drained [OF that] wiping [OF that]
    by (intro vc_thenE vc_flag_set) simp_all
  show ?thesis
    unfolding reset_and_retry_def
    by (rule vc_thenE, rule vc_mono [OF revoke_and_wipe_vc]) (auto intro!: flags dest: wiping)
qed

section \<open>The whole deploy\<close>

text \<open>
  How far a deploy has come: \<open>p\<close> of the first attempt, then \<open>w\<close> of the wipe, then \<open>p2\<close> of the second.  Colour A is
  drained from before an attempt starts until its last call has returned; nothing is wiped before the
  marker of the first attempt is gone and the slot is revoked; the second attempt starts on a wiped slot
  with both colours drained.
\<close>

definition deploy_progress :: "'w broker_deps \<Rightarrow> slot_name \<Rightarrow> slot_view \<Rightarrow> slot_view \<Rightarrow> bool" where
  "deploy_progress deps slot v v' \<longleftrightarrow> (\<exists>p w p2. prefix p (deploy_calls deps slot) \<and> prefix w (wipe_calls deps slot) \<and>
     prefix p2 (deploy_calls deps slot) \<and> sv_trace v' = sv_trace v @ p @ w @ p2 \<and>
     (p2 \<noteq> [] \<longrightarrow> w = wipe_calls deps slot \<and> sv_drained v' B \<and> (p2 \<noteq> deploy_calls deps slot \<longrightarrow> sv_drained v' A)) \<and>
     (w \<noteq> [] \<longrightarrow> ss_phase (sv_state v') \<noteq> Preparing \<and> (p2 \<noteq> deploy_calls deps slot \<longrightarrow> revoked v')) \<and>
     (w = [] \<and> p \<noteq> [] \<and> p \<noteq> deploy_calls deps slot \<longrightarrow> sv_drained v' A))"

text \<open>Colour A is deployed, by the first attempt or, behind a wipe, by the second, and only the new hash is admitted.\<close>

definition deployed :: "'w broker_deps \<Rightarrow> slot_name \<Rightarrow> string \<Rightarrow> string \<Rightarrow> slot_view \<Rightarrow> slot_view \<Rightarrow> bool" where
  "deployed deps slot host phc v v' \<longleftrightarrow> admits_only slot host phc v' \<and>
     (sv_trace v' = sv_trace v @ deploy_calls deps slot \<and> sv_drained v' = (sv_drained v)(A := False) \<or>
      (\<exists>p. prefix p (deploy_calls deps slot) \<and> sv_drained v' = (\<lambda>c. c = B) \<and>
        sv_trace v' = sv_trace v @ p @ wipe_calls deps slot @ deploy_calls deps slot))"

text \<open>The host went to another slot after the colour was up: everything is revoked and wiped again.\<close>

definition torn_down :: "'w broker_deps \<Rightarrow> slot_name \<Rightarrow> slot_view \<Rightarrow> slot_view \<Rightarrow> bool" where
  "torn_down deps slot v v' \<longleftrightarrow> sv_state v' = state_of Free (ss_lastHashId (sv_state v)) \<and> revoked v' \<and> sv_drained v' A \<and>
     sv_trace v' = sv_trace v @ deploy_calls deps slot @ wipe_calls deps slot"

definition fresh_cut :: "'w broker_deps \<Rightarrow> slot_name \<Rightarrow> string \<Rightarrow> string \<Rightarrow> string \<Rightarrow> slot_view \<Rightarrow> slot_view \<Rightarrow> bool" where
  "fresh_cut deps slot host phc hash v v' \<longleftrightarrow> same_files v v' \<or>
     resetRefusal (sv_state v) = None \<and> hashRotated (sv_state v) (hashIdOf phc) \<and>
     (ss_phase (sv_state v') \<in> {Preparing, Resetting, Error} \<and> ss_lastHashId (sv_state v') = ss_lastHashId (sv_state v) \<and>
        deploy_progress deps slot v v' \<or>
      torn_down deps slot v v' \<or>
      sv_state v' = running_fresh hash (hashIdOf phc) \<and> deployed deps slot host phc v v')"

definition fresh_reply :: "'w broker_deps \<Rightarrow> slot_name \<Rightarrow> string \<Rightarrow> string \<Rightarrow> string \<Rightarrow> slot_view \<Rightarrow> reply \<Rightarrow> slot_view \<Rightarrow> bool" where
  "fresh_reply deps slot host phc hash v r v' \<longleftrightarrow>
     r = Reply 200 (PhaseBody Running (Some A) None) \<and> hashRotated (sv_state v) (hashIdOf phc) \<and>
       resetRefusal (sv_state v) = None \<and> sv_state v' = running_fresh hash (hashIdOf phc) \<and>
       deployed deps slot host phc v v' \<or>
     (\<exists>why. r = Reply 409 (ErrorBody why)) \<and> (same_files v v' \<or> torn_down deps slot v v') \<or>
     r = Reply 503 (PhaseBody Error None None) \<and> sv_state v' = state_of Error (ss_lastHashId (sv_state v)) \<and>
       deploy_progress deps slot v v'"

lemmas fresh_defs = fresh_cut_def fresh_reply_def

lemma progress_attempt:
  assumes "attempt_cut deps slot p v1 v'" "sv_trace v1 = sv_trace v"
  shows "deploy_progress deps slot v v'" "deploy_progress deps slot v (v'\<lparr>sv_file := f\<rparr>)"
  unfolding deploy_progress_def
  by (rule exI [of _ p], rule exI [of _ "[]"], rule exI [of _ "[]"], use assms in \<open>simp add: attempt_cut_def\<close>)+

lemma progress_retry:
  assumes r: "retry_cut deps slot w p2 v2 v'" and a: "attempt_cut deps slot p v1 v0" "sv_trace v1 = sv_trace v"
    and same: "sv_trace v2 = sv_trace v0" "sv_drained v2 = sv_drained v0" and ph: "ss_phase (sv_state v') \<noteq> Preparing"
  shows "deploy_progress deps slot v v'"
proof (cases "w = []")
  case True
  with r wipe_calls_end(1) [of deps slot] have "p2 = []" by (auto simp: retry_cut_def)
  with True r a same show ?thesis
    unfolding deploy_progress_def by (intro exI [of _ p] exI [of _ "[]"]) (simp add: attempt_cut_def retry_cut_def)
next
  case False
  with r a same ph show ?thesis
    unfolding deploy_progress_def
    by (intro exI [of _ p] exI [of _ w] exI [of _ p2]) (simp add: attempt_cut_def retry_cut_def)
qed

lemma wipe_is_retry_cut: "wipe_cut deps slot w v v' \<Longrightarrow> retry_cut deps slot w [] v v'"
  using deploy_calls_some [of deps slot] by (simp add: retry_cut_def wipe_cut_def)

lemma retry_cut_file: "retry_cut deps slot w p v v' \<Longrightarrow> sv_file v' = sv_file v"
  and wipe_cut_file: "wipe_cut deps slot w v v' \<Longrightarrow> sv_file v' = sv_file v"
  and attempt_cut_file: "attempt_cut deps slot p v v' \<Longrightarrow> sv_file v' = sv_file v"
  by (simp_all add: retry_cut_def wipe_cut_def attempt_cut_def)

lemma progress_file:
  "deploy_progress deps slot v v' \<Longrightarrow> ss_phase st \<noteq> Preparing \<Longrightarrow> deploy_progress deps slot v (v'\<lparr>sv_file := Some st\<rparr>)"
  unfolding deploy_progress_def by (elim exE conjE, intro exI conjI, assumption+) (auto simp: revoked_def)

lemma deployed_file [simp]:
  "deployed deps slot host phc v (v'\<lparr>sv_file := st\<rparr>) = deployed deps slot host phc v v'"
  by (simp add: deployed_def)

text \<open>
  The rest \<open>m\<close> of a deploy that began at \<open>v\<close>, from a view \<open>v'\<close> on the way: \<open>v\<close> allows a deploy, the state file of
  \<open>v'\<close> is a bare \<open>ph\<close>, and \<open>v'\<close> is a point where the process may die.
\<close>

definition goes_on :: "'w broker_deps \<Rightarrow> slot_name \<Rightarrow> string \<Rightarrow> string \<Rightarrow> string \<Rightarrow> slot_view \<Rightarrow> ('w, reply) bprog \<Rightarrow> slot_view \<Rightarrow> bool" where
  "goes_on deps slot host phc hash v m v' \<longleftrightarrow> vc slot m
     (\<lambda>r v'. fresh_cut deps slot host phc hash v v' \<and> fresh_reply deps slot host phc hash v r v')
     (\<lambda>_. fresh_cut deps slot host phc hash v) (fresh_cut deps slot host phc hash v) v'"

definition midway :: "'w broker_deps \<Rightarrow> slot_name \<Rightarrow> string \<Rightarrow> string \<Rightarrow> string \<Rightarrow> slot_view \<Rightarrow> phase \<Rightarrow> slot_view \<Rightarrow> bool" where
  "midway deps slot host phc hash v ph v' \<longleftrightarrow> resetRefusal (sv_state v) = None \<and> hashRotated (sv_state v) (hashIdOf phc) \<and>
     sv_file v' = Some (state_of ph (ss_lastHashId (sv_state v))) \<and> fresh_cut deps slot host phc hash v v'"

lemma midwayI:
  assumes "resetRefusal (sv_state v) = None" "hashRotated (sv_state v) (hashIdOf phc)" "deploy_progress deps slot v v'"
    and "sv_file v' = Some (state_of ph (ss_lastHashId (sv_state v)))" "ph \<in> {Preparing, Resetting, Error}"
  shows "midway deps slot host phc hash v ph v'"
  using assms by (auto simp: midway_def fresh_cut_def sv_state_def)

lemma midwayD:
  assumes "midway deps slot host phc hash v ph v'"
  shows "resetRefusal (sv_state v) = None" "hashRotated (sv_state v) (hashIdOf phc)"
    and "sv_file v' = Some (state_of ph (ss_lastHashId (sv_state v)))" "fresh_cut deps slot host phc hash v v'"
  using assms by (simp_all add: midway_def)

lemma go_write:
  assumes m: "midway deps slot host phc hash v ph v'"
    and "fresh_cut deps slot host phc hash v (v'\<lparr>sv_file := Some st\<rparr>)" "goes_on deps slot host phc hash v k (v'\<lparr>sv_file := Some st\<rparr>)"
  shows "goes_on deps slot host phc hash v (thenE (writeSlotState deps slot st) k) v'"
proof -
  have "carried (sv_state v') st = st" using midwayD(3) [OF m] by (simp add: carried_evidence sv_state_def)
  with assms(2,3) midwayD(4) [OF m] show ?thesis
    unfolding goes_on_def by (intro vc_thenE vc_writeSlotState) simp_all
qed

lemma go_write_reply:
  assumes "midway deps slot host phc hash v ph v'" "fresh_cut deps slot host phc hash v (v'\<lparr>sv_file := Some st\<rparr>)"
    and "fresh_reply deps slot host phc hash v r (v'\<lparr>sv_file := Some st\<rparr>)"
  shows "goes_on deps slot host phc hash v (thenE (writeSlotState deps slot st) (returnE r)) v'"
  by (rule go_write [OF assms(1,2)]) (simp add: goes_on_def assms(2,3) vc_returnE)

lemma go_finish:
  assumes m: "midway deps slot host phc hash v ph v'" and "deployed deps slot host phc v v'"
  shows "goes_on deps slot host phc hash v (finish_fresh deps slot hash (hashIdOf phc)) v'"
  unfolding finish_fresh_def
  by (rule go_write_reply [OF m]) (use assms(2) midwayD [OF m] in \<open>simp_all add: fresh_defs FRESH_COLOUR_def\<close>)

lemma go_error:
  assumes m: "midway deps slot host phc hash v Resetting v'" and p: "deploy_progress deps slot v v'"
  shows "goes_on deps slot host phc hash v (thenE (writeSlotState deps slot (state_of Error (ss_lastHashId (sv_state v))))
      (returnE (Reply 503 (PhaseBody Error None None)))) v'"
proof (rule go_write_reply [OF m])
  let ?v = "v'\<lparr>sv_file := Some (state_of Error (ss_lastHashId (sv_state v)))\<rparr>"
  have p2: "deploy_progress deps slot v ?v" by (rule progress_file [OF p]) simp
  have "midway deps slot host phc hash v Error ?v" by (rule midwayI [OF midwayD(1,2) [OF m] p2]) simp_all
  from midwayD(4) [OF this] show "fresh_cut deps slot host phc hash v ?v" .
  show "fresh_reply deps slot host phc hash v (Reply 503 (PhaseBody Error None None)) ?v"
    using p2 by (simp add: fresh_reply_def)
qed

section \<open>After a failed attempt\<close>

text \<open>The first attempt failed after the calls \<open>p\<close>, and \<open>resetting\<close> is on the record.\<close>

definition attempt_failed :: "'w broker_deps \<Rightarrow> slot_name \<Rightarrow> string \<Rightarrow> slot_view \<Rightarrow> broker_event list \<Rightarrow> slot_view \<Rightarrow> bool" where
  "attempt_failed deps slot phc v p v' \<longleftrightarrow> resetRefusal (sv_state v) = None \<and> hashRotated (sv_state v) (hashIdOf phc) \<and>
     sv_file v' = Some (state_of Resetting (ss_lastHashId (sv_state v))) \<and>
     (\<exists>f v0 v1. sv_trace v1 = sv_trace v \<and> attempt_cut deps slot p v1 v0 \<and> v' = v0\<lparr>sv_file := f\<rparr>)"

lemma failed_then_retry:
  assumes f: "attempt_failed deps slot phc v p v1" and r: "retry_cut deps slot w q v1 v2"
  shows "deploy_progress deps slot v v2" "midway deps slot host phc hash v Resetting v2"
proof -
  have ph: "sv_file v2 = Some (state_of Resetting (ss_lastHashId (sv_state v)))"
    using f retry_cut_file [OF r] by (simp add: attempt_failed_def)
  from f obtain f0 v0 va where a: "sv_trace va = sv_trace v" "attempt_cut deps slot p va v0" "v1 = v0\<lparr>sv_file := f0\<rparr>"
    by (auto simp: attempt_failed_def)
  show p: "deploy_progress deps slot v v2"
    by (rule progress_retry [OF r a(2,1)]) (simp_all add: a(3) ph sv_state_def)
  show "midway deps slot host phc hash v Resetting v2"
    by (rule midwayI [OF _ _ p ph]) (use f in \<open>simp_all add: attempt_failed_def\<close>)
qed

lemmas failed_then_wipe = failed_then_retry [OF _ wipe_is_retry_cut]

lemma go_retry:
  assumes f: "attempt_failed deps slot phc v p v1"
  shows "goes_on deps slot host phc hash v
    (tryE (reset_and_retry deps slot (sv_state v) d host phc) (\<lambda>_. finish_fresh deps slot hash (hashIdOf phc))
      (\<lambda>_. thenE (writeSlotState deps slot (state_of Error (ss_lastHashId (sv_state v))))
         (returnE (Reply 503 (PhaseBody Error None None))))) v1"
  unfolding goes_on_def
proof (rule vc_tryE, rule vc_mono [OF reset_and_retry_vc], unfold goes_on_def [symmetric])
  fix v2 assume r: "retried deps slot host phc v1 v2"
  then have "retry_cut deps slot (wipe_calls deps slot) (deploy_calls deps slot) v1 v2"
    using wipe_calls_end(1) [of deps slot] by (simp add: retried_def retry_cut_def)
  moreover have "deployed deps slot host phc v v2"
    using r f by (auto simp: retried_def deployed_def attempt_failed_def attempt_cut_def)
  ultimately show "goes_on deps slot host phc hash v (finish_fresh deps slot hash (hashIdOf phc)) v2"
    by (intro go_finish [OF failed_then_retry(2) [OF f]])
next
  fix v2 assume "\<exists>w q. retry_cut deps slot w q v1 v2"
  then show "goes_on deps slot host phc hash v (thenE (writeSlotState deps slot (state_of Error (ss_lastHashId (sv_state v))))
      (returnE (Reply 503 (PhaseBody Error None None)))) v2"
    by (elim exE) (rule go_error [OF failed_then_retry(2) [OF f] failed_then_retry(1) [OF f]])
next
  fix v2 assume "\<exists>w q. retry_cut deps slot w q v1 v2"
  then show "fresh_cut deps slot host phc hash v v2"
    by (elim exE) (rule midwayD(4) [OF failed_then_retry(2) [OF f]])
qed

lemma go_teardown:
  assumes f: "attempt_failed deps slot phc v (deploy_calls deps slot) v1" and A: "sv_drained v1 A"
  shows "goes_on deps slot host phc hash v
    (tryE (revoke_and_wipe deps slot)
      (\<lambda>_. thenE (writeSlotState deps slot (state_of Free (ss_lastHashId (sv_state v))))
         (returnE (Reply 409 (ErrorBody ''host conflict''))))
      (\<lambda>_. thenE (writeSlotState deps slot (state_of Error (ss_lastHashId (sv_state v))))
         (returnE (Reply 503 (PhaseBody Error None None))))) v1"
  unfolding goes_on_def
proof (rule vc_tryE, rule vc_mono [OF revoke_and_wipe_vc], unfold goes_on_def [symmetric])
  fix v2 assume w: "wipe_cut deps slot (wipe_calls deps slot) v1 v2"
  have m: "midway deps slot host phc hash v Resetting v2" by (rule failed_then_wipe(2) [OF f w])
  have "torn_down deps slot v (v2\<lparr>sv_file := Some (state_of Free (ss_lastHashId (sv_state v)))\<rparr>)"
    using w f A wipe_calls_end(1) [of deps slot]
    by (auto simp: torn_down_def wipe_cut_def attempt_failed_def attempt_cut_def revoked_def)
  then show "goes_on deps slot host phc hash v (thenE (writeSlotState deps slot (state_of Free (ss_lastHashId (sv_state v))))
      (returnE (Reply 409 (ErrorBody ''host conflict'')))) v2"
    by (intro go_write_reply [OF m]) (use midwayD [OF m] in \<open>simp_all add: fresh_defs\<close>)
next
  fix v2 assume "\<exists>q. wipe_cut deps slot q v1 v2"
  then show "goes_on deps slot host phc hash v (thenE (writeSlotState deps slot (state_of Error (ss_lastHashId (sv_state v))))
      (returnE (Reply 503 (PhaseBody Error None None)))) v2"
    by (elim exE) (rule go_error [OF failed_then_wipe(2) [OF f] failed_then_wipe(1) [OF f]])
next
  fix v2 assume "\<exists>q. wipe_cut deps slot q v1 v2"
  then show "fresh_cut deps slot host phc hash v v2"
    by (elim exE) (rule midwayD(4) [OF failed_then_wipe(2) [OF f]])
qed

lemma go_failed:
  assumes start: "resetRefusal (sv_state v) = None" "hashRotated (sv_state v) (hashIdOf phc)"
    and a: "attempt_cut deps slot p (v\<lparr>sv_file := Some (state_of Preparing (ss_lastHashId (sv_state v)))\<rparr>) v1"
    and lost: "\<forall>h holder. err = HostConflictError h holder \<longrightarrow> p = deploy_calls deps slot \<and> sv_drained v1 A"
  shows "goes_on deps slot host phc hash v (fresh_failed deps slot (sv_state v) d host phc hash (hashIdOf phc) err) v1"
proof -
  let ?v = "v1\<lparr>sv_file := Some (state_of Resetting (ss_lastHashId (sv_state v)))\<rparr>"
  have m: "midway deps slot host phc hash v Preparing v1"
    by (rule midwayI [OF start progress_attempt(1) [OF a]]) (use attempt_cut_file [OF a] in simp_all)
  have "midway deps slot host phc hash v Resetting ?v"
    by (rule midwayI [OF start progress_attempt(2) [OF a]]) simp_all
  note marked = go_write [OF m midwayD(4) [OF this]]
  have f: "attempt_failed deps slot phc v p ?v"
    unfolding attempt_failed_def using start a
    by (intro conjI exI [of _ "Some (state_of Resetting (ss_lastHashId (sv_state v)))"] exI [of _ v1]
        exI [of _ "v\<lparr>sv_file := Some (state_of Preparing (ss_lastHashId (sv_state v)))\<rparr>"]) simp_all
  show ?thesis
  proof (cases err)
    case (HostConflictError h holder)
    with lost f have "attempt_failed deps slot phc v (deploy_calls deps slot) ?v" "sv_drained ?v A" by simp_all
    then show ?thesis
      by (simp add: HostConflictError fresh_failed_def conflict_teardown_def) (intro marked go_teardown; simp)
  next
    case (BrokerError e)
    then show ?thesis
      by (simp add: fresh_failed_def) (intro marked go_retry [OF f])
  qed
qed

lemma go_attempt:
  assumes start: "resetRefusal (sv_state v) = None" "hashRotated (sv_state v) (hashIdOf phc)"
  defines "v1 \<equiv> v\<lparr>sv_file := Some (state_of Preparing (ss_lastHashId (sv_state v)))\<rparr>"
  shows "goes_on deps slot host phc hash v (tryE (fresh_attempt deps slot d host phc)
    (\<lambda>_. finish_fresh deps slot hash (hashIdOf phc)) (fresh_failed deps slot (sv_state v) d host phc hash (hashIdOf phc))) v1"
  unfolding goes_on_def
proof (rule vc_tryE, rule vc_mono [OF fresh_attempt_vc], unfold goes_on_def [symmetric])
  fix v2 assume att: "attempted deps slot host phc v1 v2"
  then have "deploy_progress deps slot v v2"
    unfolding deploy_progress_def
    by (intro exI [of _ "deploy_calls deps slot"] exI [of _ "[]"]) (simp add: attempted_def v1_def)
  then have "midway deps slot host phc hash v Preparing v2"
    by (rule midwayI [OF start]) (use att in \<open>simp_all add: attempted_def v1_def\<close>)
  then show "goes_on deps slot host phc hash v (finish_fresh deps slot hash (hashIdOf phc)) v2"
    by (rule go_finish) (use att in \<open>simp add: attempted_def deployed_def v1_def\<close>)
next
  fix e v2
  assume "\<exists>p. attempt_cut deps slot p v1 v2 \<and>
    (\<forall>h holder. e = HostConflictError h holder \<longrightarrow> p = deploy_calls deps slot \<and> sv_drained v2 A)"
  then show "goes_on deps slot host phc hash v (fresh_failed deps slot (sv_state v) d host phc hash (hashIdOf phc) e) v2"
    unfolding v1_def by (elim exE conjE) (rule go_failed [OF start])
next
  fix v2 assume "\<exists>p. attempt_cut deps slot p v1 v2"
  then obtain p where a: "attempt_cut deps slot p v1 v2" ..
  have "midway deps slot host phc hash v Preparing v2"
    by (rule midwayI [OF start progress_attempt(1) [OF a]]) (use attempt_cut_file [OF a] in \<open>simp_all add: v1_def\<close>)
  then show "fresh_cut deps slot host phc hash v v2" by (rule midwayD(4))
qed

lemma fresh_deploy_vc:
  "goes_on deps slot host phc hash v (fresh_deploy deps slot (sv_state v) d host phc hash (hashIdOf phc)) v"
proof (cases "resetRefusal (sv_state v) = None \<and> hashRotated (sv_state v) (hashIdOf phc)")
  case False
  then show ?thesis
    unfolding fresh_deploy_def goes_on_def by (auto intro!: vc_returnE simp: fresh_defs)
next
  case True
  let ?v1 = "v\<lparr>sv_file := Some (state_of Preparing (ss_lastHashId (sv_state v)))\<rparr>"
  have "deploy_progress deps slot v ?v1"
    unfolding deploy_progress_def by (intro exI [of _ "[]"]) simp
  then have "midway deps slot host phc hash v Preparing ?v1" by (rule midwayI [rotated 2]) (use True in simp_all)
  then have cut: "fresh_cut deps slot host phc hash v ?v1" by (rule midwayD(4))
  have same: "fresh_cut deps slot host phc hash v v" by (simp add: fresh_cut_def)
  have ev: "\<not> holdsUnconfirmedEvidence (ss_evidence (sv_state v))" using True by (simp add: resetRefusal_None)
  have attempt: "goes_on deps slot host phc hash v (tryE (fresh_attempt deps slot d host phc)
      (\<lambda>_. finish_fresh deps slot hash (hashIdOf phc)) (fresh_failed deps slot (sv_state v) d host phc hash (hashIdOf phc))) ?v1"
    by (rule go_attempt) (use True in simp_all)
  have start: "goes_on deps slot host phc hash v (thenE (writeSlotState deps slot (state_of Preparing (ss_lastHashId (sv_state v))))
      (tryE (fresh_attempt deps slot d host phc) (\<lambda>_. finish_fresh deps slot hash (hashIdOf phc))
        (fresh_failed deps slot (sv_state v) d host phc hash (hashIdOf phc)))) v"
    unfolding goes_on_def
    by (rule vc_thenE, rule vc_writeSlotState)
      (simp_all only: carried_evidence(2) [OF ev] attempt [unfolded goes_on_def] same cut)
  show ?thesis
    unfolding fresh_deploy_def goes_on_def
    by (intro vc_if vc_bindE vc_hostHeld vc_returnE start [unfolded goes_on_def] conjI same) (use True in \<open>auto simp: fresh_defs\<close>)
qed

section \<open>The lock and the replay\<close>

lemma vc_True: "vc slot m (\<lambda>_ _. True) (\<lambda>_ _. True) (\<lambda>_. True) v"
  by (simp add: vc_def wp_def split: prod.split outcome.split)

lemma lock_held: "slot \<in> set (bk_locks s) \<Longrightarrow> with_slot_lock slot body s = (Ok (Reply 409 (ErrorBody ''locked'')), s)"
  by (simp add: with_slot_lock_def claim_def bindE_def getE_def returnE_def)

lemma fresh_lock_irrelevant:
  "fresh_cut deps slot host phc hash (v\<lparr>sv_locked := b\<rparr>) = fresh_cut deps slot host phc hash v"
  "fresh_cut deps slot host phc hash v (v'\<lparr>sv_locked := b\<rparr>) = fresh_cut deps slot host phc hash v v'"
  "fresh_reply deps slot host phc hash (v\<lparr>sv_locked := b\<rparr>) = fresh_reply deps slot host phc hash v"
  "fresh_reply deps slot host phc hash v r (v'\<lparr>sv_locked := b\<rparr>) = fresh_reply deps slot host phc hash v r v'"
  by ((intro ext)?, simp add: fresh_defs deploy_progress_def torn_down_def deployed_def revoked_def)+

lemma reconcile_fresh_vc:
  assumes "reconcile_request deps lit body slot d phc" "\<not> sv_locked v" "ss_phase (sv_state v) = Free"
  defines "host \<equiv> hostOf_descriptor d (bd_demoZone deps)" and "hash \<equiv> bd_descriptorHash deps d"
  shows "vc slot (handleReconcile deps lit body)
     (\<lambda>r v'. fresh_cut deps slot host phc hash v v' \<and> fresh_reply deps slot host phc hash v r v')
     (\<lambda>_. fresh_cut deps slot host phc hash v) (fresh_cut deps slot host phc hash v) v"
proof -
  have same: "fresh_cut deps slot host phc hash v v" by (simp add: fresh_cut_def)
  have fresh: "vc slot (fresh_deploy deps slot (sv_state v) d host phc hash (hashIdOf phc))
     (\<lambda>r v'. fresh_cut deps slot host phc hash v v' \<and> fresh_reply deps slot host phc hash v r v')
     (\<lambda>_. fresh_cut deps slot host phc hash v) (fresh_cut deps slot host phc hash v) (v\<lparr>sv_locked := True\<rparr>)"
    using fresh_deploy_vc [of deps slot host phc hash "v\<lparr>sv_locked := True\<rparr>" d] by (simp add: goes_on_def fresh_lock_irrelevant)
  have locked: "vc slot (reconcile_locked deps slot d phc)
     (\<lambda>r v'. fresh_cut deps slot host phc hash v v' \<and> fresh_reply deps slot host phc hash v r v')
     (\<lambda>_. fresh_cut deps slot host phc hash v) (fresh_cut deps slot host phc hash v) (v\<lparr>sv_locked := True\<rparr>)"
    unfolding reconcile_locked_def Let_def host_def [symmetric] hash_def [symmetric]
    apply (rule vc_bindE, rule vc_readSlotState)
    subgoal using fresh assms(3) by (cases "ss_colour (sv_state v)") simp_all
    by (simp_all add: fresh_lock_irrelevant same)
  show ?thesis
    unfolding reconcile_request [OF assms(1)]
    by (rule vc_with_slot_lock) (use assms(2) in \<open>auto intro!: vc_mono [OF locked] simp: fresh_lock_irrelevant\<close>)
qed

section \<open>Properties\<close>

text \<open>C15: A reconcile into a free slot answers 200 only for a passphrase hash that differs from the last
  tenancy's, on a slot that holds no evidence.  The state is then running on the first colour with the
  descriptor's and the new hash's ids; the slots file and a freshly made lease hold the new hash; the calls
  were one complete render, write, start and configure with colour A's flag clear and B's as it was, or a
  failed attempt, a complete wipe and a complete second attempt, with A clear and B drained.  409 leaves the
  slot as it was, or, when the host was lost to another slot after a complete attempt, free behind a
  complete wipe, revoked, with A drained.  503 leaves it in \<open>error\<close> with the old hash on record.  On 503, and
  wherever the handler throws or dies in \<open>preparing\<close>, \<open>resetting\<close> or \<open>error\<close>, the calls are a prefix of an
  attempt made with A drained, then a prefix of the wipe, made only once \<open>preparing\<close> is off the record and the entry and the
  lease are gone, then, behind the whole wipe, a prefix of the second attempt with both colours drained
  until its last call has returned.  Otherwise it dies with the slot unchanged, torn down, or properly running.\<close>

theorem fresh_deploy_outcomes:
  assumes "reconcile_request deps lit body slot d phc" "slot \<notin> set (bk_locks s)" "ss_phase (state_file slot s) = Free"
  defines "host \<equiv> hostOf_descriptor d (bd_demoZone deps)" and "hash \<equiv> bd_descriptorHash deps d"
  shows "wp (handleReconcile deps lit body)
     (\<lambda>r s'. fresh_reply deps slot host phc hash (view slot s) r (view slot s'))
     (\<lambda>_ s'. fresh_cut deps slot host phc hash (view slot s) (view slot s'))
     (\<lambda>s'. fresh_cut deps slot host phc hash (view slot s) (view slot s')) s"
proof -
  have "vc slot (handleReconcile deps lit body)
     (\<lambda>r v'. fresh_cut deps slot host phc hash (view slot s) v' \<and> fresh_reply deps slot host phc hash (view slot s) r v')
     (\<lambda>_. fresh_cut deps slot host phc hash (view slot s)) (fresh_cut deps slot host phc hash (view slot s)) (view slot s)"
    unfolding host_def hash_def by (rule reconcile_fresh_vc [OF assms(1)]) (use assms in \<open>simp_all add: view_fields\<close>)
  from vcD [OF this] show ?thesis by (rule wp_mono) blast+
qed

lemma fresh_deploy_outcomes_witness:
  "wp (handleReconcile sample_broker sample_lit JNull)
     (\<lambda>r s'. fresh_reply sample_broker ''3'' (hostOf_descriptor sample_descriptor (bd_demoZone sample_broker)) ''$argon2id$''
        (bd_descriptorHash sample_broker sample_descriptor) (view ''3'' (sample_at FREE_STATE)) r (view ''3'' s'))
     (\<lambda>_ s'. fresh_cut sample_broker ''3'' (hostOf_descriptor sample_descriptor (bd_demoZone sample_broker)) ''$argon2id$''
        (bd_descriptorHash sample_broker sample_descriptor) (view ''3'' (sample_at FREE_STATE)) (view ''3'' s'))
     (\<lambda>s'. fresh_cut sample_broker ''3'' (hostOf_descriptor sample_descriptor (bd_demoZone sample_broker)) ''$argon2id$''
        (bd_descriptorHash sample_broker sample_descriptor) (view ''3'' (sample_at FREE_STATE)) (view ''3'' s'))
     (sample_at FREE_STATE)"
  by (rule fresh_deploy_outcomes [OF sample_reconcile_request]) (simp_all add: FREE_STATE_def)

text \<open>Reconciling a slot with the descriptor it already runs is idempotent: it answers 200 with the live
  colour and, whatever fails, changes no file and calls nothing.\<close>

theorem replay_changes_nothing:
  assumes "reconcile_request deps lit body slot d phc" "slot \<notin> set (bk_locks s)"
    and "ss_phase (state_file slot s) = Running" "ss_colour (state_file slot s) = Some live"
    and "ss_descriptorHash (state_file slot s) = Some (bd_descriptorHash deps d)"
  shows "wp (handleReconcile deps lit body)
     (\<lambda>r s'. r = Reply 200 (PhaseBody Running (Some live) None) \<and> same_files (view slot s) (view slot s'))
     (\<lambda>_ s'. same_files (view slot s) (view slot s')) (\<lambda>s'. same_files (view slot s) (view slot s')) s"
proof -
  let ?v = "view slot s"
  have "vc slot (handleReconcile deps lit body)
     (\<lambda>r v'. r = Reply 200 (PhaseBody Running (Some live) None) \<and> same_files ?v v')
     (\<lambda>_. same_files ?v) (same_files ?v) ?v"
    unfolding reconcile_request [OF assms(1)] reconcile_locked_def Let_def
    by (rule vc_with_slot_lock, simp_all add: assms(2) view_def [THEN arg_cong, of sv_locked], rule vc_bindE, rule vc_readSlotState)
      (use assms(3-5) in \<open>simp_all add: view_fields vc_returnE\<close>)
  from vcD [OF this] show ?thesis .
qed

lemma replay_changes_nothing_witness:
  "wp (handleReconcile sample_broker sample_lit JNull)
     (\<lambda>r s'. r = Reply 200 (PhaseBody Running (Some A) None) \<and>
        same_files (view ''3'' (sample_at (running_fresh ''new'' ''h''))) (view ''3'' s'))
     (\<lambda>_ s'. same_files (view ''3'' (sample_at (running_fresh ''new'' ''h''))) (view ''3'' s'))
     (\<lambda>s'. same_files (view ''3'' (sample_at (running_fresh ''new'' ''h''))) (view ''3'' s'))
     (sample_at (running_fresh ''new'' ''h''))"
  by (rule replay_changes_nothing [OF sample_reconcile_request]) (simp_all add: running_fresh_def FRESH_COLOUR_def sample_broker_def)

text \<open>
  \<open>m\<close> is refused, and changes nothing, while the slot's lock is held.  A run that finds it free has taken
  it wherever the process can die in it, before, after or within any of its effects, and has given it back
  when it ends, by a reply or by an exception.
\<close>

definition exclusive_run :: "slot_name \<Rightarrow> ('w, reply) bprog \<Rightarrow> 'w broker \<Rightarrow> bool" where
  "exclusive_run slot m s \<longleftrightarrow> wp m
     (\<lambda>r s'. if slot \<in> set (bk_locks s) then r = Reply 409 (ErrorBody ''locked'') \<and> s' = s else slot \<notin> set (bk_locks s'))
     (\<lambda>_ s'. slot \<notin> set (bk_locks s) \<and> slot \<notin> set (bk_locks s'))
     (\<lambda>s'. slot \<notin> set (bk_locks s) \<and> slot \<in> set (bk_locks s')) s"

lemma held_throughout_steps:
  "vinv slot sv_locked (writeSlotState deps slot st)" "vinv slot sv_locked (slot_call deps slot op m)"
  "vinv slot sv_locked (slot_ask deps slot ev m')"
  "vinv slot sv_locked (flag_set deps slot c)" "vinv slot sv_locked (flag_clear deps slot c)"
  "vinv slot sv_locked (flag_isSet deps slot c)"
  "vinv slot sv_locked (writeLeaseAndHash deps host slot phc keep)" "vinv slot sv_locked (clearLeaseAndHash deps slot)"
  "vinv slot sv_locked (waitUntilReady deps slot port ms)"
  by (rule vinv_writeState vinv_slot_call vinv_slot_ask vinv_flags vinv_isSet vinv_lease vinv_wait; simp)+

lemmas held_throughout = vinv_intros held_throughout_steps vinv_two_options

lemma wipe_held: "vinv slot sv_locked (wipe deps slot)"
  unfolding wipe_def forget_def by (intro held_throughout)

lemma fresh_held: "vinv slot sv_locked (fresh_deploy deps slot st d host phc hash h)"
  unfolding fresh_deploy_def fresh_attempt_def fresh_failed_def conflict_teardown_def reset_and_retry_def
    revoke_and_wipe_def deploy_colour_def finish_fresh_def
  by (intro held_throughout wipe_held vinv_exn)

lemma swap_held: "vinv slot sv_locked (attemptColourSwap deps slot st live d host phc hash h)"
  unfolding attemptColourSwap_def deploy_target_def deploy_colour_def move_traffic_def finish_swap_def isReady_def Let_def
  by (intro held_throughout)

lemma bodies_held:
  "vinv slot sv_locked (reconcile_locked deps slot d phc)" "vinv slot sv_locked (stop_locked deps slot)"
  "vinv slot sv_locked (reset_locked deps slot)"
  unfolding reconcile_locked_def Let_def stop_locked_def attemptStopOldColour_def refuse_stop_def colour_live_def
    isReady_def reset_locked_def
  by (intro held_throughout wipe_held fresh_held swap_held)+

lemma exclusive_lock:
  assumes "vinv slot sv_locked m"
  shows "exclusive_run slot (with_slot_lock slot m) s"
proof (cases "slot \<in> set (bk_locks s)")
  case True
  then show ?thesis by (simp add: exclusive_run_def wp_def lock_held)
next
  case False
  have body: "vc slot m (\<lambda>_. sv_locked) (\<lambda>_. sv_locked) sv_locked ((view slot s)\<lparr>sv_locked := True\<rparr>)"
    by (rule vinvD [OF assms]) simp
  have "vc slot (with_slot_lock slot m) (\<lambda>_ v'. \<not> sv_locked v') (\<lambda>_ v'. \<not> sv_locked v') sv_locked (view slot s)"
  proof (rule vc_with_slot_lock)
    show "vc slot m (\<lambda>_ v'. \<not> sv_locked (v'\<lparr>sv_locked := False\<rparr>)) (\<lambda>_ v'. \<not> sv_locked (v'\<lparr>sv_locked := False\<rparr>)) sv_locked
        ((view slot s)\<lparr>sv_locked := True\<rparr>)"
      by (rule vc_mono [OF body]) simp_all
  qed (use False in \<open>simp add: view_def\<close>)
  from vcD [OF this] show ?thesis
    unfolding exclusive_run_def by (rule wp_mono) (use False in \<open>simp_all add: view_def\<close>)
qed

text \<open>C31: Only one request at a time works on a slot.  While its lock is held, reconcile, stop and reset answer
  409 and change nothing at all.  A request that found it free holds it throughout: at every point where the
  process can die in it, so around every effect of its body, the lock is held; and it gives it back however
  it ends, by a reply or an exception.\<close>

theorem lock_excludes_and_is_released:
  assumes "reconcile_request deps lit body slot d phc"
  shows "exclusive_run slot (handleReconcile deps lit body) s \<and> exclusive_run slot (handleStop deps lit) s \<and>
     exclusive_run slot (handleReset deps lit) s"
proof -
  have "validateSlotLiteral lit (bd_slotLiterals deps) = Inr slot" using assms by (simp add: reconcile_request_def)
  then show ?thesis
    by (simp add: reconcile_request [OF assms] handleStop_def handleReset_def exclusive_lock bodies_held)
qed

lemma lock_excludes_and_is_released_witness:
  "exclusive_run ''3'' (handleReconcile sample_broker sample_lit JNull) (sample_at sample_running) \<and>
     exclusive_run ''3'' (handleStop sample_broker sample_lit) (sample_at sample_running) \<and>
     exclusive_run ''3'' (handleReset sample_broker sample_lit) (sample_at sample_running)"
  by (rule lock_excludes_and_is_released [OF sample_reconcile_request])

end
