(* ===== verification/Broker_Stop.thy ===== *)
theory Broker_Stop
  imports Broker_Reset
begin

text \<open>
  Stopping the colour a swap left behind: the checks that precede the one call that cannot be undone, and
  the idempotent replay of a reconcile.
\<close>

section \<open>The stop\<close>

text \<open>What has been asked and answered before the old colour is stopped, in this order.\<close>

definition stop_checks :: "'w broker_deps \<Rightarrow> slot_name \<Rightarrow> colour \<Rightarrow> int \<Rightarrow> broker_event list" where
  "stop_checks deps slot live n = [TrafficAnswer slot n, BatchAnswer slot False, FlagAnswer slot live False,
     ReadyAnswer (app_port deps slot live) True]"

definition stop_cut :: "'w broker_deps \<Rightarrow> slot_name \<Rightarrow> slot_view \<Rightarrow> slot_view \<Rightarrow> bool" where
  "stop_cut deps slot v v' \<longleftrightarrow> sv_drained v' = sv_drained v \<and> sv_entries v' = sv_entries v \<and> sv_lease v' = sv_lease v \<and>
     (\<exists>es. sv_trace v' = sv_trace v @ es \<and>
       (sv_file v' = sv_file v \<and> (\<forall>op. Called slot op \<notin> set es) \<or>
        (\<exists>live baseline n rest. ss_phase (sv_state v) = Running \<and> ss_colour (sv_state v) = Some live \<and>
           ss_trafficBaseline (sv_state v) = Some baseline \<and> baseline < n \<and> \<not> sv_drained v live \<and>
           es = stop_checks deps slot live n @ rest \<and> set rest \<subseteq> {Called slot (OpStop (otherColour live)), Returned slot (OpStop (otherColour live))} \<and>
           ss_colour (sv_state v') = Some live \<and> ss_trafficBaseline (sv_state v') = Some baseline \<and>
           (ss_phase (sv_state v') = Stopping \<or>
            ss_phase (sv_state v') = Running \<and> ss_oldColourStopped (sv_state v') \<and>
              Returned slot (OpStop (otherColour live)) \<in> set rest))))"

lemma stop_lock_irrelevant:
  "stop_cut deps slot (v\<lparr>sv_locked := b\<rparr>) = stop_cut deps slot v" "stop_cut deps slot v (v'\<lparr>sv_locked := b\<rparr>) = stop_cut deps slot v v'"
  by ((intro ext)?, simp add: stop_cut_def)+

lemma stop_locked_vc:
  "vc slot (stop_locked deps slot) (\<lambda>_. stop_cut deps slot v) (\<lambda>_. stop_cut deps slot v) (stop_cut deps slot v) v"
proof -
  have same: "stop_cut deps slot v v" by (simp add: stop_cut_def)
  have stop: "vc slot (attemptStopOldColour deps slot (sv_state v)) (\<lambda>_. stop_cut deps slot v) (\<lambda>_. stop_cut deps slot v)
      (stop_cut deps slot v) v" if "ss_phase (sv_state v) = Running"
  proof (cases "ss_colour (sv_state v)")
    case None
    then show ?thesis by (simp add: attemptStopOldColour_def vc_returnE same)
  next
    case (Some live)
    show ?thesis
    proof (cases "ss_trafficBaseline (sv_state v)")
      case None
      then show ?thesis by (simp add: Some attemptStopOldColour_def vc_returnE same)
    next
      case (Some baseline)
      show ?thesis
        unfolding attemptStopOldColour_def Some \<open>ss_colour _ = _\<close> prod.case option.case refuse_stop_def colour_live_def isReady_def
        apply (intro vcg)
        apply (simp_all add: stop_cut_def Some \<open>ss_colour _ = _\<close> that stop_checks_def stopping_state_def stopped_state_def)
        done
    qed
  qed
  show ?thesis
    unfolding stop_locked_def
    by (rule vc_bindE, rule vc_readSlotState) (auto intro!: vc_returnE stop same)
qed

section \<open>Properties\<close>

text \<open>C14: A stop of the old colour calls the wrapper only after, in this order, the traffic counter had moved
  past the baseline the swap recorded, no mail batch was submitting, the live colour's drain flag was
  clear, and the live colour answered 200; and it only ever stops the other colour.  Wherever it ends, drain
  flags, slots file and lease are as they were, and the state is unchanged, or \<open>stopping\<close> with all that
  recovery needs, or running with the old colour recorded as stopped, after the wrapper had returned.\<close>

theorem stop_only_after_checks:
  assumes "validateSlotLiteral lit (bd_slotLiterals deps) = Inr slot"
  shows "stop_cut deps slot (view slot s) (view slot (snd (handleStop deps lit s)))"
proof -
  have "vc slot (handleStop deps lit) (\<lambda>_. stop_cut deps slot v) (\<lambda>_. stop_cut deps slot v) (stop_cut deps slot v) v" for v
  proof -
    have "stop_cut deps slot v v" by (simp add: stop_cut_def)
    then show ?thesis
      unfolding handleStop_def assms bind_lift_Inr
      using stop_locked_vc [of slot deps "v\<lparr>sv_locked := True\<rparr>"]
      by (intro vc_with_slot_lock) (auto elim!: vc_mono simp: stop_lock_irrelevant)
  qed
  then show ?thesis by (rule vc_always)
qed

lemma stop_only_after_checks_witness:
  "stop_cut sample_broker ''3'' (view ''3'' (sample_at sample_running))
     (view ''3'' (snd (handleStop sample_broker sample_lit (sample_at sample_running))))"
  by (rule stop_only_after_checks [OF sample_lit_ok])

end
