(* ===== verification/Broker_Verdict.thy ===== *)
theory Broker_Verdict
  imports Broker_Recovered
begin

text \<open>
  Which outcome boot recovery picks: for each slot, the exact change of its files as a function of what the
  recovery saw of its colours.  The evidence is the stretch of the trace the slot's own recovery wrote.
\<close>

section \<open>What a look at a colour shows\<close>

text \<open>
  \<open>isLive\<close>: a set or unreadable drain flag ends the look; otherwise the colour is live exactly if one of
  the answers it gave until the deadline was positive.  \<open>dr\<close> are the flags on disk.
\<close>

definition looked :: "'w broker_deps \<Rightarrow> slot_name \<Rightarrow> (colour \<Rightarrow> bool) \<Rightarrow> colour \<Rightarrow> bool \<Rightarrow> broker_event list \<Rightarrow> bool" where
  "looked deps slot dr c live es \<longleftrightarrow> es = [FlagAnswer slot c True] \<and> \<not> live \<or>
     \<not> dr c \<and> (\<exists>bs. es = FlagAnswer slot c False # map (ReadyAnswer (app_port deps slot c)) bs \<and> live = (True \<in> set bs))"

text \<open>The single look of a stop: one answer decides.\<close>

definition glanced :: "'w broker_deps \<Rightarrow> slot_name \<Rightarrow> (colour \<Rightarrow> bool) \<Rightarrow> colour \<Rightarrow> bool \<Rightarrow> broker_event list \<Rightarrow> bool" where
  "glanced deps slot dr c live es \<longleftrightarrow> es = [FlagAnswer slot c True] \<and> \<not> live \<or>
     \<not> dr c \<and> es = [FlagAnswer slot c False, ReadyAnswer (app_port deps slot c) live]"

section \<open>The verdict on a swap\<close>

datatype swap_verdict = Adopt | AdoptAndDrain | Revert | FailClosed

text \<open>
  The target is out of the question: it is not live, or the second colour, live beside a live source, did
  not answer when it was asked once more.
\<close>

definition target_out :: "'w broker_deps \<Rightarrow> slot_name \<Rightarrow> (colour \<Rightarrow> bool) \<Rightarrow> colour \<Rightarrow> colour \<Rightarrow> broker_event list \<Rightarrow> bool" where
  "target_out deps slot dr source tgt es \<longleftrightarrow> looked deps slot dr tgt False es \<or>
     tgt = B \<and> (\<exists>e1 e2. looked deps slot dr tgt True e1 \<and> looked deps slot dr source True e2 \<and>
       es = e1 @ e2 @ [ReadyAnswer (app_port deps slot tgt) False])"

fun swap_evidence :: "'w broker_deps \<Rightarrow> slot_name \<Rightarrow> (colour \<Rightarrow> bool) \<Rightarrow> colour \<Rightarrow> colour \<Rightarrow> swap_verdict \<Rightarrow> broker_event list \<Rightarrow> bool" where
  "swap_evidence deps slot dr source tgt Adopt es \<longleftrightarrow> (\<exists>e1 e2. looked deps slot dr tgt True e1 \<and> es = e1 @ e2 \<and>
     (tgt = A \<and> e2 = [] \<or> tgt = B \<and> looked deps slot dr source False e2))"
| "swap_evidence deps slot dr source tgt AdoptAndDrain es \<longleftrightarrow> tgt = B \<and>
     (\<exists>e1 e2. looked deps slot dr tgt True e1 \<and> looked deps slot dr source True e2 \<and>
       es = e1 @ e2 @ [ReadyAnswer (app_port deps slot tgt) True])"
| "swap_evidence deps slot dr source tgt Revert es \<longleftrightarrow> (\<exists>e1 e2. target_out deps slot dr source tgt e1 \<and>
     looked deps slot dr source True e2 \<and> es = e1 @ e2)"
| "swap_evidence deps slot dr source tgt FailClosed es \<longleftrightarrow> (\<exists>e1 e2. target_out deps slot dr source tgt e1 \<and>
     looked deps slot dr source False e2 \<and> es = e1 @ e2)"

text \<open>What a verdict does to the slot's files.  \<open>carried\<close> keeps unconfirmed evidence of the old state.\<close>

definition running_on :: "slot_view \<Rightarrow> colour \<Rightarrow> string option \<Rightarrow> hash_id option \<Rightarrow> slot_view" where
  "running_on v c descr h = v\<lparr>sv_file := Some (carried (sv_state v)
     ((state_of Running h)\<lparr>ss_colour := Some c, ss_descriptorHash := descr\<rparr>))\<rparr>"

definition failed_closed :: "slot_view \<Rightarrow> slot_view" where
  "failed_closed v = v\<lparr>sv_file := Some ((state_of Error (ss_lastHashId (sv_state v)))\<lparr>ss_evidence := ss_evidence (sv_state v)\<rparr>)\<rparr>"

definition adopted :: "slot_view \<Rightarrow> colour \<Rightarrow> slot_view" where
  "adopted v tgt = running_on v tgt (ss_swapDescriptorHash (sv_state v))
     (if ss_swapHashId (sv_state v) = None then ss_lastHashId (sv_state v) else ss_swapHashId (sv_state v))"

fun enacted :: "slot_view \<Rightarrow> colour \<Rightarrow> colour \<Rightarrow> swap_verdict \<Rightarrow> slot_view" where
  "enacted v source tgt Adopt = adopted v tgt"
| "enacted v source tgt AdoptAndDrain = (adopted v tgt)\<lparr>sv_drained := (sv_drained v)(source := True)\<rparr>"
| "enacted v source tgt Revert =
     (running_on v source (ss_descriptorHash (sv_state v)) (ss_lastHashId (sv_state v)))\<lparr>sv_drained := (sv_drained v)(tgt := True)\<rparr>"
| "enacted v source tgt FailClosed = failed_closed v"

definition logged :: "slot_view \<Rightarrow> broker_event list \<Rightarrow> slot_view \<Rightarrow> slot_view" where
  "logged v es v' = v'\<lparr>sv_trace := sv_trace v @ es\<rparr>"

definition swap_judged :: "'w broker_deps \<Rightarrow> slot_name \<Rightarrow> slot_view \<Rightarrow> slot_view \<Rightarrow> bool" where
  "swap_judged deps slot v v' \<longleftrightarrow> (case (ss_colour (sv_state v), ss_swapTarget (sv_state v)) of
       (Some source, Some tgt) \<Rightarrow> \<exists>w es. swap_evidence deps slot (sv_drained v) source tgt w es \<and>
          v' = logged v es (enacted v source tgt w)
     | _ \<Rightarrow> v' = failed_closed v)"

section \<open>The verdict on any slot\<close>

text \<open>An interrupted stop is finished on a live survivor only; \<open>retry\<close> is whether recovery may call the wrapper.\<close>

definition stop_judged :: "'w broker_deps \<Rightarrow> bool \<Rightarrow> slot_name \<Rightarrow> slot_view \<Rightarrow> slot_view \<Rightarrow> bool" where
  "stop_judged deps retry slot v v' \<longleftrightarrow> (case ss_colour (sv_state v) of
       Some c \<Rightarrow>
         if retry then \<exists>live es. glanced deps slot (sv_drained v) c live es \<and>
           v' = (if live
             then logged v (es @ [Called slot (OpStop (otherColour c)), Returned slot (OpStop (otherColour c))])
               (v\<lparr>sv_file := Some (carried (sv_state v) ((state_of Running (ss_lastHashId (sv_state v)))
                  \<lparr>ss_colour := Some c, ss_descriptorHash := ss_descriptorHash (sv_state v),
                   ss_trafficBaseline := ss_trafficBaseline (sv_state v), ss_oldColourStopped := True\<rparr>))\<rparr>)
             else logged v es (failed_closed v))
         else v' = failed_closed v
     | None \<Rightarrow> v' = failed_closed v)"

definition slot_judged :: "'w broker_deps \<Rightarrow> bool \<Rightarrow> slot_name \<Rightarrow> slot_view \<Rightarrow> slot_view \<Rightarrow> bool" where
  "slot_judged deps retry slot v v' \<longleftrightarrow> (case ss_phase (sv_state v) of
       Swapping \<Rightarrow> swap_judged deps slot v v'
     | Stopping \<Rightarrow> stop_judged deps retry slot v v'
     | Resetting \<Rightarrow> v' = (failed_closed v)\<lparr>sv_entries := [], sv_lease := None\<rparr>
     | Preparing \<Rightarrow> v' = failed_closed v
     | _ \<Rightarrow> v' = v)"

section \<open>Recovery follows the verdict\<close>

lemma carried_error: "carried st (errorStateOf st) = (state_of Error (ss_lastHashId st))\<lparr>ss_evidence := ss_evidence st\<rparr>"
  by (cases "ss_evidence st") (simp_all add: carried_def errorStateOf_def state_of_def)

text \<open>Recovery reads the state once, so every write it makes is against the view it started from.\<close>

lemma vc_write_end:
  assumes "sv_state v1 = st0" "Q () (v1\<lparr>sv_file := Some (carried st0 st)\<rparr>)"
  shows "vc slot (writeSlotState deps slot st) Q (\<lambda>_ _. True) (\<lambda>_. True) v1"
  by (rule vc_writeSlotState) (simp_all add: assms)

lemma vc_flag_end:
  "Q () (v\<lparr>sv_drained := (sv_drained v)(c := True)\<rparr>) \<Longrightarrow> vc slot (flag_set deps slot c) Q (\<lambda>_ _. True) (\<lambda>_. True) v"
  by (rule vc_flag_set) simp_all

lemma vc_look:
  assumes "\<And>live es. looked deps slot (sv_drained v) c live es \<Longrightarrow> Q live (v\<lparr>sv_trace := sv_trace v @ es\<rparr>)"
  shows "vc slot (isLive deps slot c) Q (\<lambda>_ _. True) (\<lambda>_. True) v"
  unfolding isLive_def by (intro vcg) (auto simp: looked_def intro!: assms)

lemma vc_glance:
  assumes "\<And>live es. glanced deps slot (sv_drained v) c live es \<Longrightarrow> Q live (v\<lparr>sv_trace := sv_trace v @ es\<rparr>)"
  shows "vc slot (colour_live deps slot c) Q (\<lambda>_ _. True) (\<lambda>_. True) v"
  unfolding colour_live_def isReady_def by (intro vcg) (auto simp: glanced_def intro!: assms)

definition in_flight :: "slot_view \<Rightarrow> colour \<Rightarrow> colour \<Rightarrow> bool" where
  "in_flight v source tgt \<longleftrightarrow> ss_colour (sv_state v) = Some source \<and> ss_swapTarget (sv_state v) = Some tgt"

text \<open>Updates in the order of the fields.\<close>

lemma update_order:
  fixes v :: slot_view
  shows "v\<lparr>sv_trace := t, sv_file := f\<rparr> = v\<lparr>sv_file := f, sv_trace := t\<rparr>"
    and "v\<lparr>sv_trace := t, sv_drained := d\<rparr> = v\<lparr>sv_drained := d, sv_trace := t\<rparr>"
    and "v\<lparr>sv_drained := d, sv_file := f\<rparr> = v\<lparr>sv_file := f, sv_drained := d\<rparr>"
    and "v\<lparr>sv_entries := es, sv_file := f\<rparr> = v\<lparr>sv_file := f, sv_entries := es\<rparr>"
    and "v\<lparr>sv_lease := l, sv_file := f\<rparr> = v\<lparr>sv_file := f, sv_lease := l\<rparr>"
  by (cases v; simp)+

lemma newest_hash: "(case h of None \<Rightarrow> h0 | Some x \<Rightarrow> Some x) = (if h = None then h0 else h)"
  by (cases h) simp_all

lemmas enacted_defs = update_order newest_hash logged_def adopted_def running_on_def adopted_state_def pre_swap_state_def
  failed_closed_def carried_error stopped_state_def

lemma judgedI:
  "in_flight v source tgt \<Longrightarrow> swap_evidence deps slot (sv_drained v) source tgt w es \<Longrightarrow>
     v' = logged v es (enacted v source tgt w) \<Longrightarrow> swap_judged deps slot v v'"
  by (auto simp: swap_judged_def in_flight_def)

lemma vc_adopt:
  assumes "in_flight v source tgt" "swap_evidence deps slot (sv_drained v) source tgt Adopt es"
  shows "vc slot (adoptTarget deps slot (sv_state v) tgt) (\<lambda>_. swap_judged deps slot v) (\<lambda>_ _. True) (\<lambda>_. True)
     (v\<lparr>sv_trace := sv_trace v @ es\<rparr>)"
proof -
  have "swap_judged deps slot v (logged v es (enacted v source tgt Adopt))" by (rule judgedI [OF assms]) simp
  then show ?thesis
    unfolding adoptTarget_def
    by (intro vc_write_end [where ?st0.0 = "sv_state v"])
      (simp_all add: enacted_defs)
qed

lemma vc_adopt_and_drain:
  assumes "in_flight v source tgt" "swap_evidence deps slot (sv_drained v) source tgt AdoptAndDrain es"
  shows "vc slot (thenE (flag_set deps slot source) (adoptTarget deps slot (sv_state v) tgt))
     (\<lambda>_. swap_judged deps slot v) (\<lambda>_ _. True) (\<lambda>_. True) (v\<lparr>sv_trace := sv_trace v @ es\<rparr>)"
proof -
  have "swap_judged deps slot v (logged v es (enacted v source tgt AdoptAndDrain))" by (rule judgedI [OF assms]) simp
  then show ?thesis
    unfolding adoptTarget_def
    by (intro vc_thenE vc_flag_end vc_write_end [where ?st0.0 = "sv_state v"])
      (simp_all add: enacted_defs)
qed

lemma vc_fall_back:
  assumes v: "in_flight v source tgt" and out: "target_out deps slot (sv_drained v) source tgt es"
  shows "vc slot (fall_back deps slot (sv_state v) source tgt)
     (\<lambda>_. swap_judged deps slot v) (\<lambda>_ _. True) (\<lambda>_. True) (v\<lparr>sv_trace := sv_trace v @ es\<rparr>)"
  unfolding fall_back_def
proof (rule vc_bindE, rule vc_look)
  fix live e2
  assume "looked deps slot (sv_drained (v\<lparr>sv_trace := sv_trace v @ es\<rparr>)) source live e2"
  with out have "swap_evidence deps slot (sv_drained v) source tgt (if live then Revert else FailClosed) (es @ e2)" by auto
  then have "swap_judged deps slot v (logged v (es @ e2) (enacted v source tgt (if live then Revert else FailClosed)))"
    by (rule judgedI [OF v]) simp
  then show "vc slot (if live then revertToSource deps slot (sv_state v) source tgt else failClosed deps slot (sv_state v))
     (\<lambda>_. swap_judged deps slot v) (\<lambda>_ _. True) (\<lambda>_. True)
     (v\<lparr>sv_trace := sv_trace v @ es, sv_trace := sv_trace (v\<lparr>sv_trace := sv_trace v @ es\<rparr>) @ e2\<rparr>)"
    unfolding revertToSource_def failClosed_def
    by (intro vc_if vc_thenE vc_flag_end vc_write_end [where ?st0.0 = "sv_state v"])
      (simp_all add: enacted_defs)
qed

lemma recoverSwap_judged:
  "vc slot (recoverSwapInFlight deps slot (sv_state v)) (\<lambda>_. swap_judged deps slot v) (\<lambda>_ _. True) (\<lambda>_. True) v"
proof (cases "\<exists>source tgt. in_flight v source tgt")
  case False
  then have "swap_judged deps slot v (failed_closed v)"
    by (auto simp: swap_judged_def in_flight_def split: option.split)
  then have "vc slot (failClosed deps slot (sv_state v)) (\<lambda>_. swap_judged deps slot v) (\<lambda>_ _. True) (\<lambda>_. True) v"
    unfolding failClosed_def by (intro vc_write_end [where ?st0.0 = "sv_state v"]) (simp_all add: enacted_defs)
  then show ?thesis
    using False unfolding recoverSwapInFlight_def in_flight_def by (auto split: option.split)
next
  case True
  then obtain source tgt where v: "in_flight v source tgt" by blast
  let ?J = "\<lambda>_ :: unit. swap_judged deps slot v" and ?port = "app_port deps slot tgt"
  have both: "vc slot (bindE (isReady deps slot ?port) (\<lambda>ready.
      if ready then thenE (flag_set deps slot source) (adoptTarget deps slot (sv_state v) tgt)
      else fall_back deps slot (sv_state v) source tgt)) ?J (\<lambda>_ _. True) (\<lambda>_. True)
      (v\<lparr>sv_trace := sv_trace v @ e1 @ e2\<rparr>)"
    if "looked deps slot (sv_drained v) tgt True e1" "looked deps slot (sv_drained v) source True e2" "tgt = B" for e1 e2
    unfolding isReady_def
  proof (rule vc_bindE, rule vc_slot_ask)
    fix ready
    let ?es = "e1 @ e2 @ [ReadyAnswer ?port ready]"
    have "vc slot (if ready then thenE (flag_set deps slot source) (adoptTarget deps slot (sv_state v) tgt)
        else fall_back deps slot (sv_state v) source tgt) ?J (\<lambda>_ _. True) (\<lambda>_. True) (v\<lparr>sv_trace := sv_trace v @ ?es\<rparr>)"
      by (intro vc_if vc_adopt_and_drain vc_fall_back v; use that in \<open>auto simp: target_out_def\<close>)
    then show "vc slot (if ready then thenE (flag_set deps slot source) (adoptTarget deps slot (sv_state v) tgt)
        else fall_back deps slot (sv_state v) source tgt) ?J (\<lambda>_ _. True) (\<lambda>_. True)
        (v\<lparr>sv_trace := sv_trace v @ e1 @ e2, sv_trace := sv_trace (v\<lparr>sv_trace := sv_trace v @ e1 @ e2\<rparr>) @ [ReadyAnswer ?port ready]\<rparr>)"
      by simp
  qed simp_all
  have second: "vc slot (bindE (isLive deps slot source) (\<lambda>sourceStillLive.
      if \<not> sourceStillLive then adoptTarget deps slot (sv_state v) tgt
      else bindE (isReady deps slot ?port) (\<lambda>ready.
        if ready then thenE (flag_set deps slot source) (adoptTarget deps slot (sv_state v) tgt)
        else fall_back deps slot (sv_state v) source tgt))) ?J (\<lambda>_ _. True) (\<lambda>_. True) (v\<lparr>sv_trace := sv_trace v @ e1\<rparr>)"
    if e1: "looked deps slot (sv_drained v) tgt True e1" and B: "tgt = B" for e1
  proof (rule vc_bindE, rule vc_look)
    fix live e2
    assume "looked deps slot (sv_drained (v\<lparr>sv_trace := sv_trace v @ e1\<rparr>)) source live e2"
    then have e2: "looked deps slot (sv_drained v) source live e2" by simp
    show "vc slot (if \<not> live then adoptTarget deps slot (sv_state v) tgt
      else bindE (isReady deps slot ?port) (\<lambda>ready.
        if ready then thenE (flag_set deps slot source) (adoptTarget deps slot (sv_state v) tgt)
        else fall_back deps slot (sv_state v) source tgt)) ?J (\<lambda>_ _. True) (\<lambda>_. True)
      (v\<lparr>sv_trace := sv_trace v @ e1, sv_trace := sv_trace (v\<lparr>sv_trace := sv_trace v @ e1\<rparr>) @ e2\<rparr>)"
      using both [OF e1 _ B] vc_adopt [OF v, of deps slot "e1 @ e2"] e1 e2 B by (cases live) auto
  qed
  have first: "vc slot (bindE (isLive deps slot tgt) (\<lambda>targetLive.
      if \<not> targetLive then fall_back deps slot (sv_state v) source tgt
      else if tgt = A then adoptTarget deps slot (sv_state v) tgt
      else bindE (isLive deps slot source) (\<lambda>sourceStillLive.
        if \<not> sourceStillLive then adoptTarget deps slot (sv_state v) tgt
        else bindE (isReady deps slot ?port) (\<lambda>ready.
          if ready then thenE (flag_set deps slot source) (adoptTarget deps slot (sv_state v) tgt)
          else fall_back deps slot (sv_state v) source tgt)))) ?J (\<lambda>_ _. True) (\<lambda>_. True) v"
    by (rule vc_bindE, rule vc_look, intro vc_if vc_fall_back [OF v] vc_adopt [OF v] second; cases tgt)
      (auto simp: target_out_def)
  then show ?thesis
    using v by (simp add: recoverSwapInFlight_def in_flight_def)
qed

lemma recoverStopping_judged:
  "vc slot (recoverStoppingSlot deps slot (sv_state v)) (\<lambda>_. stop_judged deps True slot v) (\<lambda>_ _. True) (\<lambda>_. True) v"
proof (cases "ss_colour (sv_state v)")
  case None
  then show ?thesis
    unfolding recoverStoppingSlot_def failClosed_def
    by (simp, intro vc_write_end [where ?st0.0 = "sv_state v"]) (simp_all add: stop_judged_def enacted_defs)
next
  case (Some c)
  show ?thesis
    unfolding recoverStoppingSlot_def failClosed_def Some option.case
  proof (rule vc_bindE, rule vc_glance, intro vc_if)
    fix live es
    assume look: "glanced deps slot (sv_drained v) c live es" and "\<not> live"
    then show "vc slot (writeSlotState deps slot (errorStateOf (sv_state v))) (\<lambda>_. stop_judged deps True slot v)
        (\<lambda>_ _. True) (\<lambda>_. True) (v\<lparr>sv_trace := sv_trace v @ es\<rparr>)"
      by (intro vc_write_end [where ?st0.0 = "sv_state v"]) (auto simp: stop_judged_def Some enacted_defs)
  next
    fix live es
    assume look: "glanced deps slot (sv_drained v) c live es" and "\<not> \<not> live"
    then show "vc slot (thenE (slot_call deps slot (OpStop (otherColour c)) (bd_stop deps slot (otherColour c)))
        (writeSlotState deps slot (stopped_state (sv_state v) c))) (\<lambda>_. stop_judged deps True slot v)
        (\<lambda>_ _. True) (\<lambda>_. True) (v\<lparr>sv_trace := sv_trace v @ es\<rparr>)"
      by (intro vc_thenE vc_slot_call vc_write_end [where ?st0.0 = "sv_state v"])
        (auto simp: stop_judged_def Some enacted_defs)
  qed
qed

lemma recoverSlot_judged:
  "vc slot (recoverSlot deps retry slot) (\<lambda>_. slot_judged deps retry slot v) (\<lambda>_ _. True) (\<lambda>_. True) v"
proof -
  let ?J = "\<lambda>_ :: unit. slot_judged deps retry slot v" and ?st = "sv_state v"
  have swap: "vc slot (recoverSwapInFlight deps slot ?st) ?J (\<lambda>_ _. True) (\<lambda>_. True) v" if "ss_phase ?st = Swapping"
    by (rule vc_mono [OF recoverSwap_judged]) (simp_all add: that slot_judged_def)
  have stop: "vc slot (recoverStoppingSlot deps slot ?st) ?J (\<lambda>_ _. True) (\<lambda>_. True) v" if "ss_phase ?st = Stopping" retry
    by (rule vc_mono [OF recoverStopping_judged]) (simp_all add: that slot_judged_def)
  have fail: "vc slot (failClosed deps slot ?st) ?J (\<lambda>_ _. True) (\<lambda>_. True) v" if "?J () (failed_closed v)"
    unfolding failClosed_def
    by (intro vc_write_end [where ?st0.0 = "?st"]) (use that in \<open>simp_all add: enacted_defs\<close>)
  have revoke: "vc slot (thenE (clearLeaseAndHash deps slot) (failClosed deps slot ?st)) ?J (\<lambda>_ _. True) (\<lambda>_. True) v"
    if "ss_phase ?st = Resetting"
    unfolding failClosed_def
    by (rule vc_thenE, rule vc_clearLeaseAndHash, rule vc_write_end [where ?st0.0 = "?st"])
      (simp_all add: that slot_judged_def enacted_defs)
  have only: "vc slot (thenE (returnE ()) (failClosed deps slot ?st)) ?J (\<lambda>_ _. True) (\<lambda>_. True) v"
    if "?J () (failed_closed v)"
    by (rule vc_thenE, rule vc_returnE, rule fail [OF that])
  show ?thesis
    unfolding recoverSlot_def
    apply (rule vc_bindE, rule vc_readSlotState)
    subgoal
      apply (rule vc_if, erule swap, rule vc_if, rule vc_if, erule (1) stop)
      subgoal by (rule fail) (simp add: slot_judged_def stop_judged_def split: option.split)
      subgoal
        by (cases "ss_phase ?st"; simp add: LOCK_HELD_PHASES_def whenE_def)
          (auto intro: revoke intro!: only vc_returnE simp: slot_judged_def)
      done
    by simp_all
qed

section \<open>Every slot\<close>

lemma recover_all_judged:
  assumes "distinct slots" "slot \<in> set slots" "untouched slot s0 s"
  shows "wp (recoverCrashedSlots deps retry slots) (\<lambda>_ s'. \<exists>s1 s2. untouched slot s0 s1 \<and>
       recoverSlot deps retry slot s1 = (Ok (), s2) \<and> untouched slot s2 s' \<and>
       slot_judged deps retry slot (view slot s1) (view slot s2)) (\<lambda>_ _. True) (\<lambda>_. True) s"
  using assms unfolding recoverCrashedSlots_def
proof (induction slots arbitrary: s)
  case (Cons x slots)
  show ?case
  proof (cases "x = slot")
    case True
    then have "slot \<notin> set slots" using Cons.prems(1) by simp
    then have rest: "keeps (untouched slot s2) (forE slots (recoverSlot deps retry))" for s2
      by (intro keeps_intros frame.k_bodies) auto
    have step: "wp (recoverSlot deps retry slot) (\<lambda>_ s2. recoverSlot deps retry slot s = (Ok (), s2) \<and>
        slot_judged deps retry slot (view slot s) (view slot s2)) (\<lambda>_ _. True) (\<lambda>_. True) s"
      using vcD [OF recoverSlot_judged [of slot deps retry "view slot s"]]
      by (auto simp: wp_def split: prod.split outcome.split)
    show ?thesis
      unfolding True forE.simps wp_thenE
      by (rule wp_mono [OF step], rule wp_mono [OF keeps_wpD [OF rest untouched_refl]])
        (use Cons.prems(3) in auto)
  next
    case False
    have "wp (recoverSlot deps retry x) (\<lambda>_. untouched slot s) (\<lambda>_. untouched slot s) (untouched slot s) s"
      using keeps_wpD [OF frame.k_bodies(4) [OF False] untouched_refl] .
    then show ?thesis
      unfolding forE.simps wp_thenE
      by (rule wp_mono, intro Cons.IH) (use Cons.prems False untouched_trans [of slot s0 s] in simp_all)
  qed
qed simp

section \<open>Properties\<close>

text \<open>C13: When boot recovery returns, every slot has been given exactly the outcome its own recovery's evidence
  calls for, and nothing else of it has changed.  A slot found swapping is adopted on its target, with the
  new descriptor and hash, if the target's flag was clear and it answered 200 and it is the first colour, or
  the second with the source drained or silent; if the source was live beside the second colour and the
  target answered once more, it is adopted and the source drained; if the target was out and the source was
  live, it is given back to the source with its own descriptor and hash, and the target drained; only if
  neither held, or the marker names no two colours, is it in \<open>error\<close>, with its flags as they were.  A slot found stopping is running on its
  survivor after the stop call has returned, if recovery may stop and the survivor was live, else in
  \<open>error\<close> with nothing stopped.  One found resetting is in \<open>error\<close>, its slots entry and lease gone; one
  found preparing is in \<open>error\<close>; any other slot is untouched.  \<open>s1\<close> and \<open>s2\<close> are the states in which the
  loop enters and leaves the slot; before and after, no other slot's recovery touches it.\<close>

theorem recovery_settles_every_slot:
  assumes "distinct slots" "slot \<in> set slots"
  shows "wp (recoverCrashedSlots deps retry slots)
     (\<lambda>_ s'. \<exists>s1 s2. untouched slot s s1 \<and> recoverSlot deps retry slot s1 = (Ok (), s2) \<and> untouched slot s2 s' \<and>
        slot_judged deps retry slot (view slot s1) (view slot s2))
     (\<lambda>_ _. True) (\<lambda>_. True) s"
  by (rule recover_all_judged [OF assms untouched_refl])

lemma recovery_settles_every_slot_witness:
  "wp (recoverCrashedSlots sample_broker True [''3'', ''4''])
     (\<lambda>_ s'. \<exists>s1 s2. untouched ''3'' (sample_at (swap_marker sample_running A ''new'' ''h'')) s1 \<and>
        recoverSlot sample_broker True ''3'' s1 = (Ok (), s2) \<and> untouched ''3'' s2 s' \<and>
        slot_judged sample_broker True ''3'' (view ''3'' s1) (view ''3'' s2))
     (\<lambda>_ _. True) (\<lambda>_. True) (sample_at (swap_marker sample_running A ''new'' ''h''))"
  by (rule recovery_settles_every_slot) simp_all

end
