(* ===== verification/Broker_Evidence.thy ===== *)
theory Broker_Evidence
  imports Broker_Crash Broker_Deploy Broker_Stop Broker_Verdict
begin

text \<open>
  Evidence over time: any sequence of requests for any slots, with the process dying and booting again in
  between, leaves a slot's unconfirmed evidence where it is.
\<close>

section \<open>Requests\<close>

datatype request =
    Reconcile "json option" json
  | Stop "json option"
  | Reset "json option"
  | Status "json option"
  | Reboot

text \<open>One request, or a boot with its recovery, run to wherever it ends.\<close>

fun serve :: "'w broker_deps \<Rightarrow> request \<Rightarrow> 'w broker \<Rightarrow> 'w broker" where
  "serve deps (Reconcile lit body) s = snd (handleReconcile deps lit body s)"
| "serve deps (Stop lit) s = snd (handleStop deps lit s)"
| "serve deps (Reset lit) s = snd (handleReset deps lit s)"
| "serve deps (Status lit) s = snd (handleStatus deps lit s)"
| "serve deps Reboot s = snd (recoverCrashedSlots deps True (bd_slotLiterals deps) (reboot s))"

definition serve_all :: "'w broker_deps \<Rightarrow> request list \<Rightarrow> 'w broker \<Rightarrow> 'w broker" where
  "serve_all deps rs s = fold (serve deps) rs s"

section \<open>The invariant\<close>

definition held_view :: "slot_name \<Rightarrow> evidence \<Rightarrow> broker_event list \<Rightarrow> slot_view \<Rightarrow> bool" where
  "held_view slot ev t v \<longleftrightarrow> ss_evidence (sv_state v) = Some ev \<and>
     (\<exists>es. sv_trace v = t @ es \<and> Called slot OpReset \<notin> set es \<and> Called slot OpForget \<notin> set es)"

definition held :: "slot_name \<Rightarrow> evidence \<Rightarrow> broker_event list \<Rightarrow> 'w broker \<Rightarrow> bool" where
  "held slot ev t s \<longleftrightarrow> held_view slot ev t (view slot s)"

lemma held_untouched: "untouched slot s s' \<Longrightarrow> held slot ev t s \<Longrightarrow> held slot ev t s'"
  by (fastforce simp: held_def held_view_def untouched_def view_def sv_state_def list_all_iff)

lemma held_frame: "(\<And>s0. keeps (untouched slot s0) m) \<Longrightarrow> keeps (held slot ev t) m"
  by (rule keepsI) (metis held_untouched keepsD untouched_refl)

lemma held_own: "vinv slot (held_view slot ev t) m \<Longrightarrow> keeps (held slot ev t) m"
  by (rule keepsI) (simp add: held_def vinv_end)

section \<open>The slot's own requests\<close>

lemma held_refuses:
  "holdsUnconfirmedEvidence (Some ev) \<Longrightarrow> held_view slot ev t v \<Longrightarrow> resetRefusal (sv_state v) \<noteq> None"
  by (auto simp: held_view_def resetRefusal_def)

lemma held_ask:
  "held_view slot ev t v \<Longrightarrow> is_answer e \<Longrightarrow> held_view slot ev t (v\<lparr>sv_trace := sv_trace v @ [e]\<rparr>)"
  by (auto simp: held_view_def)

lemma held_write:
  assumes "holdsUnconfirmedEvidence (Some ev)" "ss_evidence st = None \<or> ss_evidence st = Some ev"
  shows "vinv slot (held_view slot ev t) (writeSlotState deps slot st)"
  by (rule vinv_writeState) (use assms in \<open>auto simp: held_view_def carried_def\<close>)

lemma held_call:
  assumes "op \<noteq> OpReset" "op \<noteq> OpForget"
  shows "vinv slot (held_view slot ev t) (slot_call deps slot op m)"
  by (rule vinv_slot_call) (use assms in \<open>auto simp: held_view_def\<close>)

lemma held_steps:
  "vinv slot (held_view slot ev t) (flag_set deps slot c)" "vinv slot (held_view slot ev t) (flag_clear deps slot c)"
  "vinv slot (held_view slot ev t) (flag_isSet deps slot c)"
  "vinv slot (held_view slot ev t) (writeLeaseAndHash deps host slot phc keep)"
  "vinv slot (held_view slot ev t) (clearLeaseAndHash deps slot)"
  "vinv slot (held_view slot ev t) (waitUntilReady deps slot port ms)"
  by (rule vinv_flags vinv_isSet vinv_lease vinv_wait; auto simp: held_view_def)+

lemma held_asks:
  "vinv slot (held_view slot ev t) (slot_ask deps slot (ReadyAnswer port) m)"
  "vinv slot (held_view slot ev t) (slot_ask deps slot (TrafficAnswer slot) m')"
  "vinv slot (held_view slot ev t) (slot_ask deps slot (BatchAnswer slot) m)"
  by (rule vinv_slot_ask; simp add: held_ask)+

lemma held_lock: "vinv slot (held_view slot ev t) body \<Longrightarrow> vinv slot (held_view slot ev t) (with_slot_lock slot body)"
  by (rule vinv_lock) (auto simp: held_view_def)

lemmas held_intros = vinv_intros held_steps held_asks held_call

lemma held_swap:
  assumes "holdsUnconfirmedEvidence (Some ev)"
  shows "vinv slot (held_view slot ev t) (attemptColourSwap deps slot st live d host phc hash h)"
  unfolding attemptColourSwap_def deploy_target_def deploy_colour_def move_traffic_def finish_swap_def isReady_def Let_def
  by (intro held_intros held_write [OF assms]) (simp_all add: swap_marker_def pre_swap_state_def)

lemma held_reconcile:
  assumes "holdsUnconfirmedEvidence (Some ev)"
  shows "vinv slot (held_view slot ev t) (reconcile_locked deps slot d phc)"
  unfolding reconcile_locked_def Let_def fresh_deploy_def
  by (intro held_intros held_swap [OF assms]) (use held_refuses [OF assms] in blast)+

lemma held_stop:
  assumes "holdsUnconfirmedEvidence (Some ev)"
  shows "vinv slot (held_view slot ev t) (stop_locked deps slot)"
  unfolding stop_locked_def attemptStopOldColour_def refuse_stop_def colour_live_def isReady_def
  by (intro held_intros vinv_two_options held_write [OF assms]) (simp_all add: stopping_state_def stopped_state_def)

lemma held_reset:
  assumes "holdsUnconfirmedEvidence (Some ev)"
  shows "vinv slot (held_view slot ev t) (reset_locked deps slot)"
  unfolding reset_locked_def by (intro held_intros) (use held_refuses [OF assms] in blast)+

lemma held_recover:
  assumes "holdsUnconfirmedEvidence (Some ev)"
  shows "vinv slot (held_view slot ev t) (recoverSlot deps b slot)"
  unfolding recoverSlot_def recoverSwapInFlight_def recoverStoppingSlot_def failClosed_def fall_back_def adoptTarget_def
    revertToSource_def isLive_def colour_live_def isReady_def
  by (intro held_intros vinv_two_options held_write [OF assms])
    (simp_all add: held_view_def adopted_state_def pre_swap_state_def stopped_state_def)

section \<open>Any slot's requests\<close>

lemma held_locked:
  assumes "\<And>s0 slot'. slot' \<noteq> slot \<Longrightarrow> keeps (untouched slot s0) (body slot')" "vinv slot (held_view slot ev t) (body slot)"
  shows "keeps (held slot ev t) (with_slot_lock slot' (body slot'))"
proof (cases "slot' = slot")
  case True
  then show ?thesis using assms(2) by (simp add: held_own held_lock)
next
  case False
  then show ?thesis by (intro held_frame frame.k_lock assms(1))
qed

lemma held_handlers:
  assumes "holdsUnconfirmedEvidence (Some ev)"
  shows "keeps (held slot ev t) (with_slot_lock slot' (reconcile_locked deps slot' d phc))"
    and "keeps (held slot ev t) (with_slot_lock slot' (stop_locked deps slot'))"
    and "keeps (held slot ev t) (with_slot_lock slot' (reset_locked deps slot'))"
  by (rule held_locked [where body = "\<lambda>slot. reconcile_locked deps slot d phc"]
        held_locked [where body = "stop_locked deps"] held_locked [where body = "reset_locked deps"];
      simp add: frame.k_bodies held_reconcile [OF assms] held_stop [OF assms] held_reset [OF assms])+

lemma held_lift: "keeps (held slot ev t) (lift_sum r)"
  by (rule held_frame, rule frame.k_lift)

lemma held_status: "keeps (held slot ev t) (handleStatus deps lit)"
  by (rule held_frame, rule frame.k_status)

lemma held_recover_all:
  assumes "holdsUnconfirmedEvidence (Some ev)"
  shows "keeps (held slot ev t) (recoverCrashedSlots deps b slots)"
  unfolding recoverCrashedSlots_def
proof (rule keeps_forE)
  fix x show "keeps (held slot ev t) (recoverSlot deps b x)"
    by (cases "x = slot") (simp_all add: held_own held_recover [OF assms] held_frame frame.k_bodies)
qed

lemma held_serve:
  assumes "holdsUnconfirmedEvidence (Some ev)" "held slot ev t s"
  shows "held slot ev t (serve deps req s)"
proof (cases req)
  case (Reconcile lit body)
  have "keeps (held slot ev t) (handleReconcile deps lit body)"
    unfolding handleReconcile_def
    by (auto intro!: keeps_bindE held_lift keeps_returnE held_handlers(1) [OF assms(1)] split: sum.split gate_spec.split)
  with assms(2) Reconcile show ?thesis by (simp add: keepsD)
next
  case (Stop lit)
  have "keeps (held slot ev t) (handleStop deps lit)"
    unfolding handleStop_def by (intro keeps_bindE held_lift held_handlers [OF assms(1)])
  with assms(2) Stop show ?thesis by (simp add: keepsD)
next
  case (Reset lit)
  have "keeps (held slot ev t) (handleReset deps lit)"
    unfolding handleReset_def by (intro keeps_bindE held_lift held_handlers [OF assms(1)])
  with assms(2) Reset show ?thesis by (simp add: keepsD)
next
  case (Status lit)
  with assms(2) show ?thesis by (simp add: keepsD [OF held_status])
next
  case Reboot
  have "held slot ev t (reboot s)"
    using assms(2) by (simp add: held_def held_view_def view_def reboot_def sv_state_def)
  with Reboot show ?thesis by (simp add: keepsD [OF held_recover_all [OF assms(1)]])
qed

lemma held_serve_all:
  "holdsUnconfirmedEvidence (Some ev) \<Longrightarrow> held slot ev t s \<Longrightarrow> held slot ev t (fold (serve deps) rs s)"
  by (induction rs arbitrary: s) (simp_all add: held_serve)

section \<open>Property\<close>

text \<open>C2: Evidence is never destroyed.  Once a slot's state holds evidence that no detach has confirmed, every
  sequence of reconciles, stops, resets, status reads and reboots, for this slot and any other, with any
  operation failing and the process dying anywhere, leaves that evidence on record and never calls the
  wrapper's reset or the Admin API's forget for the slot.\<close>

theorem evidence_is_never_destroyed:
  assumes "ss_evidence (state_file slot s) = Some ev" "holdsUnconfirmedEvidence (Some ev)"
  shows "ss_evidence (state_file slot (serve_all deps rs s)) = Some ev \<and>
     (\<exists>es. bk_trace (serve_all deps rs s) = bk_trace s @ es \<and>
        Called slot OpReset \<notin> set es \<and> Called slot OpForget \<notin> set es)"
proof -
  have "held slot ev (bk_trace s) s"
    using assms(1) by (simp add: held_def held_view_def view_fields) (simp add: view_def)
  then have "held slot ev (bk_trace s) (fold (serve deps) rs s)"
    by (rule held_serve_all [OF assms(2)])
  then show ?thesis by (simp add: serve_all_def held_def held_view_def view_fields) (simp add: view_def)
qed

lemma evidence_is_never_destroyed_witness:
  "ss_evidence (state_file ''3'' (serve_all sample_broker [Reset sample_lit, Reboot, Reconcile sample_lit JNull]
      (sample_at ((state_of Error None)\<lparr>ss_evidence := Some Frozen\<rparr>)))) = Some Frozen \<and>
     (\<exists>es. bk_trace (serve_all sample_broker [Reset sample_lit, Reboot, Reconcile sample_lit JNull]
        (sample_at ((state_of Error None)\<lparr>ss_evidence := Some Frozen\<rparr>))) =
        bk_trace (sample_at ((state_of Error None)\<lparr>ss_evidence := Some Frozen\<rparr>)) @ es \<and>
        Called ''3'' OpReset \<notin> set es \<and> Called ''3'' OpForget \<notin> set es)"
  by (rule evidence_is_never_destroyed) (simp_all add: holdsUnconfirmedEvidence_def)

end
