(* ===== verification/Broker_Auth.thy ===== *)
theory Broker_Auth
  imports Prelude
begin

text \<open>
  The broker's request authentication: \<open>src/services/broker/src/auth.ts\<close>, \<open>nonceStore.ts\<close> and
  \<open>signing.ts\<close>.

  Parameters: \<open>decode\<close> is \<open>Buffer.from(_, 'base64')\<close> and \<open>crypto_verify\<close> is Node's \<open>crypto.verify\<close> with
  the broker's key, \<open>None\<close> where it throws.  Strings and bodies are lists of bytes (the fields covered by
  the patterns are ASCII).  \<open>Number\<close> of up to twenty digits is taken exactly; a double above \<open>2 ^ 53\<close> is
  rounded but is outside every replay window either way.  \<open>verifyRequest\<close> reads the clock twice, and so does
  the model.
\<close>

section \<open>The nonce store\<close>

type_synonym nonce_map = "(string \<times> int) list"

definition DEFAULT_MAX_ENTRIES :: nat where
  "DEFAULT_MAX_ENTRIES = 100000"

text \<open>A \<open>Map\<close> in insertion order, swept from the front up to the first entry still alive.\<close>

definition sweep_nonces :: "int \<Rightarrow> nonce_map \<Rightarrow> nonce_map" where
  "sweep_nonces nowMs seen = dropWhile (\<lambda>(_, expiresAtMs). \<not> nowMs < expiresAtMs) seen"

definition claim_nonce :: "int \<Rightarrow> nat \<Rightarrow> string \<Rightarrow> int \<Rightarrow> nonce_map \<Rightarrow> bool \<times> nonce_map" where
  "claim_nonce windowMs maxEntries nonce nowMs seen =
     (let swept = sweep_nonces nowMs seen in
      if map_of swept nonce \<noteq> None then (False, swept)
      else if length swept \<ge> maxEntries then (False, swept)
      else (True, swept @ [(nonce, nowMs + windowMs)]))"

section \<open>Signatures\<close>

definition newline :: string where
  "newline = [CHR 0x0A]"

definition signingPayload :: "string \<Rightarrow> string \<Rightarrow> string \<Rightarrow> string \<Rightarrow> string \<Rightarrow> string" where
  "signingPayload verb path timestampSeconds nonce rawBody =
     verb @ newline @ path @ newline @ timestampSeconds @ newline @ nonce @ newline @ rawBody"

definition verifySignature ::
  "(string \<Rightarrow> nat list) \<Rightarrow> (string \<Rightarrow> nat list \<Rightarrow> bool option) \<Rightarrow> string \<Rightarrow> string \<Rightarrow> string \<Rightarrow> string \<Rightarrow> string \<Rightarrow> string \<Rightarrow> bool" where
  "verifySignature decode crypto_verify verb path timestampSeconds nonce rawBody signatureBase64 =
     (let signature = decode signatureBase64 in
      if length signature \<noteq> 64 then False
      else (case crypto_verify (signingPayload verb path timestampSeconds nonce rawBody) signature of
          None \<Rightarrow> False
        | Some ok \<Rightarrow> ok))"

section \<open>The check\<close>

definition nonce_chars :: string where
  "nonce_chars = uppers @ lowers @ digits @ ''._-''"

definition NONCE_PATTERN :: "string \<Rightarrow> bool" where
  "NONCE_PATTERN s \<longleftrightarrow> all_in nonce_chars s \<and> 16 \<le> length s \<and> length s \<le> 128"

definition TIMESTAMP_PATTERN :: "string \<Rightarrow> bool" where
  "TIMESTAMP_PATTERN s \<longleftrightarrow> all_in digits s \<and> 1 \<le> length s \<and> length s \<le> 20"

definition FORWARD_SKEW_SECONDS :: int where
  "FORWARD_SKEW_SECONDS = 5"

definition nonceLifetimeMs :: "int \<Rightarrow> int" where
  "nonceLifetimeMs replayWindowSeconds = (replayWindowSeconds + FORWARD_SKEW_SECONDS + 1) * 1000"

record auth_headers =
  ah_timestamp :: "string option"
  ah_nonce :: "string option"
  ah_signature :: "string option"

datatype auth_refusal =
    BadTimestamp | BadNonce | NoSignature | OutsideWindow | BeforeProcess | BadSignature | NonceUsed

text \<open>
  \<open>now1\<close> is the reading for the window, \<open>now2\<close> the one for the claim; \<open>claim\<close> is the store's, \<open>check\<close> the
  signature's.  A refusal before the claim leaves the store as it is.
\<close>

definition verifyRequest ::
  "(string \<Rightarrow> int \<Rightarrow> 's \<Rightarrow> bool \<times> 's) \<Rightarrow> (string \<Rightarrow> string \<Rightarrow> string \<Rightarrow> string \<Rightarrow> string \<Rightarrow> string \<Rightarrow> bool) \<Rightarrow> int \<Rightarrow> int
     \<Rightarrow> int \<Rightarrow> int \<Rightarrow> string \<Rightarrow> string \<Rightarrow> auth_headers \<Rightarrow> string \<Rightarrow> 's \<Rightarrow> (auth_refusal + unit) \<times> 's" where
  "verifyRequest claim check replayWindowSeconds processStartSeconds now1 now2 verb path headers rawBody store =
     (case ah_timestamp headers of
        None \<Rightarrow> (Inl BadTimestamp, store)
      | Some timestamp \<Rightarrow>
     if \<not> TIMESTAMP_PATTERN timestamp then (Inl BadTimestamp, store)
     else (case ah_nonce headers of
        None \<Rightarrow> (Inl BadNonce, store)
      | Some nonce \<Rightarrow>
     if \<not> NONCE_PATTERN nonce then (Inl BadNonce, store)
     else (case ah_signature headers of
        None \<Rightarrow> (Inl NoSignature, store)
      | Some signature \<Rightarrow>
     if signature = '''' then (Inl NoSignature, store)
     else (let nowSeconds = now1 div 1000;
               requestSeconds = int (number_of_digits timestamp);
               ageSeconds = nowSeconds - requestSeconds in
       if ageSeconds > replayWindowSeconds \<or> ageSeconds < - FORWARD_SKEW_SECONDS then (Inl OutsideWindow, store)
       else if requestSeconds \<le> processStartSeconds then (Inl BeforeProcess, store)
       else if \<not> check verb path timestamp nonce rawBody signature then (Inl BadSignature, store)
       else (case claim nonce now2 store of
           (False, store') \<Rightarrow> (Inl NonceUsed, store')
         | (True, store') \<Rightarrow> (Inr (), store'))))))"

lemma verifyRequest_Inr:
  "verifyRequest claim check R start now1 now2 verb path headers body store = (Inr u, store') \<longleftrightarrow>
     (\<exists>ts n sig. headers = \<lparr>ah_timestamp = Some ts, ah_nonce = Some n, ah_signature = Some sig\<rparr> \<and>
        TIMESTAMP_PATTERN ts \<and> NONCE_PATTERN n \<and> sig \<noteq> '''' \<and>
        now1 div 1000 - int (number_of_digits ts) \<le> R \<and> - FORWARD_SKEW_SECONDS \<le> now1 div 1000 - int (number_of_digits ts) \<and>
        start < int (number_of_digits ts) \<and> check verb path ts n body sig \<and> claim n now2 store = (True, store'))"
  by (cases headers) (auto simp: verifyRequest_def Let_def split: option.splits if_splits prod.splits bool.splits)

text \<open>A request as it arrives, with the two readings of the clock.\<close>

record auth_call =
  ac_now1 :: int
  ac_now2 :: int
  ac_verb :: string
  ac_path :: string
  ac_headers :: auth_headers
  ac_body :: string

text \<open>The calls a process serves, one after the other, on its one store.\<close>

fun auth_run ::
  "(string \<Rightarrow> int \<Rightarrow> 's \<Rightarrow> bool \<times> 's) \<Rightarrow> (string \<Rightarrow> string \<Rightarrow> string \<Rightarrow> string \<Rightarrow> string \<Rightarrow> string \<Rightarrow> bool) \<Rightarrow> int \<Rightarrow> int
     \<Rightarrow> auth_call list \<Rightarrow> 's \<Rightarrow> (auth_refusal + unit) list \<times> 's" where
  "auth_run claim check R start [] s = ([], s)"
| "auth_run claim check R start (c # cs) s =
     (case verifyRequest claim check R start (ac_now1 c) (ac_now2 c) (ac_verb c) (ac_path c) (ac_headers c) (ac_body c) s of
        (r, s') \<Rightarrow> (case auth_run claim check R start cs s' of (rs, s'') \<Rightarrow> (r # rs, s'')))"

lemma auth_run_append:
  "auth_run claim check R start (cs @ ds) s =
     (let (rs, s') = auth_run claim check R start cs s; (rs', s'') = auth_run claim check R start ds s' in (rs @ rs', s''))"
  by (induction cs arbitrary: s) (simp_all split: prod.splits)

lemma auth_run_length: "length (fst (auth_run claim check R start cs s)) = length cs"
  by (induction cs arbitrary: s) (auto split: prod.splits, metis fst_conv)

lemma seconds_less: "(x :: int) div 1000 < k \<Longrightarrow> x < k * 1000"
  and seconds_le: "k \<le> (x :: int) div 1000 \<Longrightarrow> k * 1000 \<le> x"
  using div_mult_mod_eq [of x 1000] pos_mod_bound [of 1000 x] pos_mod_sign [of 1000 x] by linarith+

text \<open>Two texts that agree up to and after their first line feed.\<close>

lemma cut_line:
  "x @ newline @ r = y @ newline @ r' \<Longrightarrow> CHR 0x0A \<notin> set x \<Longrightarrow> CHR 0x0A \<notin> set y \<Longrightarrow> x = y \<and> r = r'"
proof (induction x arbitrary: y)
  case Nil
  then show ?case by (cases y) (simp_all add: newline_def)
next
  case (Cons c x)
  then show ?case by (cases y) (auto simp: newline_def)
qed

section \<open>What the check needs of a nonce store\<close>

text \<open>\<open>until s n\<close>: the time up to which \<open>s\<close> remembers \<open>n\<close>.\<close>

locale nonce_store =
  fixes claim :: "string \<Rightarrow> int \<Rightarrow> 's \<Rightarrow> bool \<times> 's" and until :: "'s \<Rightarrow> string \<Rightarrow> int option" and lifetime :: int
  assumes spent: "claim n now s = (True, s') \<Longrightarrow> until s' n = Some (now + lifetime)"
    and refused: "until s n = Some e \<Longrightarrow> now < e \<Longrightarrow> fst (claim n now s) = False"
    and remembered: "until s n = Some e \<Longrightarrow> now < e \<Longrightarrow> until (snd (claim m now s)) n = Some e"
begin

lemma verify_remembers:
  assumes "until s n = Some e" "now2 < e"
  shows "until (snd (verifyRequest claim check R start now1 now2 verb path headers body s)) n = Some e"
  using remembered [OF assms] assms(1)
  by (auto simp: verifyRequest_def Let_def split: option.splits prod.splits bool.splits)
    (metis snd_conv)+

text \<open>A request as it arrives, with the two readings of the clock.\<close>

lemma verify_refuses:
  assumes "until s n = Some e" "now2 < e" "ah_nonce headers = Some n"
  shows "fst (verifyRequest claim check R start now1 now2 verb path headers body s) \<noteq> Inr ()"
  using refused [OF assms(1,2)] assms(3)
  by (auto simp: verifyRequest_def Let_def split: option.splits prod.splits bool.splits)

lemma run_remembers:
  "until s n = Some e \<Longrightarrow> list_all (\<lambda>c. ac_now2 c < e) cs \<Longrightarrow>
     until (snd (auth_run claim check R start cs s)) n = Some e"
proof (induction cs arbitrary: s)
  case (Cons c cs)
  let ?v = "verifyRequest claim check R start (ac_now1 c) (ac_now2 c) (ac_verb c) (ac_path c) (ac_headers c) (ac_body c) s"
  have "until (snd ?v) n = Some e" using Cons.prems by (intro verify_remembers) simp_all
  from Cons.IH [OF this] Cons.prems(2) show ?case by (cases ?v) (auto split: prod.splits)
qed simp

text \<open>
  The last second a timestamp is admitted in ends before its nonce is forgotten, so a replay is refused as
  long as its two readings of the clock fall into the same second.
\<close>

lemma replay_refused:
  assumes run: "fst (auth_run claim check R start (xs @ a # ys @ [b]) s) = rs"
    and life: "lifetime = nonceLifetimeMs R"
    and same: "ah_timestamp (ac_headers a) = ah_timestamp (ac_headers b)" "ah_nonce (ac_headers a) = ah_nonce (ac_headers b)"
    and clock: "ac_now1 a \<le> ac_now2 a" "list_all (\<lambda>c. ac_now2 c \<le> ac_now1 b) ys"
    and second: "ac_now1 b div 1000 = ac_now2 b div 1000"
    and accepted: "rs ! length xs = Inr ()"
  shows "last rs \<noteq> Inr ()"
proof
  assume last: "last rs = Inr ()"
  let ?verify = "\<lambda>c s. verifyRequest claim check R start (ac_now1 c) (ac_now2 c) (ac_verb c) (ac_path c) (ac_headers c) (ac_body c) s"
  define s1 where "s1 = snd (auth_run claim check R start xs s)"
  define s2 where "s2 = snd (?verify a s1)"
  define s3 where "s3 = snd (auth_run claim check R start ys s2)"
  have len: "length (fst (auth_run claim check R start xs s)) = length xs" by (rule auth_run_length)
  have rs: "rs = fst (auth_run claim check R start xs s) @ fst (?verify a s1) # fst (auth_run claim check R start ys s2) @
      [fst (?verify b s3)]"
    using run by (auto simp: auth_run_append s1_def s2_def s3_def split: prod.splits)
  then have va: "fst (?verify a s1) = Inr ()" and vb: "fst (?verify b s3) = Inr ()"
    using accepted last len by (simp_all add: nth_append)
  from va obtain ts n where a: "ah_timestamp (ac_headers a) = Some ts" "ah_nonce (ac_headers a) = Some n"
      "- FORWARD_SKEW_SECONDS \<le> ac_now1 a div 1000 - int (number_of_digits ts)" "claim n (ac_now2 a) s1 = (True, s2)"
    by (cases "?verify a s1") (auto simp: verifyRequest_Inr s2_def)
  from vb obtain ts' where b: "ah_timestamp (ac_headers b) = Some ts'" "ac_now1 b div 1000 - int (number_of_digits ts') \<le> R"
    by (cases "?verify b s3") (auto simp: verifyRequest_Inr)
  let ?fin = "(int (number_of_digits ts) + R + 1) * 1000" and ?e = "ac_now2 a + lifetime"
  have "ts' = ts" using same(1) a(1) b(1) by simp
  with b(2) have "ac_now1 b div 1000 < int (number_of_digits ts) + R + 1" by simp
  with second have b1: "ac_now1 b < ?fin" and b2: "ac_now2 b < ?fin" using seconds_less by auto
  have e: "?fin \<le> ?e"
    using a(3) clock(1) seconds_le [of "int (number_of_digits ts) - 5" "ac_now1 a"]
    by (simp add: life nonceLifetimeMs_def FORWARD_SKEW_SECONDS_def)
  have "until s2 n = Some ?e" using spent [OF a(4)] .
  moreover have "list_all (\<lambda>c. ac_now2 c < ?e) ys"
    using clock(2) b1 e by (auto simp: list_all_iff)
  ultimately have "until s3 n = Some ?e" unfolding s3_def by (rule run_remembers)
  from verify_refuses [OF this, of "ac_now2 b" "ac_headers b"] b2 e same(2) a(2) vb show False
    by simp
qed

end

section \<open>The in-memory store keeps the contract\<close>

lemma sweep_keeps: "map_of seen n = Some e \<Longrightarrow> now < e \<Longrightarrow> map_of (sweep_nonces now seen) n = Some e"
  unfolding sweep_nonces_def by (induction seen) (auto split: if_splits)

interpretation in_memory: nonce_store "claim_nonce lifetime maxEntries" map_of lifetime for lifetime maxEntries
proof unfold_locales
  fix n now and s s' :: nonce_map
  assume "claim_nonce lifetime maxEntries n now s = (True, s')"
  then show "map_of s' n = Some (now + lifetime)"
    by (auto simp: claim_nonce_def Let_def map_add_def split: if_splits option.splits)
next
  fix s :: nonce_map and n e now
  assume "map_of s n = Some e" "now < e"
  from sweep_keeps [OF this] show "fst (claim_nonce lifetime maxEntries n now s) = False"
    by (simp add: claim_nonce_def Let_def)
next
  fix s :: nonce_map and n e now m
  assume "map_of s n = Some e" "now < e"
  from sweep_keeps [OF this] show "map_of (snd (claim_nonce lifetime maxEntries m now s)) n = Some e"
    by (auto simp: claim_nonce_def Let_def map_add_def split: option.splits)
qed

section \<open>Properties\<close>

text \<open>C9: A request is accepted at most once by a running broker.  Of two calls with the same timestamp and
  nonce, whatever else was called in between, the second is refused if the first was accepted, for a
  clock that does not run backwards and that ticks into no new second between the second call's two
  readings of it.\<close>

theorem accepted_at_most_once:
  assumes "fst (auth_run (claim_nonce (nonceLifetimeMs R) maxEntries) check R start (xs @ a # ys @ [b]) s) = rs"
    and "ah_timestamp (ac_headers a) = ah_timestamp (ac_headers b)" "ah_nonce (ac_headers a) = ah_nonce (ac_headers b)"
    and "ac_now1 a \<le> ac_now2 a" "list_all (\<lambda>c. ac_now2 c \<le> ac_now1 b) ys"
    and "ac_now1 b div 1000 = ac_now2 b div 1000"
    and "rs ! length xs = Inr ()"
  shows "last rs \<noteq> Inr ()"
  by (rule in_memory.replay_refused [OF assms(1) refl assms(2-7)])

text \<open>A captured request, sent at \<open>now1\<close> with the second reading at \<open>now2\<close>.\<close>

definition sample_call :: "int \<Rightarrow> int \<Rightarrow> auth_call" where
  "sample_call now1 now2 = \<lparr>ac_now1 = now1, ac_now2 = now2, ac_verb = ''POST'', ac_path = ''/reset'',
     ac_headers = \<lparr>ah_timestamp = Some ''1000'', ah_nonce = Some ''0123456789abcdef'', ah_signature = Some ''sig''\<rparr>,
     ac_body = ''{}''\<rparr>"

lemma sample_patterns:
  "TIMESTAMP_PATTERN ''1000''" "NONCE_PATTERN ''0123456789abcdef''" "number_of_digits ''1000'' = 1000"
  by (simp_all add: TIMESTAMP_PATTERN_def NONCE_PATTERN_def nonce_chars_def all_in_def digits_def lowers_def uppers_def
      number_of_digits_def digit_val_def)

lemma sample_call_verifies:
  "verifyRequest claim (\<lambda>_ _ _ _ _ _. True) 60 start now1 now2 verb path (ac_headers (sample_call n1 n2)) body s =
     (if now1 div 1000 > 1060 \<or> now1 div 1000 < 995 then (Inl OutsideWindow, s)
      else if 1000 \<le> start then (Inl BeforeProcess, s)
      else (case claim ''0123456789abcdef'' now2 s of (False, s') \<Rightarrow> (Inl NonceUsed, s') | (True, s') \<Rightarrow> (Inr (), s')))"
  by (simp add: verifyRequest_def sample_call_def sample_patterns Let_def FORWARD_SKEW_SECONDS_def) linarith?

lemma accepted_at_most_once_witness:
  "last (fst (auth_run (claim_nonce (nonceLifetimeMs 60) 10) (\<lambda>_ _ _ _ _ _. True) 60 900
      ([] @ sample_call 1000000 1000000 # [] @ [sample_call 1060998 1060999]) [])) \<noteq> Inr ()"
  by (rule accepted_at_most_once [OF refl])
    (simp_all add: sample_call_verifies, simp_all add: sample_call_def claim_nonce_def sweep_nonces_def Let_def)

text \<open>
  The hypothesis on the two readings is needed: the nonce of a request accepted at the first instant of its
  window is forgotten at the very millisecond the window closes, and a replay whose readings lie on either
  side of it is accepted.
\<close>

lemma replay_between_two_readings:
  "fst (auth_run (claim_nonce (nonceLifetimeMs 60) 10) (\<lambda>_ _ _ _ _ _. True) 60 900
      [sample_call 995000 995000, sample_call 1060999 1061000] []) = [Inr (), Inr ()]"
  by (simp add: sample_call_verifies) (simp add: sample_call_def claim_nonce_def sweep_nonces_def Let_def nonceLifetimeMs_def FORWARD_SKEW_SECONDS_def)

text \<open>
  The floor at the start of the process does not cover the forward skew: a request stamped five seconds
  ahead is accepted, and accepted again by a process started one second later, whose store is empty.
\<close>

lemma replay_after_restart:
  "fst (auth_run (claim_nonce (nonceLifetimeMs 60) 10) (\<lambda>_ _ _ _ _ _. True) 60 900 [sample_call 995000 995000] []) = [Inr ()] \<and>
   fst (auth_run (claim_nonce (nonceLifetimeMs 60) 10) (\<lambda>_ _ _ _ _ _. True) 60 996 [sample_call 997000 997000] []) = [Inr ()]"
  by (simp add: sample_call_verifies) (simp add: sample_call_def claim_nonce_def sweep_nonces_def Let_def)

text \<open>What a signature covers determines the request: the bytes signed for two requests with a well-formed
  timestamp and nonce are equal only if the method, the path, the timestamp, the nonce and the body are, for
  methods and paths without a line feed, as HTTP has them.\<close>

theorem payload_determines_request:
  assumes "signingPayload verb path ts nonce body = signingPayload verb' path' ts' nonce' body'"
    and "TIMESTAMP_PATTERN ts" "TIMESTAMP_PATTERN ts'" "NONCE_PATTERN nonce" "NONCE_PATTERN nonce'"
    and "CHR 0x0A \<notin> set verb \<union> set path \<union> set verb' \<union> set path'"
  shows "verb = verb' \<and> path = path' \<and> ts = ts' \<and> nonce = nonce' \<and> body = body'"
proof -
  have d: "CHR 0x0A \<notin> set digits" and c: "CHR 0x0A \<notin> set nonce_chars"
    by (simp_all add: nonce_chars_def digits_def lowers_def uppers_def)
  from assms(2-5) have ts: "CHR 0x0A \<notin> set ts" "CHR 0x0A \<notin> set ts'"
    and n: "CHR 0x0A \<notin> set nonce" "CHR 0x0A \<notin> set nonce'"
    unfolding TIMESTAMP_PATTERN_def NONCE_PATTERN_def using all_in_notin [OF _ d] all_in_notin [OF _ c] by blast+
  have v: "verb = verb'" and r1: "path @ newline @ ts @ newline @ nonce @ newline @ body =
      path' @ newline @ ts' @ newline @ nonce' @ newline @ body'"
    using cut_line [OF assms(1) [unfolded signingPayload_def]] assms(6) by auto
  have p: "path = path'" and r2: "ts @ newline @ nonce @ newline @ body = ts' @ newline @ nonce' @ newline @ body'"
    using cut_line [OF r1] assms(6) by auto
  from cut_line [OF r2 ts] have t: "ts = ts'" and r3: "nonce @ newline @ body = nonce' @ newline @ body'" by auto
  from cut_line [OF r3 n] v p t show ?thesis by simp
qed

lemma payload_determines_request_witness:
  "''POST'' = ''POST'' \<and> ''/reset'' = ''/reset'' \<and> ''1000'' = ''1000'' \<and> ''0123456789abcdef'' = ''0123456789abcdef'' \<and> ''{}'' = ''{}''"
  by (rule payload_determines_request [OF refl sample_patterns(1,1,2,2)]) simp

end
