(* ===== verification/Broker_Http.thy ===== *)
theory Broker_Http
  imports Broker_Auth Broker_State
begin

text \<open>
  What stands between a socket and the broker's handlers: \<open>matchRoute\<close>, \<open>createGate\<close> and
  \<open>createBrokerHandler\<close> of \<open>src/services/broker/src/app.ts\<close>, the generated route table and the adapter's own
  matcher, and \<open>parsedDifference.ts\<close>.

  Parameters: \<open>decode\<close> is \<open>decodeURIComponent\<close> (\<open>None\<close> where it throws), \<open>json_parse\<close> is \<open>JSON.parse\<close>, and
  \<open>schema\<close> the generated zod schema of a route's body, which gives the parsed copy or \<open>None\<close>.
\<close>

section \<open>Routes\<close>

datatype route_id = PollDrainQueue | PushImage | ReconcileSlot | ResetSlot | GetSlotStatus | StopSlot

datatype body_mode = NoBodyMode | OctetStream | JsonMode

record route =
  rt_id :: route_id
  rt_verb :: string
  rt_path :: string
  rt_bodyMode :: body_mode

definition routes :: "route list" where
  "routes =
     [\<lparr>rt_id = PollDrainQueue, rt_verb = ''GET'', rt_path = ''/drain'', rt_bodyMode = NoBodyMode\<rparr>,
      \<lparr>rt_id = PushImage, rt_verb = ''POST'', rt_path = ''/image'', rt_bodyMode = OctetStream\<rparr>,
      \<lparr>rt_id = ReconcileSlot, rt_verb = ''POST'', rt_path = ''/reconcile'', rt_bodyMode = JsonMode\<rparr>,
      \<lparr>rt_id = ResetSlot, rt_verb = ''POST'', rt_path = ''/reset'', rt_bodyMode = JsonMode\<rparr>,
      \<lparr>rt_id = GetSlotStatus, rt_verb = ''GET'', rt_path = ''/status/{slot}'', rt_bodyMode = NoBodyMode\<rparr>,
      \<lparr>rt_id = StopSlot, rt_verb = ''POST'', rt_path = ''/stop'', rt_bodyMode = JsonMode\<rparr>]"

definition is_param :: "string \<Rightarrow> bool" where
  "is_param want \<longleftrightarrow> want \<noteq> [] \<and> hd want = CHR ''{'' \<and> last want = CHR ''}''"

definition param_name :: "string \<Rightarrow> string" where
  "param_name want = butlast (tl want)"

text \<open>The segments of one template against those of the path, with the captures made on the way.\<close>

fun match_segments :: "(string \<Rightarrow> string option) \<Rightarrow> string list \<Rightarrow> string list \<Rightarrow> (string \<times> string) list option" where
  "match_segments decode [] [] = Some []"
| "match_segments decode (want # ws) (got # gs) =
     (if got = '''' then None
      else if is_param want then
        (case decode got of
           None \<Rightarrow> None
         | Some v \<Rightarrow> map_option (\<lambda>ps. (param_name want, v) # ps) (match_segments decode ws gs))
      else if want \<noteq> got then None
      else match_segments decode ws gs)"
| "match_segments decode _ _ = None"

fun first_match :: "(string \<Rightarrow> string option) \<Rightarrow> string \<Rightarrow> string list \<Rightarrow> route list \<Rightarrow> (route \<times> (string \<times> string) list) option" where
  "first_match decode verb actual [] = None"
| "first_match decode verb actual (r # rs) =
     (if rt_verb r \<noteq> verb then first_match decode verb actual rs
      else (case match_segments decode (split_on CHR ''/'' (tl (rt_path r))) actual of
          Some ps \<Rightarrow> Some (r, ps)
        | None \<Rightarrow> first_match decode verb actual rs))"

definition matchRoute :: "(string \<Rightarrow> string option) \<Rightarrow> string \<Rightarrow> string \<Rightarrow> (route \<times> (string \<times> string) list) option" where
  "matchRoute decode verb rawPath =
     (if rawPath = '''' \<or> hd rawPath \<noteq> CHR ''/'' then None
      else first_match decode verb (split_on CHR ''/'' (tl rawPath)) routes)"

text \<open>The adapter's matcher drops empty segments on both sides, and finds the first route it matches.\<close>

fun match_parts :: "(string \<Rightarrow> string option) \<Rightarrow> string list \<Rightarrow> string list \<Rightarrow> (string \<times> string) list option" where
  "match_parts decode [] [] = Some []"
| "match_parts decode (t # ts) (a # as) =
     (if is_param t then
        (case decode a of
           None \<Rightarrow> None
         | Some v \<Rightarrow> map_option (\<lambda>ps. (param_name t, v) # ps) (match_parts decode ts as))
      else if t \<noteq> a then None
      else match_parts decode ts as)"
| "match_parts decode _ _ = None"

definition matchPath :: "(string \<Rightarrow> string option) \<Rightarrow> string \<Rightarrow> string \<Rightarrow> (string \<times> string) list option" where
  "matchPath decode template actual =
     match_parts decode (filter (\<lambda>p. p \<noteq> '''') (split_on CHR ''/'' template)) (filter (\<lambda>p. p \<noteq> '''') (split_on CHR ''/'' actual))"

definition adapter_route :: "(string \<Rightarrow> string option) \<Rightarrow> string \<Rightarrow> string \<Rightarrow> route option" where
  "adapter_route decode verb pathname =
     find (\<lambda>r. rt_verb r = verb \<and> matchPath decode (rt_path r) pathname \<noteq> None) routes"

section \<open>What a parsed copy may change\<close>

type_synonym differences = "string list \<times> string list"

definition merge :: "differences \<Rightarrow> differences \<Rightarrow> differences" where
  "merge a b = (fst a @ fst b, snd a @ snd b)"

definition index_path :: "string \<Rightarrow> nat \<Rightarrow> string" where
  "index_path path i = path @ ''['' @ show_nat i @ '']''"

definition field_path :: "string \<Rightarrow> string \<Rightarrow> string" where
  "field_path path key = (if path = '''' then key else path @ ''.'' @ key)"

text \<open>\<open>None\<close> as the parsed value is \<open>undefined\<close>, past the end of a shorter array.\<close>

fun compareParsed :: "json \<Rightarrow> json option \<Rightarrow> string \<Rightarrow> differences"
  and compare_items :: "json list \<Rightarrow> json list \<Rightarrow> nat \<Rightarrow> string \<Rightarrow> differences"
  and compare_fields :: "(string \<times> json) list \<Rightarrow> (string \<times> json) list \<Rightarrow> string \<Rightarrow> differences" where
  "compareParsed (JArray xs) (Some (JArray ys)) path = compare_items xs ys 0 path"
| "compareParsed (JObject kvs) (Some (JObject pvs)) path = compare_fields kvs pvs path"
| "compareParsed sent parsed path = ([], if parsed = Some sent then [] else [path])"
| "compare_items [] ys i path = ([], [])"
| "compare_items (x # xs) ys i path =
     merge (compareParsed x (if i < length ys then Some (ys ! i) else None) (index_path path i)) (compare_items xs ys (i + 1) path)"
| "compare_fields [] pvs path = ([], [])"
| "compare_fields ((key, v) # kvs) pvs path =
     merge (case map_of pvs key of
         None \<Rightarrow> ([field_path path key], [])
       | Some p \<Rightarrow> compareParsed v (Some p) (field_path path key))
       (compare_fields kvs pvs path)"

section \<open>The gate\<close>

definition JSON_BODY_MAX_BYTES :: nat where
  "JSON_BODY_MAX_BYTES = 256 * 1024"

datatype gate_verdict = Pass | Refuse nat

definition descriptor_of :: "json \<Rightarrow> json option" where
  "descriptor_of v = (case v of JObject kvs \<Rightarrow> map_of kvs ''descriptor'' | _ \<Rightarrow> None)"

definition slot_of :: "json \<Rightarrow> json option" where
  "slot_of v = (case v of JObject kvs \<Rightarrow> map_of kvs ''slot'' | _ \<Rightarrow> None)"

text \<open>The checks on a JSON body that has been signed, in order.\<close>

definition gate_json :: "string list \<Rightarrow> (string \<Rightarrow> json option) \<Rightarrow> (json \<Rightarrow> json option) \<Rightarrow> route \<Rightarrow> string \<Rightarrow> gate_verdict" where
  "gate_json slotLiterals json_parse schema route raw = (case json_parse raw of
       None \<Rightarrow> Refuse 400
     | Some payload \<Rightarrow>
         (case validateSlotLiteral (slot_of payload) slotLiterals of
            Inl _ \<Rightarrow> Refuse 422
          | Inr _ \<Rightarrow>
              (case schema payload of
                 None \<Rightarrow> Refuse 400
               | Some data \<Rightarrow>
                   (if rt_id route = ReconcileSlot then
                      (case (descriptor_of payload, descriptor_of data) of
                         (Some sent, parsed) \<Rightarrow>
                           (let d = compareParsed sent parsed '''' in
                            if fst d \<noteq> [] then Refuse 400 else if snd d \<noteq> [] then Refuse 400 else Pass)
                       | (None, parsed) \<Rightarrow> (if parsed = None then Pass else Refuse 400))
                    else Pass))))"

text \<open>
  \<open>verify\<close> is \<open>verifyRequest\<close> with the request's verb, headers and store, for a path and the signed bytes;
  \<open>imageHeaders\<close> is what \<open>readImageHeaders\<close> makes of the headers: a status, or the bytes to sign.
\<close>

definition createGate ::
  "string list \<Rightarrow> (string \<Rightarrow> json option) \<Rightarrow> (json \<Rightarrow> json option) \<Rightarrow> (string \<Rightarrow> string \<Rightarrow> bool) \<Rightarrow> nat + string
     \<Rightarrow> route \<Rightarrow> string option \<Rightarrow> gate_verdict" where
  "createGate slotLiterals json_parse schema verify imageHeaders route rawBody =
     (if rt_id route = GetSlotStatus then Pass
      else if rt_id route = PushImage then
        (case imageHeaders of
           Inl status \<Rightarrow> Refuse status
         | Inr manifest \<Rightarrow> if verify (rt_path route) manifest then Pass else Refuse 401)
      else (case rawBody of
          None \<Rightarrow> Refuse 413
        | Some raw \<Rightarrow>
            if \<not> verify (rt_path route) raw then Refuse 401
            else if rt_bodyMode route \<noteq> JsonMode then Pass
            else gate_json slotLiterals json_parse schema route raw))"

text \<open>
  The front door: an answer with a status, or the handler of a route is called.  \<open>body\<close> is what arrived;
  more than \<open>JSON_BODY_MAX_BYTES\<close> of it is never buffered.
\<close>

datatype front = Answer nat | Dispatch route "(string \<times> string) list"

definition createBrokerHandler ::
  "string list \<Rightarrow> (string \<Rightarrow> string option) \<Rightarrow> (string \<Rightarrow> json option) \<Rightarrow> (route_id \<Rightarrow> json \<Rightarrow> json option)
     \<Rightarrow> (string \<Rightarrow> string \<Rightarrow> bool) \<Rightarrow> nat + string \<Rightarrow> string \<Rightarrow> string \<Rightarrow> nat option \<Rightarrow> string \<Rightarrow> front" where
  "createBrokerHandler slotLiterals decode json_parse schema verify imageHeaders verb rawPath declared body =
     (case matchRoute decode verb rawPath of
        None \<Rightarrow> Answer 404
      | Some (route, params) \<Rightarrow>
          if rt_id route = GetSlotStatus \<and>
             (case validateSlotLiteral (map_option JString (map_of params ''slot'')) slotLiterals of Inl _ \<Rightarrow> True | Inr _ \<Rightarrow> False)
          then Answer 404
          else if rt_bodyMode route = JsonMode \<and> (case declared of None \<Rightarrow> False | Some n \<Rightarrow> n > JSON_BODY_MAX_BYTES) then Answer 413
          else if rt_bodyMode route = JsonMode \<and> length body > JSON_BODY_MAX_BYTES then Answer 413
          else (case createGate slotLiterals json_parse (schema (rt_id route)) verify imageHeaders route
                  (if length body > JSON_BODY_MAX_BYTES then None else Some body) of
              Refuse status \<Rightarrow> Answer status
            | Pass \<Rightarrow> Dispatch route params))"

section \<open>Lookups in a value\<close>

datatype step = Index nat | Key string

fun json_at :: "json \<Rightarrow> step list \<Rightarrow> json option" where
  "json_at v [] = Some v"
| "json_at (JArray xs) (Index i # p) = (if i < length xs then json_at (xs ! i) p else None)"
| "json_at (JObject kvs) (Key k # p) = (case map_of kvs k of None \<Rightarrow> None | Some v \<Rightarrow> json_at v p)"
| "json_at v (s # p) = None"

text \<open>Equal scalars, or containers of one kind.\<close>

fun same_value :: "json \<Rightarrow> json \<Rightarrow> bool" where
  "same_value (JArray xs) w = (case w of JArray ys \<Rightarrow> True | _ \<Rightarrow> False)"
| "same_value (JObject kvs) w = (case w of JObject pvs \<Rightarrow> True | _ \<Rightarrow> False)"
| "same_value v w = (v = w)"

lemma same_value_refl [simp]: "same_value v v"
  by (cases v) simp_all

lemma merge_none: "merge a b = ([], []) \<longleftrightarrow> a = ([], []) \<and> b = ([], [])"
  by (cases a; cases b) (auto simp: merge_def)

definition agrees :: "json \<Rightarrow> json \<Rightarrow> bool" where
  "agrees sent parsed \<longleftrightarrow> (\<forall>p v. json_at sent p = Some v \<longrightarrow> (\<exists>w. json_at parsed p = Some w \<and> same_value v w))"

lemma agrees_refl [simp]: "agrees v v"
  by (simp add: agrees_def)

lemma agrees_array:
  assumes "\<And>i. i < length xs \<Longrightarrow> i < length ys \<and> agrees (xs ! i) (ys ! i)"
  shows "agrees (JArray xs) (JArray ys)"
  unfolding agrees_def
proof (intro allI impI)
  fix p v assume "json_at (JArray xs) p = Some v"
  then show "\<exists>w. json_at (JArray ys) p = Some w \<and> same_value v w"
    using assms by (cases "(JArray xs, p)" rule: json_at.cases) (auto simp: agrees_def split: if_splits)
qed

lemma agrees_object:
  assumes "\<And>k v. map_of kvs k = Some v \<Longrightarrow> \<exists>w. map_of pvs k = Some w \<and> agrees v w"
  shows "agrees (JObject kvs) (JObject pvs)"
  unfolding agrees_def
proof (intro allI impI)
  fix p v assume at: "json_at (JObject kvs) p = Some v"
  show "\<exists>w. json_at (JObject pvs) p = Some w \<and> same_value v w"
  proof (cases p)
    case (Cons s q)
    then obtain k u where "s = Key k" "map_of kvs k = Some u" "json_at u q = Some v"
      using at by (cases s) (auto split: option.splits)
    with assms [of k u] Cons show ?thesis by (auto simp: agrees_def)
  qed (use at in auto)
qed

lemma compare_agrees:
  "compareParsed sent parsed path = ([], []) \<Longrightarrow> \<exists>w. parsed = Some w \<and> agrees sent w"
  "compare_items xs ys i path = ([], []) \<Longrightarrow> \<forall>j < length xs. i + j < length ys \<and> agrees (xs ! j) (ys ! (i + j))"
  "compare_fields kvs pvs path = ([], []) \<Longrightarrow> \<forall>k v. map_of kvs k = Some v \<longrightarrow> (\<exists>w. map_of pvs k = Some w \<and> agrees v w)"
proof (induction sent parsed path and xs ys i path and kvs pvs path rule: compareParsed_compare_items_compare_fields.induct)
  case (1 xs ys path)
  then show ?case by (auto intro!: agrees_array)
next
  case (2 kvs pvs path)
  then show ?case by (auto intro!: agrees_object)
next
  case (5 x xs ys i path)
  then have hd: "i < length ys" "agrees x (ys ! i)"
    and tl: "\<forall>j < length xs. Suc i + j < length ys \<and> agrees (xs ! j) (ys ! (Suc i + j))"
    by (auto simp: merge_none split: if_splits)
  show ?case
  proof (intro allI impI)
    fix j assume "j < length (x # xs)"
    then show "i + j < length ys \<and> agrees ((x # xs) ! j) (ys ! (i + j))"
      using hd tl by (cases j) auto
  qed
qed (auto simp: merge_none split: if_splits option.splits)

section \<open>Matching\<close>

text \<open>What it means for a segment of a path to be that of a template.\<close>

definition seg_ok :: "(string \<Rightarrow> string option) \<Rightarrow> string \<Rightarrow> string \<Rightarrow> bool" where
  "seg_ok decode want got \<longleftrightarrow> got \<noteq> '''' \<and> (if is_param want then decode got \<noteq> None else want = got)"

lemma match_segments_Some:
  "match_segments decode ws gs \<noteq> None \<longleftrightarrow> list_all2 (seg_ok decode) ws gs"
  by (induction decode ws gs rule: match_segments.induct) (auto simp: seg_ok_def split: option.splits)

lemma seg_ok_literal: "list_all2 (seg_ok decode) ws gs \<Longrightarrow> list_all (\<lambda>w. \<not> is_param w) ws \<Longrightarrow> gs = ws"
  by (induction ws gs rule: list_all2_induct) (auto simp: seg_ok_def)

lemma first_match_Some:
  "first_match decode verb actual rs = Some (r, ps) \<Longrightarrow>
     r \<in> set rs \<and> rt_verb r = verb \<and> match_segments decode (split_on CHR ''/'' (tl (rt_path r))) actual = Some ps"
  by (induction decode verb actual rs rule: first_match.induct) (auto split: if_splits option.splits)

text \<open>Without empty segments the adapter's matcher is the front door's.\<close>

lemma match_parts_eq:
  "list_all (\<lambda>g. g \<noteq> '''') gs \<Longrightarrow> match_parts decode ws gs = match_segments decode ws gs"
  by (induction decode ws gs rule: match_segments.induct) (auto split: option.splits)

lemma seg_ok_nonempty: "list_all2 (seg_ok decode) ws gs \<Longrightarrow> list_all (\<lambda>g. g \<noteq> '''') gs"
  by (induction ws gs rule: list_all2_induct) (auto simp: seg_ok_def)

lemma matchRoute_Some:
  assumes "matchRoute decode verb rawPath = Some (r, ps)"
  obtains gs where "rawPath = CHR ''/'' # join_with CHR ''/'' gs" "gs = split_on CHR ''/'' (tl rawPath)" "r \<in> set routes"
    "rt_verb r = verb" "match_segments decode (split_on CHR ''/'' (tl (rt_path r))) gs = Some ps"
    "list_all2 (seg_ok decode) (split_on CHR ''/'' (tl (rt_path r))) gs"
proof -
  let ?gs = "split_on CHR ''/'' (tl rawPath)"
  have p: "rawPath \<noteq> ''''" "hd rawPath = CHR ''/''" "first_match decode verb ?gs routes = Some (r, ps)"
    using assms by (auto simp: matchRoute_def split: if_splits)
  note f = first_match_Some [OF p(3)]
  have "rawPath = CHR ''/'' # join_with CHR ''/'' ?gs"
    using p(1,2) by (cases rawPath) (simp_all add: join_split)
  moreover have "list_all2 (seg_ok decode) (split_on CHR ''/'' (tl (rt_path r))) ?gs"
    using f match_segments_Some by (metis option.distinct(1))
  ultimately show ?thesis using that f by blast
qed

lemma route_templates:
  assumes "r \<in> set routes"
  shows "if rt_id r = GetSlotStatus then split_on CHR ''/'' (tl (rt_path r)) = [''status'', ''{slot}'']
     else \<exists>w. split_on CHR ''/'' (tl (rt_path r)) = [w] \<and> \<not> is_param w \<and> rt_path r = CHR ''/'' # w"
  using assms by (auto simp: routes_def is_param_def)

lemma route_by_path: "q \<in> set routes \<Longrightarrow> r \<in> set routes \<Longrightarrow> rt_path q = rt_path r \<Longrightarrow> q = r"
proof -
  have "distinct (map rt_path routes)" by (simp add: routes_def)
  then show "q \<in> set routes \<Longrightarrow> r \<in> set routes \<Longrightarrow> rt_path q = rt_path r \<Longrightarrow> q = r"
    by (auto simp: distinct_map inj_on_def)
qed

lemma route_status: "r \<in> set routes \<Longrightarrow> rt_id r = GetSlotStatus \<Longrightarrow> rt_path r = ''/status/{slot}''"
  by (auto simp: routes_def)

text \<open>A literal route is matched by its own path and no other.\<close>

lemma matchRoute_literal:
  assumes "matchRoute decode verb rawPath = Some (r, ps)" "rt_id r \<noteq> GetSlotStatus"
  shows "rawPath = rt_path r"
proof -
  from assms(1) obtain gs where gs: "rawPath = CHR ''/'' # join_with CHR ''/'' gs" "r \<in> set routes"
      "list_all2 (seg_ok decode) (split_on CHR ''/'' (tl (rt_path r))) gs"
    by (rule matchRoute_Some)
  obtain w where w: "split_on CHR ''/'' (tl (rt_path r)) = [w]" "\<not> is_param w" "rt_path r = CHR ''/'' # w"
    using route_templates [OF gs(2)] assms(2) by auto
  from seg_ok_literal [OF gs(3)] w have "gs = [w]" by simp
  with gs(1) w(3) show ?thesis by simp
qed

text \<open>The templates have no path in common, so the segments of a path single out the route.\<close>

lemma route_of_segments:
  assumes "q \<in> set routes" "r \<in> set routes"
    and "list_all2 (seg_ok decode) (split_on CHR ''/'' (tl (rt_path q))) gs"
    and "list_all2 (seg_ok decode) (split_on CHR ''/'' (tl (rt_path r))) gs"
  shows "q = r"
proof -
  have literal: "\<exists>w. gs = [w] \<and> rt_path p = CHR ''/'' # w"
    if "p \<in> set routes" "rt_id p \<noteq> GetSlotStatus" "list_all2 (seg_ok decode) (split_on CHR ''/'' (tl (rt_path p))) gs" for p
  proof -
    from route_templates [OF that(1)] that(2)
    obtain w where w: "split_on CHR ''/'' (tl (rt_path p)) = [w]" "\<not> is_param w" "rt_path p = CHR ''/'' # w"
      by auto
    with seg_ok_literal [OF that(3)] show ?thesis by simp
  qed
  have slotted: "length gs = 2 \<and> rt_path p = ''/status/{slot}''"
    if "p \<in> set routes" "rt_id p = GetSlotStatus" "list_all2 (seg_ok decode) (split_on CHR ''/'' (tl (rt_path p))) gs" for p
    using route_templates [OF that(1)] that(2) list_all2_lengthD [OF that(3)] route_status [OF that(1)] by simp
  have "rt_path q = rt_path r"
    using literal [OF assms(1) _ assms(3)] literal [OF assms(2) _ assms(4)]
      slotted [OF assms(1) _ assms(3)] slotted [OF assms(2) _ assms(4)]
    by (cases "rt_id q = GetSlotStatus"; cases "rt_id r = GetSlotStatus") (fastforce+)
  then show ?thesis by (rule route_by_path [OF assms(1,2)])
qed

section \<open>Properties\<close>

text \<open>What has been established of a request by the time a handler is called for it.\<close>

definition vetted ::
  "string list \<Rightarrow> (string \<Rightarrow> json option) \<Rightarrow> (route_id \<Rightarrow> json \<Rightarrow> json option) \<Rightarrow> (string \<Rightarrow> string \<Rightarrow> bool) \<Rightarrow> nat + string
     \<Rightarrow> string \<Rightarrow> string \<Rightarrow> route \<Rightarrow> (string \<times> string) list \<Rightarrow> bool" where
  "vetted slotLiterals json_parse schema verify imageHeaders rawPath body r params \<longleftrightarrow>
     (if rt_id r = GetSlotStatus then
        (\<exists>slot. validateSlotLiteral (map_option JString (map_of params ''slot'')) slotLiterals = Inr slot)
      else rawPath = rt_path r \<and>
       (if rt_id r = PushImage then (\<exists>manifest. imageHeaders = Inr manifest \<and> verify rawPath manifest)
        else length body \<le> JSON_BODY_MAX_BYTES \<and> verify rawPath body \<and>
         (rt_bodyMode r = JsonMode \<longrightarrow> (\<exists>payload slot data. json_parse body = Some payload \<and>
            validateSlotLiteral (slot_of payload) slotLiterals = Inr slot \<and> schema (rt_id r) payload = Some data \<and>
            (rt_id r = ReconcileSlot \<longrightarrow> (\<forall>sent. descriptor_of payload = Some sent \<longrightarrow>
               (\<exists>parsed. descriptor_of data = Some parsed \<and> agrees sent parsed)))))))"

lemma gate_json_Pass:
  assumes "gate_json slotLiterals json_parse sch r raw = Pass"
  shows "\<exists>payload slot data. json_parse raw = Some payload \<and> validateSlotLiteral (slot_of payload) slotLiterals = Inr slot \<and>
     sch payload = Some data \<and> (rt_id r = ReconcileSlot \<longrightarrow> (\<forall>sent. descriptor_of payload = Some sent \<longrightarrow>
        (\<exists>parsed. descriptor_of data = Some parsed \<and> agrees sent parsed)))"
proof -
  have agree: "\<exists>w. parsed = Some w \<and> agrees sent w" if "fst (compareParsed sent parsed '''') = []" "snd (compareParsed sent parsed '''') = []"
    for sent parsed
    using compare_agrees(1) [of sent parsed "''''"] that by (simp add: prod_eq_iff)
  from assms show ?thesis
    by (auto simp: gate_json_def Let_def split: option.splits sum.splits if_splits dest: agree)
qed

text \<open>C8: No request reaches a handler unvetted.  Apart from the status of an enumerated slot, a handler runs
  only for the exact path of a route and only when the signature verified over that path and the very bytes
  of the body, at most 256 KiB of them, or over the image's manifest; a JSON body has parsed, names an
  enumerated slot and satisfies the route's schema; and every value the caller signed in a descriptor is
  the one at the same place in the copy the handler is given.\<close>

theorem only_vetted_requests_are_dispatched:
  assumes "createBrokerHandler slotLiterals decode json_parse schema verify imageHeaders verb rawPath declared body = Dispatch r params"
  shows "vetted slotLiterals json_parse schema verify imageHeaders rawPath body r params"
proof -
  have m: "matchRoute decode verb rawPath = Some (r, params)"
    and g: "createGate slotLiterals json_parse (schema (rt_id r)) verify imageHeaders r
        (if length body > JSON_BODY_MAX_BYTES then None else Some body) = Pass"
    and status: "rt_id r = GetSlotStatus \<Longrightarrow>
        \<exists>slot. validateSlotLiteral (map_option JString (map_of params ''slot'')) slotLiterals = Inr slot"
    using assms by (auto simp: createBrokerHandler_def split: option.splits prod.splits if_splits gate_verdict.splits sum.splits)
  show ?thesis
  proof (cases "rt_id r = GetSlotStatus")
    case True
    with status show ?thesis by (simp add: vetted_def)
  next
    case False
    with g matchRoute_literal [OF m False] show ?thesis
      by (auto simp: vetted_def createGate_def split: if_splits sum.splits option.splits dest: gate_json_Pass)
  qed
qed

definition sample_reset :: json where
  "sample_reset = JObject [(''slot'', JString ''3'')]"

lemma only_vetted_requests_are_dispatched_witness:
  "vetted [''3''] (\<lambda>_. Some sample_reset) (\<lambda>_ v. Some v) (\<lambda>_ _. True) (Inl 400) ''/reset'' ''{}''
     \<lparr>rt_id = ResetSlot, rt_verb = ''POST'', rt_path = ''/reset'', rt_bodyMode = JsonMode\<rparr> []"
  by (rule only_vetted_requests_are_dispatched [where decode = Some and verb = "''POST''" and declared = "Some 2"])
    (simp add: createBrokerHandler_def matchRoute_def routes_def createGate_def gate_json_def sample_reset_def slot_of_def
      validateSlotLiteral_def validateSlotName_def validate_string_def valid_slot_name_def all_in_def slot_name_chars_def
      digits_def bindS_def guardS_def JSON_BODY_MAX_BYTES_def is_param_def descriptor_of_def)

text \<open>The route that was vetted is the route that runs: the generated adapter, which matches the path again
  with a laxer matcher of its own, finds the same one.\<close>

theorem adapter_finds_the_vetted_route:
  assumes "matchRoute decode verb rawPath = Some (r, params)"
  shows "adapter_route decode verb rawPath = Some r"
proof -
  from assms obtain gs where gs: "rawPath = CHR ''/'' # join_with CHR ''/'' gs" "gs = split_on CHR ''/'' (tl rawPath)"
      "r \<in> set routes" "rt_verb r = verb" "match_segments decode (split_on CHR ''/'' (tl (rt_path r))) gs = Some params"
      "list_all2 (seg_ok decode) (split_on CHR ''/'' (tl (rt_path r))) gs"
    by (rule matchRoute_Some)
  have ne: "list_all (\<lambda>g. g \<noteq> '''') gs" by (rule seg_ok_nonempty [OF gs(6)])
  then have parts: "filter (\<lambda>p. p \<noteq> '''') (split_on CHR ''/'' rawPath) = gs"
  proof -
    have "rawPath = CHR ''/'' # tl rawPath" by (subst (1 2) gs(1)) simp
    then have "split_on CHR ''/'' rawPath = [] # gs" using gs(2) by (metis split_on.simps(2))
    with ne show ?thesis by (simp add: list_all_iff filter_id_conv)
  qed
  have tmpl: "filter (\<lambda>p. p \<noteq> '''') (split_on CHR ''/'' (rt_path q)) = split_on CHR ''/'' (tl (rt_path q))" if "q \<in> set routes" for q
    using that by (auto simp: routes_def)
  have same: "matchPath decode (rt_path q) rawPath = match_segments decode (split_on CHR ''/'' (tl (rt_path q))) gs"
    if "q \<in> set routes" for q
    by (simp add: matchPath_def parts tmpl [OF that] match_parts_eq [OF ne])
  have uniq: "q = r" if "q \<in> set routes" "rt_verb q = verb" "match_segments decode (split_on CHR ''/'' (tl (rt_path q))) gs \<noteq> None" for q
    by (rule route_of_segments [OF that(1) gs(3) _ gs(6)]) (use that(3) match_segments_Some in blast)
  have hit: "rt_verb r = verb \<and> matchPath decode (rt_path r) rawPath \<noteq> None"
    by (simp only: same [OF gs(3)] gs(4,5)) simp
  have "adapter_route decode verb rawPath \<noteq> None"
    unfolding adapter_route_def find_None_iff using gs(3) hit by blast
  then obtain q where q: "adapter_route decode verb rawPath = Some q" by blast
  then have f: "find (\<lambda>r. rt_verb r = verb \<and> matchPath decode (rt_path r) rawPath \<noteq> None) routes = Some q"
    by (simp only: adapter_route_def)
  have found: "q \<in> set routes" "rt_verb q = verb" "matchPath decode (rt_path q) rawPath \<noteq> None"
    using f unfolding find_Some_iff by (blast intro: nth_mem)+
  have "q = r" by (rule uniq [OF found(1,2)]) (use found(3) same [OF found(1)] in simp)
  with q show ?thesis by simp
qed

lemma adapter_finds_the_vetted_route_witness:
  "adapter_route Some ''POST'' ''/reset'' = Some \<lparr>rt_id = ResetSlot, rt_verb = ''POST'', rt_path = ''/reset'', rt_bodyMode = JsonMode\<rparr>"
  by (rule adapter_finds_the_vetted_route [where params = "[]"]) (simp add: matchRoute_def routes_def is_param_def)

end
