(* ===== verification/Render_Calendar.thy ===== *)
theory Render_Calendar
  imports Main
begin

text \<open>
  The calendar check of \<open>src/render-core/src/brand.ts\<close>: a date is real when \<open>Date.UTC\<close> and the getters
  of \<open>Date\<close> give its own fields back.  Both are written as ECMAScript defines them, and the check is
  compared with the rules of the calendar.
\<close>

text \<open>
  \<open>Date.UTC\<close> and the getters of \<open>Date\<close>, as ECMAScript defines them, with days and milliseconds counted
  from the first day of year 0 instead of 1970: the offset cancels.  Years 0 to 99 mean 1900 to 1999.
\<close>

definition leap_years_before :: "nat \<Rightarrow> nat" where
  "leap_years_before y = (y + 3) div 4 - (y + 99) div 100 + (y + 399) div 400"

definition day_from_year :: "nat \<Rightarrow> nat" where
  "day_from_year y = 365 * y + leap_years_before y"

definition in_leap_year :: "nat \<Rightarrow> nat" where
  "in_leap_year y = day_from_year (y + 1) - day_from_year y - 365"

text \<open>The day of the year on which a month, counted from 0, begins.\<close>

definition month_start :: "nat \<Rightarrow> nat \<Rightarrow> nat" where
  "month_start leap m = [0, 31, 59 + leap, 90 + leap, 120 + leap, 151 + leap, 181 + leap, 212 + leap, 243 + leap,
     273 + leap, 304 + leap, 334 + leap] ! m"

definition utc_seconds :: "int \<Rightarrow> int \<Rightarrow> int \<Rightarrow> int \<Rightarrow> int \<Rightarrow> int \<Rightarrow> int" where
  "utc_seconds year month0 day hour minute second =
     (let y = (if 0 \<le> year \<and> year \<le> 99 then 1900 + year else year) + month0 div 12;
          days = int (day_from_year (nat y)) + int (month_start (in_leap_year (nat y)) (nat (month0 mod 12))) + day - 1 in
      ((days * 24 + hour) * 60 + minute) * 60 + second)"

text \<open>The year and the month a day lies in: the last to begin no later.\<close>

definition year_from_day :: "nat \<Rightarrow> nat" where
  "year_from_day d = length (takeWhile (\<lambda>y. day_from_year (y + 1) \<le> d) [0..<20000])"

definition month_from_day :: "nat \<Rightarrow> nat" where
  "month_from_day d = (let y = year_from_day d in
     length (takeWhile (\<lambda>m. month_start (in_leap_year y) (m + 1) \<le> d - day_from_year y) [0..<11]))"

definition date_from_day :: "nat \<Rightarrow> nat" where
  "date_from_day d = (let y = year_from_day d in
     d - day_from_year y - month_start (in_leap_year y) (month_from_day d) + 1)"

definition isRealCalendarInstant :: "int \<Rightarrow> int \<Rightarrow> int \<Rightarrow> int \<Rightarrow> int \<Rightarrow> int \<Rightarrow> bool" where
  "isRealCalendarInstant year month day hour minute second =
     (let asDate = utc_seconds year (month - 1) day hour minute second; d = nat (asDate div 86400) in
      int (year_from_day d) = year \<and> int (month_from_day d) = month - 1 \<and> int (date_from_day d) = day \<and>
      asDate div 3600 mod 24 = hour \<and> asDate div 60 mod 60 = minute \<and> asDate mod 60 = second)"


section \<open>The Gregorian calendar\<close>

definition is_leap :: "nat \<Rightarrow> bool" where
  "is_leap y \<longleftrightarrow> 4 dvd y \<and> (\<not> 100 dvd y \<or> 400 dvd y)"

definition days_in_month :: "nat \<Rightarrow> nat \<Rightarrow> nat" where
  "days_in_month y m = (if m = 2 then (if is_leap y then 29 else 28) else if m \<in> {4, 6, 9, 11} then 30 else 31)"

lemma ceil_div_step:
  assumes "0 < k"
  shows "(y + k) div k = (y + (k - 1)) div k + (if k dvd y then 1 else 0 :: nat)"
proof (cases "k dvd y")
  case True
  then obtain q where y: "y = k * q" by (elim dvdE)
  have "(y + (k - 1)) div k = q"
    unfolding y using assms by (simp only: div_mult_self4) simp
  with y assms show ?thesis by simp
next
  case False
  with assms have "0 < y mod k" by (simp add: mod_greater_zero_iff_not_dvd)
  then have "y + (k - 1) = k * (y div k) + (y mod k - 1 + k)"
    using assms mult_div_mod_eq [of k y] by linarith
  then have "(y + (k - 1)) div k = y div k + (y mod k - 1 + k) div k"
    using assms by (metis div_mult_self4 nat_less_le)
  moreover have "(y mod k - 1 + k) div k = 1"
    by (rule div_nat_eqI) (use \<open>0 < y mod k\<close> mod_less_divisor [OF assms, of y] in simp_all)
  ultimately have "(y + (k - 1)) div k = y div k + 1" by (simp only:)
  then show ?thesis using False assms by (simp add: div_add_self2)
qed

lemma div_less: "(y + 99) div 100 \<le> (y + 3) div (4 :: nat)"
proof -
  have "y + 3 < 4 * ((y + 3) div 4) + 4" using mult_div_mod_eq [of 4 "y + 3"] by simp
  then obtain a where "(y + 3) div 4 = a" "y + 3 < 4 * a + 4" by blast
  moreover from this have "y + 99 < Suc a * 100" by simp
  ultimately show ?thesis using less_mult_imp_div_less [of "y + 99" "Suc a" 100] by simp
qed

lemma leap_step: "leap_years_before (y + 1) = leap_years_before y + (if is_leap y then 1 else 0)"
proof -
  have arith: "a' - b' + c' = a - b + c + (if l then 1 else 0)"
    if "a' = a + (if p then 1 else 0)" "b' = b + (if q then 1 else 0)" "c' = c + (if r then 1 else 0)"
      "b \<le> a" "b' \<le> a'" "q \<longrightarrow> p" "r \<longrightarrow> q" "l \<longleftrightarrow> p \<and> (\<not> q \<or> r)" for a a' b b' c c' :: nat and p q r l
    using that by (cases p; cases q; cases r) simp_all
  have "leap_years_before (y + 1) = (y + 4) div 4 - (y + 100) div 100 + (y + 400) div 400"
    by (simp add: leap_years_before_def add.commute)
  also have "\<dots> = (y + 3) div 4 - (y + 99) div 100 + (y + 399) div 400 + (if is_leap y then 1 else 0)"
  proof (rule arith)
    show "(y + 4) div 4 = (y + 3) div 4 + (if 4 dvd y then 1 else 0)"
      "(y + 100) div 100 = (y + 99) div 100 + (if 100 dvd y then 1 else 0)"
      "(y + 400) div 400 = (y + 399) div 400 + (if 400 dvd y then 1 else 0)"
      using ceil_div_step [of 4 y] ceil_div_step [of 100 y] ceil_div_step [of 400 y] by simp_all
    show "(y + 99) div 100 \<le> (y + 3) div 4" by (rule div_less)
    show "(y + 100) div 100 \<le> (y + 4) div 4" using div_less [of "y + 1"] by (simp add: add.commute)
    show "100 dvd y \<longrightarrow> 4 dvd y" "400 dvd y \<longrightarrow> 100 dvd y"
      by (auto intro: dvd_trans [of 4 100] dvd_trans [of 100 400])
  qed (rule is_leap_def)
  finally show ?thesis by (simp only: leap_years_before_def)
qed

lemma in_leap_year_iff: "in_leap_year y = (if is_leap y then 1 else 0)"
  using leap_step [of y] by (simp add: in_leap_year_def day_from_year_def)

lemma year_step: "day_from_year (y + 1) = day_from_year y + 365 + in_leap_year y"
  using leap_step [of y] by (simp add: day_from_year_def in_leap_year_iff)


lemma day_from_year_mono: "y \<le> z \<Longrightarrow> day_from_year y \<le> day_from_year z"
  by (rule lift_Suc_mono_le [of day_from_year]) (use year_step in simp_all)

text \<open>Counting the elements of a range that satisfy a condition which fails from some point on.\<close>

lemma length_takeWhile_upt:
  assumes "\<And>i. i < k \<Longrightarrow> P i" "k < n \<Longrightarrow> \<not> P k" "k \<le> n"
  shows "length (takeWhile P [0..<n]) = k"
proof -
  have "[0..<n] = [0..<k] @ [k..<n]" using assms(3) by (metis le_add_diff_inverse upt_add_eq_append zero_le)
  moreover have "takeWhile P [k..<n] = []" using assms(2,3) by (cases "k < n") (simp_all add: upt_conv_Cons)
  moreover have "takeWhile P ([0..<k] @ [k..<n]) = [0..<k] @ takeWhile P [k..<n]"
    by (rule takeWhile_append2) (use assms(1) in simp)
  ultimately have "takeWhile P [0..<n] = [0..<k]" by simp
  then show ?thesis by simp
qed

lemma takeWhile_upt_bounds:
  assumes "length (takeWhile P [0..<n]) = k"
  shows "k \<le> n" "k < n \<Longrightarrow> \<not> P k" "\<And>i. i < k \<Longrightarrow> P i"
proof -
  show le: "k \<le> n" using assms length_takeWhile_le [of P "[0..<n]"] by simp
  show "\<not> P k" if "k < n" using nth_length_takeWhile [of P "[0..<n]"] assms that by simp
  show "P i" if "i < k" for i
    using takeWhile_nth [of i P "[0..<n]"] set_takeWhileD nth_mem [of i "takeWhile P [0..<n]"] assms le that by fastforce
qed

lemma year_from_day_eq:
  assumes "day_from_year y \<le> d" "d < day_from_year (y + 1)" "y < 20000"
  shows "year_from_day d = y"
  unfolding year_from_day_def
proof (rule length_takeWhile_upt)
  show "day_from_year (i + 1) \<le> d" if "i < y" for i
    using day_from_year_mono [of "i + 1" y] that assms(1) by simp
qed (use assms in simp_all)

lemma year_from_day_bounds:
  assumes "year_from_day d < 20000"
  shows "day_from_year (year_from_day d) \<le> d \<and> d < day_from_year (year_from_day d + 1)"
proof -
  note b = takeWhile_upt_bounds [OF year_from_day_def [of d, symmetric]]
  have "day_from_year (year_from_day d) \<le> d"
  proof (cases "year_from_day d")
    case 0
    then show ?thesis by (simp add: day_from_year_def leap_years_before_def)
  next
    case (Suc y)
    with b(3) [of y] show ?thesis by simp
  qed
  with b(2) assms show ?thesis by simp
qed

lemma month_range:
  "month_start (in_leap_year y) 0 = 0"
  "m < 11 \<Longrightarrow> month_start (in_leap_year y) (m + 1) = month_start (in_leap_year y) m + days_in_month y (m + 1)"
  "month_start (in_leap_year y) 11 + 31 = 365 + in_leap_year y"
proof -
  assume "m < 11"
  then have "m = 0 \<or> m = 1 \<or> m = 2 \<or> m = 3 \<or> m = 4 \<or> m = 5 \<or> m = 6 \<or> m = 7 \<or> m = 8 \<or> m = 9 \<or> m = 10"
    by presburger
  then show "month_start (in_leap_year y) (m + 1) = month_start (in_leap_year y) m + days_in_month y (m + 1)"
    by (auto simp: month_start_def days_in_month_def in_leap_year_iff)
qed (simp_all add: month_start_def)

lemma month_start_mono: "m \<le> k \<Longrightarrow> k \<le> 11 \<Longrightarrow> month_start (in_leap_year y) m \<le> month_start (in_leap_year y) k"
  by (induction k rule: dec_induct) (auto simp: month_range(2) [simplified])


lemma month_from_day_eq:
  assumes "year_from_day d = y" "d = day_from_year y + month_start (in_leap_year y) m + k" "m \<le> 11" "k < days_in_month y (m + 1)"
  shows "month_from_day d = m"
  unfolding month_from_day_def assms(1) Let_def
proof (rule length_takeWhile_upt)
  show "month_start (in_leap_year y) (i + 1) \<le> d - day_from_year y" if "i < m" for i
    using month_start_mono [of "i + 1" m y] that assms(2,3) by simp
  show "\<not> month_start (in_leap_year y) (m + 1) \<le> d - day_from_year y" if "m < 11"
    using month_range(2) [OF that, of y] assms(2,4) by simp
qed (rule assms(3))

lemma month_from_day_bounds:
  assumes "year_from_day d = y" "y < 20000"
  shows "month_from_day d \<le> 11 \<and>
     day_from_year y + month_start (in_leap_year y) (month_from_day d) \<le> d \<and>
     d < day_from_year y + month_start (in_leap_year y) (month_from_day d) + days_in_month y (month_from_day d + 1)"
proof -
  let ?m = "month_from_day d"
  have in_year: "day_from_year y \<le> d" "d < day_from_year y + 365 + in_leap_year y"
    using year_from_day_bounds [of d] assms year_step [of y] by simp_all
  have "length (takeWhile (\<lambda>m. month_start (in_leap_year y) (m + 1) \<le> d - day_from_year y) [0..<11]) = ?m"
    by (simp add: month_from_day_def assms(1) Let_def)
  note b = takeWhile_upt_bounds [OF this]
  have "month_start (in_leap_year y) ?m \<le> d - day_from_year y"
  proof (cases ?m)
    case (Suc m)
    with b(3) [of m] show ?thesis by simp
  qed (simp add: month_range(1))
  moreover have "d - day_from_year y < month_start (in_leap_year y) ?m + days_in_month y (?m + 1)"
  proof (cases "?m < 11")
    case True
    with b(2) month_range(2) [OF True, of y] show ?thesis by simp
  next
    case False
    with b(1) have "?m = 11" by simp
    then show ?thesis using in_year month_range(3) [of y] by (simp add: days_in_month_def)
  qed
  ultimately show ?thesis using b(1) in_year(1) by linarith
qed

definition real_instant :: "int \<Rightarrow> int \<Rightarrow> int \<Rightarrow> int \<Rightarrow> int \<Rightarrow> int \<Rightarrow> bool" where
  "real_instant year month day hour minute second \<longleftrightarrow>
     100 \<le> year \<and> 1 \<le> month \<and> month \<le> 12 \<and>
     1 \<le> day \<and> day \<le> int (days_in_month (nat year) (nat month)) \<and>
     0 \<le> hour \<and> hour < 24 \<and> 0 \<le> minute \<and> minute < 60 \<and> 0 \<le> second \<and> second < 60"

lemma time_of_day:
  assumes "0 \<le> (h :: int)" "h < 24" "0 \<le> m" "m < 60" "0 \<le> s" "s < 60"
  shows "(((d * 24 + h) * 60 + m) * 60 + s) div 86400 = d"
    "(((d * 24 + h) * 60 + m) * 60 + s) div 3600 mod 24 = h"
    "(((d * 24 + h) * 60 + m) * 60 + s) div 60 mod 60 = m"
    "(((d * 24 + h) * 60 + m) * 60 + s) mod 60 = s"
proof -
  have a: "(((d * 24 + h) * 60 + m) * 60 + s) div 60 = (d * 24 + h) * 60 + m" using assms(5,6) by simp
  have b: "((d * 24 + h) * 60 + m) div 60 = d * 24 + h" using assms(3,4) by simp
  have c: "(d * 24 + h) div 24 = d" using assms(1,2) by simp
  have "x div 3600 = x div 60 div 60" "x div 86400 = x div 60 div 60 div 24" for x :: int
    by (simp_all add: div_mult2_eq [symmetric] zdiv_zmult2_eq [symmetric])
  then show "(((d * 24 + h) * 60 + m) * 60 + s) div 86400 = d" "(((d * 24 + h) * 60 + m) * 60 + s) div 3600 mod 24 = h"
    using a b c assms(1,2) by simp_all
  show "(((d * 24 + h) * 60 + m) * 60 + s) div 60 mod 60 = m" "(((d * 24 + h) * 60 + m) * 60 + s) mod 60 = s"
    unfolding a using assms(3-6) by (simp_all only: mod_mult_self3 mod_pos_pos_trivial)
qed


text \<open>The days of \<open>Date.UTC\<close> for a year and month as they are, none carried over.\<close>

lemma utc_seconds_real:
  assumes "100 \<le> year" "1 \<le> month" "month \<le> 12"
  shows "utc_seconds year (month - 1) day hour minute second =
     (((int (day_from_year (nat year)) + int (month_start (in_leap_year (nat year)) (nat month - 1)) + day - 1) * 24
        + hour) * 60 + minute) * 60 + second"
proof -
  have "(month - 1) div 12 = 0" "(month - 1) mod 12 = month - 1" using assms by simp_all
  then show ?thesis using assms by (simp add: utc_seconds_def Let_def nat_diff_distrib)
qed

lemma calendar_instant_real:
  assumes "real_instant year month day hour minute second" "year \<le> 9999"
  shows "isRealCalendarInstant year month day hour minute second"
proof -
  note r = assms(1) [unfolded real_instant_def]
  let ?y = "nat year" and ?m = "nat month - 1"
  define d where d: "d = day_from_year ?y + month_start (in_leap_year ?y) ?m + nat (day - 1)"
  have eq: "utc_seconds year (month - 1) day hour minute second = ((int d * 24 + hour) * 60 + minute) * 60 + second"
    using r utc_seconds_real [of year month day hour minute second] by (simp add: d)
  have clock: "0 \<le> hour" "hour < 24" "0 \<le> minute" "minute < 60" "0 \<le> second" "second < 60" using r by simp_all
  note t = time_of_day [OF clock, of "int d", folded eq]
  have m: "?m \<le> 11" "?m + 1 = nat month" using r by auto
  have k: "nat (day - 1) < days_in_month ?y (?m + 1)" unfolding m(2) using r by linarith
  have "month_start (in_leap_year ?y) ?m + days_in_month ?y (?m + 1) \<le> 365 + in_leap_year ?y"
  proof (cases "?m < 11")
    case True
    then show ?thesis
      using month_range(2) [OF True, of ?y] month_start_mono [of "?m + 1" 11 ?y] month_range(3) [of ?y] by simp
  next
    case False
    with m(1) have "?m = 11" by simp
    then show ?thesis using month_range(3) [of ?y] by (simp add: days_in_month_def)
  qed
  then have "d < day_from_year (?y + 1)" using k year_step [of ?y] unfolding d by linarith
  then have y: "year_from_day d = ?y" using assms(2) by (intro year_from_day_eq) (simp_all add: d)
  have mo: "month_from_day d = ?m" by (rule month_from_day_eq [OF y d m(1) k])
  have "date_from_day d = nat (day - 1) + 1" unfolding date_from_day_def Let_def y mo by (simp add: d)
  moreover have "int ?y = year" "int ?m = month - 1" "int (nat (day - 1) + 1) = day" using r by linarith+
  ultimately show ?thesis unfolding isRealCalendarInstant_def Let_def t nat_int y mo by simp
qed

lemma calendar_instant_only_real:
  assumes "isRealCalendarInstant year month day hour minute second"
    and "0 \<le> year" "year \<le> 9999" "0 \<le> hour" "0 \<le> minute" "0 \<le> second"
  shows "real_instant year month day hour minute second"
proof -
  define t where "t = utc_seconds year (month - 1) day hour minute second"
  define d where "d = nat (t div 86400)"
  have g: "int (year_from_day d) = year" "int (month_from_day d) = month - 1" "int (date_from_day d) = day"
      "t div 3600 mod 24 = hour" "t div 60 mod 60 = minute" "t mod 60 = second"
    using assms(1) by (simp_all add: isRealCalendarInstant_def Let_def t_def d_def)
  have y: "year_from_day d = nat year" using g(1) by simp
  have b: "month_from_day d \<le> 11"
      "day_from_year (nat year) + month_start (in_leap_year (nat year)) (month_from_day d) \<le> d"
      "d < day_from_year (nat year) + month_start (in_leap_year (nat year)) (month_from_day d) +
         days_in_month (nat year) (month_from_day d + 1)"
    using month_from_day_bounds [OF y] assms(3) by simp_all
  have m: "nat month = month_from_day d + 1" "1 \<le> month" "month \<le> 12" using g(2) b(1) by simp_all
  have k: "1 \<le> day" "day \<le> int (days_in_month (nat year) (nat month))"
    using g(3) b(2,3) by (simp_all add: date_from_day_def y Let_def m(1))
  have clock: "hour < 24" "minute < 60" "second < 60" using g(4-6) by auto
  have "100 \<le> year"
  proof (rule ccontr)
    assume "\<not> 100 \<le> year"
    then have "year \<le> 99" by simp
    have "(month - 1) div 12 = 0" "(month - 1) mod 12 = month - 1" using m by simp_all
    define n where n: "n = day_from_year (nat (1900 + year)) +
       month_start (in_leap_year (nat (1900 + year))) (nat (month - 1)) + nat (day - 1)"
    have eq: "t = ((int n * 24 + hour) * 60 + minute) * 60 + second"
      using assms(2) \<open>year \<le> 99\<close> k(1) \<open>(month - 1) div 12 = 0\<close> \<open>(month - 1) mod 12 = month - 1\<close>
      by (simp add: t_def utc_seconds_def Let_def n)
    have "d = n" unfolding d_def eq time_of_day(1) [OF assms(4) clock(1) assms(5) clock(2) assms(6) clock(3)] by simp
    then have "d = day_from_year (nat (1900 + year)) + month_start (in_leap_year (nat (1900 + year))) (nat (month - 1)) + nat (day - 1)"
      by (simp only: n)
    then have "day_from_year 1900 \<le> d"
      using day_from_year_mono [of 1900 "nat (1900 + year)"] assms(2) by linarith
    moreover have "d < day_from_year (nat year + 1)"
      using year_from_day_bounds [of d] y assms(3) by simp
    moreover have "day_from_year (nat year + 1) \<le> day_from_year 1900"
      using \<open>year \<le> 99\<close> by (intro day_from_year_mono) simp
    ultimately show False by simp
  qed
  then show ?thesis using m k clock assms by (simp add: real_instant_def)
qed


lemma calendar_instant:
  assumes "0 \<le> year" "year \<le> 9999" "0 \<le> hour" "0 \<le> minute" "0 \<le> second"
  shows "isRealCalendarInstant year month day hour minute second \<longleftrightarrow> real_instant year month day hour minute second"
  using calendar_instant_real calendar_instant_only_real assms by blast

end
