(* ===== verification/Render_Fields.thy ===== *)
theory Render_Fields
  imports Lease Render_Calendar
begin

text \<open>
  The single-field validators of the tenant descriptor: \<open>src/render-core/src/brand.ts\<close>,
  \<open>naming.ts\<close> and \<open>media.ts\<close>, with the error classes of \<open>validate.ts\<close>.

  A validator returns the value or the error it throws, by class and field; the wording of messages is
  left out.  \<open>RawTypeError\<close> is what the language throws when code reads a property of \<open>null\<close> or
  \<open>undefined\<close>.  Every value a caller sees is as parsed JSON gives it.  Regular expressions are
  predicates on strings, and \<open>new URL\<close> is a parameter (the protocol of the URL, or its refusal).
\<close>

section \<open>Errors and checks\<close>

datatype invariant_id = INV_1 | INV_2 | INV_3

datatype validate_error =
    FieldError string
  | InvariantViolationError invariant_id
  | CodeInjectionPreconditionError
  | UnknownDiscriminantError string
  | TierMismatchError
  | UnknownSchemaVersionError
  | RawTypeError

type_synonym 'a checked = "validate_error + 'a"

text \<open>\<open>if (!ok) throw new FieldValidationError(field, ...)\<close>.\<close>

definition require :: "bool \<Rightarrow> string \<Rightarrow> unit checked" where
  "require ok field = guardS ok (FieldError field) (Inr ())"

lemma require_Inr [simp]: "require ok field = Inr u \<longleftrightarrow> ok"
  by (simp add: require_def guardS_Inr)

text \<open>An exponent of all ones and a mantissa that is not zero.\<close>

definition is_NaN :: "js_number \<Rightarrow> bool" where
  "is_NaN n = (case n of
       Whole _ \<Rightarrow> False
     | NotWhole bits \<Rightarrow> take_bit 11 (drop_bit 52 bits) = 2047 \<and> take_bit 52 bits \<noteq> (0 :: 64 word))"

definition assertString :: "json option \<Rightarrow> string \<Rightarrow> string checked" where
  "assertString v field = (case v of Some (JString s) \<Rightarrow> Inr s | _ \<Rightarrow> Inl (FieldError field))"

definition assertNumber :: "json option \<Rightarrow> string \<Rightarrow> js_number checked" where
  "assertNumber v field = (case v of
       Some (JNumber n) \<Rightarrow> guardS (\<not> is_NaN n) (FieldError field) (Inr n)
     | _ \<Rightarrow> Inl (FieldError field))"

section \<open>Slugs, URLs and image references\<close>

definition alnum_lower :: string where
  "alnum_lower = lowers @ digits"

definition word_chars :: string where
  "word_chars = lowers @ uppers @ digits @ ''_''"

definition SLUG_PATTERN :: "string \<Rightarrow> bool" where
  "SLUG_PATTERN s \<longleftrightarrow> s \<noteq> [] \<and> hd s \<in> set lowers \<and> all_in (alnum_lower @ ''-'') s \<and> last s \<in> set alnum_lower"

definition MAX_SLUG_LENGTH :: nat where
  "MAX_SLUG_LENGTH = 63"

definition validateSlug :: "string \<Rightarrow> string checked" where
  "validateSlug s =
     guardS (SLUG_PATTERN s) (FieldError ''slug'')
    (guardS (length s \<le> MAX_SLUG_LENGTH) (FieldError ''slug'') (Inr s))"

definition validateAbsoluteUrl :: "(string \<Rightarrow> string option) \<Rightarrow> string \<Rightarrow> string checked" where
  "validateAbsoluteUrl url_protocol s = (case url_protocol s of
       None \<Rightarrow> Inl (FieldError ''siteUrl'')
     | Some protocol \<Rightarrow> guardS (protocol = ''http:'' \<or> protocol = ''https:'') (FieldError ''siteUrl'') (Inr s))"

text \<open>The name before the digest: no \<open>@\<close> in it, and at most the one colon that starts the tag.\<close>

definition reference_name :: "string \<Rightarrow> bool" where
  "reference_name s \<longleftrightarrow> s \<noteq> [] \<and> hd s \<in> set alnum_lower \<and> all_in (alnum_lower @ ''._/-'') s"

definition reference_tag :: "string \<Rightarrow> bool" where
  "reference_tag s \<longleftrightarrow> s \<noteq> [] \<and> all_in (word_chars @ ''.-'') s"

definition DIGEST_PINNED_PATTERN :: "string \<Rightarrow> bool" where
  "DIGEST_PINNED_PATTERN s \<longleftrightarrow> (let n = length s - 72 in
     72 \<le> length s \<and> take 8 (drop n s) = ''@sha256:'' \<and> all_in hex_lower (drop (n + 8) s) \<and>
     (case split_on CHR '':'' (take n s) of
        [name] \<Rightarrow> reference_name name
      | [name, tag] \<Rightarrow> reference_name name \<and> reference_tag tag
      | _ \<Rightarrow> False))"

definition validateDigestPinnedRef :: "string \<Rightarrow> string checked" where
  "validateDigestPinnedRef s = guardS (DIGEST_PINNED_PATTERN s) (FieldError ''image'') (Inr s)"

section \<open>Numbers and addresses\<close>

definition TENANT_UID_MIN :: int where
  "TENANT_UID_MIN = 30000"

definition TENANT_UID_MAX :: int where
  "TENANT_UID_MAX = 30999"

text \<open>\<open>Number.isInteger\<close> and a closed range.\<close>

definition whole_in :: "int \<Rightarrow> int \<Rightarrow> js_number \<Rightarrow> bool" where
  "whole_in lo hi n = (case n of Whole i \<Rightarrow> lo \<le> i \<and> i \<le> hi | NotWhole _ \<Rightarrow> False)"

lemma whole_in_iff: "whole_in lo hi n \<longleftrightarrow> (\<exists>i. n = Whole i \<and> lo \<le> i \<and> i \<le> hi)"
  by (cases n) (simp_all add: whole_in_def)

definition validateTenantUid :: "js_number \<Rightarrow> js_number checked" where
  "validateTenantUid n = guardS (whole_in TENANT_UID_MIN TENANT_UID_MAX n) (FieldError ''uid'') (Inr n)"

definition validatePort :: "js_number \<Rightarrow> string \<Rightarrow> js_number checked" where
  "validatePort n field = guardS (whole_in 1 65535 n) (FieldError field) (Inr n)"

definition PRIVATE_IPV4_RANGES :: "(nat \<times> nat) list" where
  "PRIVATE_IPV4_RANGES =
     [(0x0a000000, 0x0affffff), (0xac100000, 0xac1fffff), (0xc0a80000, 0xc0a8ffff)]"

definition octet_value :: "string \<Rightarrow> nat option" where
  "octet_value octet =
     (if \<not> (1 \<le> length octet \<and> length octet \<le> 3 \<and> all_in digits octet) then None
      else if number_of_digits octet > 255 then None
      else if length octet > 1 \<and> hd octet = CHR ''0'' then None
      else Some (number_of_digits octet))"

fun octets_to_int :: "string list \<Rightarrow> nat \<Rightarrow> nat option" where
  "octets_to_int [] acc = Some acc"
| "octets_to_int (octet # rest) acc =
     (case octet_value octet of None \<Rightarrow> None | Some part \<Rightarrow> octets_to_int rest (acc * 256 + part))"

definition ipv4ToInt :: "string \<Rightarrow> nat option" where
  "ipv4ToInt address = (let octets = split_on CHR ''.'' address in
     if length octets \<noteq> 4 then None else octets_to_int octets 0)"

definition validatePrivateIpV4 :: "string \<Rightarrow> string checked" where
  "validatePrivateIpV4 s = (case ipv4ToInt s of
       None \<Rightarrow> Inl (FieldError ''appHostIp'')
     | Some asInt \<Rightarrow>
         guardS (\<exists>(low, high) \<in> set PRIVATE_IPV4_RANGES. low \<le> asInt \<and> asInt \<le> high) (FieldError ''appHostIp'') (Inr s))"

section \<open>Instants\<close>

definition slice :: "nat \<Rightarrow> nat \<Rightarrow> string \<Rightarrow> string" where
  "slice i n s = take n (drop i s)"

definition digits_at :: "nat \<Rightarrow> nat \<Rightarrow> string \<Rightarrow> bool" where
  "digits_at i n s \<longleftrightarrow> all_in digits (slice i n s)"

definition instant_end :: "string \<Rightarrow> bool" where
  "instant_end t \<longleftrightarrow> t = ''Z'' \<or>
     (3 \<le> length t \<and> hd t = CHR ''.'' \<and> last t = CHR ''Z'' \<and> all_in digits (butlast (tl t)))"

definition INSTANT_PATTERN :: "string \<Rightarrow> bool" where
  "INSTANT_PATTERN s \<longleftrightarrow> 20 \<le> length s \<and>
     digits_at 0 4 s \<and> slice 4 1 s = ''-'' \<and> digits_at 5 2 s \<and> slice 7 1 s = ''-'' \<and> digits_at 8 2 s \<and>
     slice 10 1 s = ''T'' \<and> digits_at 11 2 s \<and> slice 13 1 s = '':'' \<and> digits_at 14 2 s \<and> slice 16 1 s = '':'' \<and>
     digits_at 17 2 s \<and> instant_end (drop 19 s)"

definition number_at :: "nat \<Rightarrow> nat \<Rightarrow> string \<Rightarrow> int" where
  "number_at i n s = int (number_of_digits (slice i n s))"

definition validateInstant :: "string \<Rightarrow> string \<Rightarrow> string checked" where
  "validateInstant s field =
     guardS (INSTANT_PATTERN s \<and>
        isRealCalendarInstant (number_at 0 4 s) (number_at 5 2 s) (number_at 8 2 s)
          (number_at 11 2 s) (number_at 14 2 s) (number_at 17 2 s))
       (FieldError field) (Inr s)"

section \<open>E-mail addresses\<close>

definition MAX_EMAIL_LENGTH :: nat where
  "MAX_EMAIL_LENGTH = 254"

definition NO_WHITESPACE_OR_AT :: "string \<Rightarrow> bool" where
  "NO_WHITESPACE_OR_AT s \<longleftrightarrow> s \<noteq> [] \<and> list_all (\<lambda>c. \<not> js_space c \<and> c \<noteq> CHR ''@'') s"

text \<open>\<open>lastIndexOf\<close> of one character, and -1 where it does not occur.\<close>

definition last_index_of :: "char \<Rightarrow> string \<Rightarrow> int" where
  "last_index_of c s = int (length s) - 1 - int (length (takeWhile (\<lambda>x. x \<noteq> c) (rev s)))"

definition validateEmailAddress :: "string \<Rightarrow> string \<Rightarrow> string checked" where
  "validateEmailAddress s field =
     guardS (s \<noteq> [] \<and> length s \<le> MAX_EMAIL_LENGTH) (FieldError field)
     (case split_on CHR ''@'' s of
        [local, domain] \<Rightarrow>
          guardS (NO_WHITESPACE_OR_AT local \<and> NO_WHITESPACE_OR_AT domain) (FieldError field)
          (let dotIndex = last_index_of CHR ''.'' domain in
           guardS (\<not> (dotIndex \<le> 0 \<or> dotIndex = int (length domain) - 1)) (FieldError field) (Inr s))
      | _ \<Rightarrow> Inl (FieldError field))"

section \<open>Names derived from a slug\<close>

definition TENANT_DB_PREFIX :: string where
  "TENANT_DB_PREFIX = ''ghost_''"

definition MAX_TENANT_SLUG_LENGTH :: nat where
  "MAX_TENANT_SLUG_LENGTH = 32 - length TENANT_DB_PREFIX"

datatype registered_name = Infrastructure string | RegisteredTenant string string

fun registered :: "registered_name \<Rightarrow> string" where
  "registered (Infrastructure name) = name"
| "registered (RegisteredTenant name repo) = name"

definition TENANT_NAME_REGISTER :: "registered_name list" where
  "TENANT_NAME_REGISTER =
     [Infrastructure ''website'', Infrastructure ''edge'', Infrastructure ''db'', Infrastructure ''monitoring'',
      Infrastructure ''nextcloud1'', Infrastructure ''mail-spool'', RegisteredTenant ''blog'' ''branchLeft/ghost-tenant-blog'']"

fun is_infrastructure :: "registered_name \<Rightarrow> bool" where
  "is_infrastructure (Infrastructure name) = True"
| "is_infrastructure (RegisteredTenant name repo) = False"

definition RESERVED_STACK_NAMES :: "string list" where
  "RESERVED_STACK_NAMES = map registered (filter is_infrastructure TENANT_NAME_REGISTER)"

text \<open>Who asks for the slug; a repository may be unknown.\<close>

datatype slug_claimant = DemoClaimant | TenantClaimant "string option"

definition owns :: "slug_claimant \<Rightarrow> string \<Rightarrow> bool" where
  "owns claimant repo = (case claimant of
       TenantClaimant (Some mine) \<Rightarrow> toLowerCase mine = toLowerCase repo
     | _ \<Rightarrow> False)"

definition validateSlugAvailability :: "string \<Rightarrow> slug_claimant option \<Rightarrow> unit checked" where
  "validateSlugAvailability slug claimant =
     guardS (length slug \<le> MAX_TENANT_SLUG_LENGTH) (FieldError ''slug'')
    (guardS (slug \<notin> set RESERVED_STACK_NAMES) (FieldError ''slug'')
    (case claimant of
       None \<Rightarrow> Inr ()
     | Some who \<Rightarrow>
         (case find (\<lambda>entry. registered entry = slug) TENANT_NAME_REGISTER of
            Some (RegisteredTenant name repo) \<Rightarrow> require (owns who repo) ''slug''
          | _ \<Rightarrow> Inr ())))"

definition sqlIdentifier :: "string \<Rightarrow> string" where
  "sqlIdentifier slug = map (\<lambda>c. if c = CHR ''-'' then CHR ''_'' else c) slug"

definition databaseAndUserName :: "string \<Rightarrow> string" where
  "databaseAndUserName slug = TENANT_DB_PREFIX @ sqlIdentifier slug"

definition validateDatabaseIdentity :: "string \<Rightarrow> string \<Rightarrow> string \<Rightarrow> unit checked" where
  "validateDatabaseIdentity slug dbname user =
     thenS (require (dbname = databaseAndUserName slug) ''database.name'')
       (require (user = databaseAndUserName slug) ''database.user'')"

definition stackName :: "string \<Rightarrow> string" where
  "stackName slug = slug"

definition stackDirectory :: "string \<Rightarrow> string" where
  "stackDirectory slug = ''/opt/branchleft/'' @ stackName slug"

definition composeUnitName :: "string \<Rightarrow> string" where
  "composeUnitName slug = ''branchleft-compose@'' @ stackName slug @ ''.service''"

definition secretsEnvPath :: "string \<Rightarrow> string" where
  "secretsEnvPath slug = ''/etc/branchleft/'' @ stackName slug @ ''.env''"

definition imageEnvPath :: "string \<Rightarrow> string" where
  "imageEnvPath slug = ''/etc/branchleft/'' @ stackName slug @ ''.image.env''"

definition contentVolumeName :: "string \<Rightarrow> string" where
  "contentVolumeName slug = ''ghost-'' @ slug @ ''-content''"

definition adaptersVolumeName :: "string \<Rightarrow> string" where
  "adaptersVolumeName slug = ''ghost-'' @ slug @ ''-adapters''"

definition metricsVolumeName :: "string \<Rightarrow> string" where
  "metricsVolumeName slug = ''ghost-'' @ slug @ ''-metrics''"

section \<open>Media\<close>

definition MEDIA_BUCKET_PREFIX :: string where
  "MEDIA_BUCKET_PREFIX = ''branchleft-media-''"

definition mediaBucketName :: "string \<Rightarrow> string" where
  "mediaBucketName slug = MEDIA_BUCKET_PREFIX @ slug"

text \<open>The branch for object storage, whose bucket is \<open>bucket\<close>.\<close>

definition validateMediaBucket :: "string \<Rightarrow> string \<Rightarrow> unit checked" where
  "validateMediaBucket slug bucket = require (bucket = mediaBucketName slug) ''media.bucket''"

definition strip_slashes :: "string \<Rightarrow> string" where
  "strip_slashes s = rev (dropWhile (\<lambda>c. c = CHR ''/'') (rev s))"

definition mediaPublicBaseUrl :: "string \<Rightarrow> string \<Rightarrow> string checked" where
  "mediaPublicBaseUrl endpoint slug =
     guardS (starts_with ''https://'' endpoint) (FieldError ''media.endpoint'')
     (let host = strip_slashes endpoint in
      guardS (CHR ''/'' \<notin> set (drop (length ''https://'') host)) (FieldError ''media.endpoint'')
      (Inr (host @ ''/'' @ mediaBucketName slug)))"

end
