(* ===== verification/Render_Descriptor.thy ===== *)
theory Render_Descriptor
  imports Render_Fields
begin

text \<open>
  The tenant descriptor of \<open>src/render-core/src/descriptor.ts\<close> and the reading of one from parsed JSON:
  the discriminants and \<open>assertShape\<close> of \<open>validate.ts\<close>.

  TypeScript reads the same object before and after its type is asserted.  Here the assertions of
  \<open>assertShape\<close>, in their order, turn the JSON value into the typed record the rest of the validation
  reads, so that a later check can only use what has been asserted.  Reading a property of \<open>null\<close> or
  \<open>undefined\<close> is \<open>RawTypeError\<close>, as it is in the language.
\<close>

section \<open>The schema\<close>

datatype tenant_kind = DemoKind | TenantKind

record port_triple =
  pt_a :: js_number
  pt_b :: js_number
  pt_health :: js_number

datatype database_spec =
    Sqlite string
  | MySql (my_host: string) (my_port: js_number) (my_name: string) (my_user: string)

datatype media_store =
    LocalStore string
  | S3Store (s3_endpoint: string) (s3_region: string) (s3_bucket: string)

record media_spec =
  me_store :: media_store
  me_resize :: bool
  me_srcsets :: bool

datatype transport_spec = QueueTransport string | SmtpTransport string js_number string

datatype sending_identity = DemoIdentity string | TenantIdentity string string

record mail_spec =
  ml_enabled :: bool
  ml_ceiling :: js_number
  ml_estateCeiling :: js_number
  ml_identity :: sending_identity

datatype hostname_spec = OursHost string bool | TheirsHost string string

datatype gate_choice = OpenGate | PassphraseGated string

datatype backup_spec = NoBackup | BucketNative string

datatype code_injection =
    InjectionBlocked
  | InjectionGranted string string "string option"
  | InjectionManaged string string

record limits_spec =
  li_membersCap :: "js_number option"
  li_staffCap :: "js_number option"

record resource_caps =
  rc_cpus :: string
  rc_cpuShares :: js_number
  rc_pidsLimit :: js_number
  rc_nofile :: js_number

record safety_spec =
  sf_near :: bool
  sf_exact :: bool

datatype break_glass = BreakGlassDisabled | BreakGlassEnabled string string string

text \<open>\<open>ownerEmail\<close> is absent from a tenant's own descriptor, which is otherwise the same.\<close>

record tenant_descriptor =
  d_version :: js_number
  d_kind :: tenant_kind
  d_slug :: string
  d_siteUrl :: string
  d_image :: string
  d_ownerEmail :: "string option"
  d_uid :: js_number
  d_ports :: port_triple
  d_appHostIp :: string
  d_database :: database_spec
  d_media :: media_spec
  d_transport :: transport_spec
  d_mail :: mail_spec
  d_hostname :: hostname_spec
  d_gate :: gate_choice
  d_backup :: backup_spec
  d_codeInjection :: code_injection
  d_limits :: limits_spec
  d_caps :: resource_caps
  d_safety :: safety_spec
  d_breakGlass :: break_glass
  d_expiresAt :: "string option"

section \<open>Reading JSON\<close>

text \<open>\<open>value.key\<close>; \<open>None\<close> is \<open>undefined\<close>.  A value that is no object has none of the keys read here.\<close>

definition get_field :: "json option \<Rightarrow> string \<Rightarrow> json option checked" where
  "get_field v key = (case v of
       None \<Rightarrow> Inl RawTypeError
     | Some JNull \<Rightarrow> Inl RawTypeError
     | Some (JObject kvs) \<Rightarrow> Inr (map_of kvs key)
     | Some _ \<Rightarrow> Inr None)"

definition is_object :: "json option \<Rightarrow> bool" where
  "is_object v = (case v of Some (JObject _) \<Rightarrow> True | _ \<Rightarrow> False)"

text \<open>An array is an object to \<open>typeof\<close>, but it has no \<open>kind\<close>.\<close>

definition assertDiscriminant :: "json option \<Rightarrow> string \<Rightarrow> string list \<Rightarrow> unit checked" where
  "assertDiscriminant container field allowed = (case container of
       Some (JObject kvs) \<Rightarrow>
         (case map_of kvs ''kind'' of
            Some (JString kind) \<Rightarrow> guardS (kind \<in> set allowed) (UnknownDiscriminantError field) (Inr ())
          | _ \<Rightarrow> Inl (UnknownDiscriminantError field))
     | _ \<Rightarrow> Inl (UnknownDiscriminantError field))"

definition assertBoolean :: "json option \<Rightarrow> string \<Rightarrow> bool checked" where
  "assertBoolean v field = (case v of Some (JBool b) \<Rightarrow> Inr b | _ \<Rightarrow> Inl (FieldError field))"

definition assertObject :: "json option \<Rightarrow> string \<Rightarrow> unit checked" where
  "assertObject v field = require (is_object v) field"

definition assertNullableNumber :: "json option \<Rightarrow> string \<Rightarrow> js_number option checked" where
  "assertNullableNumber v field = (case v of
       Some JNull \<Rightarrow> Inr None
     | Some (JNumber n) \<Rightarrow> guardS (\<not> is_NaN n) (FieldError field) (Inr (Some n))
     | _ \<Rightarrow> Inl (FieldError field))"

text \<open>\<open>null\<close> where a string or \<open>null\<close> is allowed.\<close>

definition assertNullableString :: "json option \<Rightarrow> string \<Rightarrow> string option checked" where
  "assertNullableString v field =
     (if v = Some JNull then Inr None else bindS (assertString v field) (\<lambda>s. Inr (Some s)))"

definition Object_keys :: "json option \<Rightarrow> string list checked" where
  "Object_keys v = (case v of
       None \<Rightarrow> Inl RawTypeError
     | Some JNull \<Rightarrow> Inl RawTypeError
     | Some (JObject kvs) \<Rightarrow> Inr (map fst kvs)
     | Some (JArray xs) \<Rightarrow> Inr (map show_nat [0..<length xs])
     | Some (JString s) \<Rightarrow> Inr (map show_nat [0..<length s])
     | Some _ \<Rightarrow> Inr [])"

definition assertNoUnknownKeys :: "json option \<Rightarrow> string list \<Rightarrow> string \<Rightarrow> unit checked" where
  "assertNoUnknownKeys v allowed field = bindS (Object_keys v) (\<lambda>keys.
     require (filter (\<lambda>key. key \<notin> set allowed) keys = []) field)"

text \<open>A property read and asserted at once; \<open>path\<close> names it in errors.\<close>

definition string_at :: "json option \<Rightarrow> string \<Rightarrow> string \<Rightarrow> string checked" where
  "string_at v key path = bindS (get_field v key) (\<lambda>x. assertString x path)"

definition number_of :: "json option \<Rightarrow> string \<Rightarrow> string \<Rightarrow> js_number checked" where
  "number_of v key path = bindS (get_field v key) (\<lambda>x. assertNumber x path)"

definition boolean_at :: "json option \<Rightarrow> string \<Rightarrow> string \<Rightarrow> bool checked" where
  "boolean_at v key path = bindS (get_field v key) (\<lambda>x. assertBoolean x path)"

definition has_kind :: "json option \<Rightarrow> string \<Rightarrow> bool checked" where
  "has_kind v kind = bindS (get_field v ''kind'') (\<lambda>k. Inr (k = Some (JString kind)))"

section \<open>The declared keys\<close>

definition DESCRIPTOR_KEYS :: "string list" where
  "DESCRIPTOR_KEYS = [''version'', ''kind'', ''slug'', ''siteUrl'', ''image'', ''ownerEmail'', ''uid'', ''ports'',
     ''appHostIp'', ''database'', ''media'', ''transport'', ''mail'', ''hostname'', ''gate'', ''backup'',
     ''codeInjection'', ''limits'', ''caps'', ''safety'', ''breakGlass'', ''expiresAt'']"

definition STACK_DESCRIPTOR_KEYS :: "string list" where
  "STACK_DESCRIPTOR_KEYS = filter (\<lambda>key. key \<noteq> ''ownerEmail'') DESCRIPTOR_KEYS"

definition PORTS_KEYS :: "string list" where
  "PORTS_KEYS = [''a'', ''b'', ''health'']"

definition DATABASE_SQLITE_KEYS :: "string list" where
  "DATABASE_SQLITE_KEYS = [''kind'', ''path'']"

definition DATABASE_MYSQL_KEYS :: "string list" where
  "DATABASE_MYSQL_KEYS = [''kind'', ''host'', ''port'', ''name'', ''user'']"

definition MEDIA_LOCAL_KEYS :: "string list" where
  "MEDIA_LOCAL_KEYS = [''kind'', ''path'', ''resize'', ''srcsets'']"

definition MEDIA_S3_KEYS :: "string list" where
  "MEDIA_S3_KEYS = [''kind'', ''endpoint'', ''region'', ''bucket'', ''resize'', ''srcsets'']"

definition TRANSPORT_QUEUE_KEYS :: "string list" where
  "TRANSPORT_QUEUE_KEYS = [''kind'', ''path'']"

definition TRANSPORT_SMTP_KEYS :: "string list" where
  "TRANSPORT_SMTP_KEYS = [''kind'', ''host'', ''port'', ''user'']"

definition MAIL_KEYS :: "string list" where
  "MAIL_KEYS = [''enabled'', ''ceiling'', ''estateCeiling'', ''identity'']"

definition SENDING_IDENTITY_DEMO_KEYS :: "string list" where
  "SENDING_IDENTITY_DEMO_KEYS = [''kind'', ''localPart'']"

definition SENDING_IDENTITY_TENANT_KEYS :: "string list" where
  "SENDING_IDENTITY_TENANT_KEYS = [''kind'', ''domain'', ''dkimSelector'']"

definition HOSTNAME_OURS_KEYS :: "string list" where
  "HOSTNAME_OURS_KEYS = [''kind'', ''sub'', ''gated'']"

definition HOSTNAME_THEIRS_KEYS :: "string list" where
  "HOSTNAME_THEIRS_KEYS = [''kind'', ''fqdn'', ''verifiedAt'']"

definition GATE_NONE_KEYS :: "string list" where
  "GATE_NONE_KEYS = [''kind'']"

definition GATE_PASSPHRASE_KEYS :: "string list" where
  "GATE_PASSPHRASE_KEYS = [''kind'', ''argon2idHash'']"

definition BACKUP_NONE_KEYS :: "string list" where
  "BACKUP_NONE_KEYS = [''kind'']"

definition BACKUP_BUCKET_NATIVE_KEYS :: "string list" where
  "BACKUP_BUCKET_NATIVE_KEYS = [''kind'', ''encryptionRecipient'']"

definition CODE_INJECTION_BLOCKED_KEYS :: "string list" where
  "CODE_INJECTION_BLOCKED_KEYS = [''kind'']"

definition CODE_INJECTION_GRANTED_KEYS :: "string list" where
  "CODE_INJECTION_GRANTED_KEYS = [''kind'', ''by'', ''reason'', ''until'']"

definition CODE_INJECTION_MANAGED_KEYS :: "string list" where
  "CODE_INJECTION_MANAGED_KEYS = [''kind'', ''head'', ''foot'']"

definition LIMITS_KEYS :: "string list" where
  "LIMITS_KEYS = [''membersCap'', ''staffCap'']"

definition CAPS_KEYS :: "string list" where
  "CAPS_KEYS = [''cpus'', ''cpuShares'', ''pidsLimit'', ''nofile'']"

definition SAFETY_KEYS :: "string list" where
  "SAFETY_KEYS = [''near'', ''exact'']"

definition BREAK_GLASS_DISABLED_KEYS :: "string list" where
  "BREAK_GLASS_DISABLED_KEYS = [''kind'']"

definition BREAK_GLASS_ENABLED_KEYS :: "string list" where
  "BREAK_GLASS_ENABLED_KEYS = [''kind'', ''publicKey'', ''tenant'', ''supportIdentity'']"

end
