(* ===== verification/Render_Shape.thy ===== *)
theory Render_Shape
  imports Render_Descriptor
begin

text \<open>
  \<open>assertShape\<close> of \<open>src/render-core/src/validate.ts\<close>, one definition per part of the descriptor, each
  making the same assertions in the same order.
\<close>

datatype owner_placement = Inline | Secret

definition shape_ports :: "json option \<Rightarrow> port_triple checked" where
  "shape_ports v =
     thenS (assertObject v ''ports'')
    (thenS (assertNoUnknownKeys v PORTS_KEYS ''ports'')
    (bindS (number_of v ''a'' ''ports.a'') (\<lambda>a.
     bindS (number_of v ''b'' ''ports.b'') (\<lambda>b.
     bindS (number_of v ''health'' ''ports.health'') (\<lambda>health.
     Inr \<lparr>pt_a = a, pt_b = b, pt_health = health\<rparr>)))))"

definition shape_database :: "json option \<Rightarrow> database_spec checked" where
  "shape_database v = bindS (has_kind v ''sqlite'') (\<lambda>sqlite.
     if sqlite then
       thenS (assertNoUnknownKeys v DATABASE_SQLITE_KEYS ''database'')
      (bindS (string_at v ''path'' ''database.path'') (\<lambda>path. Inr (Sqlite path)))
     else
       thenS (assertNoUnknownKeys v DATABASE_MYSQL_KEYS ''database'')
      (bindS (string_at v ''host'' ''database.host'') (\<lambda>host.
       bindS (number_of v ''port'' ''database.port'') (\<lambda>port.
       bindS (string_at v ''name'' ''database.name'') (\<lambda>name.
       bindS (string_at v ''user'' ''database.user'') (\<lambda>user.
       Inr (MySql host port name user)))))))"

definition shape_media :: "json option \<Rightarrow> media_spec checked" where
  "shape_media v = bindS (has_kind v ''local'') (\<lambda>is_local.
     bindS
       (if is_local then
          thenS (assertNoUnknownKeys v MEDIA_LOCAL_KEYS ''media'')
         (bindS (string_at v ''path'' ''media.path'') (\<lambda>path. Inr (LocalStore path)))
        else
          thenS (assertNoUnknownKeys v MEDIA_S3_KEYS ''media'')
         (bindS (string_at v ''endpoint'' ''media.endpoint'') (\<lambda>endpoint.
          bindS (string_at v ''region'' ''media.region'') (\<lambda>region.
          bindS (string_at v ''bucket'' ''media.bucket'') (\<lambda>bucket.
          Inr (S3Store endpoint region bucket))))))
     (\<lambda>store.
     bindS (boolean_at v ''resize'' ''media.resize'') (\<lambda>resize.
     bindS (boolean_at v ''srcsets'' ''media.srcsets'') (\<lambda>srcsets.
     Inr \<lparr>me_store = store, me_resize = resize, me_srcsets = srcsets\<rparr>))))"

definition shape_transport :: "json option \<Rightarrow> transport_spec checked" where
  "shape_transport v = bindS (has_kind v ''queue'') (\<lambda>queue.
     if queue then
       thenS (assertNoUnknownKeys v TRANSPORT_QUEUE_KEYS ''transport'')
      (bindS (string_at v ''path'' ''transport.path'') (\<lambda>path. Inr (QueueTransport path)))
     else
       thenS (assertNoUnknownKeys v TRANSPORT_SMTP_KEYS ''transport'')
      (bindS (string_at v ''host'' ''transport.host'') (\<lambda>host.
       bindS (number_of v ''port'' ''transport.port'') (\<lambda>port.
       bindS (string_at v ''user'' ''transport.user'') (\<lambda>user.
       Inr (SmtpTransport host port user))))))"

definition shape_identity :: "json option \<Rightarrow> sending_identity checked" where
  "shape_identity v =
     thenS (assertObject v ''mail.identity'')
    (bindS (has_kind v ''demo'') (\<lambda>demo.
     if demo then
       thenS (assertNoUnknownKeys v SENDING_IDENTITY_DEMO_KEYS ''mail.identity'')
      (bindS (string_at v ''localPart'' ''mail.identity.localPart'') (\<lambda>localPart. Inr (DemoIdentity localPart)))
     else
       thenS (assertNoUnknownKeys v SENDING_IDENTITY_TENANT_KEYS ''mail.identity'')
      (bindS (string_at v ''domain'' ''mail.identity.domain'') (\<lambda>domain.
       bindS (string_at v ''dkimSelector'' ''mail.identity.dkimSelector'') (\<lambda>selector.
       Inr (TenantIdentity domain selector))))))"

definition shape_mail :: "json option \<Rightarrow> mail_spec checked" where
  "shape_mail v =
     thenS (assertObject v ''mail'')
    (thenS (assertNoUnknownKeys v MAIL_KEYS ''mail'')
    (bindS (boolean_at v ''enabled'' ''mail.enabled'') (\<lambda>enabled.
     bindS (number_of v ''ceiling'' ''mail.ceiling'') (\<lambda>ceiling.
     bindS (number_of v ''estateCeiling'' ''mail.estateCeiling'') (\<lambda>estateCeiling.
     bindS (get_field v ''identity'') (\<lambda>who.
     bindS (shape_identity who) (\<lambda>ident.
     Inr \<lparr>ml_enabled = enabled, ml_ceiling = ceiling, ml_estateCeiling = estateCeiling, ml_identity = ident\<rparr>)))))))"

definition shape_hostname :: "json option \<Rightarrow> hostname_spec checked" where
  "shape_hostname v = bindS (has_kind v ''ours'') (\<lambda>ours.
     if ours then
       thenS (assertNoUnknownKeys v HOSTNAME_OURS_KEYS ''hostname'')
      (bindS (string_at v ''sub'' ''hostname.sub'') (\<lambda>sub.
       bindS (boolean_at v ''gated'' ''hostname.gated'') (\<lambda>gated.
       Inr (OursHost sub gated))))
     else
       thenS (assertNoUnknownKeys v HOSTNAME_THEIRS_KEYS ''hostname'')
      (bindS (string_at v ''fqdn'' ''hostname.fqdn'') (\<lambda>fqdn.
       bindS (string_at v ''verifiedAt'' ''hostname.verifiedAt'') (\<lambda>verifiedAt.
       Inr (TheirsHost fqdn verifiedAt)))))"

definition shape_gate :: "json option \<Rightarrow> gate_choice checked" where
  "shape_gate v = bindS (has_kind v ''passphrase'') (\<lambda>gated.
     if gated then
       thenS (assertNoUnknownKeys v GATE_PASSPHRASE_KEYS ''gate'')
      (bindS (string_at v ''argon2idHash'' ''gate.argon2idHash'') (\<lambda>hash. Inr (PassphraseGated hash)))
     else thenS (assertNoUnknownKeys v GATE_NONE_KEYS ''gate'') (Inr OpenGate))"

definition shape_backup :: "json option \<Rightarrow> backup_spec checked" where
  "shape_backup v = bindS (has_kind v ''bucket-native'') (\<lambda>native.
     if native then
       thenS (assertNoUnknownKeys v BACKUP_BUCKET_NATIVE_KEYS ''backup'')
      (bindS (string_at v ''encryptionRecipient'' ''backup.encryptionRecipient'') (\<lambda>to. Inr (BucketNative to)))
     else thenS (assertNoUnknownKeys v BACKUP_NONE_KEYS ''backup'') (Inr NoBackup))"

definition shape_codeInjection :: "json option \<Rightarrow> code_injection checked" where
  "shape_codeInjection v = bindS (has_kind v ''granted'') (\<lambda>granted.
     if granted then
       thenS (assertNoUnknownKeys v CODE_INJECTION_GRANTED_KEYS ''codeInjection'')
      (bindS (string_at v ''by'' ''codeInjection.by'') (\<lambda>by_whom.
       bindS (string_at v ''reason'' ''codeInjection.reason'') (\<lambda>reason.
       bindS (get_field v ''until'') (\<lambda>until_value.
       bindS (assertNullableString until_value ''codeInjection.until'') (\<lambda>until.
       Inr (InjectionGranted by_whom reason until))))))
     else bindS (has_kind v ''managed'') (\<lambda>managed.
       if managed then
         thenS (assertNoUnknownKeys v CODE_INJECTION_MANAGED_KEYS ''codeInjection'')
        (bindS (string_at v ''head'' ''codeInjection.head'') (\<lambda>head.
         bindS (string_at v ''foot'' ''codeInjection.foot'') (\<lambda>foot.
         Inr (InjectionManaged head foot))))
       else thenS (assertNoUnknownKeys v CODE_INJECTION_BLOCKED_KEYS ''codeInjection'') (Inr InjectionBlocked)))"

definition shape_limits :: "json option \<Rightarrow> limits_spec checked" where
  "shape_limits v =
     thenS (assertObject v ''limits'')
    (thenS (assertNoUnknownKeys v LIMITS_KEYS ''limits'')
    (bindS (get_field v ''membersCap'') (\<lambda>members.
     bindS (assertNullableNumber members ''limits.membersCap'') (\<lambda>membersCap.
     bindS (get_field v ''staffCap'') (\<lambda>staff.
     bindS (assertNullableNumber staff ''limits.staffCap'') (\<lambda>staffCap.
     Inr \<lparr>li_membersCap = membersCap, li_staffCap = staffCap\<rparr>))))))"

definition shape_caps :: "json option \<Rightarrow> resource_caps checked" where
  "shape_caps v =
     thenS (assertObject v ''caps'')
    (thenS (assertNoUnknownKeys v CAPS_KEYS ''caps'')
    (bindS (string_at v ''cpus'' ''caps.cpus'') (\<lambda>cpus.
     bindS (number_of v ''cpuShares'' ''caps.cpuShares'') (\<lambda>cpuShares.
     bindS (number_of v ''pidsLimit'' ''caps.pidsLimit'') (\<lambda>pidsLimit.
     bindS (number_of v ''nofile'' ''caps.nofile'') (\<lambda>nofile.
     Inr \<lparr>rc_cpus = cpus, rc_cpuShares = cpuShares, rc_pidsLimit = pidsLimit, rc_nofile = nofile\<rparr>))))))"

definition shape_safety :: "json option \<Rightarrow> safety_spec checked" where
  "shape_safety v =
     thenS (assertObject v ''safety'')
    (thenS (assertNoUnknownKeys v SAFETY_KEYS ''safety'')
    (bindS (boolean_at v ''near'' ''safety.near'') (\<lambda>near.
     bindS (boolean_at v ''exact'' ''safety.exact'') (\<lambda>exact.
     Inr \<lparr>sf_near = near, sf_exact = exact\<rparr>))))"

definition shape_breakGlass :: "json option \<Rightarrow> break_glass checked" where
  "shape_breakGlass v = bindS (has_kind v ''enabled'') (\<lambda>enabled.
     if enabled then
       thenS (assertNoUnknownKeys v BREAK_GLASS_ENABLED_KEYS ''breakGlass'')
      (bindS (string_at v ''publicKey'' ''breakGlass.publicKey'') (\<lambda>publicKey.
       bindS (string_at v ''tenant'' ''breakGlass.tenant'') (\<lambda>tenant.
       bindS (string_at v ''supportIdentity'' ''breakGlass.supportIdentity'') (\<lambda>supportIdentity.
       Inr (BreakGlassEnabled publicKey tenant supportIdentity)))))
     else thenS (assertNoUnknownKeys v BREAK_GLASS_DISABLED_KEYS ''breakGlass'') (Inr BreakGlassDisabled))"

definition shape_ownerEmail :: "owner_placement \<Rightarrow> json option \<Rightarrow> string option checked" where
  "shape_ownerEmail owner v = (case owner of
       Inline \<Rightarrow> bindS (string_at v ''ownerEmail'' ''ownerEmail'') (\<lambda>s. Inr (Some s))
     | Secret \<Rightarrow> Inr None)"

text \<open>A part of the descriptor, read where \<open>assertShape\<close> comes to it.\<close>

definition part :: "json option \<Rightarrow> string \<Rightarrow> (json option \<Rightarrow> 'a checked) \<Rightarrow> 'a checked" where
  "part v key shape = bindS (get_field v key) shape"

definition shape_kind :: "json option \<Rightarrow> tenant_kind checked" where
  "shape_kind v = bindS (has_kind v ''demo'') (\<lambda>demo. Inr (if demo then DemoKind else TenantKind))"

definition assertShape :: "json option \<Rightarrow> owner_placement \<Rightarrow> tenant_descriptor checked" where
  "assertShape v owner =
     thenS (assertNoUnknownKeys v (if owner = Inline then DESCRIPTOR_KEYS else STACK_DESCRIPTOR_KEYS) ''descriptor'')
    (bindS (number_of v ''version'' ''version'') (\<lambda>version.
     bindS (string_at v ''slug'' ''slug'') (\<lambda>slug.
     bindS (string_at v ''siteUrl'' ''siteUrl'') (\<lambda>siteUrl.
     bindS (string_at v ''image'' ''image'') (\<lambda>img.
     bindS (shape_ownerEmail owner v) (\<lambda>ownerEmail.
     bindS (number_of v ''uid'' ''uid'') (\<lambda>uid.
     bindS (string_at v ''appHostIp'' ''appHostIp'') (\<lambda>appHostIp.
     bindS (part v ''ports'' shape_ports) (\<lambda>ports.
     bindS (part v ''database'' shape_database) (\<lambda>database.
     bindS (part v ''media'' shape_media) (\<lambda>media.
     bindS (part v ''transport'' shape_transport) (\<lambda>transport.
     bindS (part v ''mail'' shape_mail) (\<lambda>mail.
     bindS (part v ''hostname'' shape_hostname) (\<lambda>hostname.
     bindS (part v ''gate'' shape_gate) (\<lambda>gate.
     bindS (part v ''backup'' shape_backup) (\<lambda>backup.
     bindS (part v ''codeInjection'' shape_codeInjection) (\<lambda>codeInjection.
     bindS (part v ''limits'' shape_limits) (\<lambda>limits.
     bindS (part v ''caps'' shape_caps) (\<lambda>caps.
     bindS (part v ''safety'' shape_safety) (\<lambda>safety.
     bindS (part v ''breakGlass'' shape_breakGlass) (\<lambda>breakGlass.
     bindS (part v ''expiresAt'' (\<lambda>x. assertNullableString x ''expiresAt'')) (\<lambda>expiresAt.
     bindS (shape_kind v) (\<lambda>kind.
     Inr \<lparr>d_version = version, d_kind = kind, d_slug = slug, d_siteUrl = siteUrl, d_image = img,
       d_ownerEmail = ownerEmail, d_uid = uid, d_ports = ports, d_appHostIp = appHostIp, d_database = database,
       d_media = media, d_transport = transport, d_mail = mail, d_hostname = hostname, d_gate = gate,
       d_backup = backup, d_codeInjection = codeInjection, d_limits = limits, d_caps = caps, d_safety = safety,
       d_breakGlass = breakGlass, d_expiresAt = expiresAt\<rparr>)))))))))))))))))))))))"

end
