(* ===== verification/Render_Zones.thy ===== *)
theory Render_Zones
  imports Render_Shape
begin

text \<open>
  Domains and the zones a caller configures, from \<open>src/render-core/src/validate.ts\<close>.

  \<open>zones\<close> is unchecked input, so it is a JSON value; \<open>validateZoneConfig\<close> turns it into the record the
  rest reads.  \<open>demoMailDomain\<close> is the one field it does not check, and stays a JSON value.
\<close>

record zone_config =
  zc_demoZone :: string
  zc_platformZone :: string
  zc_ownedDomains :: "string list"
  zc_imagesWithBreakGlassAdapter :: "string list"
  zc_demoMailDomain :: "json option"

definition normalizeDomain :: "string \<Rightarrow> string" where
  "normalizeDomain s = toLowerCase (if s \<noteq> [] \<and> last s = CHR ''.'' then butlast s else s)"

definition isEqualToOrSubdomainOf :: "string \<Rightarrow> string \<Rightarrow> bool" where
  "isEqualToOrSubdomainOf fqdn domain \<longleftrightarrow>
     normalizeDomain fqdn = normalizeDomain domain \<or> ends_with (CHR ''.'' # normalizeDomain domain) (normalizeDomain fqdn)"

definition isOutsideOwnedDomains :: "string \<Rightarrow> string list \<Rightarrow> bool" where
  "isOutsideOwnedDomains fqdn ownedDomains \<longleftrightarrow> \<not> list_ex (isEqualToOrSubdomainOf fqdn) ownedDomains"

definition HOSTNAME_LABEL_PATTERN :: "string \<Rightarrow> bool" where
  "HOSTNAME_LABEL_PATTERN s \<longleftrightarrow> s \<noteq> [] \<and> length s \<le> 63 \<and> all_in (alnum_lower @ ''-'') s \<and>
     hd s \<in> set alnum_lower \<and> last s \<in> set alnum_lower"

definition MAX_FQDN_LENGTH :: nat where
  "MAX_FQDN_LENGTH = 253"

definition NUMERIC_SHORTHAND_LAST_LABEL :: "string \<Rightarrow> bool" where
  "NUMERIC_SHORTHAND_LAST_LABEL s \<longleftrightarrow>
     (s \<noteq> [] \<and> all_in digits s) \<or>
     (3 \<le> length s \<and> (take 2 s = ''0x'' \<or> take 2 s = ''0X'') \<and> all_in (hex_lower @ ''ABCDEF'') (drop 2 s))"

definition isWellFormedFqdn :: "string \<Rightarrow> bool" where
  "isWellFormedFqdn fqdn \<longleftrightarrow> fqdn \<noteq> [] \<and> length fqdn \<le> MAX_FQDN_LENGTH \<and>
     (let labels = split_on CHR ''.'' fqdn in
      2 \<le> length labels \<and> list_all HOSTNAME_LABEL_PATTERN labels \<and> \<not> NUMERIC_SHORTHAND_LAST_LABEL (last labels))"

section \<open>The zone configuration\<close>

text \<open>The strings of a JSON array, if each element is a string that passes; or the first refusal.\<close>

fun strings_where :: "(string \<Rightarrow> bool) \<Rightarrow> string \<Rightarrow> json list \<Rightarrow> string list checked" where
  "strings_where ok field [] = Inr []"
| "strings_where ok field (v # vs) = (case v of
       JString s \<Rightarrow> guardS (ok s) (FieldError field) (bindS (strings_where ok field vs) (\<lambda>ss. Inr (s # ss)))
     | _ \<Rightarrow> Inl (FieldError field))"

definition is_typeof_object :: "json option \<Rightarrow> bool" where
  "is_typeof_object v = (case v of Some (JObject _) \<Rightarrow> True | Some (JArray _) \<Rightarrow> True | _ \<Rightarrow> False)"

definition zone_ownedDomains :: "json option \<Rightarrow> string list checked" where
  "zone_ownedDomains v = (case v of
       Some (JArray ds) \<Rightarrow> guardS (ds \<noteq> []) (FieldError ''zones.ownedDomains'')
         (strings_where (\<lambda>s. isWellFormedFqdn (normalizeDomain s)) ''zones.ownedDomains'' ds)
     | _ \<Rightarrow> Inl (FieldError ''zones.ownedDomains''))"

definition zone_images :: "json option \<Rightarrow> string list checked" where
  "zone_images v = (case v of
       None \<Rightarrow> Inr []
     | Some (JArray refs) \<Rightarrow> strings_where (\<lambda>ref. trim ref \<noteq> []) ''zones.imagesWithBreakGlassAdapter'' refs
     | _ \<Rightarrow> Inl (FieldError ''zones.imagesWithBreakGlassAdapter''))"

definition zone_field :: "string list \<Rightarrow> json option \<Rightarrow> string \<Rightarrow> string checked" where
  "zone_field owned v field = bindS (assertString v field) (\<lambda>zone.
     guardS (isWellFormedFqdn (normalizeDomain zone)) (FieldError field)
    (guardS (\<not> isOutsideOwnedDomains zone owned) (FieldError field) (Inr zone)))"

definition validateZoneConfig :: "json option \<Rightarrow> zone_config checked" where
  "validateZoneConfig v =
     thenS (require (is_typeof_object v) ''zones'')
    (bindS (get_field v ''ownedDomains'') (\<lambda>owned_value.
     bindS (zone_ownedDomains owned_value) (\<lambda>owned.
     bindS (get_field v ''imagesWithBreakGlassAdapter'') (\<lambda>images_value.
     bindS (zone_images images_value) (\<lambda>images.
     bindS (get_field v ''demoZone'') (\<lambda>demo_value.
     bindS (zone_field owned demo_value ''zones.demoZone'') (\<lambda>demoZone.
     bindS (get_field v ''platformZone'') (\<lambda>platform_value.
     bindS (zone_field owned platform_value ''zones.platformZone'') (\<lambda>platformZone.
     bindS (get_field v ''demoMailDomain'') (\<lambda>demoMailDomain.
     Inr \<lparr>zc_demoZone = demoZone, zc_platformZone = platformZone, zc_ownedDomains = owned,
       zc_imagesWithBreakGlassAdapter = images, zc_demoMailDomain = demoMailDomain\<rparr>))))))))))"

section \<open>Hostnames\<close>

definition validateHostname :: "hostname_spec \<Rightarrow> zone_config \<Rightarrow> unit checked" where
  "validateHostname hostname zones = (case hostname of
       OursHost sub gated \<Rightarrow> require (HOSTNAME_LABEL_PATTERN sub) ''hostname.sub''
     | TheirsHost fqdn verifiedAt \<Rightarrow>
         thenS (validateInstant verifiedAt ''hostname.verifiedAt'')
        (thenS (require (isWellFormedFqdn fqdn) ''hostname.fqdn'')
        (require (isOutsideOwnedDomains fqdn (zc_ownedDomains zones)) ''hostname.fqdn'')))"

definition expectedHost :: "tenant_descriptor \<Rightarrow> zone_config \<Rightarrow> string" where
  "expectedHost d zones = (case d_hostname d of
       OursHost sub gated \<Rightarrow> sub @ ''.'' @ (if d_kind d = DemoKind then zc_demoZone zones else zc_platformZone zones)
     | TheirsHost fqdn verifiedAt \<Rightarrow> fqdn)"

definition checkSiteUrlMatchesHostname :: "tenant_descriptor \<Rightarrow> zone_config \<Rightarrow> unit checked" where
  "checkSiteUrlMatchesHostname d zones = (let expectedUrl = ''https://'' @ expectedHost d zones in
     require (d_siteUrl d = expectedUrl \<or> d_siteUrl d = expectedUrl @ ''/'') ''siteUrl'')"

definition servedHostnameOf :: "tenant_kind \<Rightarrow> hostname_spec \<Rightarrow> zone_config \<Rightarrow> string option" where
  "servedHostnameOf kind hostname zones = (case hostname of
       OursHost sub gated \<Rightarrow>
         (if kind = DemoKind then None
          else if \<not> HOSTNAME_LABEL_PATTERN sub then None
          else Some (normalizeDomain (sub @ ''.'' @ zc_platformZone zones)))
     | TheirsHost fqdn verifiedAt \<Rightarrow>
         (if \<not> isWellFormedFqdn fqdn then None
          else if \<not> isOutsideOwnedDomains fqdn (zc_ownedDomains zones) then None
          else Some (normalizeDomain fqdn)))"

end
