(* ===== verification/Render_Validate.thy ===== *)
theory Render_Validate
  imports Render_Zones
begin

text \<open>
  The per-field and cross-field rules of \<open>src/render-core/src/validate.ts\<close> and the entry points
  \<open>validate\<close>, \<open>validateTenantStack\<close> and \<open>validateOwnerEmailSecret\<close>, over the typed record of
  \<open>assertShape\<close>.  \<open>new URL\<close> and \<open>JSON.parse\<close> are parameters.
\<close>

section \<open>Ranges\<close>

definition MAX_SAFE_INTEGER :: int where
  "MAX_SAFE_INTEGER = 2 ^ 53 - 1"

definition assertFinitePositiveInteger :: "js_number \<Rightarrow> string \<Rightarrow> int \<Rightarrow> unit checked" where
  "assertFinitePositiveInteger n field ceiling = require (case n of
       Whole i \<Rightarrow> \<bar>i\<bar> \<le> MAX_SAFE_INTEGER \<and> 0 < i \<and> i \<le> ceiling
     | NotWhole _ \<Rightarrow> False) field"

definition assertNonNegativeIntegerOrNull :: "js_number option \<Rightarrow> string \<Rightarrow> int \<Rightarrow> unit checked" where
  "assertNonNegativeIntegerOrNull v field ceiling = require (case v of
       None \<Rightarrow> True
     | Some (Whole i) \<Rightarrow> \<bar>i\<bar> \<le> MAX_SAFE_INTEGER \<and> 0 \<le> i \<and> i \<le> ceiling
     | Some (NotWhole _) \<Rightarrow> False) field"

definition assertNonNegativeInteger :: "js_number \<Rightarrow> string \<Rightarrow> unit checked" where
  "assertNonNegativeInteger n field = require (case n of Whole i \<Rightarrow> 0 \<le> i | NotWhole _ \<Rightarrow> False) field"

definition MAX_CPUS_LENGTH :: nat where
  "MAX_CPUS_LENGTH = 32"

definition MAX_CPUS_VALUE :: nat where
  "MAX_CPUS_VALUE = 128"

definition whole_part :: "string \<Rightarrow> bool" where
  "whole_part i \<longleftrightarrow> i \<noteq> [] \<and> all_in digits i \<and> hd i \<noteq> CHR ''0''"

definition CPUS_PATTERN :: "string \<Rightarrow> bool" where
  "CPUS_PATTERN s = (case split_on CHR ''.'' s of
       [i] \<Rightarrow> whole_part i
     | [i, f] \<Rightarrow> f \<noteq> [] \<and> all_in digits f \<and>
         ((i = ''0'' \<and> list_ex (\<lambda>c. c \<noteq> CHR ''0'') f) \<or> whole_part i)
     | _ \<Rightarrow> False)"

text \<open>
  \<open>Number(value) > 128\<close> on a decimal: the doubles next above 128 are \<open>2 ^ -45\<close> apart and a tie goes to
  128 itself, so it is so exactly when the decimal exceeds \<open>128 + 2 ^ -46\<close>.
\<close>

definition exceeds_cpus :: "string \<Rightarrow> bool" where
  "exceeds_cpus s = (case split_on CHR ''.'' s of
       [i] \<Rightarrow> MAX_CPUS_VALUE < number_of_digits i
     | [i, f] \<Rightarrow>
         (MAX_CPUS_VALUE * 2 ^ 46 + 1) * 10 ^ length f < (number_of_digits i * 10 ^ length f + number_of_digits f) * 2 ^ 46
     | _ \<Rightarrow> False)"

definition validateCpus :: "string \<Rightarrow> unit checked" where
  "validateCpus s =
     thenS (require (s \<noteq> [] \<and> length s \<le> MAX_CPUS_LENGTH) ''caps.cpus'')
    (thenS (require (CPUS_PATTERN s) ''caps.cpus'')
    (require (\<not> exceeds_cpus s) ''caps.cpus''))"

definition MAX_CPU_SHARES :: int where "MAX_CPU_SHARES = 262144"
definition MAX_PIDS_LIMIT :: int where "MAX_PIDS_LIMIT = 100000"
definition MAX_NOFILE :: int where "MAX_NOFILE = 1048576"
definition MAX_MEMBERS_CAP :: int where "MAX_MEMBERS_CAP = 10000000"
definition MAX_STAFF_CAP :: int where "MAX_STAFF_CAP = 10000"

definition checkRanges :: "tenant_descriptor \<Rightarrow> unit checked" where
  "checkRanges d =
     thenS (assertNonNegativeIntegerOrNull (li_membersCap (d_limits d)) ''limits.membersCap'' MAX_MEMBERS_CAP)
    (thenS (assertNonNegativeIntegerOrNull (li_staffCap (d_limits d)) ''limits.staffCap'' MAX_STAFF_CAP)
    (thenS (validateCpus (rc_cpus (d_caps d)))
    (thenS (assertFinitePositiveInteger (rc_cpuShares (d_caps d)) ''caps.cpuShares'' MAX_CPU_SHARES)
    (thenS (assertFinitePositiveInteger (rc_pidsLimit (d_caps d)) ''caps.pidsLimit'' MAX_PIDS_LIMIT)
    (thenS (assertFinitePositiveInteger (rc_nofile (d_caps d)) ''caps.nofile'' MAX_NOFILE)
    (thenS (assertNonNegativeInteger (ml_ceiling (d_mail d)) ''mail.ceiling'')
    (assertNonNegativeInteger (ml_estateCeiling (d_mail d)) ''mail.estateCeiling'')))))))"

definition KNOWN_SCHEMA_VERSIONS :: "js_number list" where
  "KNOWN_SCHEMA_VERSIONS = [Whole 1]"

definition checkVersion :: "tenant_descriptor \<Rightarrow> unit checked" where
  "checkVersion d = guardS (d_version d \<in> set KNOWN_SCHEMA_VERSIONS) UnknownSchemaVersionError (Inr ())"

section \<open>Ports, paths and hosts\<close>

definition MIN_HOST_PORT :: int where
  "MIN_HOST_PORT = 1024"

text \<open>\<open>a < b\<close> on numbers already known to be whole.\<close>

definition less_than :: "js_number \<Rightarrow> js_number \<Rightarrow> bool" where
  "less_than a b = (case (a, b) of (Whole i, Whole j) \<Rightarrow> i < j | _ \<Rightarrow> False)"

definition validatePortTriple :: "port_triple \<Rightarrow> unit checked" where
  "validatePortTriple p =
     thenS (validatePort (pt_a p) ''ports.a'')
    (thenS (validatePort (pt_b p) ''ports.b'')
    (thenS (validatePort (pt_health p) ''ports.health'')
    (thenS (require (\<not> less_than (pt_a p) (Whole MIN_HOST_PORT)) ''ports.a'')
    (thenS (require (\<not> less_than (pt_b p) (Whole MIN_HOST_PORT)) ''ports.b'')
    (thenS (require (\<not> less_than (pt_health p) (Whole MIN_HOST_PORT)) ''ports.health'')
    (require (\<not> (pt_a p = pt_b p \<or> pt_a p = pt_health p \<or> pt_b p = pt_health p)) ''ports''))))))"

definition assertNonEmptyString :: "string \<Rightarrow> string \<Rightarrow> unit checked" where
  "assertNonEmptyString s field = require (trim s \<noteq> []) field"

definition assertNonEmptyPath :: "string \<Rightarrow> string \<Rightarrow> unit checked" where
  "assertNonEmptyPath s field =
     thenS (assertNonEmptyString s field)
    (thenS (require (CHR 0x5C \<notin> set s) field)
    (thenS (require (starts_with ''/'' s) field)
    (require (''..'' \<notin> set (split_on CHR ''/'' s)) field)))"

definition HOST_CHAR_PATTERN :: "string \<Rightarrow> bool" where
  "HOST_CHAR_PATTERN s \<longleftrightarrow> s \<noteq> [] \<and> all_in (lowers @ uppers @ digits @ ''.-'') s"

definition assertValidHost :: "string \<Rightarrow> string \<Rightarrow> unit checked" where
  "assertValidHost s field = thenS (assertNonEmptyString s field) (require (HOST_CHAR_PATTERN s) field)"

definition validateDatabase :: "string \<Rightarrow> database_spec \<Rightarrow> unit checked" where
  "validateDatabase slug database = (case database of
       Sqlite path \<Rightarrow> assertNonEmptyPath path ''database.path''
     | MySql host port name user \<Rightarrow>
         thenS (assertValidHost host ''database.host'')
        (thenS (validatePort port ''database.port'')
        (validateDatabaseIdentity slug name user)))"

definition validateMedia :: "string \<Rightarrow> media_store \<Rightarrow> unit checked" where
  "validateMedia slug store = (case store of
       LocalStore path \<Rightarrow> assertNonEmptyPath path ''media.path''
     | S3Store endpoint region bucket \<Rightarrow>
         thenS (assertNonEmptyString region ''media.region'')
        (thenS (mediaPublicBaseUrl endpoint slug)
        (validateMediaBucket slug bucket)))"

definition validateBackup :: "backup_spec \<Rightarrow> unit checked" where
  "validateBackup backup = (case backup of
       NoBackup \<Rightarrow> Inr ()
     | BucketNative recipient \<Rightarrow>
         thenS (require (trim recipient \<noteq> []) ''backup.encryptionRecipient'')
        (require (\<not> list_ex (\<lambda>c. js_space c \<or> c = CHR '','') recipient) ''backup.encryptionRecipient''))"

definition validateTransport :: "transport_spec \<Rightarrow> unit checked" where
  "validateTransport transport = (case transport of
       QueueTransport path \<Rightarrow> assertNonEmptyPath path ''transport.path''
     | SmtpTransport host port user \<Rightarrow>
         thenS (assertValidHost host ''transport.host'') (thenS (validatePort port ''transport.port'') (Inr ())))"

section \<open>Mail, gate and break-glass\<close>

definition LOCAL_PART_PATTERN :: "string \<Rightarrow> bool" where
  "LOCAL_PART_PATTERN s \<longleftrightarrow> s \<noteq> [] \<and> length s \<le> 64 \<and> all_in (lowers @ uppers @ digits @ ''._-'') s \<and>
     hd s \<in> set (lowers @ uppers @ digits) \<and> last s \<in> set (lowers @ uppers @ digits)"

text \<open>\<open>normalizeDomain\<close> of anything but a string fails on \<open>value.endsWith\<close>.\<close>

definition checkNotDemoMailDomain :: "string \<Rightarrow> json option \<Rightarrow> unit checked" where
  "checkNotDemoMailDomain domain v = (case v of
       Some (JString demoMailDomain) \<Rightarrow> require (\<not> isEqualToOrSubdomainOf domain demoMailDomain) ''mail.identity.domain''
     | _ \<Rightarrow> Inl RawTypeError)"

definition validateMailIdentity :: "mail_spec \<Rightarrow> zone_config \<Rightarrow> unit checked" where
  "validateMailIdentity mail zones =
     thenS (require (\<not> less_than (ml_estateCeiling mail) (ml_ceiling mail)) ''mail.ceiling'')
     (case ml_identity mail of
        DemoIdentity localPart \<Rightarrow>
          thenS (assertNonEmptyString localPart ''mail.identity.localPart'')
         (require (LOCAL_PART_PATTERN localPart) ''mail.identity.localPart'')
      | TenantIdentity domain dkimSelector \<Rightarrow>
          thenS (assertNonEmptyString domain ''mail.identity.domain'')
         (thenS (require (isWellFormedFqdn domain) ''mail.identity.domain'')
         (thenS (require (isOutsideOwnedDomains domain (zc_ownedDomains zones)) ''mail.identity.domain'')
         (thenS (checkNotDemoMailDomain domain (zc_demoMailDomain zones))
         (thenS (assertNonEmptyString dkimSelector ''mail.identity.dkimSelector'')
         (require (HOSTNAME_LABEL_PATTERN dkimSelector) ''mail.identity.dkimSelector''))))))"

definition validateGate :: "gate_choice \<Rightarrow> unit checked" where
  "validateGate gate = (case gate of
       OpenGate \<Rightarrow> Inr ()
     | PassphraseGated argon2idHash \<Rightarrow> require (trim argon2idHash \<noteq> []) ''gate.argon2idHash'')"

definition assertNotJsonScalar :: "(string \<Rightarrow> json option) \<Rightarrow> string \<Rightarrow> string \<Rightarrow> unit checked" where
  "assertNotJsonScalar json_parse s field = require (case json_parse s of
       Some (JNumber _) \<Rightarrow> False
     | Some (JBool _) \<Rightarrow> False
     | Some JNull \<Rightarrow> False
     | _ \<Rightarrow> True) field"

definition validateBreakGlass :: "(string \<Rightarrow> json option) \<Rightarrow> break_glass \<Rightarrow> unit checked" where
  "validateBreakGlass json_parse b = (case b of
       BreakGlassDisabled \<Rightarrow> Inr ()
     | BreakGlassEnabled publicKey tenant supportIdentity \<Rightarrow>
         thenS (assertNonEmptyString publicKey ''breakGlass.publicKey'')
        (thenS (assertNonEmptyString tenant ''breakGlass.tenant'')
        (thenS (validateEmailAddress supportIdentity ''breakGlass.supportIdentity'')
        (thenS (assertNotJsonScalar json_parse publicKey ''breakGlass.publicKey'')
        (thenS (assertNotJsonScalar json_parse tenant ''breakGlass.tenant'')
        (assertNotJsonScalar json_parse supportIdentity ''breakGlass.supportIdentity''))))))"

definition checkBreakGlassIdentity :: "tenant_descriptor \<Rightarrow> unit checked" where
  "checkBreakGlassIdentity d = (case d_breakGlass d of
       BreakGlassDisabled \<Rightarrow> Inr ()
     | BreakGlassEnabled publicKey tenant supportIdentity \<Rightarrow> require (tenant = d_slug d) ''breakGlass.tenant'')"

definition checkBreakGlassImageOrdering :: "tenant_descriptor \<Rightarrow> zone_config \<Rightarrow> unit checked" where
  "checkBreakGlassImageOrdering d zones = (case d_breakGlass d of
       BreakGlassDisabled \<Rightarrow> Inr ()
     | BreakGlassEnabled _ _ _ \<Rightarrow> require (d_image d \<in> set (zc_imagesWithBreakGlassAdapter zones)) ''breakGlass'')"

definition checkSafety :: "tenant_descriptor \<Rightarrow> unit checked" where
  "checkSafety d = require (sf_near (d_safety d) \<and> sf_exact (d_safety d)) ''safety''"

definition validateCodeInjection :: "code_injection \<Rightarrow> unit checked" where
  "validateCodeInjection c = (case c of
       InjectionGranted who reason until \<Rightarrow>
         thenS (require (trim who \<noteq> []) ''codeInjection.by'')
        (thenS (require (trim reason \<noteq> []) ''codeInjection.reason'')
        (case until of None \<Rightarrow> Inr () | Some t \<Rightarrow> thenS (validateInstant t ''codeInjection.until'') (Inr ())))
     | _ \<Rightarrow> Inr ())"

section \<open>Invariants\<close>

definition checkInv1 :: "json option \<Rightarrow> unit checked" where
  "checkInv1 v = bindS (get_field v ''codeInjection'') (\<lambda>raw.
     guardS (case raw of
         Some (JObject kvs) \<Rightarrow>
           (case map_of kvs ''kind'' of
              Some (JString kind) \<Rightarrow> kind \<in> {''blocked'', ''granted'', ''managed''}
            | _ \<Rightarrow> False)
       | _ \<Rightarrow> False)
       (InvariantViolationError INV_1) (Inr ()))"

definition gated :: "tenant_descriptor \<Rightarrow> bool" where
  "gated d = (case d_gate d of PassphraseGated _ \<Rightarrow> True | OpenGate \<Rightarrow> False)"

definition checkInv2 :: "tenant_descriptor \<Rightarrow> unit checked" where
  "checkInv2 d =
     guardS (\<not> (d_kind d = DemoKind \<and> \<not> gated d)) (InvariantViolationError INV_2)
    (guardS (\<not> (d_kind d \<noteq> DemoKind \<and> gated d)) (InvariantViolationError INV_2) (Inr ()))"

definition on_s3 :: "tenant_descriptor \<Rightarrow> bool" where
  "on_s3 d = (case me_store (d_media d) of S3Store _ _ _ \<Rightarrow> True | LocalStore _ \<Rightarrow> False)"

definition on_mysql :: "tenant_descriptor \<Rightarrow> bool" where
  "on_mysql d = (case d_database d of MySql _ _ _ _ \<Rightarrow> True | Sqlite _ \<Rightarrow> False)"

definition checkInv3 :: "tenant_descriptor \<Rightarrow> unit checked" where
  "checkInv3 d = guardS (\<not> (on_s3 d \<and> d_backup d = NoBackup)) (InvariantViolationError INV_3) (Inr ())"

definition is_theirs :: "tenant_descriptor \<Rightarrow> bool" where
  "is_theirs d = (case d_hostname d of TheirsHost _ _ \<Rightarrow> True | OursHost _ _ \<Rightarrow> False)"

definition checkCodeInjectionHostnamePrecondition :: "tenant_descriptor \<Rightarrow> unit checked" where
  "checkCodeInjectionHostnamePrecondition d =
     guardS (\<not> (d_codeInjection d \<noteq> InjectionBlocked \<and> \<not> is_theirs d)) CodeInjectionPreconditionError (Inr ())"

definition tenant_identity :: "tenant_descriptor \<Rightarrow> bool" where
  "tenant_identity d = (case ml_identity (d_mail d) of TenantIdentity _ _ \<Rightarrow> True | DemoIdentity _ \<Rightarrow> False)"

definition checkTierVariants :: "tenant_descriptor \<Rightarrow> unit checked" where
  "checkTierVariants d =
     (let tier = (\<lambda>ok k. guardS ok TierMismatchError k) in
      if d_kind d = TenantKind then
        tier (on_mysql d) (tier (on_s3 d) (tier (tenant_identity d) (Inr ())))
      else
        tier (\<not> on_mysql d)
       (tier (\<not> on_s3 d)
       (tier (d_backup d = NoBackup)
       (tier (d_codeInjection d = InjectionBlocked)
       (tier (\<not> is_theirs d)
       (tier (\<not> tenant_identity d)
       (tier (d_expiresAt d \<noteq> None)
       (tier (d_breakGlass d = BreakGlassDisabled) (Inr ()))))))))) "

definition checkHostnameGateConsistency :: "tenant_descriptor \<Rightarrow> unit checked" where
  "checkHostnameGateConsistency d = (case d_hostname d of
       OursHost sub is_gated \<Rightarrow> require (is_gated = gated d) ''hostname.gated''
     | TheirsHost _ _ \<Rightarrow> Inr ())"

section \<open>Validation\<close>

definition TENANT_KIND_VALUES :: "string list" where "TENANT_KIND_VALUES = [''demo'', ''tenant'']"
definition DATABASE_KIND_VALUES :: "string list" where "DATABASE_KIND_VALUES = [''sqlite'', ''mysql'']"
definition MEDIA_KIND_VALUES :: "string list" where "MEDIA_KIND_VALUES = [''local'', ''s3'']"
definition TRANSPORT_KIND_VALUES :: "string list" where "TRANSPORT_KIND_VALUES = [''queue'', ''smtp'']"
definition SENDING_IDENTITY_KIND_VALUES :: "string list" where "SENDING_IDENTITY_KIND_VALUES = [''demo'', ''tenant'']"
definition HOSTNAME_KIND_VALUES :: "string list" where "HOSTNAME_KIND_VALUES = [''ours'', ''theirs'']"
definition GATE_KIND_VALUES :: "string list" where "GATE_KIND_VALUES = [''none'', ''passphrase'']"
definition BACKUP_KIND_VALUES :: "string list" where "BACKUP_KIND_VALUES = [''none'', ''bucket-native'']"
definition BREAK_GLASS_KIND_VALUES :: "string list" where "BREAK_GLASS_KIND_VALUES = [''disabled'', ''enabled'']"

definition assertDiscriminants :: "json option \<Rightarrow> unit checked" where
  "assertDiscriminants v =
     (let kind_of = (\<lambda>key allowed. part v key (\<lambda>x. assertDiscriminant x key allowed)) in
      thenS (assertDiscriminant v ''kind'' TENANT_KIND_VALUES)
     (thenS (kind_of ''database'' DATABASE_KIND_VALUES)
     (thenS (kind_of ''media'' MEDIA_KIND_VALUES)
     (thenS (kind_of ''transport'' TRANSPORT_KIND_VALUES)
     (thenS (part v ''mail'' (\<lambda>x. assertObject x ''mail''))
     (thenS (part v ''mail'' (\<lambda>m. part m ''identity'' (\<lambda>x. assertDiscriminant x ''mail.identity'' SENDING_IDENTITY_KIND_VALUES)))
     (thenS (kind_of ''hostname'' HOSTNAME_KIND_VALUES)
     (thenS (kind_of ''gate'' GATE_KIND_VALUES)
     (thenS (kind_of ''backup'' BACKUP_KIND_VALUES)
     (kind_of ''breakGlass'' BREAK_GLASS_KIND_VALUES))))))))))"

definition claimant_of :: "tenant_kind \<Rightarrow> string option \<Rightarrow> slug_claimant" where
  "claimant_of kind claimantRepo = (if kind = DemoKind then DemoClaimant else TenantClaimant claimantRepo)"

definition validate_ownerEmail :: "string option \<Rightarrow> unit checked" where
  "validate_ownerEmail email = (case email of
       None \<Rightarrow> Inr ()
     | Some s \<Rightarrow> thenS (validateEmailAddress s ''ownerEmail'') (Inr ()))"

definition validate_expiresAt :: "string option \<Rightarrow> unit checked" where
  "validate_expiresAt t = (case t of None \<Rightarrow> Inr () | Some s \<Rightarrow> thenS (validateInstant s ''expiresAt'') (Inr ()))"

text \<open>Everything after \<open>assertShape\<close>.\<close>

definition checkFields ::
  "(string \<Rightarrow> string option) \<Rightarrow> (string \<Rightarrow> json option) \<Rightarrow> zone_config \<Rightarrow> string option \<Rightarrow> tenant_descriptor \<Rightarrow> unit checked" where
  "checkFields url_protocol json_parse zones claimantRepo d =
     thenS (checkRanges d)
    (thenS (checkVersion d)
    (thenS (validateSlug (d_slug d))
    (thenS (validateSlugAvailability (d_slug d) (Some (claimant_of (d_kind d) claimantRepo)))
    (thenS (validateAbsoluteUrl url_protocol (d_siteUrl d))
    (thenS (validateDigestPinnedRef (d_image d))
    (thenS (validate_ownerEmail (d_ownerEmail d))
    (thenS (validateTenantUid (d_uid d))
    (thenS (validatePortTriple (d_ports d))
    (thenS (validatePrivateIpV4 (d_appHostIp d))
    (thenS (validateDatabase (d_slug d) (d_database d))
    (thenS (validateMedia (d_slug d) (me_store (d_media d)))
    (thenS (validateBackup (d_backup d))
    (thenS (validateTransport (d_transport d))
    (thenS (validateMailIdentity (d_mail d) zones)
    (thenS (validateHostname (d_hostname d) zones)
    (thenS (validateGate (d_gate d))
    (thenS (validateCodeInjection (d_codeInjection d))
    (thenS (validateBreakGlass json_parse (d_breakGlass d))
    (thenS (validate_expiresAt (d_expiresAt d))
    (thenS (checkSafety d)
    (thenS (checkSiteUrlMatchesHostname d zones)
    (thenS (checkInv2 d)
    (thenS (checkInv3 d)
    (thenS (checkCodeInjectionHostnamePrecondition d)
    (thenS (checkTierVariants d)
    (thenS (checkHostnameGateConsistency d)
    (thenS (checkBreakGlassIdentity d)
    (checkBreakGlassImageOrdering d zones))))))))))))))))))))))))))))"

definition validateFields ::
  "(string \<Rightarrow> string option) \<Rightarrow> (string \<Rightarrow> json option) \<Rightarrow> json option \<Rightarrow> json option \<Rightarrow> owner_placement \<Rightarrow> string option
    \<Rightarrow> tenant_descriptor checked" where
  "validateFields url_protocol json_parse v zones_value owner claimantRepo =
     bindS (validateZoneConfig zones_value) (\<lambda>zones.
     thenS (assertDiscriminants v)
    (thenS (checkInv1 v)
    (bindS (assertShape v owner) (\<lambda>d.
     thenS (checkFields url_protocol json_parse zones claimantRepo d) (Inr d)))))"

definition validate ::
  "(string \<Rightarrow> string option) \<Rightarrow> (string \<Rightarrow> json option) \<Rightarrow> json option \<Rightarrow> json option \<Rightarrow> string option \<Rightarrow> tenant_descriptor checked" where
  "validate url_protocol json_parse v zones_value claimantRepo =
     validateFields url_protocol json_parse v zones_value Inline claimantRepo"

definition validateTenantStack ::
  "(string \<Rightarrow> string option) \<Rightarrow> (string \<Rightarrow> json option) \<Rightarrow> json option \<Rightarrow> json option \<Rightarrow> string option \<Rightarrow> tenant_descriptor checked" where
  "validateTenantStack url_protocol json_parse v zones_value claimantRepo =
     guardS (\<not> (case v of Some (JObject kvs) \<Rightarrow> map_of kvs ''ownerEmail'' \<noteq> None | _ \<Rightarrow> False)) (FieldError ''ownerEmail'')
    (bindS (get_field v ''kind'') (\<lambda>kind.
     guardS (kind = Some (JString ''tenant'')) (FieldError ''kind'')
    (validateFields url_protocol json_parse v zones_value Secret claimantRepo)))"

definition validateOwnerEmailSecret :: "string \<Rightarrow> string checked" where
  "validateOwnerEmailSecret s = (case validateEmailAddress s ''ownerEmail'' of
       Inl e \<Rightarrow> Inl (FieldError ''ownerEmail'')
     | Inr email \<Rightarrow> Inr email)"

end
