(* ===== verification/Render_Typed.thy ===== *)
theory Render_Typed
  imports Render_Validate
begin

text \<open>
  Validation never fails with an error that names no field: the discriminants are asserted before
  anything is read through them, so no property of \<open>null\<close> or \<open>undefined\<close> is ever read.
\<close>

definition no_type_error :: "'a checked \<Rightarrow> bool" where
  "no_type_error m \<longleftrightarrow> m \<noteq> Inl RawTypeError"

named_theorems typed

lemma typed_Inr [typed, simp]: "no_type_error (Inr x)"
  by (simp add: no_type_error_def)

lemma typed_Inl [typed, simp]: "e \<noteq> RawTypeError \<Longrightarrow> no_type_error (Inl e)"
  by (simp add: no_type_error_def)

lemma typed_guardS [typed]: "e \<noteq> RawTypeError \<Longrightarrow> (b \<Longrightarrow> no_type_error m) \<Longrightarrow> no_type_error (guardS b e m)"
  by (simp add: guardS_def no_type_error_def)

lemma typed_bindS [typed]:
  "no_type_error m \<Longrightarrow> (\<And>x. m = Inr x \<Longrightarrow> no_type_error (f x)) \<Longrightarrow> no_type_error (bindS m f)"
  by (cases m) (simp_all add: no_type_error_def)

lemma typed_thenS [typed]:
  "no_type_error m \<Longrightarrow> (\<And>x. m = Inr x \<Longrightarrow> no_type_error k) \<Longrightarrow> no_type_error (thenS m k)"
  by (cases m) (simp_all add: no_type_error_def)

lemma typed_require [typed, simp]: "no_type_error (require b field)"
  by (simp add: require_def guardS_def no_type_error_def)

lemma typed_if [typed]: "(b \<Longrightarrow> no_type_error m) \<Longrightarrow> (\<not> b \<Longrightarrow> no_type_error n) \<Longrightarrow> no_type_error (if b then m else n)"
  by simp

lemma typed_asserts [typed, simp]:
  "no_type_error (assertString v f)" "no_type_error (assertNumber v f)" "no_type_error (assertBoolean v f)"
  "no_type_error (assertObject v f)" "no_type_error (assertNullableNumber v f)" "no_type_error (assertNullableString v f)"
  "no_type_error (assertDiscriminant v f ks)"
  by (auto simp: assertString_def assertNumber_def assertBoolean_def assertObject_def assertNullableNumber_def
      assertNullableString_def assertDiscriminant_def no_type_error_def guardS_def bindS_def require_def
      split: option.split json.split)

lemma typed_get_field: "is_object v \<Longrightarrow> no_type_error (get_field v k)"
  by (auto simp: is_object_def get_field_def no_type_error_def split: option.splits json.splits)

lemma typed_fields:
  "is_object v \<Longrightarrow> no_type_error (string_at v k path)" "is_object v \<Longrightarrow> no_type_error (number_of v k path)"
  "is_object v \<Longrightarrow> no_type_error (boolean_at v k path)" "is_object v \<Longrightarrow> no_type_error (has_kind v kind)"
  unfolding string_at_def number_of_def boolean_at_def has_kind_def
  by (rule typed_bindS; simp add: typed_get_field)+

lemma typed_keys: "is_object v \<Longrightarrow> no_type_error (assertNoUnknownKeys v ks f)"
  by (auto simp: assertNoUnknownKeys_def Object_keys_def is_object_def split: option.splits json.splits)

lemma assertObject_Inr: "assertObject v f = Inr u \<longleftrightarrow> is_object v"
  by (simp add: assertObject_def)

lemma assertDiscriminant_object: "assertDiscriminant v f ks = Inr u \<Longrightarrow> is_object v"
  by (auto simp: assertDiscriminant_def is_object_def split: option.splits json.splits)

lemma typed_part: "is_object v \<Longrightarrow> (\<And>x. get_field v k = Inr x \<Longrightarrow> no_type_error (shape x)) \<Longrightarrow> no_type_error (part v k shape)"
  unfolding part_def by (rule typed_bindS) (simp_all add: typed_get_field)

section \<open>The shape\<close>

lemmas shape_typed = typed_bindS typed_thenS typed_if typed_Inr typed_asserts typed_fields typed_keys typed_get_field

lemma typed_shapes_asserting:
  "no_type_error (shape_ports v)" "no_type_error (shape_limits v)" "no_type_error (shape_caps v)"
  "no_type_error (shape_safety v)"
  unfolding shape_ports_def shape_limits_def shape_caps_def shape_safety_def
  by (intro shape_typed; (simp add: assertObject_Inr)?)+

lemma typed_shapes_of_object:
  assumes "is_object v"
  shows "no_type_error (shape_database v)" "no_type_error (shape_media v)" "no_type_error (shape_transport v)"
    "no_type_error (shape_hostname v)" "no_type_error (shape_gate v)" "no_type_error (shape_backup v)"
    "no_type_error (shape_codeInjection v)" "no_type_error (shape_breakGlass v)" "no_type_error (shape_kind v)"
  using assms
  unfolding shape_database_def shape_media_def shape_transport_def shape_hostname_def shape_gate_def shape_backup_def
    shape_codeInjection_def shape_breakGlass_def shape_kind_def
  by (intro shape_typed; simp)+

lemma typed_shape_mail: "no_type_error (shape_mail v)"
  unfolding shape_mail_def shape_identity_def
  by (intro shape_typed; (simp add: assertObject_Inr)?)+

lemma typed_shape_ownerEmail: "is_object v \<Longrightarrow> no_type_error (shape_ownerEmail owner v)"
  unfolding shape_ownerEmail_def by (cases owner; simp; intro shape_typed; simp)

text \<open>What the discriminants and the first invariant establish.\<close>

definition object_parts :: "string list" where
  "object_parts = [''database'', ''media'', ''transport'', ''hostname'', ''gate'', ''backup'', ''breakGlass'', ''codeInjection'']"

definition parts_are_objects :: "json option \<Rightarrow> bool" where
  "parts_are_objects v \<longleftrightarrow> is_object v \<and> list_all (\<lambda>k. \<forall>x. get_field v k = Inr x \<longrightarrow> is_object x) object_parts"

lemma part_Inr: "part v k shape = Inr y \<longleftrightarrow> (\<exists>x. get_field v k = Inr x \<and> shape x = Inr y)"
  by (simp add: part_def bindS_Inr)

lemma checkInv1_object: "checkInv1 v = Inr u \<Longrightarrow> get_field v ''codeInjection'' = Inr x \<Longrightarrow> is_object x"
  by (auto simp: checkInv1_def guardS_Inr is_object_def split: option.splits json.splits)

lemma discriminants_objects:
  assumes "assertDiscriminants v = Inr u" "checkInv1 v = Inr w"
  shows "parts_are_objects v"
  using assms checkInv1_object [OF assms(2)]
  by (auto simp: assertDiscriminants_def Let_def thenS_Inr part_Inr parts_are_objects_def object_parts_def
      dest: assertDiscriminant_object)

lemma typed_discriminants: "no_type_error (assertDiscriminants v)"
  unfolding assertDiscriminants_def Let_def
  by (intro typed_thenS typed_asserts typed_part)
    (auto simp: assertObject_Inr part_Inr dest: assertDiscriminant_object)

lemma typed_checkInv1: "is_object v \<Longrightarrow> no_type_error (checkInv1 v)"
  unfolding checkInv1_def by (intro typed_bindS typed_guardS typed_get_field) simp_all

lemma typed_assertShape:
  assumes "parts_are_objects v"
  shows "no_type_error (assertShape v owner)"
proof -
  have v: "is_object v" and p: "\<And>k x. k \<in> set object_parts \<Longrightarrow> get_field v k = Inr x \<Longrightarrow> is_object x"
    using assms by (auto simp: parts_are_objects_def list_all_iff)
  have read: "\<And>k x. k \<in> set object_parts \<Longrightarrow> get_field v k = Inr x \<Longrightarrow> is_object x" by (rule p)
  have parts: "no_type_error (part v ''database'' shape_database)" "no_type_error (part v ''media'' shape_media)"
    "no_type_error (part v ''transport'' shape_transport)" "no_type_error (part v ''hostname'' shape_hostname)"
    "no_type_error (part v ''gate'' shape_gate)" "no_type_error (part v ''backup'' shape_backup)"
    "no_type_error (part v ''codeInjection'' shape_codeInjection)" "no_type_error (part v ''breakGlass'' shape_breakGlass)"
    by (intro typed_part [OF v] typed_shapes_of_object; erule read [rotated]; simp add: object_parts_def)+
  have others: "no_type_error (part v ''ports'' shape_ports)" "no_type_error (part v ''limits'' shape_limits)"
    "no_type_error (part v ''caps'' shape_caps)" "no_type_error (part v ''safety'' shape_safety)"
    "no_type_error (part v ''mail'' shape_mail)" "no_type_error (part v ''expiresAt'' (\<lambda>x. assertNullableString x ''expiresAt''))"
    by (intro typed_part [OF v] typed_shapes_asserting typed_shape_mail typed_asserts)+
  show ?thesis
    unfolding assertShape_def
    by (intro typed_thenS typed_bindS typed_keys [OF v] typed_fields [OF v] typed_shape_ownerEmail [OF v] typed_Inr
        typed_shapes_of_object(9) [OF v] parts others)
qed


section \<open>The rest\<close>

lemma typed_validators [typed]:
  "no_type_error (validateSlug s)" "no_type_error (validateSlugAvailability s c)" "no_type_error (validateAbsoluteUrl u s)"
  "no_type_error (validateDigestPinnedRef s)" "no_type_error (validateTenantUid n)" "no_type_error (validatePort n f)"
  "no_type_error (validatePrivateIpV4 s)" "no_type_error (validateInstant s f)" "no_type_error (validateEmailAddress s f)"
  "no_type_error (mediaPublicBaseUrl e slug)" "no_type_error (validateMediaBucket slug b)"
  "no_type_error (validateDatabaseIdentity slug dbname us)"
  unfolding validateSlug_def validateSlugAvailability_def validateAbsoluteUrl_def validateDigestPinnedRef_def
    validateTenantUid_def validatePort_def validatePrivateIpV4_def validateInstant_def validateEmailAddress_def
    mediaPublicBaseUrl_def validateMediaBucket_def validateDatabaseIdentity_def
  by (auto simp: Let_def intro!: typed_guardS typed_thenS split: option.split registered_name.split list.split)

lemma typed_checks [typed]:
  "no_type_error (validate_ownerEmail email)" "no_type_error (validate_expiresAt t)"
  "no_type_error (validatePortTriple ports)" "no_type_error (validateDatabase slug db)" "no_type_error (validateMedia slug m)"
  "no_type_error (validateBackup b)" "no_type_error (validateTransport tr)" "no_type_error (validateHostname h zones)"
  "no_type_error (validateGate g)" "no_type_error (validateCodeInjection c)" "no_type_error (validateBreakGlass jp bg)"
  by (auto simp: validate_ownerEmail_def validate_expiresAt_def validatePortTriple_def validateDatabase_def validateMedia_def
      validateBackup_def validateTransport_def validateHostname_def validateGate_def validateCodeInjection_def
      validateBreakGlass_def assertNonEmptyPath_def assertNonEmptyString_def assertValidHost_def assertNotJsonScalar_def
      intro!: typed_thenS typed_validators typed_require
      split: option.split database_spec.split media_store.split backup_spec.split transport_spec.split
        hostname_spec.split gate_choice.split code_injection.split break_glass.split)

lemma typed_invariants [typed]:
  "no_type_error (checkRanges d)" "no_type_error (checkVersion d)" "no_type_error (checkSafety d)"
  "no_type_error (checkSiteUrlMatchesHostname d zones)" "no_type_error (checkInv2 d)" "no_type_error (checkInv3 d)"
  "no_type_error (checkCodeInjectionHostnamePrecondition d)" "no_type_error (checkTierVariants d)"
  "no_type_error (checkHostnameGateConsistency d)" "no_type_error (checkBreakGlassIdentity d)"
  "no_type_error (checkBreakGlassImageOrdering d zones)"
  by (auto simp: checkRanges_def checkVersion_def checkSafety_def checkSiteUrlMatchesHostname_def checkInv2_def checkInv3_def
      checkCodeInjectionHostnamePrecondition_def checkTierVariants_def checkHostnameGateConsistency_def
      checkBreakGlassIdentity_def checkBreakGlassImageOrdering_def validateCpus_def Let_def
      assertNonNegativeIntegerOrNull_def assertFinitePositiveInteger_def assertNonNegativeInteger_def
      intro!: typed_thenS typed_guardS split: hostname_spec.split break_glass.split)

definition mail_domain_given :: "json option \<Rightarrow> bool" where
  "mail_domain_given zones_value \<longleftrightarrow> (case get_field zones_value ''demoMailDomain'' of
       Inr (Some (JString _)) \<Rightarrow> True
     | _ \<Rightarrow> False)"

lemma typed_mailIdentity:
  assumes "zc_demoMailDomain zones = Some (JString m)"
  shows "no_type_error (validateMailIdentity mail zones)"
  unfolding validateMailIdentity_def
  by (rule typed_thenS) (auto simp: assms checkNotDemoMailDomain_def assertNonEmptyString_def
      intro!: typed_thenS split: sending_identity.split)

lemma typed_strings_where: "no_type_error (strings_where ok f vs)"
  by (induction ok f vs rule: strings_where.induct) (auto intro!: typed_guardS typed_bindS split: json.split)

lemma typed_zones: "no_type_error (validateZoneConfig zones_value)"
proof (cases "is_typeof_object zones_value")
  case True
  then have g: "no_type_error (get_field zones_value k)" for k
    by (auto simp: is_typeof_object_def get_field_def split: option.splits json.splits)
  show ?thesis
    unfolding validateZoneConfig_def zone_field_def zone_ownedDomains_def zone_images_def
    by (intro typed_thenS typed_bindS typed_guardS typed_require typed_asserts typed_Inr g)
      (auto intro!: typed_guardS typed_strings_where split: option.split json.split)
qed (simp add: validateZoneConfig_def require_def guardS_def)

lemma zones_mail_domain:
  "validateZoneConfig zones_value = Inr zones \<Longrightarrow> get_field zones_value ''demoMailDomain'' = Inr (zc_demoMailDomain zones)"
  by (auto simp: validateZoneConfig_def thenS_Inr bindS_Inr)

lemma typed_checkFields:
  assumes "zc_demoMailDomain zones = Some (JString m)"
  shows "no_type_error (checkFields u jp zones repo d)"
  unfolding checkFields_def by (intro typed_thenS typed typed_mailIdentity [OF assms])

lemma typed_validateFields:
  assumes "mail_domain_given zones_value"
  shows "no_type_error (validateFields u jp v zones_value owner repo)"
  unfolding validateFields_def
proof (intro typed_bindS typed_thenS typed_zones typed_discriminants typed_Inr)
  fix zones x y d
  assume z: "validateZoneConfig zones_value = Inr zones" and a: "assertDiscriminants v = Inr x"
  show "no_type_error (checkInv1 v)"
    using a by (intro typed_checkInv1) (auto simp: assertDiscriminants_def Let_def thenS_Inr dest: assertDiscriminant_object)
  assume i: "checkInv1 v = Inr y"
  show "no_type_error (assertShape v owner)"
    by (rule typed_assertShape [OF discriminants_objects [OF a i]])
  show "no_type_error (checkFields u jp zones repo d)"
    using assms zones_mail_domain [OF z]
    by (auto simp: mail_domain_given_def split: option.splits json.splits intro!: typed_checkFields)
qed

end
