(* ===== verification/Render_Address.thy ===== *)
theory Render_Address
  imports Render_Fields
begin

text \<open>
  Private addresses: \<open>validatePrivateIpV4\<close> of \<open>src/render-core/src/brand.ts\<close> compares the address as an
  integer; the addresses it accepts are the dotted quads of the three private networks, each in the one
  spelling without leading zeros.
\<close>

lemma octet_value_Some: "octet_value s = Some n \<longleftrightarrow> n \<le> 255 \<and> s = show_nat n"
proof
  assume o: "octet_value s = Some n"
  then have f: "1 \<le> length s" "all_in digits s" "number_of_digits s = n" "n \<le> 255" "length s > 1 \<Longrightarrow> hd s \<noteq> CHR ''0''"
    by (auto simp: octet_value_def split: if_splits)
  show "n \<le> 255 \<and> s = show_nat n"
  proof (cases "hd s = CHR ''0''")
    case True
    with f(1,5) have "s = ''0''" by (cases s; cases "tl s") auto
    with f(3,4) show ?thesis
      by (simp add: number_of_digits_def digit_val_def digits_def show_nat.simps [of 0] digit_char_def)
  next
    case False
    with f show ?thesis using show_number_of [of s] by fastforce
  qed
next
  assume n: "n \<le> 255 \<and> s = show_nat n"
  then have "length s \<le> 3" using length_show_nat [of 3 n] by simp
  moreover have "\<not> (length s > 1 \<and> hd s = CHR ''0'')"
    using n hd_show_nat [of n] by (cases "n = 0") (auto simp: show_nat.simps [of 0])
  ultimately show "octet_value s = Some n"
    using n by (auto simp: octet_value_def Suc_le_eq)
qed

definition dotted :: "nat \<Rightarrow> nat \<Rightarrow> nat \<Rightarrow> nat \<Rightarrow> string" where
  "dotted a b c d = join_with CHR ''.'' [show_nat a, show_nat b, show_nat c, show_nat d]"

lemma four_octets:
  assumes "length octets = 4"
  shows "octets_to_int octets 0 = Some n \<longleftrightarrow>
     (\<exists>a b c d. octets = [show_nat a, show_nat b, show_nat c, show_nat d] \<and> a \<le> 255 \<and> b \<le> 255 \<and> c \<le> 255 \<and> d \<le> 255 \<and>
        n = ((a * 256 + b) * 256 + c) * 256 + d)"
proof -
  obtain w x y z where "octets = [w, x, y, z]"
    using assms by (auto simp: numeral_eq_Suc length_Suc_conv)
  then show ?thesis
    by (auto simp: octet_value_Some split: option.splits)
      (metis octet_value_Some option.distinct(1) option.inject)+
qed

lemma split_dotted: "split_on CHR ''.'' s = [show_nat a, show_nat b, show_nat c, show_nat d] \<longleftrightarrow> s = dotted a b c d"
proof
  assume "split_on CHR ''.'' s = [show_nat a, show_nat b, show_nat c, show_nat d]"
  then show "s = dotted a b c d" unfolding dotted_def by (metis join_split)
next
  have "CHR ''.'' \<notin> set (show_nat n)" for n
    by (rule all_in_notin [OF all_in_show_nat]) (simp add: digits_def)
  then show "s = dotted a b c d \<Longrightarrow> split_on CHR ''.'' s = [show_nat a, show_nat b, show_nat c, show_nat d]"
    by (simp add: dotted_def split_on_append split_on_plain)
qed

lemma ipv4ToInt_Some:
  "ipv4ToInt s = Some n \<longleftrightarrow>
     (\<exists>a b c d. s = dotted a b c d \<and> a \<le> 255 \<and> b \<le> 255 \<and> c \<le> 255 \<and> d \<le> 255 \<and> n = ((a * 256 + b) * 256 + c) * 256 + d)"
proof (cases "length (split_on CHR ''.'' s) = 4")
  case True
  then show ?thesis by (simp add: ipv4ToInt_def Let_def four_octets split_dotted)
next
  case False
  moreover have "s \<noteq> dotted a b c d" for a b c d
    using False split_dotted [of s a b c d] by auto
  ultimately show ?thesis by (simp add: ipv4ToInt_def Let_def)
qed

text \<open>10.0.0.0/8, 172.16.0.0/12 and 192.168.0.0/16.\<close>

definition private_net :: "nat \<Rightarrow> nat \<Rightarrow> bool" where
  "private_net a b \<longleftrightarrow> a = 10 \<or> (a = 172 \<and> 16 \<le> b \<and> b \<le> 31) \<or> (a = 192 \<and> b = 168)"

lemma private_range:
  assumes "b \<le> 255" "c \<le> 255" "d \<le> (255 :: nat)"
  shows "(\<exists>(low, high) \<in> set PRIVATE_IPV4_RANGES. low \<le> ((a * 256 + b) * 256 + c) * 256 + d \<and> ((a * 256 + b) * 256 + c) * 256 + d \<le> high)
     \<longleftrightarrow> private_net a b"
proof -
  define rest where "rest = c * 256 + d"
  have r: "rest < 65536" using assms by (simp add: rest_def)
  have n: "((a * 256 + b) * 256 + c) * 256 + d = a * 16777216 + b * 65536 + rest" by (simp add: rest_def)
  have "10 * 16777216 \<le> a * 16777216 + b * 65536 + rest \<and> a * 16777216 + b * 65536 + rest \<le> 10 * 16777216 + 16777215 \<longleftrightarrow> a = 10"
    using r assms(1) by auto
  moreover have "2886729728 \<le> a * 16777216 + b * 65536 + rest \<and> a * 16777216 + b * 65536 + rest \<le> 2887778303 \<longleftrightarrow>
      a = 172 \<and> 16 \<le> b \<and> b \<le> 31"
  proof
    assume l: "2886729728 \<le> a * 16777216 + b * 65536 + rest \<and> a * 16777216 + b * 65536 + rest \<le> 2887778303"
    then have a: "a = 172" using r assms(1) by auto
    show "a = 172 \<and> 16 \<le> b \<and> b \<le> 31" using l r unfolding a by auto
  qed (use r in auto)
  moreover have "3232235520 \<le> a * 16777216 + b * 65536 + rest \<and> a * 16777216 + b * 65536 + rest \<le> 3232301055 \<longleftrightarrow>
      a = 192 \<and> b = 168"
  proof
    assume l: "3232235520 \<le> a * 16777216 + b * 65536 + rest \<and> a * 16777216 + b * 65536 + rest \<le> 3232301055"
    then have a: "a = 192" using r assms(1) by auto
    show "a = 192 \<and> b = 168" using l r unfolding a by auto
  qed (use r in auto)
  ultimately show ?thesis unfolding n by (simp add: PRIVATE_IPV4_RANGES_def private_net_def)
qed

lemma validatePrivateIpV4_Inr:
  "validatePrivateIpV4 s = Inr s' \<longleftrightarrow> s' = s \<and>
     (\<exists>a b c d. s = dotted a b c d \<and> private_net a b \<and> a \<le> 255 \<and> b \<le> 255 \<and> c \<le> 255 \<and> d \<le> 255)"
proof (cases "ipv4ToInt s")
  case None
  have no: "\<not> (s = dotted a b c d \<and> private_net a b \<and> a \<le> 255 \<and> b \<le> 255 \<and> c \<le> 255 \<and> d \<le> 255)" for a b c d
  proof
    assume "s = dotted a b c d \<and> private_net a b \<and> a \<le> 255 \<and> b \<le> 255 \<and> c \<le> 255 \<and> d \<le> 255"
    then have "ipv4ToInt s = Some (((a * 256 + b) * 256 + c) * 256 + d)" unfolding ipv4ToInt_Some by blast
    with None show False by simp
  qed
  show ?thesis unfolding validatePrivateIpV4_def None option.case using no by blast
next
  case (Some n)
  then obtain a b c d where q: "s = dotted a b c d" "a \<le> 255" "b \<le> 255" "c \<le> 255" "d \<le> 255" "n = ((a * 256 + b) * 256 + c) * 256 + d"
    unfolding ipv4ToInt_Some by blast
  have inj: "a = a' \<and> b = b'" if "s = dotted a' b' c' d'" for a' b' c' d'
  proof -
    have "[show_nat a, show_nat b, show_nat c, show_nat d] = [show_nat a', show_nat b', show_nat c', show_nat d']"
      using split_dotted [of s a b c d] split_dotted [of s a' b' c' d'] that q(1) by simp
    then show ?thesis by (simp add: show_nat_inj)
  qed
  have "validatePrivateIpV4 s = Inr s' \<longleftrightarrow> private_net a b \<and> s' = s"
    by (simp only: validatePrivateIpV4_def Some option.case guardS_Inr q(6) private_range [OF q(3-5)]) auto
  moreover have "(\<exists>a' b' c' d'. s = dotted a' b' c' d' \<and> private_net a' b' \<and> a' \<le> 255 \<and> b' \<le> 255 \<and> c' \<le> 255 \<and> d' \<le> 255)
      \<longleftrightarrow> private_net a b"
    using inj q(1-5) by blast
  ultimately show ?thesis by blast
qed

end
