(* ===== verification/Render_Sound.thy ===== *)
theory Render_Sound
  imports Render_Typed Render_Address
begin

text \<open>What a descriptor that validates is known to be.\<close>

section \<open>Inversion\<close>

lemma unit_ex [simp]: "(\<exists>u :: unit. P u) \<longleftrightarrow> P ()"
  by auto

lemma validateFields_Inr:
  "validateFields u jp v zones_value owner repo = Inr d \<longleftrightarrow>
     (\<exists>zones. validateZoneConfig zones_value = Inr zones \<and> assertDiscriminants v = Inr () \<and> checkInv1 v = Inr () \<and>
        assertShape v owner = Inr d \<and> checkFields u jp zones repo d = Inr ())"
  by (auto simp: validateFields_def bindS_Inr thenS_Inr)

text \<open>The checks of \<open>checkFields\<close>, each by what it makes of the descriptor.\<close>

lemma checkFields_facts:
  assumes "checkFields u jp zones repo d = Inr ()"
  shows "checkRanges d = Inr ()" "\<exists>s. validateSlug (d_slug d) = Inr s"
    "validateSlugAvailability (d_slug d) (Some (claimant_of (d_kind d) repo)) = Inr ()"
    "\<exists>s. validateDigestPinnedRef (d_image d) = Inr s" "\<exists>n. validateTenantUid (d_uid d) = Inr n"
    "validatePortTriple (d_ports d) = Inr ()" "\<exists>s. validatePrivateIpV4 (d_appHostIp d) = Inr s"
    "validateDatabase (d_slug d) (d_database d) = Inr ()" "validateMedia (d_slug d) (me_store (d_media d)) = Inr ()"
    "validateBackup (d_backup d) = Inr ()" "validateTransport (d_transport d) = Inr ()"
    "validateMailIdentity (d_mail d) zones = Inr ()" "validateHostname (d_hostname d) zones = Inr ()"
    "validateGate (d_gate d) = Inr ()" "checkSiteUrlMatchesHostname d zones = Inr ()" "checkInv2 d = Inr ()"
    "checkInv3 d = Inr ()" "checkCodeInjectionHostnamePrecondition d = Inr ()" "checkTierVariants d = Inr ()"
    "checkHostnameGateConsistency d = Inr ()" "checkBreakGlassIdentity d = Inr ()"
    "checkBreakGlassImageOrdering d zones = Inr ()" "d_version d = Whole 1"
  using assms by (simp_all add: checkFields_def thenS_Inr checkVersion_def guardS_Inr KNOWN_SCHEMA_VERSIONS_def)

section \<open>Tiers\<close>

text \<open>The shape that goes with each kind.\<close>

definition demo_shape :: "tenant_descriptor \<Rightarrow> bool" where
  "demo_shape d \<longleftrightarrow>
     (\<exists>hash db media sub localPart t.
        d_gate d = PassphraseGated hash \<and> trim hash \<noteq> [] \<and> d_database d = Sqlite db \<and> me_store (d_media d) = LocalStore media \<and>
        d_backup d = NoBackup \<and> d_codeInjection d = InjectionBlocked \<and> d_hostname d = OursHost sub True \<and>
        ml_identity (d_mail d) = DemoIdentity localPart \<and> d_expiresAt d = Some t \<and> d_breakGlass d = BreakGlassDisabled)"

definition tenant_shape :: "tenant_descriptor \<Rightarrow> zone_config \<Rightarrow> bool" where
  "tenant_shape d zones \<longleftrightarrow>
     (\<exists>host port endpoint region recipient domain selector.
        d_gate d = OpenGate \<and>
        d_database d = MySql host port (databaseAndUserName (d_slug d)) (databaseAndUserName (d_slug d)) \<and>
        me_store (d_media d) = S3Store endpoint region (mediaBucketName (d_slug d)) \<and>
        d_backup d = BucketNative recipient \<and> trim recipient \<noteq> [] \<and>
        ml_identity (d_mail d) = TenantIdentity domain selector \<and> isOutsideOwnedDomains domain (zc_ownedDomains zones))"

text \<open>Injected code only on a domain of the customer's own.\<close>

definition injection_contained :: "tenant_descriptor \<Rightarrow> zone_config \<Rightarrow> bool" where
  "injection_contained d zones \<longleftrightarrow> d_codeInjection d = InjectionBlocked \<or>
     (\<exists>fqdn t. d_hostname d = TheirsHost fqdn t \<and> isOutsideOwnedDomains fqdn (zc_ownedDomains zones))"

definition break_glass_own :: "tenant_descriptor \<Rightarrow> zone_config \<Rightarrow> bool" where
  "break_glass_own d zones \<longleftrightarrow> d_breakGlass d = BreakGlassDisabled \<or>
     (\<exists>key who. d_breakGlass d = BreakGlassEnabled key (d_slug d) who \<and> d_image d \<in> set (zc_imagesWithBreakGlassAdapter zones))"

lemma checkFields_tier:
  assumes "checkFields u jp zones repo d = Inr ()"
  shows "(case d_kind d of DemoKind \<Rightarrow> demo_shape d | TenantKind \<Rightarrow> tenant_shape d zones)"
proof (cases "d_kind d")
  case DemoKind
  with checkFields_facts [OF assms] show ?thesis
    by (auto simp: checkTierVariants_def guardS_Inr Let_def checkInv2_def checkHostnameGateConsistency_def demo_shape_def
        gated_def on_mysql_def on_s3_def is_theirs_def tenant_identity_def validateGate_def
        split: gate_choice.splits database_spec.splits media_store.splits hostname_spec.splits sending_identity.splits)
next
  case TenantKind
  with checkFields_facts [OF assms] show ?thesis
    by (cases "d_gate d"; cases "d_backup d")
      (auto simp: checkTierVariants_def guardS_Inr Let_def checkInv2_def checkInv3_def tenant_shape_def
        gated_def on_mysql_def on_s3_def tenant_identity_def validateBackup_def validateDatabase_def validateMedia_def
        validateDatabaseIdentity_def validateMediaBucket_def validateMailIdentity_def thenS_Inr
        split: database_spec.splits media_store.splits sending_identity.splits)
qed

lemma checkFields_contained:
  assumes "checkFields u jp zones repo d = Inr ()"
  shows "injection_contained d zones" "break_glass_own d zones"
proof -
  note f = checkFields_facts [OF assms]
  show "injection_contained d zones"
    using f(13,18)
    by (auto simp: injection_contained_def checkCodeInjectionHostnamePrecondition_def guardS_Inr is_theirs_def
        validateHostname_def thenS_Inr split: hostname_spec.splits)
  show "break_glass_own d zones"
    using f(21,22) by (auto simp: break_glass_own_def checkBreakGlassIdentity_def checkBreakGlassImageOrdering_def split: break_glass.splits)
qed

section \<open>Bounds\<close>

definition whole_between :: "int \<Rightarrow> int \<Rightarrow> js_number \<Rightarrow> bool" where
  "whole_between lo hi n \<longleftrightarrow> (\<exists>i. n = Whole i \<and> lo \<le> i \<and> i \<le> hi)"

definition host_bounds :: "tenant_descriptor \<Rightarrow> bool" where
  "host_bounds d \<longleftrightarrow>
     whole_between 30000 30999 (d_uid d) \<and>
     whole_between 1024 65535 (pt_a (d_ports d)) \<and> whole_between 1024 65535 (pt_b (d_ports d)) \<and>
     whole_between 1024 65535 (pt_health (d_ports d)) \<and>
     distinct [pt_a (d_ports d), pt_b (d_ports d), pt_health (d_ports d)] \<and>
     (\<exists>a b c e. d_appHostIp d = dotted a b c e \<and> private_net a b \<and> a \<le> 255 \<and> b \<le> 255 \<and> c \<le> 255 \<and> e \<le> 255)"

definition resource_bounds :: "tenant_descriptor \<Rightarrow> bool" where
  "resource_bounds d \<longleftrightarrow>
     whole_between 1 262144 (rc_cpuShares (d_caps d)) \<and> whole_between 1 100000 (rc_pidsLimit (d_caps d)) \<and>
     whole_between 1 1048576 (rc_nofile (d_caps d)) \<and> \<not> exceeds_cpus (rc_cpus (d_caps d)) \<and>
     (li_membersCap (d_limits d) = None \<or> (\<exists>n. li_membersCap (d_limits d) = Some n \<and> whole_between 0 10000000 n)) \<and>
     (li_staffCap (d_limits d) = None \<or> (\<exists>n. li_staffCap (d_limits d) = Some n \<and> whole_between 0 10000 n)) \<and>
     (\<exists>c e. ml_ceiling (d_mail d) = Whole c \<and> ml_estateCeiling (d_mail d) = Whole e \<and> 0 \<le> c \<and> c \<le> e)"

lemma checkFields_host_bounds:
  assumes "checkFields u jp zones repo d = Inr ()"
  shows "host_bounds d"
  using checkFields_facts [OF assms] unfolding host_bounds_def
  by (auto simp: whole_between_def validateTenantUid_def validatePortTriple_def validatePort_def guardS_Inr thenS_Inr
      whole_in_iff less_than_def MIN_HOST_PORT_def TENANT_UID_MIN_def TENANT_UID_MAX_def validatePrivateIpV4_Inr)

lemma checkRanges_number:
  "assertFinitePositiveInteger n f hi = Inr () \<Longrightarrow> whole_between 1 hi n"
  "assertNonNegativeIntegerOrNull (Some n) f hi = Inr () \<Longrightarrow> whole_between 0 hi n"
  "assertNonNegativeInteger n f = Inr () \<Longrightarrow> \<exists>i. n = Whole i \<and> 0 \<le> i"
  by (auto simp: assertFinitePositiveInteger_def assertNonNegativeIntegerOrNull_def assertNonNegativeInteger_def
      whole_between_def split: js_number.splits)

lemma checkFields_resource_bounds:
  assumes "checkFields u jp zones repo d = Inr ()"
  shows "resource_bounds d"
proof -
  note f = checkFields_facts [OF assms]
  have r: "assertNonNegativeIntegerOrNull (li_membersCap (d_limits d)) ''limits.membersCap'' 10000000 = Inr ()"
    "assertNonNegativeIntegerOrNull (li_staffCap (d_limits d)) ''limits.staffCap'' 10000 = Inr ()"
    "\<not> exceeds_cpus (rc_cpus (d_caps d))"
    "assertFinitePositiveInteger (rc_cpuShares (d_caps d)) ''caps.cpuShares'' 262144 = Inr ()"
    "assertFinitePositiveInteger (rc_pidsLimit (d_caps d)) ''caps.pidsLimit'' 100000 = Inr ()"
    "assertFinitePositiveInteger (rc_nofile (d_caps d)) ''caps.nofile'' 1048576 = Inr ()"
    "assertNonNegativeInteger (ml_ceiling (d_mail d)) ''mail.ceiling'' = Inr ()"
    "assertNonNegativeInteger (ml_estateCeiling (d_mail d)) ''mail.estateCeiling'' = Inr ()"
    using f(1)
    by (auto simp: checkRanges_def thenS_Inr validateCpus_def MAX_CPU_SHARES_def MAX_PIDS_LIMIT_def MAX_NOFILE_def
        MAX_MEMBERS_CAP_def MAX_STAFF_CAP_def)
  have m: "\<not> less_than (ml_estateCeiling (d_mail d)) (ml_ceiling (d_mail d))"
    using f(12) by (simp add: validateMailIdentity_def thenS_Inr)
  show ?thesis
    unfolding resource_bounds_def
    using checkRanges_number(1) [OF r(4)] checkRanges_number(1) [OF r(5)] checkRanges_number(1) [OF r(6)] r(3)
      r(1,2) checkRanges_number(3) [OF r(7)] checkRanges_number(3) [OF r(8)] m
    by (cases "li_membersCap (d_limits d)"; cases "li_staffCap (d_limits d)")
      (auto simp: less_than_def intro: checkRanges_number(2))
qed

section \<open>Paths\<close>

definition inside_path :: "string \<Rightarrow> bool" where
  "inside_path s \<longleftrightarrow> starts_with ''/'' s \<and> ''..'' \<notin> set (split_on CHR ''/'' s) \<and> CHR 0x5C \<notin> set s"

fun database_paths :: "database_spec \<Rightarrow> string list" where
  "database_paths (Sqlite p) = [p]"
| "database_paths (MySql host port name user) = []"

fun media_paths :: "media_store \<Rightarrow> string list" where
  "media_paths (LocalStore p) = [p]"
| "media_paths (S3Store endpoint region bucket) = []"

fun transport_paths :: "transport_spec \<Rightarrow> string list" where
  "transport_paths (QueueTransport p) = [p]"
| "transport_paths (SmtpTransport host port user) = []"

definition paths_of :: "tenant_descriptor \<Rightarrow> string list" where
  "paths_of d = database_paths (d_database d) @ media_paths (me_store (d_media d)) @ transport_paths (d_transport d)"

lemma assertNonEmptyPath_inside: "assertNonEmptyPath s f = Inr () \<Longrightarrow> inside_path s"
  by (auto simp: assertNonEmptyPath_def assertNonEmptyString_def thenS_Inr inside_path_def)

lemma checkFields_paths:
  assumes "checkFields u jp zones repo d = Inr ()"
  shows "list_all inside_path (paths_of d)"
  using checkFields_facts(8,9,11) [OF assms]
  by (auto simp: paths_of_def validateDatabase_def validateMedia_def validateTransport_def
      split: database_spec.splits media_store.splits transport_spec.splits dest: assertNonEmptyPath_inside)

section \<open>Names\<close>

lemma validateSlug_Inr: "validateSlug s = Inr s' \<longleftrightarrow> s' = s \<and> SLUG_PATTERN s \<and> length s \<le> 63"
  by (auto simp: validateSlug_def guardS_Inr MAX_SLUG_LENGTH_def)

lemma slug_chars:
  assumes "SLUG_PATTERN s"
  shows "CHR ''_'' \<notin> set s" "CHR ''.'' \<notin> set s" "CHR ''/'' \<notin> set s"
proof -
  have a: "all_in (alnum_lower @ ''-'') s" using assms by (simp add: SLUG_PATTERN_def)
  have c: "CHR ''_'' \<notin> set (alnum_lower @ ''-'')" "CHR ''.'' \<notin> set (alnum_lower @ ''-'')" "CHR ''/'' \<notin> set (alnum_lower @ ''-'')"
    by (simp_all add: alnum_lower_def lowers_def digits_def)
  show "CHR ''_'' \<notin> set s" "CHR ''.'' \<notin> set s" "CHR ''/'' \<notin> set s"
    by (rule all_in_notin [OF a] c)+
qed

lemma sqlIdentifier_inj: "CHR ''_'' \<notin> set s \<Longrightarrow> CHR ''_'' \<notin> set t \<Longrightarrow> sqlIdentifier s = sqlIdentifier t \<Longrightarrow> s = t"
proof (induction s arbitrary: t)
  case (Cons c s)
  then show ?case by (cases t) (auto simp: sqlIdentifier_def split: if_splits)
qed (simp add: sqlIdentifier_def)

lemma databaseAndUserName_inj:
  "SLUG_PATTERN s \<Longrightarrow> SLUG_PATTERN t \<Longrightarrow> databaseAndUserName s = databaseAndUserName t \<longleftrightarrow> s = t"
  using sqlIdentifier_inj [of s t] slug_chars by (auto simp: databaseAndUserName_def)

lemma checkFields_slug:
  assumes "checkFields u jp zones repo d = Inr ()"
  shows "SLUG_PATTERN (d_slug d)" "length (databaseAndUserName (d_slug d)) \<le> 32" "d_slug d \<notin> set RESERVED_STACK_NAMES"
  using checkFields_facts(2,3) [OF assms]
  by (auto simp: validateSlug_Inr validateSlugAvailability_def guardS_Inr MAX_TENANT_SLUG_LENGTH_def databaseAndUserName_def
      sqlIdentifier_def TENANT_DB_PREFIX_def)

end
