(* ===== verification/Render_Sample.thy ===== *)
theory Render_Sample
  imports Render_Sound
begin

text \<open>A demo's descriptor and a tenant's, as JSON, for the witnesses.\<close>

definition num :: "int \<Rightarrow> json" where
  "num i = JNumber (Whole i)"

definition sample_instant :: string where
  "sample_instant = ''2026-09-23T00:00:00.000Z''"

definition sample_zones_json :: json where
  "sample_zones_json = JObject
     [(''demoZone'', JString ''demo.branch.example''), (''platformZone'', JString ''sites.branch.example''),
      (''ownedDomains'', JArray [JString ''branch.example'']), (''demoMailDomain'', JString ''mail.example'')]"

definition common_json :: "string \<Rightarrow> string \<Rightarrow> int \<Rightarrow> int \<Rightarrow> (string \<times> json) list" where
  "common_json slug url uid port =
     [(''version'', num 1), (''slug'', JString slug), (''siteUrl'', JString url),
      (''image'', JString (''ghost:6@sha256:'' @ replicate 64 CHR ''a'')), (''uid'', num uid),
      (''ports'', JObject [(''a'', num port), (''b'', num (port + 1)), (''health'', num (port + 2))]),
      (''appHostIp'', JString ''10.0.1.2''), (''transport'', JObject [(''kind'', JString ''queue''), (''path'', JString ''/run/q'')]),
      (''limits'', JObject [(''membersCap'', JNull), (''staffCap'', num 5)]),
      (''caps'', JObject [(''cpus'', JString ''0.5''), (''cpuShares'', num 512), (''pidsLimit'', num 200), (''nofile'', num 1024)]),
      (''safety'', JObject [(''near'', JBool True), (''exact'', JBool True)]),
      (''codeInjection'', JObject [(''kind'', JString ''blocked'')]),
      (''breakGlass'', JObject [(''kind'', JString ''disabled'')])]"

definition mail_json :: "json \<Rightarrow> json" where
  "mail_json who = JObject [(''enabled'', JBool True), (''ceiling'', num 10), (''estateCeiling'', num 100), (''identity'', who)]"

definition sample_demo_json :: json where
  "sample_demo_json = JObject (common_json ''demo-a'' ''https://three.demo.branch.example'' 30003 3000 @
     [(''kind'', JString ''demo''), (''ownerEmail'', JString ''o@b.example''),
      (''database'', JObject [(''kind'', JString ''sqlite''), (''path'', JString ''/data/db'')]),
      (''media'', JObject [(''kind'', JString ''local''), (''path'', JString ''/data/m''), (''resize'', JBool True), (''srcsets'', JBool False)]),
      (''mail'', mail_json (JObject [(''kind'', JString ''demo''), (''localPart'', JString ''three'')])),
      (''hostname'', JObject [(''kind'', JString ''ours''), (''sub'', JString ''three''), (''gated'', JBool True)]),
      (''gate'', JObject [(''kind'', JString ''passphrase''), (''argon2idHash'', JString ''$argon2id$'')]),
      (''backup'', JObject [(''kind'', JString ''none'')]), (''expiresAt'', JString sample_instant)])"

definition sample_tenant_json :: "string \<Rightarrow> json" where
  "sample_tenant_json slug = JObject (common_json slug ''https://shop.sites.branch.example'' 30900 4000 @
     [(''kind'', JString ''tenant''), (''ownerEmail'', JString ''o@b.example''),
      (''database'', JObject [(''kind'', JString ''mysql''), (''host'', JString ''db''), (''port'', num 3306),
         (''name'', JString (databaseAndUserName slug)), (''user'', JString (databaseAndUserName slug))]),
      (''media'', JObject [(''kind'', JString ''s3''), (''endpoint'', JString ''https://s3.example''), (''region'', JString ''eu''),
         (''bucket'', JString (mediaBucketName slug)), (''resize'', JBool True), (''srcsets'', JBool True)]),
      (''mail'', mail_json (JObject [(''kind'', JString ''tenant''), (''domain'', JString ''shop.example''), (''dkimSelector'', JString ''k1'')])),
      (''hostname'', JObject [(''kind'', JString ''ours''), (''sub'', JString ''shop''), (''gated'', JBool False)]),
      (''gate'', JObject [(''kind'', JString ''none'')]),
      (''backup'', JObject [(''kind'', JString ''bucket-native''), (''encryptionRecipient'', JString ''age1'')]), (''expiresAt'', JNull)])"

definition sample_url :: "string \<Rightarrow> string option" where
  "sample_url s = Some ''https:''"

definition sample_parse :: "string \<Rightarrow> json option" where
  "sample_parse s = None"

definition sample_zones :: zone_config where
  "sample_zones = \<lparr>zc_demoZone = ''demo.branch.example'', zc_platformZone = ''sites.branch.example'',
     zc_ownedDomains = [''branch.example''], zc_imagesWithBreakGlassAdapter = [], zc_demoMailDomain = Some (JString ''mail.example'')\<rparr>"

definition common_descriptor :: "string \<Rightarrow> string \<Rightarrow> int \<Rightarrow> int \<Rightarrow> tenant_descriptor" where
  "common_descriptor slug url uid port = \<lparr>d_version = Whole 1, d_kind = DemoKind, d_slug = slug, d_siteUrl = url,
     d_image = ''ghost:6@sha256:'' @ replicate 64 CHR ''a'', d_ownerEmail = Some ''o@b.example'', d_uid = Whole uid,
     d_ports = \<lparr>pt_a = Whole port, pt_b = Whole (port + 1), pt_health = Whole (port + 2)\<rparr>, d_appHostIp = ''10.0.1.2'',
     d_database = Sqlite ''/data/db'', d_media = \<lparr>me_store = LocalStore ''/data/m'', me_resize = True, me_srcsets = False\<rparr>,
     d_transport = QueueTransport ''/run/q'',
     d_mail = \<lparr>ml_enabled = True, ml_ceiling = Whole 10, ml_estateCeiling = Whole 100, ml_identity = DemoIdentity ''three''\<rparr>,
     d_hostname = OursHost ''three'' True, d_gate = PassphraseGated ''$argon2id$'', d_backup = NoBackup,
     d_codeInjection = InjectionBlocked, d_limits = \<lparr>li_membersCap = None, li_staffCap = Some (Whole 5)\<rparr>,
     d_caps = \<lparr>rc_cpus = ''0.5'', rc_cpuShares = Whole 512, rc_pidsLimit = Whole 200, rc_nofile = Whole 1024\<rparr>,
     d_safety = \<lparr>sf_near = True, sf_exact = True\<rparr>, d_breakGlass = BreakGlassDisabled, d_expiresAt = Some sample_instant\<rparr>"

definition sample_demo :: tenant_descriptor where
  "sample_demo = common_descriptor ''demo-a'' ''https://three.demo.branch.example'' 30003 3000"

definition sample_tenant :: "string \<Rightarrow> tenant_descriptor" where
  "sample_tenant slug = (common_descriptor slug ''https://shop.sites.branch.example'' 30900 4000)
     \<lparr>d_kind := TenantKind, d_database := MySql ''db'' (Whole 3306) (databaseAndUserName slug) (databaseAndUserName slug),
      d_media := \<lparr>me_store = S3Store ''https://s3.example'' ''eu'' (mediaBucketName slug), me_resize = True, me_srcsets = True\<rparr>,
      d_mail := \<lparr>ml_enabled = True, ml_ceiling = Whole 10, ml_estateCeiling = Whole 100, ml_identity = TenantIdentity ''shop.example'' ''k1''\<rparr>,
      d_hostname := OursHost ''shop'' False, d_gate := OpenGate, d_backup := BucketNative ''age1'', d_expiresAt := None\<rparr>"

lemma sample_instant_ok: "validateInstant sample_instant f = Inr sample_instant"
proof -
  have n: "number_at 0 4 sample_instant = 2026" "number_at 5 2 sample_instant = 9" "number_at 8 2 sample_instant = 23"
    "number_at 11 2 sample_instant = 0" "number_at 14 2 sample_instant = 0" "number_at 17 2 sample_instant = 0"
    by code_simp+
  have "INSTANT_PATTERN sample_instant" by code_simp
  then show ?thesis
    by (simp add: validateInstant_def n calendar_instant real_instant_def days_in_month_def)
qed

lemma sample_zones_ok: "validateZoneConfig (Some sample_zones_json) = Inr sample_zones"
  by code_simp

lemma sample_demo_shape: "assertShape (Some sample_demo_json) Inline = Inr sample_demo"
  by code_simp

lemma sample_tenant_shape: "assertShape (Some (sample_tenant_json ''alpha'')) Inline = Inr (sample_tenant ''alpha'')"
  by code_simp

lemma cpus_half: "CPUS_PATTERN ''0.5''" "\<not> exceeds_cpus ''0.5''" "length ''0.5'' \<le> MAX_CPUS_LENGTH"
  by (simp_all add: CPUS_PATTERN_def exceeds_cpus_def whole_part_def digits_def MAX_CPUS_VALUE_def MAX_CPUS_LENGTH_def
      number_of_digits_def digit_val_def)

lemma sample_address: "validatePrivateIpV4 ''10.0.1.2'' = Inr ''10.0.1.2''"
proof -
  have "dotted 10 0 1 2 = ''10.0.1.2''" by (simp add: dotted_def show_nat.simps digit_char_def digits_def)
  moreover have "private_net 10 0" by (simp add: private_net_def)
  ultimately show ?thesis unfolding validatePrivateIpV4_Inr by (intro conjI exI [of _ 10] exI [of _ 0] exI [of _ 1] exI [of _ 2]) simp_all
qed

lemma sample_demo_checks: "checkFields sample_url sample_parse sample_zones None sample_demo = Inr ()"
proof -
  have ranges: "checkRanges sample_demo = Inr ()"
    by (simp add: checkRanges_def sample_demo_def sample_tenant_def common_descriptor_def assertNonNegativeIntegerOrNull_def
        assertFinitePositiveInteger_def assertNonNegativeInteger_def validateCpus_def cpus_half MAX_CPUS_LENGTH_def thenS_Inr MAX_SAFE_INTEGER_def
        MAX_CPU_SHARES_def MAX_PIDS_LIMIT_def MAX_NOFILE_def MAX_MEMBERS_CAP_def MAX_STAFF_CAP_def)
  have address: "validatePrivateIpV4 (d_appHostIp sample_demo) = Inr (d_appHostIp sample_demo)"
    by (simp add: sample_demo_def sample_tenant_def common_descriptor_def sample_address)
  have "checkVersion sample_demo = Inr ()" "validateSlug (d_slug sample_demo) = Inr (d_slug sample_demo)"
    "validateSlugAvailability (d_slug sample_demo) (Some (claimant_of (d_kind sample_demo) None)) = Inr ()"
    "validateAbsoluteUrl sample_url (d_siteUrl sample_demo) = Inr (d_siteUrl sample_demo)"
    "validateDigestPinnedRef (d_image sample_demo) = Inr (d_image sample_demo)" "validate_ownerEmail (d_ownerEmail sample_demo) = Inr ()"
    "validateTenantUid (d_uid sample_demo) = Inr (d_uid sample_demo)" "validatePortTriple (d_ports sample_demo) = Inr ()"
    "validateDatabase (d_slug sample_demo) (d_database sample_demo) = Inr ()" "validateMedia (d_slug sample_demo) (me_store (d_media sample_demo)) = Inr ()"
    "validateBackup (d_backup sample_demo) = Inr ()" "validateTransport (d_transport sample_demo) = Inr ()"
    "validateMailIdentity (d_mail sample_demo) sample_zones = Inr ()" "validateHostname (d_hostname sample_demo) sample_zones = Inr ()"
    "validateGate (d_gate sample_demo) = Inr ()" "validateCodeInjection (d_codeInjection sample_demo) = Inr ()"
    "validateBreakGlass sample_parse (d_breakGlass sample_demo) = Inr ()" "checkSafety sample_demo = Inr ()"
    "checkSiteUrlMatchesHostname sample_demo sample_zones = Inr ()" "checkInv2 sample_demo = Inr ()" "checkInv3 sample_demo = Inr ()"
    "checkCodeInjectionHostnamePrecondition sample_demo = Inr ()" "checkTierVariants sample_demo = Inr ()"
    "checkHostnameGateConsistency sample_demo = Inr ()" "checkBreakGlassIdentity sample_demo = Inr ()"
    "checkBreakGlassImageOrdering sample_demo sample_zones = Inr ()"
    by code_simp+
  moreover have "validate_expiresAt (d_expiresAt sample_demo) = Inr ()"
    by (simp add: validate_expiresAt_def sample_instant_ok sample_demo_def sample_tenant_def common_descriptor_def)
  ultimately show ?thesis using ranges address by (simp add: checkFields_def)
qed

lemma sample_tenant_checks: "checkFields sample_url sample_parse sample_zones None (sample_tenant ''alpha'') = Inr ()"
proof -
  have ranges: "checkRanges (sample_tenant ''alpha'') = Inr ()"
    by (simp add: checkRanges_def sample_demo_def sample_tenant_def common_descriptor_def assertNonNegativeIntegerOrNull_def
        assertFinitePositiveInteger_def assertNonNegativeInteger_def validateCpus_def cpus_half MAX_CPUS_LENGTH_def thenS_Inr MAX_SAFE_INTEGER_def
        MAX_CPU_SHARES_def MAX_PIDS_LIMIT_def MAX_NOFILE_def MAX_MEMBERS_CAP_def MAX_STAFF_CAP_def)
  have address: "validatePrivateIpV4 (d_appHostIp (sample_tenant ''alpha'')) = Inr (d_appHostIp (sample_tenant ''alpha''))"
    by (simp add: sample_demo_def sample_tenant_def common_descriptor_def sample_address)
  have "checkVersion (sample_tenant ''alpha'') = Inr ()" "validateSlug (d_slug (sample_tenant ''alpha'')) = Inr (d_slug (sample_tenant ''alpha''))"
    "validateSlugAvailability (d_slug (sample_tenant ''alpha'')) (Some (claimant_of (d_kind (sample_tenant ''alpha'')) None)) = Inr ()"
    "validateAbsoluteUrl sample_url (d_siteUrl (sample_tenant ''alpha'')) = Inr (d_siteUrl (sample_tenant ''alpha''))"
    "validateDigestPinnedRef (d_image (sample_tenant ''alpha'')) = Inr (d_image (sample_tenant ''alpha''))" "validate_ownerEmail (d_ownerEmail (sample_tenant ''alpha'')) = Inr ()"
    "validateTenantUid (d_uid (sample_tenant ''alpha'')) = Inr (d_uid (sample_tenant ''alpha''))" "validatePortTriple (d_ports (sample_tenant ''alpha'')) = Inr ()"
    "validateDatabase (d_slug (sample_tenant ''alpha'')) (d_database (sample_tenant ''alpha'')) = Inr ()" "validateMedia (d_slug (sample_tenant ''alpha'')) (me_store (d_media (sample_tenant ''alpha''))) = Inr ()"
    "validateBackup (d_backup (sample_tenant ''alpha'')) = Inr ()" "validateTransport (d_transport (sample_tenant ''alpha'')) = Inr ()"
    "validateMailIdentity (d_mail (sample_tenant ''alpha'')) sample_zones = Inr ()" "validateHostname (d_hostname (sample_tenant ''alpha'')) sample_zones = Inr ()"
    "validateGate (d_gate (sample_tenant ''alpha'')) = Inr ()" "validateCodeInjection (d_codeInjection (sample_tenant ''alpha'')) = Inr ()"
    "validateBreakGlass sample_parse (d_breakGlass (sample_tenant ''alpha'')) = Inr ()" "checkSafety (sample_tenant ''alpha'') = Inr ()"
    "checkSiteUrlMatchesHostname (sample_tenant ''alpha'') sample_zones = Inr ()" "checkInv2 (sample_tenant ''alpha'') = Inr ()" "checkInv3 (sample_tenant ''alpha'') = Inr ()"
    "checkCodeInjectionHostnamePrecondition (sample_tenant ''alpha'') = Inr ()" "checkTierVariants (sample_tenant ''alpha'') = Inr ()"
    "checkHostnameGateConsistency (sample_tenant ''alpha'') = Inr ()" "checkBreakGlassIdentity (sample_tenant ''alpha'') = Inr ()"
    "checkBreakGlassImageOrdering (sample_tenant ''alpha'') sample_zones = Inr ()"
    by code_simp+
  moreover have "validate_expiresAt (d_expiresAt (sample_tenant ''alpha'')) = Inr ()"
    by (simp add: validate_expiresAt_def sample_instant_ok sample_demo_def sample_tenant_def common_descriptor_def)
  ultimately show ?thesis using ranges address by (simp add: checkFields_def)
qed

lemma sample_demo_valid:
  "validateFields sample_url sample_parse (Some sample_demo_json) (Some sample_zones_json) Inline None = Inr sample_demo"
proof -
  have "assertDiscriminants (Some sample_demo_json) = Inr ()" "checkInv1 (Some sample_demo_json) = Inr ()" by code_simp+
  then show ?thesis
    using sample_zones_ok sample_demo_shape sample_demo_checks by (simp add: validateFields_def)
qed

lemma sample_tenant_valid:
  "validateFields sample_url sample_parse (Some (sample_tenant_json ''alpha'')) (Some sample_zones_json) Inline None =
     Inr (sample_tenant ''alpha'')"
proof -
  have "assertDiscriminants (Some (sample_tenant_json ''alpha'')) = Inr ()" "checkInv1 (Some (sample_tenant_json ''alpha'')) = Inr ()"
    by code_simp+
  then show ?thesis
    using sample_zones_ok sample_tenant_shape sample_tenant_checks by (simp add: validateFields_def)
qed

end
