(* ===== verification/Broker_Render.thy ===== *)
theory Broker_Render
  imports Broker_Sample Render_Sample
begin

text \<open>
  The broker on the descriptor validation it calls: \<open>handleReconcile\<close> of
  \<open>src/services/broker/src/app.ts\<close> with \<open>validate\<close> of \<open>src/render-core/src/validate.ts\<close> in the place of
  its parameter.
\<close>

definition whole_nat :: "js_number \<Rightarrow> nat" where
  "whole_nat n = (case n of Whole i \<Rightarrow> nat i | NotWhole _ \<Rightarrow> 0)"

text \<open>The fields of an accepted descriptor the broker reads.\<close>

definition broker_descriptor :: "tenant_descriptor \<Rightarrow> json \<Rightarrow> descriptor" where
  "broker_descriptor d body = \<lparr>
     td_kind = (case d_kind d of DemoKind \<Rightarrow> ''demo'' | TenantKind \<Rightarrow> ''tenant''),
     td_gate = (case d_gate d of OpenGate \<Rightarrow> NoGate | PassphraseGated hash \<Rightarrow> PassphraseGate hash),
     td_uid = whole_nat (d_uid d),
     td_ports = \<lparr>sp_a = whole_nat (pt_a (d_ports d)), sp_b = whole_nat (pt_b (d_ports d)), sp_health = whole_nat (pt_health (d_ports d))\<rparr>,
     td_hostname = (case d_hostname d of OursHost sub is_gated \<Rightarrow> Ours sub | TheirsHost fqdn t \<Rightarrow> Theirs fqdn),
     td_rest = body\<rparr>"

definition broker_validate ::
  "(string \<Rightarrow> string option) \<Rightarrow> (string \<Rightarrow> json option) \<Rightarrow> json \<Rightarrow> json \<Rightarrow> field_error + descriptor" where
  "broker_validate url_protocol json_parse zones_value body =
     (case validate url_protocol json_parse (Some body) (Some zones_value) None of
        Inl e \<Rightarrow> Inl (FieldValidationError ''descriptor'')
      | Inr d \<Rightarrow> Inr (broker_descriptor d body))"

text \<open>What is known of a reconcile that goes on to claim the slot's lock.\<close>

definition sound_request :: "'w broker_deps \<Rightarrow> zone_config \<Rightarrow> slot_name \<Rightarrow> descriptor \<Rightarrow> string \<Rightarrow> tenant_descriptor \<Rightarrow> bool" where
  "sound_request deps zones slot d hash rd \<longleftrightarrow>
     demo_shape rd \<and> d_gate rd = PassphraseGated hash \<and> trim hash \<noteq> [] \<and>
     hostOf_descriptor d (zc_demoZone zones) = expectedHost rd zones \<and>
     d_siteUrl rd \<in> {''https://'' @ expectedHost rd zones, ''https://'' @ expectedHost rd zones @ ''/''} \<and>
     slotUid (bd_uidBase deps) slot \<in> {30000..30999} \<and>
     slotPort (bd_appPortBase deps) slot A \<in> {1024..65535} \<and> slotPort (bd_appPortBase deps) slot B \<in> {1024..65535} \<and>
     slotHealthPort (bd_healthPortBase deps) slot \<in> {1024..65535} \<and>
     slotHealthPort (bd_healthPortBase deps) slot \<notin> {slotPort (bd_appPortBase deps) slot A, slotPort (bd_appPortBase deps) slot B}"

lemma whole_between_nat: "whole_between lo hi n \<Longrightarrow> 0 \<le> lo \<Longrightarrow> int (whole_nat n) \<in> {lo..hi} \<and> n = Whole (int (whole_nat n))"
  by (auto simp: whole_between_def whole_nat_def)

lemma accepted_request_sound:
  assumes "bd_validate deps = broker_validate u jp zones_value"
    and z: "validateZoneConfig (Some zones_value) = Inr zones"
    and q: "reconcile_request deps lit body slot d hash"
  shows "\<exists>rd. validate u jp (Some body) (Some zones_value) None = Inr rd \<and> sound_request deps zones slot d hash rd"
proof -
  obtain rd where v: "validate u jp (Some body) (Some zones_value) None = Inr rd" and d: "d = broker_descriptor rd body"
    using q assms(1) by (auto simp: reconcile_request_def broker_validate_def split: sum.splits)
  have demo: "d_kind rd = DemoKind"
    using q d by (auto simp: reconcile_request_def broker_descriptor_def split: tenant_kind.splits)
  have c: "checkFields u jp zones None rd = Inr ()"
    using v z by (auto simp: validate_def validateFields_Inr)
  note tier = checkFields_tier [OF c, unfolded demo tenant_kind.case] and facts = checkFields_facts [OF c]
  have gate: "d_gate rd = PassphraseGated hash" "trim hash \<noteq> []"
    using q d tier by (auto simp: reconcile_request_def broker_descriptor_def demo_shape_def)
  have host: "hostOf_descriptor d (zc_demoZone zones) = expectedHost rd zones"
    using tier d demo by (auto simp: demo_shape_def hostOf_descriptor_def broker_descriptor_def expectedHost_def)
  have site: "d_siteUrl rd \<in> {''https://'' @ expectedHost rd zones, ''https://'' @ expectedHost rd zones @ ''/''}"
    using facts(15) by (auto simp: checkSiteUrlMatchesHostname_def Let_def)
  note b = checkFields_host_bounds [OF c, unfolded host_bounds_def]
  note uid = whole_between_nat [of 30000 30999 "d_uid rd"] and port = whole_between_nat [of 1024 65535]
  have own: "whole_nat (d_uid rd) = slotUid (bd_uidBase deps) slot"
      "whole_nat (pt_a (d_ports rd)) = slotPort (bd_appPortBase deps) slot A"
      "whole_nat (pt_b (d_ports rd)) = slotPort (bd_appPortBase deps) slot B"
      "whole_nat (pt_health (d_ports rd)) = slotHealthPort (bd_healthPortBase deps) slot"
    using q d by (auto simp: reconcile_request_def broker_descriptor_def slotAllocation_def)
  have range: "slotUid (bd_uidBase deps) slot \<in> {30000..30999}" "slotPort (bd_appPortBase deps) slot A \<in> {1024..65535}"
      "slotPort (bd_appPortBase deps) slot B \<in> {1024..65535}" "slotHealthPort (bd_healthPortBase deps) slot \<in> {1024..65535}"
    using uid port [of "pt_a (d_ports rd)"] port [of "pt_b (d_ports rd)"] port [of "pt_health (d_ports rd)"] b own by auto
  have "slotHealthPort (bd_healthPortBase deps) slot \<notin> {slotPort (bd_appPortBase deps) slot A, slotPort (bd_appPortBase deps) slot B}"
    using port [of "pt_a (d_ports rd)"] port [of "pt_b (d_ports rd)"] port [of "pt_health (d_ports rd)"] b own by force
  with v tier gate host site range show ?thesis by (auto simp: sound_request_def)
qed

text \<open>C17: The broker deploys valid demos only, on the slot's own allocation.  A reconcile throws for a value that
  is no slot, or answers 400, or goes on to the slot's lock with a descriptor that validates as a demo: gated by the
  very passphrase hash the lease will be tied to, served on the host of its site URL under the demo zone, with the
  slot's own uid in the tenant range and its own ports, all different and unprivileged.  The branch for a
  validated demo without a passphrase gate is never taken.\<close>

theorem broker_deploys_only_valid_demos:
  assumes "bd_validate deps = broker_validate url_protocol json_parse zones_value"
    and "validateZoneConfig (Some zones_value) = Inr zones"
  shows "(\<exists>e. handleReconcile deps lit body = throwE e) \<or>
     (\<exists>b. handleReconcile deps lit body = returnE (Reply 400 b)) \<or>
     (\<exists>slot d hash rd. handleReconcile deps lit body = with_slot_lock slot (reconcile_locked deps slot d hash) \<and>
        validate url_protocol json_parse (Some body) (Some zones_value) None = Inr rd \<and>
        sound_request deps zones slot d hash rd)"
proof (cases "\<exists>slot d hash. reconcile_request deps lit body slot d hash")
  case True
  with accepted_request_sound [OF assms] reconcile_request show ?thesis by metis
next
  case False
  have "d_gate rd \<noteq> OpenGate" if "validate url_protocol json_parse (Some body) (Some zones_value) None = Inr rd" "d_kind rd = DemoKind" for rd
    using that checkFields_tier [of url_protocol json_parse zones None rd] assms(2)
    by (auto simp: validate_def validateFields_Inr demo_shape_def)
  with False assms(1) show ?thesis
    by (auto simp: handleReconcile_def reconcile_request_def lift_sum_def broker_validate_def broker_descriptor_def fun_eq_iff
        bindE_def throwE_def returnE_def split: sum.splits gate_choice.splits tenant_kind.splits)
qed

definition sample_render_broker :: "nat broker_deps" where
  "sample_render_broker = sample_broker\<lparr>bd_validate := broker_validate sample_url sample_parse sample_zones_json\<rparr>"

lemma broker_deploys_only_valid_demos_witness:
  "(\<exists>e. handleReconcile sample_render_broker sample_lit sample_demo_json = throwE e) \<or>
   (\<exists>b. handleReconcile sample_render_broker sample_lit sample_demo_json = returnE (Reply 400 b)) \<or>
   (\<exists>slot d hash rd. handleReconcile sample_render_broker sample_lit sample_demo_json =
        with_slot_lock slot (reconcile_locked sample_render_broker slot d hash) \<and>
      validate sample_url sample_parse (Some sample_demo_json) (Some sample_zones_json) None = Inr rd \<and>
      sound_request sample_render_broker sample_zones slot d hash rd)"
  by (rule broker_deploys_only_valid_demos [OF _ sample_zones_ok]) (simp add: sample_render_broker_def)

end
