(* ===== verification/Render_Props.thy ===== *)
theory Render_Props
  imports Render_Sample
begin

text \<open>The properties of descriptor validation.\<close>

text \<open>C32: Validation answers every value.  Whatever JSON value is given as descriptor and as zones, the answer is
  a typed descriptor or an error of the module's own classes that names what is wrong, never the language's error
  for reading a property of \<open>null\<close> or \<open>undefined\<close>, as long as the caller's zones name a mail domain, the one
  field of theirs that is not checked.\<close>

theorem validation_never_fails_raw:
  assumes "mail_domain_given zones_value"
  shows "validate url_protocol json_parse v zones_value repo \<noteq> Inl RawTypeError \<and>
     validateFields url_protocol json_parse v zones_value owner repo \<noteq> Inl RawTypeError"
  using typed_validateFields [OF assms] by (simp add: validate_def no_type_error_def)

lemma validation_never_fails_raw_witness:
  "validate sample_url sample_parse (Some (JArray [])) (Some sample_zones_json) None \<noteq> Inl RawTypeError \<and>
   validateFields sample_url sample_parse (Some (JArray [])) (Some sample_zones_json) Secret None \<noteq> Inl RawTypeError"
  by (rule validation_never_fails_raw) (simp add: mail_domain_given_def sample_zones_json_def get_field_def)

text \<open>
  \<open>validateTenantStack\<close> reads the kind before anything is asserted of the descriptor, and fails raw on \<open>null\<close>.
\<close>

lemma stack_of_null_fails_raw: "validateTenantStack u jp (Some JNull) zones_value repo = Inl RawTypeError"
  by (simp add: validateTenantStack_def get_field_def)

text \<open>Unset, the mail domain is what a tenant's descriptor fails on; empty, it never matches a domain.\<close>

lemma unset_mail_domain_fails_raw:
  "zc_demoMailDomain zones = None \<Longrightarrow> ml_identity mail = TenantIdentity domain selector \<Longrightarrow>
     \<not> less_than (ml_estateCeiling mail) (ml_ceiling mail) \<Longrightarrow> trim domain \<noteq> [] \<Longrightarrow> isWellFormedFqdn domain \<Longrightarrow>
     isOutsideOwnedDomains domain (zc_ownedDomains zones) \<Longrightarrow> validateMailIdentity mail zones = Inl RawTypeError"
  by (simp add: validateMailIdentity_def assertNonEmptyString_def checkNotDemoMailDomain_def require_def)

lemma blank_mail_domain_never_matches:
  assumes "domain \<noteq> []" "last domain \<noteq> CHR ''.''"
  shows "checkNotDemoMailDomain domain (Some (JString [])) = Inr ()"
proof -
  have "js_lower_char (last domain) \<noteq> CHR ''.''"
  proof
    assume dot: "js_lower_char (last domain) = CHR ''.''"
    let ?n = "of_char (last domain) :: nat"
    have "of_char (js_lower_char (last domain)) = (46 :: nat)"
      by (simp add: dot)
    moreover have "of_char (js_lower_char (last domain)) = (if (65 \<le> ?n \<and> ?n \<le> 90) \<or> (192 \<le> ?n \<and> ?n \<le> 222 \<and> ?n \<noteq> 215) then ?n + 32 else ?n)"
      by (simp add: js_lower_char_def Let_def)
    ultimately have "?n = 46"
      by (simp split: if_splits)
    then have "?n = of_char (CHR ''.'')"
      by simp
    then show False
      using assms(2) by (simp only: of_char_eq_iff)
  qed
  then have "last (normalizeDomain domain) \<noteq> CHR ''.''" "normalizeDomain domain \<noteq> []"
    using assms by (simp_all add: normalizeDomain_def toLowerCase_def last_map)
  then have "\<not> ends_with [CHR ''.''] (normalizeDomain domain)"
    by (cases "normalizeDomain domain" rule: rev_cases) (auto simp: ends_with_def)
  then show ?thesis
    using assms by (simp add: checkNotDemoMailDomain_def isEqualToOrSubdomainOf_def normalizeDomain_def toLowerCase_def)
qed

text \<open>An endpoint with no host passes for a bare host.\<close>

lemma endpoint_without_host_accepted: "mediaPublicBaseUrl ''https://'' slug = Inr (''https:/'' @ mediaBucketName slug)"
  by (simp add: mediaPublicBaseUrl_def starts_with_def strip_slashes_def)

text \<open>C12: The shape of a descriptor is fixed by its kind.  An accepted demo is gated by a passphrase hash, on
  SQLite and local media, without backup, injected code or break-glass, under the platform's own zone and with an
  expiry; an accepted tenant is ungated, on the MySQL database and the bucket its own slug names, backed up to one
  recipient, and signs a mail domain the platform does not own.  Injected code is accepted only on a hostname
  outside every domain the platform owns, and break-glass only for the descriptor's own slug and a listed image.\<close>

theorem accepted_descriptor_fits_its_tier:
  assumes "validateFields url_protocol json_parse v zones_value owner repo = Inr d"
  shows "\<exists>zones. validateZoneConfig zones_value = Inr zones \<and>
     (case d_kind d of DemoKind \<Rightarrow> demo_shape d | TenantKind \<Rightarrow> tenant_shape d zones) \<and>
     injection_contained d zones \<and> break_glass_own d zones"
  using assms checkFields_tier checkFields_contained unfolding validateFields_Inr by blast

lemma accepted_descriptor_fits_its_tier_witness:
  "\<exists>zones. validateZoneConfig (Some sample_zones_json) = Inr zones \<and>
     (case d_kind (sample_tenant ''alpha'') of DemoKind \<Rightarrow> demo_shape (sample_tenant ''alpha'')
        | TenantKind \<Rightarrow> tenant_shape (sample_tenant ''alpha'') zones) \<and>
     injection_contained (sample_tenant ''alpha'') zones \<and> break_glass_own (sample_tenant ''alpha'') zones"
  by (rule accepted_descriptor_fits_its_tier [OF sample_tenant_valid])

text \<open>C33: The numbers of an accepted descriptor are within their bounds: the uid in the reserved range, three
  different ports above the privileged ones, an address in one of the three private networks in its one canonical
  spelling, container limits positive and under their ceilings, at most 128 processors, member and staff caps
  under theirs, and the tenant's mail ceiling no higher than the estate's.\<close>

theorem accepted_numbers_are_bounded:
  assumes "validateFields url_protocol json_parse v zones_value owner repo = Inr d"
  shows "host_bounds d \<and> resource_bounds d"
  using assms checkFields_host_bounds checkFields_resource_bounds unfolding validateFields_Inr by blast

lemma accepted_numbers_are_bounded_witness: "host_bounds sample_demo \<and> resource_bounds sample_demo"
  by (rule accepted_numbers_are_bounded [OF sample_demo_valid])

text \<open>Every path an accepted descriptor names is absolute, without a backslash and without a parent segment.\<close>

theorem accepted_paths_stay_inside:
  assumes "validateFields url_protocol json_parse v zones_value owner repo = Inr d"
  shows "list_all inside_path (paths_of d)"
  using assms checkFields_paths unfolding validateFields_Inr by blast

lemma accepted_paths_stay_inside_witness: "list_all inside_path (paths_of sample_demo)"
  by (rule accepted_paths_stay_inside [OF sample_demo_valid])

section \<open>Hostnames\<close>

lemma checkFields_hosts:
  assumes "checkFields u jp zones repo d = Inr ()"
  shows "servedHostnameOf (d_kind d) (d_hostname d) zones =
     (if d_kind d = DemoKind then None else Some (normalizeDomain (expectedHost d zones)))"
  using checkFields_facts(13) [OF assms] checkFields_tier [OF assms]
  by (cases "d_kind d")
    (auto simp: servedHostnameOf_def expectedHost_def validateHostname_def thenS_Inr demo_shape_def split: hostname_spec.splits)

text \<open>C34: What a certificate is admitted for is where the site is.  An accepted descriptor's site URL is https on
  the host its hostname renders to, and that host, normalised, is the one the certificate decision serves; a demo
  is never served one.\<close>

theorem served_hostname_is_the_site:
  assumes "validateFields url_protocol json_parse v zones_value owner repo = Inr d"
  shows "\<exists>zones. validateZoneConfig zones_value = Inr zones \<and>
     d_siteUrl d \<in> {''https://'' @ expectedHost d zones, ''https://'' @ expectedHost d zones @ ''/''} \<and>
     servedHostnameOf (d_kind d) (d_hostname d) zones =
       (if d_kind d = DemoKind then None else Some (normalizeDomain (expectedHost d zones)))"
proof -
  obtain zones where z: "validateZoneConfig zones_value = Inr zones" "checkFields url_protocol json_parse zones repo d = Inr ()"
    using assms by (auto simp: validateFields_Inr)
  show ?thesis
    using z(1) checkFields_hosts [OF z(2)] checkFields_facts(15) [OF z(2)]
    by (auto simp: checkSiteUrlMatchesHostname_def Let_def)
qed

lemma served_hostname_is_the_site_witness:
  "\<exists>zones. validateZoneConfig (Some sample_zones_json) = Inr zones \<and>
     d_siteUrl (sample_tenant ''alpha'') \<in>
       {''https://'' @ expectedHost (sample_tenant ''alpha'') zones, ''https://'' @ expectedHost (sample_tenant ''alpha'') zones @ ''/''} \<and>
     servedHostnameOf (d_kind (sample_tenant ''alpha'')) (d_hostname (sample_tenant ''alpha'')) zones =
       (if d_kind (sample_tenant ''alpha'') = DemoKind then None
        else Some (normalizeDomain (expectedHost (sample_tenant ''alpha'') zones)))"
  by (rule served_hostname_is_the_site [OF sample_tenant_valid])

section \<open>Names on a host\<close>

text \<open>Everything on a host, in the database server or in object storage that is named after a slug.\<close>

definition host_names :: "string \<Rightarrow> string list" where
  "host_names slug = [stackDirectory slug, composeUnitName slug, secretsEnvPath slug, imageEnvPath slug,
     contentVolumeName slug, adaptersVolumeName slug, metricsVolumeName slug, databaseAndUserName slug, mediaBucketName slug]"

lemma same_end: "s @ p = t @ q \<Longrightarrow> n \<le> length p \<Longrightarrow> n \<le> length q \<Longrightarrow> take n (rev p) = take n (rev q)"
  by (drule arg_cong [of _ _ "\<lambda>z. take n (rev z)"]) simp

lemma host_names_differ:
  assumes "SLUG_PATTERN s" "SLUG_PATTERN t" "s \<noteq> t"
  shows "set (host_names s) \<inter> set (host_names t) = {}"
proof -
  note defs = stackDirectory_def composeUnitName_def secretsEnvPath_def imageEnvPath_def contentVolumeName_def
    adaptersVolumeName_def metricsVolumeName_def mediaBucketName_def MEDIA_BUCKET_PREFIX_def stackName_def
  have env: "a @ ''.env'' \<noteq> b @ ''.image.env''" if "CHR ''.'' \<notin> set a" for a b
  proof
    assume "a @ ''.env'' = b @ ''.image.env''"
    then have "a @ ''.env'' = (b @ ''.image'') @ ''.env''" by simp
    then have "a = b @ ''.image''" by (simp only: append_same_eq)
    with that show False by simp
  qed
  have volumes: "a @ ''-content'' \<noteq> b @ ''-adapters''" "a @ ''-content'' \<noteq> b @ ''-metrics''" "a @ ''-adapters'' \<noteq> b @ ''-metrics''" for a b
    using same_end [of a "''-content''" b "''-adapters''" 3] same_end [of a "''-content''" b "''-metrics''" 3]
      same_end [of a "''-adapters''" b "''-metrics''" 3] by auto
  have dirs: "''/opt'' @ x \<noteq> ''/etc'' @ y" for x y by simp
  have db: "databaseAndUserName s \<noteq> databaseAndUserName t" using databaseAndUserName_inj assms by blast
  note dots = slug_chars(2) [OF assms(1)] slug_chars(2) [OF assms(2)]
  have dbname: "databaseAndUserName x = ''ghost_'' @ sqlIdentifier x" for x by (simp add: databaseAndUserName_def TENANT_DB_PREFIX_def)
  show ?thesis
    using assms(3) db env [OF dots(1)] env [OF dots(2)] volumes volumes [THEN not_sym]
    by (auto simp: host_names_def defs dbname not_sym [OF env [OF dots(1)]] not_sym [OF env [OF dots(2)]])
qed

text \<open>C16: Two accepted descriptors with different slugs share nothing named after the slug: no directory, unit,
  environment file, volume, database, database user or bucket, of the same kind or of different kinds; and the
  database name fits the 32 characters MySQL allows.\<close>

theorem accepted_names_never_collide:
  assumes "validateFields url_protocol json_parse v zones_value owner repo = Inr d"
    and "validateFields url_protocol json_parse v' zones_value' owner' repo' = Inr d'"
    and "d_slug d \<noteq> d_slug d'"
  shows "set (host_names (d_slug d)) \<inter> set (host_names (d_slug d')) = {} \<and>
     length (databaseAndUserName (d_slug d)) \<le> 32 \<and> length (databaseAndUserName (d_slug d')) \<le> 32"
proof -
  obtain zones zones' where c: "checkFields url_protocol json_parse zones repo d = Inr ()"
      "checkFields url_protocol json_parse zones' repo' d' = Inr ()"
    using assms(1,2) by (auto simp: validateFields_Inr)
  show ?thesis
    using host_names_differ [OF checkFields_slug(1) [OF c(1)] checkFields_slug(1) [OF c(2)] assms(3)]
      checkFields_slug(2) [OF c(1)] checkFields_slug(2) [OF c(2)] by blast
qed

lemma accepted_names_never_collide_witness:
  "set (host_names (d_slug sample_demo)) \<inter> set (host_names (d_slug (sample_tenant ''alpha''))) = {} \<and>
   length (databaseAndUserName (d_slug sample_demo)) \<le> 32 \<and> length (databaseAndUserName (d_slug (sample_tenant ''alpha''))) \<le> 32"
  by (rule accepted_names_never_collide [OF sample_demo_valid sample_tenant_valid])
    (simp add: sample_demo_def sample_tenant_def common_descriptor_def)

section \<open>Instants\<close>

lemma number_of_digits_less: "all_in digits s \<Longrightarrow> number_of_digits s < 10 ^ length s"
proof (induction s rule: rev_induct)
  case (snoc c s)
  then show ?case using digit_val_less [of c] by (simp add: number_of_snoc)
qed (simp add: number_of_digits_def)

lemma instant_year: "INSTANT_PATTERN s \<Longrightarrow> number_at 0 4 s \<le> 9999"
  using number_of_digits_less [of "slice 0 4 s"]
  by (simp add: INSTANT_PATTERN_def digits_at_def number_at_def slice_def)

text \<open>An instant is accepted exactly if it is written as an ISO-8601 UTC instant and is a real one: from the
  year 100 on, a month, a day that month has in that year by the Gregorian rules, and a time of day.\<close>

theorem instants_are_real_dates:
  "validateInstant s field = Inr s' \<longleftrightarrow> s' = s \<and> INSTANT_PATTERN s \<and>
     real_instant (number_at 0 4 s) (number_at 5 2 s) (number_at 8 2 s) (number_at 11 2 s) (number_at 14 2 s) (number_at 17 2 s)"
proof (cases "INSTANT_PATTERN s")
  case True
  then have "number_at 0 4 s \<le> 9999" by (rule instant_year)
  then show ?thesis
    by (auto simp: validateInstant_def guardS_Inr calendar_instant number_at_def)
qed (simp add: validateInstant_def guardS_Inr)

end
