(* ===== verification/Storage_Text.thy ===== *)
theory Storage_Text
  imports Prelude
begin

text \<open>
  Text beyond U+00FF, for the storage gateway: a string is a list of code points, and the percent codec of the
  standard library (\<open>decodeURIComponent\<close>, \<open>encodeURIComponent\<close>) and UTF-8 are written as ECMAScript defines
  them.  A request target, as Node hands it over, is a string of characters below U+0100.
\<close>

type_synonym uchar = nat
type_synonym utext = "uchar list"

definition code_points :: "string \<Rightarrow> utext" where
  "code_points s = map of_char s"

text \<open>What a well-formed string may hold: a code point that is no surrogate.\<close>

definition scalar :: "uchar \<Rightarrow> bool" where
  "scalar c \<longleftrightarrow> c < 55296 \<or> (57344 \<le> c \<and> c < 1114112)"

definition well_formed :: "utext \<Rightarrow> bool" where
  "well_formed t \<longleftrightarrow> list_all scalar t"

section \<open>UTF-8\<close>

definition utf8_of :: "uchar \<Rightarrow> nat list" where
  "utf8_of c =
     (if c < 128 then [c]
      else if c < 2048 then [192 + c div 64, 128 + c mod 64]
      else if c < 65536 then [224 + c div 4096, 128 + c div 64 mod 64, 128 + c mod 64]
      else [240 + c div 262144, 128 + c div 4096 mod 64, 128 + c div 64 mod 64, 128 + c mod 64])"

definition utf8_encode :: "utext \<Rightarrow> nat list" where
  "utf8_encode t = concat (map utf8_of t)"

text \<open>The number of continuation bytes a leading byte announces, its own bits, and the least code point they may spell.\<close>

definition utf8_lead :: "nat \<Rightarrow> (nat \<times> nat \<times> nat) option" where
  "utf8_lead b =
     (if b < 192 \<or> 248 \<le> b then None
      else if b < 224 then Some (1, b - 192, 128)
      else if b < 240 then Some (2, b - 224, 2048)
      else Some (3, b - 240, 65536))"

section \<open>Percent-decoding\<close>

definition hex_val :: "char \<Rightarrow> nat option" where
  "hex_val c = (let n = of_char c in
     if 48 \<le> n \<and> n \<le> 57 then Some (n - 48)
     else if 65 \<le> n \<and> n \<le> 70 then Some (n - 55)
     else if 97 \<le> n \<and> n \<le> 102 then Some (n - 87)
     else None)"

datatype pct_item = Plain uchar | Octet nat

fun pct_items :: "string \<Rightarrow> pct_item list option" where
  "pct_items [] = Some []"
| "pct_items (c # cs) =
     (if c \<noteq> CHR ''%'' then map_option (Cons (Plain (of_char c))) (pct_items cs)
      else (case cs of
          h # l # rest \<Rightarrow>
            (case (hex_val h, hex_val l) of
               (Some a, Some b) \<Rightarrow> map_option (Cons (Octet (16 * a + b))) (pct_items rest)
             | _ \<Rightarrow> None)
        | _ \<Rightarrow> None))"

text \<open>Continuation bytes add six bits each.\<close>

fun continue_octets :: "nat \<Rightarrow> nat \<Rightarrow> pct_item list \<Rightarrow> (nat \<times> pct_item list) option" where
  "continue_octets 0 v is = Some (v, is)"
| "continue_octets (Suc n) v (Octet b # is) =
     (if 128 \<le> b \<and> b < 192 then continue_octets n (v * 64 + (b - 128)) is else None)"
| "continue_octets (Suc n) v _ = None"

lemma continue_octets_length: "continue_octets n v is = Some (w, is') \<Longrightarrow> length is' \<le> length is"
  by (induction n v "is" rule: continue_octets.induct) (fastforce split: if_splits)+

function text_of_items :: "pct_item list \<Rightarrow> utext option" where
  "text_of_items [] = Some []"
| "text_of_items (Plain c # is) = map_option (Cons c) (text_of_items is)"
| "text_of_items (Octet b # is) =
     (if b < 128 then map_option (Cons b) (text_of_items is)
      else (case utf8_lead b of
          None \<Rightarrow> None
        | Some (n, v, low) \<Rightarrow>
            (case continue_octets n v is of
               None \<Rightarrow> None
             | Some (c, is') \<Rightarrow>
                 (if c < low \<or> \<not> scalar c then None else map_option (Cons c) (text_of_items is')))))"
  by pat_completeness auto
termination
  by (relation "measure length") (auto dest: continue_octets_length)

definition decodeURIComponent :: "string \<Rightarrow> utext option" where
  "decodeURIComponent s = (case pct_items s of None \<Rightarrow> None | Some is \<Rightarrow> text_of_items is)"

section \<open>Percent-encoding\<close>

definition hex_upper :: "nat \<Rightarrow> char" where
  "hex_upper n = ''0123456789ABCDEF'' ! n"

definition pct_byte :: "nat \<Rightarrow> string" where
  "pct_byte b = [CHR ''%'', hex_upper (b div 16), hex_upper (b mod 16)]"

definition is_alnum_code :: "uchar \<Rightarrow> bool" where
  "is_alnum_code c \<longleftrightarrow> (48 \<le> c \<and> c \<le> 57) \<or> (65 \<le> c \<and> c \<le> 90) \<or> (97 \<le> c \<and> c \<le> 122)"

text \<open>The characters \<open>encodeURIComponent\<close> leaves alone, and those \<open>sigv4Escape\<close> then escapes after all.\<close>

definition uri_unreserved :: "uchar \<Rightarrow> bool" where
  "uri_unreserved c \<longleftrightarrow> is_alnum_code c \<or> c \<in> {45, 95, 46, 33, 126, 42, 39, 40, 41}"

text \<open>A lone surrogate, on which \<open>encodeURIComponent\<close> throws, is in no text that was decoded.\<close>

definition percent_encode :: "(uchar \<Rightarrow> bool) \<Rightarrow> utext \<Rightarrow> string" where
  "percent_encode keep t = concat (map (\<lambda>c. if keep c then [char_of c] else concat (map pct_byte (utf8_of c))) t)"

definition encodeURIComponent :: "utext \<Rightarrow> string" where
  "encodeURIComponent t = percent_encode uri_unreserved t"

section \<open>The codec is lossless\<close>

lemma well_formed_simps [simp]:
  "well_formed []" "well_formed (c # t) \<longleftrightarrow> scalar c \<and> well_formed t"
  "well_formed (t @ u) \<longleftrightarrow> well_formed t \<and> well_formed u"
  by (simp_all add: well_formed_def)

lemma hex_val_upper: "n < 16 \<Longrightarrow> hex_val (hex_upper n) = Some n"
  by (simp add: less_Suc_eq numeral_eq_Suc) (auto simp: hex_val_def hex_upper_def)

lemma pct_items_byte: "b < 256 \<Longrightarrow> pct_items (pct_byte b @ s) = map_option (Cons (Octet b)) (pct_items s)"
  by (simp add: pct_byte_def hex_val_upper less_mult_imp_div_less option.map_ident)

lemma pct_items_bytes:
  "\<forall>b\<in>set bs. b < 256 \<Longrightarrow> pct_items (concat (map pct_byte bs) @ s) = map_option ((@) (map Octet bs)) (pct_items s)"
  by (cases "pct_items s"; induction bs) (simp_all add: pct_items_byte)

lemma pct_items_plain: "c < 128 \<Longrightarrow> c \<noteq> 37 \<Longrightarrow> pct_items (char_of c # s) = map_option (Cons (Plain c)) (pct_items s)"
proof -
  assume c: "c < 128" "c \<noteq> 37"
  have "(of_char (char_of c :: char) :: nat) = c"
    using c by simp
  moreover have "char_of c \<noteq> CHR ''%''"
  proof
    assume "char_of c = CHR ''%''"
    then have "(of_char (char_of c :: char) :: nat) = of_char CHR ''%''" by (rule arg_cong)
    with \<open>of_char (char_of c) = c\<close> c show False by simp
  qed
  ultimately show ?thesis by simp
qed

lemma utf8_of_bytes: "scalar c \<Longrightarrow> b \<in> set (utf8_of c) \<Longrightarrow> b < 256"
  by (auto simp: utf8_of_def scalar_def less_mult_imp_div_less split: if_splits)

text \<open>A number in base 64.\<close>

lemma base64_digits:
  fixes c :: nat
  obtains p q r s where "c = ((p * 64 + q) * 64 + r) * 64 + s" "q < 64" "r < 64" "s < 64"
proof -
  have split: "\<exists>q r. c = q * 64 + r \<and> r < 64" for c :: nat
    by (rule exI [of _ "c div 64"], rule exI [of _ "c mod 64"]) simp
  with that show thesis by metis
qed

lemma base64_parts:
  fixes p q r s :: nat
  assumes "q < 64" "r < 64" "s < 64"
  defines "c \<equiv> ((p * 64 + q) * 64 + r) * 64 + s"
  shows "c mod 64 = s" "c div 64 mod 64 = r" "c div 4096 mod 64 = q" "c div 262144 = p"
    "c div 64 = (p * 64 + q) * 64 + r" "c div 4096 = p * 64 + q"
proof -
  have step: "(a * 64 + b) div 64 = a" "(a * 64 + b) mod 64 = b" if "b < 64" for a b :: nat
    using that by simp_all
  have "c div 4096 = c div 64 div 64" "c div 262144 = c div 64 div 64 div 64"
    by (simp_all add: div_mult2_eq [symmetric])
  with step assms show "c mod 64 = s" "c div 64 mod 64 = r" "c div 4096 mod 64 = q" "c div 262144 = p"
    "c div 64 = (p * 64 + q) * 64 + r" "c div 4096 = p * 64 + q"
    by (simp_all only: c_def)
qed

lemma decode_utf8_of:
  assumes "scalar c"
  shows "text_of_items (map Octet (utf8_of c) @ is) = map_option (Cons c) (text_of_items is)"
proof -
  obtain p q r s where c: "c = ((p * 64 + q) * 64 + r) * 64 + s" and small: "q < 64" "r < 64" "s < 64"
    by (rule base64_digits)
  note parts = base64_parts [OF small, of p, folded c]
  have two: "continue_octets 1 v (Octet (128 + s) # is) = Some (v * 64 + s, is)"
    and three: "continue_octets 2 v (Octet (128 + r) # Octet (128 + s) # is) = Some ((v * 64 + r) * 64 + s, is)"
    and four: "continue_octets 3 v (Octet (128 + q) # Octet (128 + r) # Octet (128 + s) # is)
      = Some (((v * 64 + q) * 64 + r) * 64 + s, is)" for v
    using small by (simp_all add: numeral_2_eq_2 numeral_3_eq_3)
  consider "c < 128" | "128 \<le> c" "c < 2048" | "2048 \<le> c" "c < 65536" | "65536 \<le> c" "c < 1114112"
    using assms by (fastforce simp: scalar_def)
  then show ?thesis
  proof cases
    case 1
    then show ?thesis by (simp add: utf8_of_def)
  next
    case 2
    with c small have zero: "p = 0" "q = 0" "r < 32" and "c = r * 64 + s" by simp_all
    from this(4) [symmetric] 2 assms zero small show ?thesis
      by (simp add: utf8_of_def utf8_lead_def parts two del: One_nat_def)
  next
    case 3
    with c small have zero: "p = 0" "q < 16" and "c = (q * 64 + r) * 64 + s" by simp_all
    from this(3) [symmetric] 3 assms zero small show ?thesis
      by (simp add: utf8_of_def utf8_lead_def parts three del: One_nat_def)
  next
    case 4
    with c have zero: "p < 8" by simp
    from c [symmetric] 4 assms zero small show ?thesis
      by (simp add: utf8_of_def utf8_lead_def parts(1-4) four del: One_nat_def)
  qed
qed

lemma decode_percent_encode_append:
  assumes "\<And>c. keep c \<Longrightarrow> c < 128 \<and> c \<noteq> 37" "well_formed t"
  shows "decodeURIComponent (percent_encode keep t @ s) = map_option ((@) t) (decodeURIComponent s)"
  using assms(2)
proof (induction t)
  case Nil
  then show ?case by (simp add: percent_encode_def option.map_ident)
next
  case (Cons c t)
  have step: "decodeURIComponent ((if keep c then [char_of c] else concat (map pct_byte (utf8_of c))) @ u)
      = map_option (Cons c) (decodeURIComponent u)" for u
    using assms(1) [of c] Cons.prems utf8_of_bytes [of c] decode_utf8_of [of c]
    by (cases "pct_items u") (auto simp: decodeURIComponent_def pct_items_plain pct_items_bytes simp del: pct_items.simps(2))
  have "decodeURIComponent (percent_encode keep (c # t) @ s)
      = decodeURIComponent ((if keep c then [char_of c] else concat (map pct_byte (utf8_of c))) @ (percent_encode keep t @ s))"
    by (simp add: percent_encode_def)
  also have "\<dots> = map_option (Cons c) (map_option ((@) t) (decodeURIComponent s))"
    using step Cons by simp
  finally show ?case
    by (simp add: option.map_comp comp_def)
qed

lemma decode_percent_encode:
  assumes "\<And>c. keep c \<Longrightarrow> c < 128 \<and> c \<noteq> 37" "well_formed t"
  shows "decodeURIComponent (percent_encode keep t) = Some t"
  using decode_percent_encode_append [OF assms, where s = "[]"] by (simp add: decodeURIComponent_def)

section \<open>Decoded text is well formed\<close>

definition plain_small :: "pct_item list \<Rightarrow> bool" where
  "plain_small is \<longleftrightarrow> (\<forall>c. Plain c \<in> set is \<longrightarrow> c < 256)"

lemma pct_items_small: "pct_items s = Some is \<Longrightarrow> plain_small is"
proof (induction s arbitrary: "is" rule: pct_items.induct)
  case (2 c cs)
  show ?case
  proof (cases "c = CHR ''%''")
    case False
    with 2 obtain is' where "pct_items cs = Some is'" "is = Plain (of_char c) # is'" by auto
    with 2 False have "plain_small is'" by blast
    with \<open>is = Plain (of_char c) # is'\<close> show ?thesis by (auto simp: plain_small_def)
  next
    case True
    with 2(3) obtain h l rest a b is' where "cs = h # l # rest" "hex_val h = Some a" "hex_val l = Some b"
        "pct_items rest = Some is'" "is = Octet (16 * a + b) # is'"
      by (simp split: list.splits option.splits) blast
    with 2(2) True show ?thesis by (fastforce simp: plain_small_def)
  qed
qed (simp add: plain_small_def)

lemma continue_octets_small: "continue_octets n v is = Some (w, is') \<Longrightarrow> plain_small is \<Longrightarrow> plain_small is'"
  by (induction n v "is" rule: continue_octets.induct) (auto simp: plain_small_def split: if_splits)

lemma text_of_items_well_formed: "text_of_items is = Some t \<Longrightarrow> plain_small is \<Longrightarrow> well_formed t"
proof (induction "is" arbitrary: t rule: text_of_items.induct)
  case (2 c "is")
  then show ?case by (auto simp: plain_small_def scalar_def)
next
  case (3 b "is")
  then have small: "plain_small is" by (simp add: plain_small_def)
  show ?case
  proof (cases "b < 128")
    case True
    with 3 small show ?thesis by (auto simp: scalar_def)
  next
    case False
    with 3 small show ?thesis
      by (fastforce split: option.splits if_splits prod.splits dest: continue_octets_small)
  qed
qed simp

lemma decode_well_formed: "decodeURIComponent s = Some t \<Longrightarrow> well_formed t"
  by (auto simp: decodeURIComponent_def split: option.splits intro: text_of_items_well_formed pct_items_small)

end
