(* ===== verification/Storage_Router.thy ===== *)
theory Storage_Router
  imports Storage_Text Lease
begin

text \<open>
  The storage gateway's request model, refusals, router and folder guard:
  \<open>src/services/storage-gateway/src/contracts.ts\<close>, \<open>refusal.ts\<close> and \<open>router.ts\<close>.

  Unicode's tables are a parameter: the characters of the categories \<open>Cc Cf Cs Zl Zp Zs\<close>, the two
  normalisation forms and \<open>toLowerCase\<close>.  Decoded text is a list of code points, the request target a string below U+0100.
\<close>

section \<open>Requests and refusals\<close>

datatype header_value = Undefined | One string | Many "string list"

record gateway_request =
  gq_method :: string
  gq_rawTarget :: string
  gq_headers :: "(string \<times> header_value) list"
  gq_bodySha256 :: "string option"

datatype refusal_code =
    InternalError | SignatureRefused | CredentialNotActive | CredentialInvalid | OperationNotAllowed
  | TargetMalformed | BucketNotAllowed | KeyOutsideFolder | UploadNotBound | UpstreamTimeout
  | UpstreamUnavailable | UpstreamThrottled | BodyTooLarge | BodyIncomplete

record refusal_answer =
  rf_code :: refusal_code
  rf_message :: string
  rf_status :: nat

definition refusal :: "refusal_code \<Rightarrow> refusal_answer" where
  "refusal code = (let r = (\<lambda>message status. \<lparr>rf_code = code, rf_message = message, rf_status = status\<rparr>) in case code of
     InternalError \<Rightarrow> r ''The gateway could not decide this request. Try again.'' 503
   | SignatureRefused \<Rightarrow> r ''The request signature was not accepted.'' 403
   | CredentialNotActive \<Rightarrow> r ''This credential is not active.'' 403
   | CredentialInvalid \<Rightarrow> r ''This credential cannot be used.'' 403
   | OperationNotAllowed \<Rightarrow> r ''This operation is not allowed.'' 403
   | TargetMalformed \<Rightarrow> r ''The request target is not valid.'' 400
   | BucketNotAllowed \<Rightarrow> r ''Access to this bucket is not allowed.'' 403
   | UploadNotBound \<Rightarrow> r ''This upload is not open for this object name.'' 403
   | KeyOutsideFolder \<Rightarrow> r ''Access to this object name is not allowed.'' 403
   | UpstreamTimeout \<Rightarrow> r ''The storage service did not answer in time. Try again.'' 504
   | UpstreamUnavailable \<Rightarrow> r ''The storage service is not available. Try again.'' 503
   | UpstreamThrottled \<Rightarrow> r ''The storage service is busy. Try again.'' 503
   | BodyTooLarge \<Rightarrow> r ''The upload is larger than this account allows.'' 413
   | BodyIncomplete \<Rightarrow> r ''The upload ended before all of it arrived.'' 400)"

definition s3CodeFor :: "refusal_answer \<Rightarrow> string" where
  "s3CodeFor r =
     (if rf_code r = UpstreamThrottled then ''SlowDown''
      else if rf_code r = UpstreamTimeout then ''RequestTimeout''
      else if rf_code r = BodyTooLarge then ''EntityTooLarge''
      else if rf_code r = BodyIncomplete then ''IncompleteBody''
      else if 500 \<le> rf_status r then ''ServiceUnavailable''
      else if rf_status r = 400 then ''InvalidURI'' else ''AccessDenied'')"

definition s3ErrorBody :: "string \<Rightarrow> string \<Rightarrow> string" where
  "s3ErrorBody s3Code message = ''<?xml version=\"1.0\" encoding=\"UTF-8\"?><Error><Code>'' @ s3Code @
     ''</Code><Message>'' @ message @ ''</Message></Error>''"

definition refusalBody :: "refusal_answer \<Rightarrow> string" where
  "refusalBody r = s3ErrorBody (s3CodeFor r) (rf_message r)"

datatype credential_state = Active | Disabled | Revoked

record credential_record =
  cr_folder :: utext
  cr_bucket :: string
  cr_state :: credential_state
  cr_createdAt :: string
  cr_uploadCeilingMib :: "js_number option"

datatype operation =
    PutObject | CreateMultipartUpload | UploadPart | CompleteMultipartUpload | AbortMultipartUpload
  | HeadObject | GetObject

fun operation_name :: "operation \<Rightarrow> string" where
  "operation_name PutObject = ''PutObject''"
| "operation_name CreateMultipartUpload = ''CreateMultipartUpload''"
| "operation_name UploadPart = ''UploadPart''"
| "operation_name CompleteMultipartUpload = ''CompleteMultipartUpload''"
| "operation_name AbortMultipartUpload = ''AbortMultipartUpload''"
| "operation_name HeadObject = ''HeadObject''"
| "operation_name GetObject = ''GetObject''"

record routed_request =
  rr_operation :: operation
  rr_bucket :: string
  rr_key :: utext
  rr_uploadId :: "utext option"
  rr_partNumber :: "nat option"

section \<open>Patterns\<close>

definition MAX_TARGET_LENGTH :: nat where "MAX_TARGET_LENGTH = 4096"
definition MAX_KEY_BYTES :: nat where "MAX_KEY_BYTES = 1024"
definition MAX_PART_NUMBER :: nat where "MAX_PART_NUMBER = 10000"

definition raw_target_char :: "char \<Rightarrow> bool" where
  "raw_target_char c = (let n = of_char c :: nat in n = 33 \<or> n = 34 \<or> (36 \<le> n \<and> n \<le> 91) \<or> (93 \<le> n \<and> n \<le> 126))"

definition RAW_TARGET_OK :: "string \<Rightarrow> bool" where
  "RAW_TARGET_OK s \<longleftrightarrow> s \<noteq> [] \<and> list_all raw_target_char s"

text \<open>\<open>String#includes\<close>.\<close>

fun has_infix :: "'a list \<Rightarrow> 'a list \<Rightarrow> bool" where
  "has_infix p [] \<longleftrightarrow> p = []"
| "has_infix p (x # xs) \<longleftrightarrow> take (length p) (x # xs) = p \<or> has_infix p xs"

text \<open>The pattern ignores case, and a target that gets here is ASCII.\<close>

definition ENCODED_SEPARATOR_OR_DOT :: "string \<Rightarrow> bool" where
  "ENCODED_SEPARATOR_OR_DOT s = (let l = toLowerCase s in has_infix ''%2f'' l \<or> has_infix ''%5c'' l \<or> has_infix ''%2e'' l)"

definition BUCKET_NAME :: "string \<Rightarrow> bool" where
  "BUCKET_NAME s \<longleftrightarrow> \<not> has_infix ''..'' s \<and> 3 \<le> length s \<and> length s \<le> 63 \<and>
     hd s \<in> set (lowers @ digits) \<and> last s \<in> set (lowers @ digits) \<and> all_in (lowers @ digits @ ''.-'') s"

text \<open>On decoded text: one to five digits, the first not a zero.\<close>

definition digit_code :: "uchar \<Rightarrow> bool" where
  "digit_code c \<longleftrightarrow> 48 \<le> c \<and> c \<le> 57"

definition PART_NUMBER :: "utext \<Rightarrow> bool" where
  "PART_NUMBER t \<longleftrightarrow> t \<noteq> [] \<and> length t \<le> 5 \<and> hd t \<noteq> 48 \<and> list_all digit_code t"

definition number_of_codes :: "utext \<Rightarrow> nat" where
  "number_of_codes t = foldl (\<lambda>n c. 10 * n + (c - 48)) 0 t"

section \<open>Path segments\<close>

record unicode =
  uc_forbidden :: "uchar \<Rightarrow> bool"
  uc_nfc :: "utext \<Rightarrow> utext"
  uc_nfkc :: "utext \<Rightarrow> utext"
  uc_lower :: "utext \<Rightarrow> utext"

text \<open>Code points: full stop 46, solidus 47, backslash 92, percent 37, space 32.\<close>

definition isDangerousSegment :: "utext \<Rightarrow> bool" where
  "isDangerousSegment t \<longleftrightarrow> t = [] \<or> t = [46] \<or> t = [46, 46] \<or> 47 \<in> set t \<or> 92 \<in> set t \<or> 37 \<in> set t"

definition isSafeSegment :: "unicode \<Rightarrow> utext \<Rightarrow> bool" where
  "isSafeSegment uc t =
     (if list_ex (uc_forbidden uc) (filter (\<lambda>c. c \<noteq> 32) t) then False
      else if isDangerousSegment t then False
      else if uc_nfc uc t \<noteq> t then False
      else \<not> isDangerousSegment (uc_nfkc uc t))"

section \<open>The query\<close>

type_synonym query = "(utext, utext) jsmap"

definition split_pair :: "string \<Rightarrow> string \<times> string" where
  "split_pair pair = (takeWhile (\<lambda>c. c \<noteq> CHR ''='') pair, drop 1 (dropWhile (\<lambda>c. c \<noteq> CHR ''='') pair))"

fun parse_pairs :: "unicode \<Rightarrow> string list \<Rightarrow> query \<Rightarrow> query option" where
  "parse_pairs uc [] params = Some params"
| "parse_pairs uc (pair # pairs) params =
     (let (rawName, rawValue) = split_pair pair in
      if CHR ''%'' \<in> set rawName then None
      else (case (decodeURIComponent rawName, decodeURIComponent rawValue) of
          (Some name, Some v) \<Rightarrow>
            (if name = [] then None
             else if list_ex (uc_forbidden uc) name \<or> list_ex (uc_forbidden uc) v then None
             else if map_of params name \<noteq> None then None
             else parse_pairs uc pairs (params @ [(name, v)]))
        | _ \<Rightarrow> None))"

definition parseQuery :: "unicode \<Rightarrow> string \<Rightarrow> query option" where
  "parseQuery uc raw = (if raw = [] then Some [] else parse_pairs uc (split_on CHR ''&'' raw) [])"

section \<open>The seven shapes\<close>

definition OPERATION_CHANGING_HEADERS :: "string list" where
  "OPERATION_CHANGING_HEADERS =
     [''x-amz-copy-source'', ''x-amz-acl'', ''x-amz-grant-'', ''x-amz-tagging'', ''x-amz-metadata-directive'',
      ''x-amz-server-side-encryption'', ''x-amz-website-redirect-location'', ''x-amz-object-lock-'',
      ''x-amz-bypass-governance-retention'', ''x-amz-storage-class'']"

definition hasOperationChangingHeader :: "gateway_request \<Rightarrow> bool" where
  "hasOperationChangingHeader req =
     list_ex (\<lambda>name. list_ex (\<lambda>prefix. starts_with prefix (toLowerCase name)) OPERATION_CHANGING_HEADERS)
       (map fst (gq_headers req))"

definition KNOWN_PARAMS :: "utext list" where
  "KNOWN_PARAMS = map code_points [''x-id'', ''uploads'', ''uploadId'', ''partNumber'']"

definition only :: "query \<Rightarrow> string list \<Rightarrow> bool" where
  "only q names \<longleftrightarrow> list_all (\<lambda>n. n = code_points ''x-id'' \<or> n \<in> set (map code_points names)) (map fst q) \<and>
     list_all (\<lambda>n. map_of q (code_points n) \<noteq> None) names"

definition named :: "query \<Rightarrow> operation \<Rightarrow> operation option" where
  "named q op = (case map_of q (code_points ''x-id'') of
     None \<Rightarrow> Some op
   | Some marker \<Rightarrow> if marker = code_points (operation_name op) then Some op else None)"

definition classify :: "string \<Rightarrow> query \<Rightarrow> operation option" where
  "classify verb q =
     (if \<not> list_all (\<lambda>n. n \<in> set KNOWN_PARAMS) (map fst q) then None
      else if verb = ''PUT'' then
        (if only q [] then named q PutObject
         else if only q [''partNumber'', ''uploadId''] then named q UploadPart
         else None)
      else if verb = ''POST'' then
        (if only q [''uploads''] \<and> map_of q (code_points ''uploads'') = Some [] then named q CreateMultipartUpload
         else if only q [''uploadId''] then named q CompleteMultipartUpload
         else None)
      else if verb = ''DELETE'' then (if only q [''uploadId''] then named q AbortMultipartUpload else None)
      else if verb = ''GET'' then (if only q [] then named q GetObject else None)
      else if verb = ''HEAD'' then (if only q [] then named q HeadObject else None)
      else None)"

section \<open>The router\<close>

fun decode_segments :: "unicode \<Rightarrow> string list \<Rightarrow> utext list option" where
  "decode_segments uc [] = Some []"
| "decode_segments uc (s # ss) = (case decodeURIComponent s of
     None \<Rightarrow> None
   | Some decoded \<Rightarrow>
       (if \<not> isSafeSegment uc decoded then None else map_option (Cons decoded) (decode_segments uc ss)))"

definition raw_path :: "string \<Rightarrow> string" where
  "raw_path target = takeWhile (\<lambda>c. c \<noteq> CHR ''?'') target"

definition raw_query :: "string \<Rightarrow> string" where
  "raw_query target = drop 1 (dropWhile (\<lambda>c. c \<noteq> CHR ''?'') target)"

text \<open>From the query on: the operation, its upload id and its part number.\<close>

definition route_operation :: "gateway_request \<Rightarrow> string \<Rightarrow> utext \<Rightarrow> query \<Rightarrow> refusal_code + routed_request" where
  "route_operation req bucket key q = (case classify (gq_method req) q of
       None \<Rightarrow> Inl OperationNotAllowed
     | Some op \<Rightarrow>
         if hasOperationChangingHeader req then Inl OperationNotAllowed
         else
           (let uploadId = map_of q (code_points ''uploadId''); partText = map_of q (code_points ''partNumber'') in
            if uploadId = Some [] then Inl TargetMalformed
            else (case partText of
                None \<Rightarrow> Inr \<lparr>rr_operation = op, rr_bucket = bucket, rr_key = key, rr_uploadId = uploadId, rr_partNumber = None\<rparr>
              | Some t \<Rightarrow>
                  (if \<not> PART_NUMBER t \<or> number_of_codes t > MAX_PART_NUMBER then Inl TargetMalformed
                   else Inr \<lparr>rr_operation = op, rr_bucket = bucket, rr_key = key, rr_uploadId = uploadId,
                          rr_partNumber = Some (number_of_codes t)\<rparr>))))"

definition routeRequest :: "unicode \<Rightarrow> gateway_request \<Rightarrow> refusal_code + routed_request" where
  "routeRequest uc req =
     (let target = gq_rawTarget req in
      if length target > MAX_TARGET_LENGTH \<or> \<not> RAW_TARGET_OK target \<or> \<not> starts_with ''/'' target then Inl TargetMalformed
      else
        (let segments = split_on CHR ''/'' (drop 1 (raw_path target)); bucket = hd segments; keySegments = tl segments in
         if keySegments = [] \<or> keySegments = [[]] then Inl OperationNotAllowed
         else if ENCODED_SEPARATOR_OR_DOT (raw_path target) \<or> \<not> BUCKET_NAME bucket then Inl TargetMalformed
         else (case decode_segments uc keySegments of
             None \<Rightarrow> Inl TargetMalformed
           | Some decodedSegments \<Rightarrow>
               (let key = join_with 47 decodedSegments in
                if length (utf8_encode key) > MAX_KEY_BYTES then Inl TargetMalformed
                else (case parseQuery uc (raw_query target) of
                    None \<Rightarrow> Inl TargetMalformed
                  | Some q \<Rightarrow> route_operation req bucket key q)))))"

section \<open>The folder guard\<close>

definition isValidFolder :: "unicode \<Rightarrow> utext \<Rightarrow> bool" where
  "isValidFolder uc folder \<longleftrightarrow> isSafeSegment uc folder \<and> 63 \<notin> set folder"

definition guardTenant :: "unicode \<Rightarrow> routed_request \<Rightarrow> credential_record \<Rightarrow> refusal_code option" where
  "guardTenant uc route credential =
     (if \<not> isValidFolder uc (cr_folder credential) \<or> \<not> BUCKET_NAME (cr_bucket credential) then Some CredentialInvalid
      else if rr_bucket route \<noteq> cr_bucket credential then Some BucketNotAllowed
      else
        (let separator = length (takeWhile (\<lambda>c. c \<noteq> 47) (rr_key route)) in
         if separator = length (rr_key route) \<or> separator + 1 = length (rr_key route) then Some KeyOutsideFolder
         else if take separator (rr_key route) \<noteq> cr_folder credential then Some KeyOutsideFolder
         else None))"

end
