(* ===== verification/Storage_Routing.thy ===== *)
theory Storage_Routing
  imports Storage_Router
begin

text \<open>
  What a routed request looks like: the shape of its operation, the segments of its key, and that no reading of
  the key as a path, before or after compatibility folding, leaves the folder the guard compared.
\<close>

section \<open>Splitting\<close>

lemma takeWhile_dropWhile_split: "c \<in> set s \<Longrightarrow> s = takeWhile (\<lambda>x. x \<noteq> c) s @ c # drop 1 (dropWhile (\<lambda>x. x \<noteq> c) s)"
  by (induction s) auto

lemma split_on_takeWhile:
  "split_on c s = takeWhile (\<lambda>x. x \<noteq> c) s # (if c \<in> set s then split_on c (drop 1 (dropWhile (\<lambda>x. x \<noteq> c) s)) else [])"
proof (cases "c \<in> set s")
  case True
  have "c \<notin> set (takeWhile (\<lambda>x. x \<noteq> c) s)" by (auto dest: set_takeWhileD)
  with True show ?thesis
    using split_on_append [of c "takeWhile (\<lambda>x. x \<noteq> c) s" "drop 1 (dropWhile (\<lambda>x. x \<noteq> c) s)"]
      takeWhile_dropWhile_split [OF True, symmetric] by simp
next
  case False
  then have "takeWhile (\<lambda>x. x \<noteq> c) s = s" by (subst takeWhile_eq_all_conv) auto
  with split_on_plain [OF False] False show ?thesis by presburger
qed

lemma split_on_no_sep: "p \<in> set (split_on c s) \<Longrightarrow> c \<notin> set p"
proof (induction s arbitrary: p)
  case (Cons x s)
  then show ?case
    by (cases "split_on c s") (auto split: if_splits)
qed simp

section \<open>Reading a key as a path\<close>

text \<open>How a reader that collapses empty, dot and dot-dot segments walks a path.\<close>

definition walk :: "utext list \<Rightarrow> utext \<Rightarrow> utext list" where
  "walk at segment =
     (if segment = [] \<or> segment = [46] then at else if segment = [46, 46] then butlast at else at @ [segment])"

definition resolve :: "utext \<Rightarrow> utext list" where
  "resolve key = foldl walk [] (split_on 47 key)"

lemma walk_plain: "\<forall>s\<in>set ss. \<not> isDangerousSegment s \<Longrightarrow> foldl walk at ss = at @ ss"
  by (induction ss arbitrary: at) (auto simp: walk_def isDangerousSegment_def)

lemma resolve_plain:
  assumes "ss \<noteq> []" "\<forall>s\<in>set ss. \<not> isDangerousSegment s"
  shows "resolve (join_with 47 ss) = ss"
proof -
  have "split_on 47 (join_with 47 ss) = ss"
    using assms by (intro split_join) (auto simp: isDangerousSegment_def)
  then show ?thesis
    using walk_plain [OF assms(2)] by (simp add: resolve_def)
qed

lemma isSafeSegmentD:
  assumes "isSafeSegment uc s"
  shows "\<not> isDangerousSegment s" "\<not> isDangerousSegment (uc_nfkc uc s)" "uc_nfc uc s = s"
    "c \<in> set s \<Longrightarrow> c \<noteq> 32 \<Longrightarrow> \<not> uc_forbidden uc c"
  using assms by (auto simp: isSafeSegment_def list_ex_iff split: if_splits)

section \<open>What the router lets through\<close>

definition method_of :: "operation \<Rightarrow> string" where
  "method_of op = (case op of
       PutObject \<Rightarrow> ''PUT'' | UploadPart \<Rightarrow> ''PUT'' | CreateMultipartUpload \<Rightarrow> ''POST''
     | CompleteMultipartUpload \<Rightarrow> ''POST'' | AbortMultipartUpload \<Rightarrow> ''DELETE'' | GetObject \<Rightarrow> ''GET'' | HeadObject \<Rightarrow> ''HEAD'')"

definition needs_upload :: "operation \<Rightarrow> bool" where
  "needs_upload op \<longleftrightarrow> op \<in> {UploadPart, CompleteMultipartUpload, AbortMultipartUpload}"

lemma code_points_eq_iff: "code_points s = code_points t \<longleftrightarrow> s = t"
proof
  assume "code_points s = code_points t"
  then show "s = t"
    unfolding code_points_def by (rule map_injective) (simp add: inj_def)
qed simp

lemma only_iff:
  "only q names \<longleftrightarrow> fst ` set q \<subseteq> insert (code_points ''x-id'') (code_points ` set names) \<and>
     code_points ` set names \<subseteq> fst ` set q"
  by (auto simp: only_def list_all_iff map_of_eq_None_iff)

lemma classify_cases:
  assumes "classify verb q = Some op"
  shows "verb = ''PUT'' \<and> op = PutObject \<and> only q [] \<or>
    verb = ''PUT'' \<and> op = UploadPart \<and> only q [''partNumber'', ''uploadId''] \<or>
    verb = ''POST'' \<and> op = CreateMultipartUpload \<and> only q [''uploads''] \<or>
    verb = ''POST'' \<and> op = CompleteMultipartUpload \<and> only q [''uploadId''] \<or>
    verb = ''DELETE'' \<and> op = AbortMultipartUpload \<and> only q [''uploadId''] \<or>
    verb = ''GET'' \<and> op = GetObject \<and> only q [] \<or> verb = ''HEAD'' \<and> op = HeadObject \<and> only q []"
proof -
  have named: "named q op' = Some op \<Longrightarrow> op = op'" for op'
    by (auto simp: named_def split: option.splits if_splits)
  show ?thesis
    using assms by (auto simp: classify_def split: if_splits dest!: named)
qed

lemma in_query: "map_of q (code_points n) \<noteq> None \<longleftrightarrow> code_points n \<in> fst ` set q"
  by (simp add: map_of_eq_None_iff)

lemma classify_sound:
  assumes "classify verb q = Some op"
  shows "verb = method_of op" "map_of q (code_points ''uploadId'') \<noteq> None \<longleftrightarrow> needs_upload op"
    "map_of q (code_points ''partNumber'') \<noteq> None \<longleftrightarrow> op = UploadPart"
proof -
  have other: "code_points n \<notin> fst ` set q" if "only q names" "n \<noteq> ''x-id''" "n \<notin> set names" for n names
    using that by (auto simp: only_iff code_points_eq_iff dest!: subsetD)
  have listed: "code_points n \<in> fst ` set q" if "only q names" "n \<in> set names" for n names
    using that by (auto simp: only_iff)
  note cases = classify_cases [OF assms]
  show "verb = method_of op" using cases by (auto simp: method_of_def)
  show "map_of q (code_points ''uploadId'') \<noteq> None \<longleftrightarrow> needs_upload op"
    unfolding in_query using cases
    by (elim disjE conjE) (simp_all add: needs_upload_def other listed)
  show "map_of q (code_points ''partNumber'') \<noteq> None \<longleftrightarrow> op = UploadPart"
    unfolding in_query using cases
    by (elim disjE conjE) (simp_all add: other listed)
qed

lemma part_number_bounds:
  assumes "PART_NUMBER t"
  shows "1 \<le> number_of_codes t"
proof -
  have mono: "n \<le> foldl (\<lambda>n c. 10 * n + (c - 48)) n cs" for n and cs :: utext
  proof (induction cs arbitrary: n)
    case (Cons c cs)
    have "n \<le> 10 * n + (c - 48)" by simp
    also have "\<dots> \<le> foldl (\<lambda>n c. 10 * n + (c - 48)) (10 * n + (c - 48)) cs" by (rule Cons.IH)
    finally show ?case by simp
  qed simp
  from assms obtain c cs where "t = c # cs" "1 \<le> c - 48"
    by (cases t) (auto simp: PART_NUMBER_def digit_code_def)
  with mono [of "c - 48" cs] show ?thesis
    by (simp add: number_of_codes_def)
qed

lemma route_operation_sound:
  assumes "route_operation req bucket key q = Inr r"
  shows "rr_bucket r = bucket" "rr_key r = key" "gq_method req = method_of (rr_operation r)"
    "rr_uploadId r \<noteq> None \<longleftrightarrow> needs_upload (rr_operation r)" "rr_uploadId r \<noteq> Some []"
    "rr_partNumber r \<noteq> None \<longleftrightarrow> rr_operation r = UploadPart"
    "rr_partNumber r = Some n \<Longrightarrow> 1 \<le> n \<and> n \<le> MAX_PART_NUMBER"
    "\<not> hasOperationChangingHeader req" "rr_uploadId r = map_of q (code_points ''uploadId'')"
    "rr_partNumber r = map_option number_of_codes (map_of q (code_points ''partNumber''))"
    "classify (gq_method req) q = Some (rr_operation r)"
proof -
  obtain op where op: "classify (gq_method req) q = Some op" and no: "\<not> hasOperationChangingHeader req"
    using assms by (auto simp: route_operation_def split: option.splits if_splits)
  have r: "map_of q (code_points ''uploadId'') \<noteq> Some []"
    "r = \<lparr>rr_operation = op, rr_bucket = bucket, rr_key = key, rr_uploadId = map_of q (code_points ''uploadId''),
       rr_partNumber = map_option number_of_codes (map_of q (code_points ''partNumber''))\<rparr>"
    "map_of q (code_points ''partNumber'') = Some t \<Longrightarrow> PART_NUMBER t \<and> number_of_codes t \<le> MAX_PART_NUMBER" for t
    using assms op no by (auto simp: route_operation_def Let_def split: option.splits if_splits)
  note sound = classify_sound [OF op]
  show "rr_bucket r = bucket" "rr_key r = key" "gq_method req = method_of (rr_operation r)"
    "rr_uploadId r \<noteq> None \<longleftrightarrow> needs_upload (rr_operation r)" "rr_uploadId r \<noteq> Some []"
    "rr_partNumber r \<noteq> None \<longleftrightarrow> rr_operation r = UploadPart" "\<not> hasOperationChangingHeader req"
    "rr_uploadId r = map_of q (code_points ''uploadId'')"
    "rr_partNumber r = map_option number_of_codes (map_of q (code_points ''partNumber''))"
    "classify (gq_method req) q = Some (rr_operation r)"
    using sound r(1) no op by (simp_all add: r(2))
  show "1 \<le> n \<and> n \<le> MAX_PART_NUMBER" if "rr_partNumber r = Some n"
    using that r(3) part_number_bounds by (auto simp: r(2))
qed

lemma decode_segments_sound:
  "decode_segments uc ss = Some ds \<Longrightarrow>
     list_all (isSafeSegment uc) ds \<and> map decodeURIComponent ss = map Some ds \<and> length ds = length ss"
  by (induction uc ss arbitrary: ds rule: decode_segments.induct) (auto split: option.splits if_splits)

text \<open>
  The routed request with the path it was read from: every raw segment decodes, once, to the segment of the key.
\<close>

lemma routeRequest_sound:
  assumes "routeRequest uc req = Inr r"
  obtains raws segs q where
    "raw_path (gq_rawTarget req) = CHR ''/'' # join_with CHR ''/'' (rr_bucket r # raws)"
    "map decodeURIComponent raws = map Some segs" "segs \<noteq> []" "list_all (isSafeSegment uc) segs"
    "rr_key r = join_with 47 segs" "BUCKET_NAME (rr_bucket r)" "length (utf8_encode (rr_key r)) \<le> MAX_KEY_BYTES"
    "parseQuery uc (raw_query (gq_rawTarget req)) = Some q" "route_operation req (rr_bucket r) (rr_key r) q = Inr r"
    "RAW_TARGET_OK (gq_rawTarget req)" "\<not> ENCODED_SEPARATOR_OR_DOT (raw_path (gq_rawTarget req))"
proof -
  let ?target = "gq_rawTarget req"
  obtain bucket raws where split: "split_on CHR ''/'' (drop 1 (raw_path ?target)) = bucket # raws"
    by (meson list.exhaust split_on_nonempty)
  obtain segs q where ok: "RAW_TARGET_OK ?target" "starts_with ''/'' ?target" "raws \<noteq> []"
      "\<not> ENCODED_SEPARATOR_OR_DOT (raw_path ?target)" "BUCKET_NAME bucket"
      "decode_segments uc raws = Some segs" "length (utf8_encode (join_with 47 segs)) \<le> MAX_KEY_BYTES"
      "parseQuery uc (raw_query ?target) = Some q"
      "route_operation req bucket (join_with 47 segs) q = Inr r"
    using assms unfolding routeRequest_def Let_def split
    by (auto simp: not_less split: if_splits option.splits)
  note r = route_operation_sound(1,2) [OF ok(9)]
  have "raw_path ?target = CHR ''/'' # drop 1 (raw_path ?target)"
    using ok(2) by (cases ?target) (auto simp: starts_with_def raw_path_def)
  also have "drop 1 (raw_path ?target) = join_with CHR ''/'' (rr_bucket r # raws)"
    using join_split [of "CHR ''/''" "drop 1 (raw_path ?target)"] by (simp only: split r)
  finally have path: "raw_path ?target = CHR ''/'' # join_with CHR ''/'' (rr_bucket r # raws)" .
  note segs = decode_segments_sound [OF ok(6)]
  show thesis
    by (rule that [of raws segs q])
       (use segs ok path in \<open>simp_all only: r conj_assoc length_0_conv [symmetric] not_False_eq_True\<close>)
qed

section \<open>The folder guard\<close>

lemma guardTenant_sound:
  assumes "guardTenant uc r cred = None"
  shows "isValidFolder uc (cr_folder cred)" "rr_bucket r = cr_bucket cred"
    "\<exists>name. name \<noteq> [] \<and> rr_key r = cr_folder cred @ 47 # name"
proof -
  let ?s = "length (takeWhile (\<lambda>c. c \<noteq> 47) (rr_key r))"
  have guard: "isValidFolder uc (cr_folder cred)" "rr_bucket r = cr_bucket cred" "?s \<noteq> length (rr_key r)"
      "?s + 1 \<noteq> length (rr_key r)" "take ?s (rr_key r) = cr_folder cred"
    using assms by (auto simp: guardTenant_def Let_def split: if_splits)
  show "isValidFolder uc (cr_folder cred)" "rr_bucket r = cr_bucket cred" by fact+
  have "47 \<in> set (rr_key r)"
    using guard(3) by (metis (full_types) takeWhile_eq_all_conv)
  note key = takeWhile_dropWhile_split [OF this]
  have "take ?s (rr_key r) = takeWhile (\<lambda>c. c \<noteq> 47) (rr_key r)" by (metis takeWhile_eq_take)
  with guard(5) have folder: "takeWhile (\<lambda>c. c \<noteq> 47) (rr_key r) = cr_folder cred" by simp
  have "length (rr_key r) = ?s + 1 + length (drop 1 (dropWhile (\<lambda>c. c \<noteq> 47) (rr_key r)))"
    by (subst key) simp
  with guard(4) have "drop 1 (dropWhile (\<lambda>c. c \<noteq> 47) (rr_key r)) \<noteq> []" by auto
  with key show "\<exists>name. name \<noteq> [] \<and> rr_key r = cr_folder cred @ 47 # name"
    unfolding folder by blast
qed

text \<open>
  A key inside a folder: it begins with the folder and a separator, and every reader that decodes nothing more
  but collapses dot segments, as it stands or after compatibility folding, finds the folder first and a name
  after it.
\<close>

definition inside_folder :: "unicode \<Rightarrow> utext \<Rightarrow> utext \<Rightarrow> bool" where
  "inside_folder uc folder key \<longleftrightarrow> (\<exists>names. names \<noteq> [] \<and> key = join_with 47 (folder # names) \<and>
     resolve key = folder # names \<and>
     resolve (join_with 47 (map (uc_nfkc uc) (folder # names))) = map (uc_nfkc uc) (folder # names) \<and>
     map (uc_nfc uc) (folder # names) = folder # names)"

lemma guarded_inside_folder:
  assumes "routeRequest uc req = Inr r" "guardTenant uc r cred = None"
  shows "inside_folder uc (cr_folder cred) (rr_key r)" "rr_bucket r = cr_bucket cred"
proof -
  from assms(1) obtain segs where segs: "segs \<noteq> []" "list_all (isSafeSegment uc) segs" "rr_key r = join_with 47 segs"
    by (rule routeRequest_sound)
  obtain name where name: "name \<noteq> []" "rr_key r = cr_folder cred @ 47 # name"
    using guardTenant_sound(3) [OF assms(2)] by blast
  have safe: "\<forall>s\<in>set segs. \<not> isDangerousSegment s" "\<forall>s\<in>set (map (uc_nfkc uc) segs). \<not> isDangerousSegment s"
      "map (uc_nfc uc) segs = segs"
    using segs(2) by (auto simp: list_all_iff intro!: map_idI dest: isSafeSegmentD)
  have "47 \<notin> set (cr_folder cred)"
    using guardTenant_sound(1) [OF assms(2)] by (auto simp: isValidFolder_def isDangerousSegment_def dest: isSafeSegmentD)
  moreover have "split_on 47 (rr_key r) = segs"
    using segs safe(1) by (auto simp: isDangerousSegment_def intro!: split_join)
  ultimately have split: "segs = cr_folder cred # split_on 47 name"
    using split_on_append [of 47 "cr_folder cred" name] by (simp add: name(2))
  show "inside_folder uc (cr_folder cred) (rr_key r)"
    unfolding inside_folder_def
    using segs(1,3) safe resolve_plain [OF segs(1) safe(1)] resolve_plain [OF _ safe(2)]
    by (intro exI [of _ "split_on 47 name"]) (simp add: split)
  show "rr_bucket r = cr_bucket cred" by (rule guardTenant_sound(2) [OF assms(2)])
qed

end
