(* ===== verification/Storage_Admit.thy ===== *)
theory Storage_Admit
  imports Storage_Routing
begin

text \<open>
  Admission to the storage gateway and the table of open uploads:
  \<open>src/services/storage-gateway/src/admit.ts\<close> and \<open>uploads.ts\<close>.

  The verifier, the credential store, the upload table and the logger are what \<open>admit\<close> is given: each may
  answer anything, throw, or never return.  The state is the list of log entries handed to the logger.
\<close>

section \<open>The table of open uploads\<close>

record upload_binding =
  ub_keyId :: string
  ub_bucket :: string
  ub_key :: utext

type_synonym upload_table = "(utext, upload_binding \<times> int) jsmap"

definition DEFAULT_UPLOAD_BINDING_LIMIT :: nat where
  "DEFAULT_UPLOAD_BINDING_LIMIT = 10000"

definition DEFAULT_UPLOAD_BINDING_TTL_MS :: int where
  "DEFAULT_UPLOAD_BINDING_TTL_MS = 24 * 60 * 60 * 1000"

definition sweep_uploads :: "int \<Rightarrow> upload_table \<Rightarrow> upload_table" where
  "sweep_uploads now table = filter (\<lambda>(_, _, expiresAtMs). now < expiresAtMs) table"

definition bind_upload :: "nat \<Rightarrow> int \<Rightarrow> int \<Rightarrow> utext \<Rightarrow> upload_binding \<Rightarrow> upload_table \<Rightarrow> bool \<times> upload_table" where
  "bind_upload limit ttlMs now uploadId binding table =
     (let swept = (if limit \<le> length table then sweep_uploads now table else table) in
      if limit \<le> length swept then (False, swept)
      else (True, AList.update uploadId (binding, now + ttlMs) swept))"

definition isBound :: "int \<Rightarrow> utext \<Rightarrow> upload_binding \<Rightarrow> upload_table \<Rightarrow> bool" where
  "isBound now uploadId binding table = (case map_of table uploadId of
       None \<Rightarrow> False
     | Some (entry, expiresAtMs) \<Rightarrow>
         if expiresAtMs \<le> now then False
         else ub_keyId entry = ub_keyId binding \<and> ub_bucket entry = ub_bucket binding \<and> ub_key entry = ub_key binding)"

definition release_upload :: "utext \<Rightarrow> upload_table \<Rightarrow> upload_table" where
  "release_upload uploadId table = AList.delete uploadId table"

section \<open>Admission\<close>

record refusal_log =
  rl_code :: refusal_code
  rl_status :: nat
  rl_method :: string
  rl_keyId :: "string option"
  rl_folder :: "utext option"
  rl_operation :: "operation option"

text \<open>What a verifier answers; \<open>None\<close> stands for a key id that is not a string.\<close>

datatype verify_result = Verified "string option" | NotVerified refusal_code

record admit_deps =
  ad_verify :: "gateway_request \<Rightarrow> (js_exn, verify_result) outcome"
  ad_lookup :: "string \<Rightarrow> (js_exn, credential_record option) outcome"
  ad_logger :: "refusal_log \<Rightarrow> (js_exn, unit) outcome"
  ad_uploads :: "(utext \<Rightarrow> upload_binding \<Rightarrow> (js_exn, bool) outcome) option"

datatype admit_result = Admitted routed_request string utext string | Rejected refusal_answer

type_synonym 'a admitting = "(refusal_log list, js_exn, 'a) prog"

definition call :: "(js_exn, 'a) outcome \<Rightarrow> 'a admitting" where
  "call r = (\<lambda>s. (r, s))"

definition refuse ::
  "admit_deps \<Rightarrow> gateway_request \<Rightarrow> refusal_code \<Rightarrow> string option \<Rightarrow> utext option \<Rightarrow> operation option \<Rightarrow> admit_result admitting" where
  "refuse deps req code keyId folder op =
     (let entry = \<lparr>rl_code = code, rl_status = rf_status (refusal code), rl_method = gq_method req,
                   rl_keyId = keyId, rl_folder = folder, rl_operation = op\<rparr> in
      thenE (modifyE (\<lambda>log. log @ [entry])) (thenE (call (ad_logger deps entry)) (returnE (Rejected (refusal code)))))"

text \<open>Each of the three guarded calls: the refusal to return, or the value to go on with.\<close>

definition verified_key :: "admit_deps \<Rightarrow> gateway_request \<Rightarrow> (admit_result + string) admitting" where
  "verified_key deps req = catchE
     (bindE (call (ad_verify deps req)) (\<lambda>verified. case verified of
        NotVerified code \<Rightarrow> bindE (refuse deps req code None None None) (\<lambda>r. returnE (Inl r))
      | Verified keyId \<Rightarrow>
          (case keyId of
             Some k \<Rightarrow>
               (if k = [] then bindE (refuse deps req InternalError None None None) (\<lambda>r. returnE (Inl r))
                else returnE (Inr k))
           | None \<Rightarrow> bindE (refuse deps req InternalError None None None) (\<lambda>r. returnE (Inl r)))))
     (\<lambda>_. bindE (refuse deps req InternalError None None None) (\<lambda>r. returnE (Inl r)))"

definition looked_up :: "admit_deps \<Rightarrow> gateway_request \<Rightarrow> string \<Rightarrow> (admit_result + credential_record option) admitting" where
  "looked_up deps req keyId = catchE
     (bindE (call (ad_lookup deps keyId)) (\<lambda>c. returnE (Inr c)))
     (\<lambda>_. bindE (refuse deps req InternalError (Some keyId) None None) (\<lambda>r. returnE (Inl r)))"

definition UPLOAD_FOLLOW_UPS :: "operation list" where
  "UPLOAD_FOLLOW_UPS = [UploadPart, CompleteMultipartUpload, AbortMultipartUpload]"

definition check_bound :: "admit_deps \<Rightarrow> gateway_request \<Rightarrow> string \<Rightarrow> utext \<Rightarrow> routed_request \<Rightarrow> (admit_result + bool) admitting" where
  "check_bound deps req keyId folder route = (case (ad_uploads deps, rr_uploadId route) of
       (Some bound, Some uploadId) \<Rightarrow>
         if rr_operation route \<in> set UPLOAD_FOLLOW_UPS then
           catchE
             (bindE (call (bound uploadId \<lparr>ub_keyId = keyId, ub_bucket = rr_bucket route, ub_key = rr_key route\<rparr>))
               (\<lambda>b. returnE (Inr b)))
             (\<lambda>_. bindE (refuse deps req InternalError (Some keyId) (Some folder) (Some (rr_operation route))) (\<lambda>r. returnE (Inl r)))
         else returnE (Inr True)
     | _ \<Rightarrow> returnE (Inr True))"

definition admit_route :: "admit_deps \<Rightarrow> unicode \<Rightarrow> gateway_request \<Rightarrow> string \<Rightarrow> credential_record \<Rightarrow> admit_result admitting" where
  "admit_route deps uc req keyId credential =
     (let folder = cr_folder credential in
      case routeRequest uc req of
        Inl code \<Rightarrow> refuse deps req code (Some keyId) (Some folder) None
      | Inr route \<Rightarrow>
          (case guardTenant uc route credential of
             Some code \<Rightarrow> refuse deps req code (Some keyId) (Some folder) (Some (rr_operation route))
           | None \<Rightarrow>
               bindE (check_bound deps req keyId folder route) (\<lambda>checked. case checked of
                 Inl r \<Rightarrow> returnE r
               | Inr bound \<Rightarrow>
                   if \<not> bound then refuse deps req UploadNotBound (Some keyId) (Some folder) (Some (rr_operation route))
                   else returnE (Admitted route keyId folder (cr_bucket credential)))))"

definition admit :: "admit_deps \<Rightarrow> unicode \<Rightarrow> gateway_request \<Rightarrow> admit_result admitting" where
  "admit deps uc req =
     bindE (verified_key deps req) (\<lambda>v. case v of
       Inl r \<Rightarrow> returnE r
     | Inr keyId \<Rightarrow>
         bindE (looked_up deps req keyId) (\<lambda>c. case c of
           Inl r \<Rightarrow> returnE r
         | Inr None \<Rightarrow> refuse deps req SignatureRefused (Some keyId) None None
         | Inr (Some credential) \<Rightarrow>
             if cr_state credential \<noteq> Active
             then refuse deps req CredentialNotActive (Some keyId) (Some (cr_folder credential)) None
             else admit_route deps uc req keyId credential))"

section \<open>The table keeps its promises\<close>

lemma map_of_sweep: "wf_map table \<Longrightarrow> map_of (sweep_uploads now table) k =
    (case map_of table k of Some (b, e) \<Rightarrow> if now < e then Some (b, e) else None | None \<Rightarrow> None)"
proof (induction table)
  case (Cons entry table)
  obtain k' b e where entry: "entry = (k', b, e)" by (cases entry)
  with Cons.prems have "map_of table k' = None" "wf_map table"
    by (simp_all add: wf_map_Cons map_of_eq_None_iff)
  with Cons.IH show ?case
    by (auto simp: entry sweep_uploads_def split: option.splits)
qed (simp add: sweep_uploads_def)

lemma wf_sweep: "wf_map table \<Longrightarrow> wf_map (sweep_uploads now table)"
  by (auto simp: wf_map_def sweep_uploads_def distinct_map intro: inj_on_subset)

datatype upload_op = Bind int utext upload_binding | Release utext

definition upload_step :: "nat \<Rightarrow> int \<Rightarrow> upload_table \<Rightarrow> upload_op \<Rightarrow> upload_table" where
  "upload_step limit ttl table op = (case op of
       Bind now uploadId b \<Rightarrow> snd (bind_upload limit ttl now uploadId b table)
     | Release uploadId \<Rightarrow> release_upload uploadId table)"

definition upload_run :: "nat \<Rightarrow> int \<Rightarrow> upload_op list \<Rightarrow> upload_table" where
  "upload_run limit ttl ops = foldl (upload_step limit ttl) [] ops"

text \<open>
  The entry of an id is the one the last accepted bind wrote, with nothing released since; a bind the full table
  refused may have come in between.
\<close>

definition bound_by :: "nat \<Rightarrow> int \<Rightarrow> upload_op list \<Rightarrow> utext \<Rightarrow> upload_binding \<Rightarrow> int \<Rightarrow> bool" where
  "bound_by limit ttl ops uploadId b expires \<longleftrightarrow> (\<exists>pre now post. ops = pre @ Bind now uploadId b # post \<and>
     expires = now + ttl \<and> Release uploadId \<notin> set post \<and>
     fst (bind_upload limit ttl now uploadId b (upload_run limit ttl pre)) \<and>
     (\<forall>pre' now' b' post'. post = pre' @ Bind now' uploadId b' # post' \<longrightarrow>
        \<not> fst (bind_upload limit ttl now' uploadId b' (upload_run limit ttl (pre @ Bind now uploadId b # pre')))))"

lemma upload_run_snoc: "upload_run limit ttl (ops @ [op]) = upload_step limit ttl (upload_run limit ttl ops) op"
  by (simp add: upload_run_def)

lemma bind_length:
  assumes "length table \<le> limit"
  shows "length (snd (bind_upload limit ttl now u b table)) \<le> limit"
proof -
  define swept where "swept = (if limit \<le> length table then sweep_uploads now table else table)"
  have small: "length swept \<le> limit"
    using assms length_filter_le [of _ table] by (simp add: swept_def sweep_uploads_def)
  have update: "length (AList.update u (b, now + ttl) swept) \<le> Suc (length swept)"
    by (cases "u \<in> fst ` set swept") (simp_all add: length_update_present length_update_absent)
  show ?thesis
  proof (cases "limit \<le> length swept")
    case True
    with small show ?thesis by (simp add: bind_upload_def swept_def [symmetric])
  next
    case False
    with update show ?thesis by (simp add: bind_upload_def swept_def [symmetric])
  qed
qed

lemma upload_run_inv: "wf_map (upload_run limit ttl ops) \<and> length (upload_run limit ttl ops) \<le> limit"
proof (induction ops rule: rev_induct)
  case Nil
  then show ?case by (simp add: upload_run_def)
next
  case (snoc op ops)
  then show ?case
    using bind_length [of "upload_run limit ttl ops" limit ttl]
    by (cases op) (auto simp: upload_run_snoc upload_step_def release_upload_def bind_upload_def Let_def wf_sweep
        intro: order_trans [OF length_delete_le])
qed

lemma bound_by_snoc:
  assumes "bound_by limit ttl ops u b e"
    and "\<And>now b'. op = Bind now u b' \<Longrightarrow> \<not> fst (bind_upload limit ttl now u b' (upload_run limit ttl ops))"
    and "op \<noteq> Release u"
  shows "bound_by limit ttl (ops @ [op]) u b e"
proof -
  from assms(1) obtain pre now post where b: "ops = pre @ Bind now u b # post" "e = now + ttl" "Release u \<notin> set post"
      "fst (bind_upload limit ttl now u b (upload_run limit ttl pre))"
      "\<And>pre' now' b' post'. post = pre' @ Bind now' u b' # post' \<Longrightarrow>
        \<not> fst (bind_upload limit ttl now' u b' (upload_run limit ttl (pre @ Bind now u b # pre')))"
    unfolding bound_by_def by blast
  have "\<not> fst (bind_upload limit ttl now' u b' (upload_run limit ttl (pre @ Bind now u b # pre')))"
    if "post @ [op] = pre' @ Bind now' u b' # post'" for pre' now' b' post'
  proof (cases post' rule: rev_cases)
    case Nil
    with that have "post = pre'" "op = Bind now' u b'" by simp_all
    with assms(2) show ?thesis by (simp add: b(1))
  next
    case (snoc ys y)
    with that have "post = pre' @ Bind now' u b' # ys" by simp
    then show ?thesis by (rule b(5))
  qed
  then show ?thesis
    unfolding bound_by_def using b(1-4) assms(3)
    by (intro exI [of _ pre] exI [of _ now] exI [of _ "post @ [op]"]) auto
qed

lemma upload_table_entry:
  "map_of (upload_run limit ttl ops) u = Some (b, e) \<Longrightarrow> bound_by limit ttl ops u b e"
proof (induction ops arbitrary: b e rule: rev_induct)
  case Nil
  then show ?case by (simp add: upload_run_def)
next
  case (snoc op ops)
  let ?t = "upload_run limit ttl ops"
  have wf: "wf_map ?t" using upload_run_inv by blast
  show ?case
  proof (cases op)
    case (Release u')
    with snoc.prems have "u' \<noteq> u" "map_of ?t u = Some (b, e)"
      by (auto simp: upload_run_snoc upload_step_def release_upload_def split: if_splits)
    with snoc.IH Release show ?thesis by (auto intro: bound_by_snoc)
  next
    case (Bind now u' b')
    show ?thesis
    proof (cases "u' = u \<and> fst (bind_upload limit ttl now u' b' ?t)")
      case True
      with snoc.prems Bind have "b = b'" "e = now + ttl"
        by (auto simp: upload_run_snoc upload_step_def bind_upload_def Let_def split: if_splits)
      with True Bind show ?thesis
        unfolding bound_by_def by (intro exI [of _ ops] exI [of _ now] exI [of _ "[]"]) auto
    next
      case False
      with snoc.prems Bind wf have "map_of ?t u = Some (b, e)"
        by (auto simp: upload_run_snoc upload_step_def bind_upload_def Let_def map_of_sweep split: if_splits option.splits)
      with snoc.IH Bind False show ?thesis by (auto intro: bound_by_snoc)
    qed
  qed
qed

section \<open>Every way through \<open>admit\<close>\<close>

lemma wp_call [simp]:
  "wp (call r) Q E C s = (case r of Ok x \<Rightarrow> Q x s | Throw e \<Rightarrow> E e s | Crash \<Rightarrow> C s)"
  by (simp add: wp_def call_def)

definition admissible :: "admit_deps \<Rightarrow> unicode \<Rightarrow> gateway_request \<Rightarrow> routed_request \<Rightarrow> string \<Rightarrow> utext \<Rightarrow> string \<Rightarrow> bool" where
  "admissible deps uc req route keyId folder bucket \<longleftrightarrow>
     ad_verify deps req = Ok (Verified (Some keyId)) \<and> keyId \<noteq> [] \<and>
     (\<exists>cred. ad_lookup deps keyId = Ok (Some cred) \<and> cr_state cred = Active \<and> cr_folder cred = folder \<and>
        cr_bucket cred = bucket \<and> guardTenant uc route cred = None) \<and>
     routeRequest uc req = Inr route \<and>
     (\<forall>bound uploadId. ad_uploads deps = Some bound \<and> rr_uploadId route = Some uploadId \<longrightarrow>
        bound uploadId \<lparr>ub_keyId = keyId, ub_bucket = bucket, ub_key = rr_key route\<rparr> = Ok True)"

definition answered :: "admit_deps \<Rightarrow> unicode \<Rightarrow> gateway_request \<Rightarrow> refusal_log list \<Rightarrow> admit_result \<Rightarrow> refusal_log list \<Rightarrow> bool" where
  "answered deps uc req log result log' \<longleftrightarrow> (case result of
       Admitted route keyId folder bucket \<Rightarrow> log' = log \<and> admissible deps uc req route keyId folder bucket
     | Rejected r \<Rightarrow> (\<exists>before entry. log' = log @ before @ [entry] \<and> ad_logger deps entry = Ok () \<and> length before \<le> 1 \<and>
         r = refusal (rl_code entry) \<and> rl_status entry = rf_status r \<and> rl_method entry = gq_method req))"

definition logger_failed :: "admit_deps \<Rightarrow> refusal_log list \<Rightarrow> js_exn \<Rightarrow> refusal_log list \<Rightarrow> bool" where
  "logger_failed deps log e log' \<longleftrightarrow> (\<exists>before entry. log' = log @ before @ [entry] \<and> ad_logger deps entry = Throw e)"

lemma refusal_code_refusal [simp]: "rf_code (refusal c) = c"
  by (simp add: refusal_def Let_def split: refusal_code.split)

text \<open>Something \<open>admit\<close> waits for never answers.\<close>

definition stalled :: "admit_deps \<Rightarrow> gateway_request \<Rightarrow> bool" where
  "stalled deps req \<longleftrightarrow> ad_verify deps req = Crash \<or> (\<exists>keyId. ad_lookup deps keyId = Crash) \<or> (\<exists>entry. ad_logger deps entry = Crash) \<or>
     (\<exists>bound uploadId b. ad_uploads deps = Some bound \<and> bound uploadId b = Crash)"

definition refusal_entry :: "gateway_request \<Rightarrow> refusal_code \<Rightarrow> string option \<Rightarrow> utext option \<Rightarrow> operation option \<Rightarrow> refusal_log" where
  "refusal_entry req code k f op =
     \<lparr>rl_code = code, rl_status = rf_status (refusal code), rl_method = gq_method req, rl_keyId = k, rl_folder = f, rl_operation = op\<rparr>"

lemma wp_refuse [simp]:
  "wp (refuse deps req code k f op) Q E C log = (case ad_logger deps (refusal_entry req code k f op) of
      Ok _ \<Rightarrow> Q (Rejected (refusal code)) (log @ [refusal_entry req code k f op])
    | Throw e \<Rightarrow> E e (log @ [refusal_entry req code k f op]) | Crash \<Rightarrow> C (log @ [refusal_entry req code k f op]))"
  by (simp add: refuse_def Let_def flip: refusal_entry_def)

lemma answered_refusal:
  "ad_logger deps (refusal_entry req c k f op) = Ok () \<Longrightarrow> answered deps uc req log (Rejected (refusal c)) (log @ [refusal_entry req c k f op])"
  "ad_logger deps (refusal_entry req c k f op) = Ok () \<Longrightarrow>
     answered deps uc req log (Rejected (refusal c)) (log @ [e, refusal_entry req c k f op])"
  by (fastforce simp: answered_def refusal_entry_def)+

lemma logger_failed_refusal:
  "ad_logger deps x = Throw e \<Longrightarrow> logger_failed deps log e (log @ [x])"
  "ad_logger deps x = Throw e \<Longrightarrow> logger_failed deps log e (log @ [y, x])"
  by (fastforce simp: logger_failed_def)+

lemma stalledI:
  "ad_verify deps req = Crash \<Longrightarrow> stalled deps req" "ad_lookup deps keyId = Crash \<Longrightarrow> stalled deps req"
  "ad_logger deps entry = Crash \<Longrightarrow> stalled deps req"
  "ad_uploads deps = Some bound \<Longrightarrow> bound uploadId b = Crash \<Longrightarrow> stalled deps req"
  unfolding stalled_def by blast+

lemmas refusal_ends = answered_refusal logger_failed_refusal

lemma follow_up_iff: "routeRequest uc req = Inr r \<Longrightarrow> rr_uploadId r \<noteq> None \<longleftrightarrow> rr_operation r \<in> set UPLOAD_FOLLOW_UPS"
  by (elim routeRequest_sound) (drule route_operation_sound(4), simp add: needs_upload_def UPLOAD_FOLLOW_UPS_def)

lemma admit_route_answers:
  assumes "ad_verify deps req = Ok (Verified (Some k))" "k \<noteq> []" "ad_lookup deps k = Ok (Some cred)" "cr_state cred = Active"
  shows "wp (admit_route deps uc req k cred) (answered deps uc req log) (logger_failed deps log) (\<lambda>_. stalled deps req) log"
proof (cases "routeRequest uc req")
  case (Inl code)
  then show ?thesis
    by (simp add: admit_route_def Let_def refusal_ends stalledI(3) split: outcome.split)
next
  case (Inr r)
  show ?thesis
  proof (cases "guardTenant uc r cred")
    case (Some code)
    then show ?thesis
      by (simp add: Inr admit_route_def Let_def refusal_ends stalledI(3) split: outcome.split)
  next
    case None
    have ok: "answered deps uc req log (Admitted r k (cr_folder cred) (cr_bucket cred)) log"
      if "\<And>bound u. ad_uploads deps = Some bound \<Longrightarrow> rr_uploadId r = Some u \<Longrightarrow>
        bound u \<lparr>ub_keyId = k, ub_bucket = rr_bucket r, ub_key = rr_key r\<rparr> = Ok True"
      using assms that Inr None guardTenant_sound(2) [OF None]
      by (auto simp: answered_def admissible_def)
    show ?thesis
    proof (cases "ad_uploads deps = None \<or> rr_uploadId r = None")
      case True
      then show ?thesis
        using ok by (auto simp: Inr None admit_route_def Let_def check_bound_def split: option.split)
    next
      case False
      then obtain bound u where u: "ad_uploads deps = Some bound" "rr_uploadId r = Some u" by auto
      moreover from u follow_up_iff [OF Inr] have "rr_operation r \<in> set UPLOAD_FOLLOW_UPS" by simp
      moreover have "answered deps uc req log (Admitted r k (cr_folder cred) (cr_bucket cred)) log"
        if "bound u \<lparr>ub_keyId = k, ub_bucket = rr_bucket r, ub_key = rr_key r\<rparr> = Ok True"
        by (rule ok) (use u that in auto)
      ultimately show ?thesis
        by (auto simp: Inr None admit_route_def Let_def check_bound_def refusal_ends intro: stalledI split: outcome.split)
    qed
  qed
qed

lemma admit_answers:
  "wp (admit deps uc req) (answered deps uc req log) (logger_failed deps log) (\<lambda>_. stalled deps req) log"
proof -
  have rest: "wp (bindE (looked_up deps req k) (\<lambda>c. case c of
      Inl r \<Rightarrow> returnE r
    | Inr None \<Rightarrow> refuse deps req SignatureRefused (Some k) None None
    | Inr (Some credential) \<Rightarrow>
        if cr_state credential \<noteq> Active
        then refuse deps req CredentialNotActive (Some k) (Some (cr_folder credential)) None
        else admit_route deps uc req k credential)) (answered deps uc req log) (logger_failed deps log) (\<lambda>_. stalled deps req) log"
    if "ad_verify deps req = Ok (Verified (Some k))" "k \<noteq> []" for k
    using admit_route_answers [OF that]
    by (auto simp: looked_up_def refusal_ends intro: stalledI split: outcome.split option.split)
  then show ?thesis
    by (auto simp: admit_def verified_key_def refusal_ends intro: stalledI split: outcome.split option.split verify_result.split)
qed

end
