(* ===== verification/Storage_SigV4.thy ===== *)
theory Storage_SigV4
  imports Storage_Router Render_Calendar "HOL-Library.Char_ord" "HOL-Library.List_Lexorder" "HOL-Library.Product_Lexorder"
begin

text \<open>
  The signature check of the storage gateway: \<open>src/services/storage-gateway/src/sigv4-verifier.ts\<close>.

  SHA-256 and HMAC are parameters over bytes, the source of secrets may answer anything or throw.  A refusal is a
  reason on the left of a sum.  The timing of the digest comparison is not modelled; both of its sides are
  lower-case hexadecimal, so comparing the text is comparing the bytes.
\<close>

record sha =
  sha256 :: "nat list \<Rightarrow> nat list"
  hmac256 :: "nat list \<Rightarrow> nat list \<Rightarrow> nat list"

datatype sig_reason =
    AuthorizationMissing | AuthorizationRepeated | Sigv2 | Presigned | AlgorithmUnsupported | AuthorizationMalformed
  | ScopeMismatch | HeaderRepeated | SignedHeadersMalformed | RequiredHeaderUnsigned | SignedHeaderAbsent
  | AmzHeaderUnsigned | DateMalformed | ClockSkew | PayloadUnsigned | PayloadStreaming | PayloadHashMalformed
  | BodyDigestMissing | BodyDigestMismatch | SigTargetMalformed | KeyUnknown | SignatureMismatch | InternalFailure

type_synonym 'a sig = "sig_reason + 'a"

definition ALGORITHM :: string where "ALGORITHM = ''AWS4-HMAC-SHA256''"
definition SCOPE_TERMINATOR :: string where "SCOPE_TERMINATOR = ''aws4_request''"

definition REQUIRED_SIGNED_HEADERS :: "string list" where
  "REQUIRED_SIGNED_HEADERS = [''host'', ''x-amz-content-sha256'', ''x-amz-date'']"

definition SINGLETON_HEADERS :: "string list" where
  "SINGLETON_HEADERS = [''authorization'', ''host'', ''x-amz-content-sha256'', ''x-amz-date'']"

definition PRESIGNED_QUERY_KEYS :: "utext list" where
  "PRESIGNED_QUERY_KEYS =
     map code_points [''x-amz-algorithm'', ''x-amz-credential'', ''x-amz-signature'', ''x-amz-signedheaders'']"

definition SIGV2_QUERY_KEYS :: "utext list" where
  "SIGV2_QUERY_KEYS = map code_points [''awsaccesskeyid'', ''signature'']"

definition HEX_SHA256 :: "string \<Rightarrow> bool" where
  "HEX_SHA256 s \<longleftrightarrow> length s = 64 \<and> all_in hex_lower s"

definition KEY_ID :: "string \<Rightarrow> bool" where
  "KEY_ID s \<longleftrightarrow> 1 \<le> length s \<and> length s \<le> 128 \<and> all_in (uppers @ lowers @ digits @ ''._-'') s"

text \<open>The last characters of the class: the grave accent, the vertical bar, the tilde and the hyphen.\<close>

definition HEADER_NAME :: "string \<Rightarrow> bool" where
  "HEADER_NAME s \<longleftrightarrow> s \<noteq> [] \<and>
     all_in (lowers @ digits @ ''!#$%&*+.^_|~-'' @ [CHR 0x27, CHR 0x60]) s"

definition BODY_METHODS :: "string list" where
  "BODY_METHODS = [''PUT'', ''POST'', ''PATCH'']"

definition to_hex :: "nat list \<Rightarrow> string" where
  "to_hex bs = concat (map (\<lambda>b. [hex_digit (b div 16), hex_digit (b mod 16)]) bs)"

definition sha256Hex :: "sha \<Rightarrow> string \<Rightarrow> string" where
  "sha256Hex H data = to_hex (sha256 H (utf8 data))"

definition EMPTY_SHA256 :: "sha \<Rightarrow> string" where
  "EMPTY_SHA256 H = to_hex (sha256 H [])"

section \<open>The canonical request\<close>

definition sigv4Escape :: "utext \<Rightarrow> string" where
  "sigv4Escape t = concat (map (\<lambda>c. if c \<in> {CHR ''!'', CHR 0x27, CHR ''('', CHR '')'', CHR ''*''}
     then pct_byte (of_char c) else [c]) (encodeURIComponent t))"

definition splitTarget :: "string \<Rightarrow> (string \<times> string) sig" where
  "splitTarget rawTarget =
     (if \<not> starts_with ''/'' rawTarget then Inl SigTargetMalformed else Inr (raw_path rawTarget, raw_query rawTarget))"

definition decodeComponent :: "string \<Rightarrow> utext sig" where
  "decodeComponent raw = (case decodeURIComponent raw of None \<Rightarrow> Inl SigTargetMalformed | Some t \<Rightarrow> Inr t)"

fun query_pairs :: "unicode \<Rightarrow> string list \<Rightarrow> (utext \<times> utext) list sig" where
  "query_pairs uc [] = Inr []"
| "query_pairs uc (piece # pieces) =
     (if piece = [] then Inl SigTargetMalformed
      else
        (let (rawName, rawValue) = split_pair piece in
         bindS (decodeComponent rawName) (\<lambda>name.
         bindS (decodeComponent rawValue) (\<lambda>v.
         if uc_lower uc name \<in> set PRESIGNED_QUERY_KEYS then Inl Presigned
         else if uc_lower uc name \<in> set SIGV2_QUERY_KEYS then Inl Sigv2
         else bindS (query_pairs uc pieces) (\<lambda>rest. Inr ((name, v) # rest))))))"

definition pair_text :: "string \<times> string \<Rightarrow> string" where
  "pair_text kv = fst kv @ CHR ''='' # snd kv"

definition canonicalQuery :: "unicode \<Rightarrow> string \<Rightarrow> string sig" where
  "canonicalQuery uc rawQuery =
     (if rawQuery = [] then Inr []
      else bindS (query_pairs uc (split_on CHR ''&'' rawQuery)) (\<lambda>pairs.
        Inr (join_with CHR ''&''
          (map pair_text (sort (map (\<lambda>(name, v). (sigv4Escape name, sigv4Escape v)) pairs))))))"

text \<open>Inner white space is collapsed to one space.\<close>

function collapse_spaces :: "string \<Rightarrow> string" where
  "collapse_spaces [] = []"
| "collapse_spaces (c # cs) =
     (if js_space c then CHR '' '' # collapse_spaces (dropWhile js_space cs) else c # collapse_spaces cs)"
  by pat_completeness auto
termination
  by (relation "measure length") (auto simp: le_imp_less_Suc length_dropWhile_le)

definition canonicalValue :: "string \<Rightarrow> string" where
  "canonicalValue v = collapse_spaces (trim v)"

type_synonym header_map = "(string, string list) jsmap"

definition header_values :: "header_value \<Rightarrow> string list" where
  "header_values v = (case v of Undefined \<Rightarrow> [] | One s \<Rightarrow> [s] | Many ss \<Rightarrow> ss)"

fun gather_headers :: "(string \<times> header_value) list \<Rightarrow> header_map \<Rightarrow> header_map" where
  "gather_headers [] out = out"
| "gather_headers ((name, v) # rest) out =
     (let lower = toLowerCase name; values = header_values v in
      if values = [] then gather_headers rest out
      else gather_headers rest
        (AList.update lower ((case map_of out lower of None \<Rightarrow> [] | Some earlier \<Rightarrow> earlier) @ values) out))"

fun check_singletons :: "header_map \<Rightarrow> unit sig" where
  "check_singletons [] = Inr ()"
| "check_singletons ((name, values) # rest) =
     (if 1 < length values \<and> name \<in> set SINGLETON_HEADERS
      then Inl (if name = ''authorization'' then AuthorizationRepeated else HeaderRepeated)
      else check_singletons rest)"

definition collectHeaders :: "(string \<times> header_value) list \<Rightarrow> header_map sig" where
  "collectHeaders headers = (let out = gather_headers headers [] in thenS (check_singletons out) (Inr out))"

fun canonicalHeaders :: "header_map \<Rightarrow> string list \<Rightarrow> string sig" where
  "canonicalHeaders headers [] = Inr []"
| "canonicalHeaders headers (name # names) = (case map_of headers name of
       None \<Rightarrow> Inl SignedHeaderAbsent
     | Some values \<Rightarrow>
         bindS (canonicalHeaders headers names) (\<lambda>rest.
         Inr (name @ CHR '':'' # join_with CHR '','' (map canonicalValue values) @ CHR 0x0A # rest)))"

definition canonicalRequest :: "unicode \<Rightarrow> string \<Rightarrow> string \<Rightarrow> string \<Rightarrow> header_map \<Rightarrow> string list \<Rightarrow> string \<Rightarrow> string sig" where
  "canonicalRequest uc verb path rawQuery headers signedHeaders payloadHash =
     bindS (canonicalQuery uc rawQuery) (\<lambda>query.
     bindS (canonicalHeaders headers signedHeaders) (\<lambda>block.
     Inr (join_with CHR 0x0A [verb, path, query, block, join_with CHR '';'' signedHeaders, payloadHash])))"

definition stringToSign :: "sha \<Rightarrow> string \<Rightarrow> string \<Rightarrow> string \<Rightarrow> string" where
  "stringToSign H amzDate scope canonical = join_with CHR 0x0A [ALGORITHM, amzDate, scope, sha256Hex H canonical]"

definition signingKey :: "sha \<Rightarrow> string \<Rightarrow> string \<Rightarrow> string \<Rightarrow> string \<Rightarrow> nat list" where
  "signingKey H secret date region service =
     (let kDate = hmac256 H (utf8 (''AWS4'' @ secret)) (utf8 date);
          kRegion = hmac256 H kDate (utf8 region);
          kService = hmac256 H kRegion (utf8 service) in
      hmac256 H kService (utf8 SCOPE_TERMINATOR))"

definition signatureHex :: "sha \<Rightarrow> nat list \<Rightarrow> string \<Rightarrow> string" where
  "signatureHex H key toSign = to_hex (hmac256 H key (utf8 toSign))"

text \<open>\<open>timingSafeEqual\<close> throws on different lengths.\<close>

definition digestsEqual :: "string \<Rightarrow> string \<Rightarrow> bool sig" where
  "digestsEqual a b = (if length a \<noteq> length b then Inl InternalFailure else Inr (a = b))"

section \<open>The parts of a signed request\<close>

definition single :: "header_map \<Rightarrow> string \<Rightarrow> string option" where
  "single headers name = (case map_of headers name of Some (v # _) \<Rightarrow> Some v | _ \<Rightarrow> None)"

definition bodilessDigest :: "sha \<Rightarrow> string \<Rightarrow> string sig" where
  "bodilessDigest H verb = (if verb \<in> set BODY_METHODS then Inl BodyDigestMissing else Inr (EMPTY_SHA256 H))"

definition AMZ_DATE :: "string \<Rightarrow> bool" where
  "AMZ_DATE s \<longleftrightarrow> length s = 16 \<and> all_in digits (take 8 s) \<and> s ! 8 = CHR ''T'' \<and> all_in digits (take 6 (drop 9 s)) \<and> s ! 15 = CHR ''Z''"

definition digits_from :: "nat \<Rightarrow> nat \<Rightarrow> string \<Rightarrow> int" where
  "digits_from i n s = int (number_of_digits (take n (drop i s)))"

text \<open>
  \<open>utc_seconds\<close> counts from year 0, \<open>Date.now\<close> from 1970.  The text \<open>toISOString\<close> gives back is the header's
  exactly if every field comes back.
\<close>

definition parseAmzDate :: "string option \<Rightarrow> int sig" where
  "parseAmzDate v = (case v of
       None \<Rightarrow> Inl DateMalformed
     | Some s \<Rightarrow>
         if \<not> AMZ_DATE s then Inl DateMalformed
         else
           (let y = digits_from 0 4 s; mo = digits_from 4 2 s; d = digits_from 6 2 s;
                h = digits_from 9 2 s; mi = digits_from 11 2 s; sec = digits_from 13 2 s in
            if \<not> isRealCalendarInstant y mo d h mi sec then Inl DateMalformed
            else Inr ((utc_seconds y (mo - 1) d h mi sec - utc_seconds 1970 0 1 0 0 0) * 1000)))"

definition checkPayloadHash :: "header_map \<Rightarrow> string sig" where
  "checkPayloadHash headers = (case single headers ''x-amz-content-sha256'' of
       None \<Rightarrow> Inl SignedHeaderAbsent
     | Some declared \<Rightarrow>
         if declared = ''UNSIGNED-PAYLOAD'' then Inl PayloadUnsigned
         else if starts_with ''STREAMING-'' declared then Inl PayloadStreaming
         else
           (let encoding = toLowerCase (join_with CHR '','' (case map_of headers ''content-encoding'' of None \<Rightarrow> [] | Some vs \<Rightarrow> vs)) in
            if has_infix ''aws-chunked'' encoding \<or> map_of headers ''x-amz-decoded-content-length'' \<noteq> None \<or>
               map_of headers ''x-amz-trailer'' \<noteq> None
            then Inl PayloadStreaming
            else if \<not> HEX_SHA256 declared then Inl PayloadHashMalformed
            else Inr declared))"

definition parseSignedHeaders :: "string \<Rightarrow> string list sig" where
  "parseSignedHeaders line =
     (let names = split_on CHR '';'' line in
      if \<not> list_all (\<lambda>name. HEADER_NAME name \<and> name \<noteq> ''authorization'') names \<or> \<not> sorted_wrt (<) names
      then Inl SignedHeadersMalformed
      else if \<not> list_all (\<lambda>required. required \<in> set names) REQUIRED_SIGNED_HEADERS then Inl RequiredHeaderUnsigned
      else Inr names)"

text \<open>
  The \<open>AUTHORIZATION\<close> pattern: each of its two groups runs to a comma, since neither holds a comma or white
  space, and one space may follow the comma.
\<close>

definition strip_prefix :: "string \<Rightarrow> string \<Rightarrow> string option" where
  "strip_prefix p s = (if starts_with p s then Some (drop (length p) s) else None)"

definition strip_comma :: "string \<Rightarrow> string \<Rightarrow> string option" where
  "strip_comma p s = (case s of
       c # rest \<Rightarrow>
         if c \<noteq> CHR '','' then None
         else (case strip_prefix p rest of Some r \<Rightarrow> Some r | None \<Rightarrow> strip_prefix (CHR '' '' # p) rest)
     | [] \<Rightarrow> None)"

definition group_char :: "char \<Rightarrow> bool" where
  "group_char c \<longleftrightarrow> c \<noteq> CHR '','' \<and> \<not> js_space c"

definition AUTHORIZATION :: "string \<Rightarrow> (string \<times> string \<times> string) option" where
  "AUTHORIZATION s = (case strip_prefix ''AWS4-HMAC-SHA256 Credential='' s of
       None \<Rightarrow> None
     | Some r1 \<Rightarrow>
         (let credential = takeWhile group_char r1 in
          case strip_comma ''SignedHeaders='' (dropWhile group_char r1) of
            None \<Rightarrow> None
          | Some r2 \<Rightarrow>
              (let signedLine = takeWhile group_char r2 in
               case strip_comma ''Signature='' (dropWhile group_char r2) of
                 None \<Rightarrow> None
               | Some provided \<Rightarrow>
                   if credential = [] \<or> signedLine = [] \<or> \<not> HEX_SHA256 provided then None
                   else Some (credential, signedLine, provided))))"

section \<open>The check\<close>

record verifier =
  vf_region :: string
  vf_service :: string
  vf_clockWindowMs :: int
  vf_secrets :: "string \<Rightarrow> js_exn + string option"

definition DEFAULT_CLOCK_WINDOW_MS :: int where
  "DEFAULT_CLOCK_WINDOW_MS = 5 * 60 * 1000"

record prepared =
  pp_keyId :: string
  pp_scopeDate :: string
  pp_amzDate :: string
  pp_provided :: string
  pp_signedHeaders :: "string list"
  pp_payloadHash :: string
  pp_canonical :: string

text \<open>The first half of \<open>check\<close>: all that is decided before the secret is asked for.\<close>

definition prepare :: "unicode \<Rightarrow> verifier \<Rightarrow> int \<Rightarrow> gateway_request \<Rightarrow> prepared sig" where
  "prepare uc vf now req =
     bindS (collectHeaders (gq_headers req)) (\<lambda>headers.
     bindS (splitTarget (gq_rawTarget req)) (\<lambda>(path, query).
     thenS (canonicalQuery uc query)
     (case single headers ''authorization'' of
        None \<Rightarrow> Inl AuthorizationMissing
      | Some authorization \<Rightarrow>
          guardS (\<not> starts_with ''AWS '' authorization) Sigv2
         (guardS (starts_with (ALGORITHM @ '' '') authorization) AlgorithmUnsupported
         (case AUTHORIZATION authorization of
            None \<Rightarrow> Inl AuthorizationMalformed
          | Some (credential, signedLine, provided) \<Rightarrow>
              (case split_on CHR ''/'' credential of
                 [keyId, scopeDate, region, service, terminator] \<Rightarrow>
                   guardS (KEY_ID keyId) AuthorizationMalformed
                  (bindS (parseSignedHeaders signedLine) (\<lambda>signedHeaders.
                   guardS (list_all (\<lambda>name. starts_with ''x-amz-'' name \<longrightarrow> name \<in> set signedHeaders) (map fst headers)) AmzHeaderUnsigned
                  (bindS (parseAmzDate (single headers ''x-amz-date'')) (\<lambda>requestTime.
                   let amzDate = the (single headers ''x-amz-date'') in
                   guardS (scopeDate = take 8 amzDate \<and> region = vf_region vf \<and> service = vf_service vf \<and> terminator = SCOPE_TERMINATOR) ScopeMismatch
                  (guardS (\<bar>now - requestTime\<bar> \<le> vf_clockWindowMs vf) ClockSkew
                  (bindS (checkPayloadHash headers) (\<lambda>payloadHash.
                   bindS (canonicalRequest uc (gq_method req) path query headers signedHeaders payloadHash) (\<lambda>canonical.
                   Inr \<lparr>pp_keyId = keyId, pp_scopeDate = scopeDate, pp_amzDate = amzDate, pp_provided = provided,
                        pp_signedHeaders = signedHeaders, pp_payloadHash = payloadHash, pp_canonical = canonical\<rparr>))))))))
               | _ \<Rightarrow> Inl AuthorizationMalformed))))))"

definition expectedSignature :: "sha \<Rightarrow> verifier \<Rightarrow> string \<Rightarrow> prepared \<Rightarrow> string" where
  "expectedSignature H vf secret p =
     (let scope = join_with CHR ''/'' [pp_scopeDate p, vf_region vf, vf_service vf, SCOPE_TERMINATOR] in
      signatureHex H (signingKey H secret (pp_scopeDate p) (vf_region vf) (vf_service vf))
        (stringToSign H (pp_amzDate p) scope (pp_canonical p)))"

definition check_signature :: "sha \<Rightarrow> unicode \<Rightarrow> verifier \<Rightarrow> int \<Rightarrow> gateway_request \<Rightarrow> string sig" where
  "check_signature H uc vf now req =
     bindS (prepare uc vf now req) (\<lambda>p.
     case vf_secrets vf (pp_keyId p) of
       Inl _ \<Rightarrow> Inl InternalFailure
     | Inr None \<Rightarrow> Inl KeyUnknown
     | Inr (Some secret) \<Rightarrow>
         guardS (secret \<noteq> []) KeyUnknown
        (bindS (digestsEqual (expectedSignature H vf secret p) (pp_provided p)) (\<lambda>same.
         guardS same SignatureMismatch
        (bindS (case gq_bodySha256 req of Some b \<Rightarrow> Inr b | None \<Rightarrow> bodilessDigest H (gq_method req)) (\<lambda>body.
         guardS (HEX_SHA256 body) BodyDigestMismatch
        (bindS (digestsEqual body (pp_payloadHash p)) (\<lambda>sameBody.
         guardS sameBody BodyDigestMismatch (Inr (pp_keyId p)))))))))"

text \<open>\<open>verifyDetailed\<close> and \<open>verify\<close>: the reason stays inside, the refusal goes out.\<close>

definition verifyDetailed :: "sha \<Rightarrow> unicode \<Rightarrow> verifier \<Rightarrow> int \<Rightarrow> gateway_request \<Rightarrow> (sig_reason \<times> refusal_code) + string" where
  "verifyDetailed H uc vf now req = (case check_signature H uc vf now req of
       Inr keyId \<Rightarrow> Inr keyId
     | Inl InternalFailure \<Rightarrow> Inl (InternalFailure, InternalError)
     | Inl reason \<Rightarrow> Inl (reason, SignatureRefused))"

definition verifySigV4 :: "sha \<Rightarrow> unicode \<Rightarrow> verifier \<Rightarrow> int \<Rightarrow> gateway_request \<Rightarrow> refusal_code + string" where
  "verifySigV4 H uc vf now req = (case verifyDetailed H uc vf now req of Inr keyId \<Rightarrow> Inr keyId | Inl (_, code) \<Rightarrow> Inl code)"

end
