(* ===== verification/Storage_Signed.thy ===== *)
theory Storage_Signed
  imports Storage_SigV4 Storage_Routing "HOL-Library.Multiset"
begin

text \<open>
  What a signature of the storage gateway covers: the canonical request determines the route of the request, the
  signed headers and the digest of the body.
\<close>

section \<open>Reading joined text back\<close>

lemma append_sep_eq:
  "c \<notin> set a \<Longrightarrow> c \<notin> set b \<Longrightarrow> a @ c # x = b @ c # y \<longleftrightarrow> a = b \<and> x = y"
proof (induction a arbitrary: b)
  case Nil
  then show ?case by (cases b) auto
next
  case (Cons e a)
  then show ?case by (cases b) auto
qed

lemma sep_append_eq:
  assumes "c \<notin> set a" "c \<notin> set b"
  shows "x @ c # a = y @ c # b \<longleftrightarrow> x = y \<and> a = b"
proof -
  have "x @ c # a = y @ c # b \<longleftrightarrow> rev a @ c # rev x = rev b @ c # rev y"
    using rev_is_rev_conv [of "x @ c # a" "y @ c # b"] by simp
  with append_sep_eq [of c "rev a" "rev b" "rev x" "rev y"] assms show ?thesis by auto
qed

lemma join_with_inj:
  assumes "join_with c xs = join_with c ys" "xs \<noteq> []" "ys \<noteq> []" "\<forall>p\<in>set xs \<union> set ys. c \<notin> set p"
  shows "xs = ys"
  using assms by (metis Un_iff split_join)

section \<open>Escaped text\<close>

definition sigv4_unreserved :: "uchar \<Rightarrow> bool" where
  "sigv4_unreserved c \<longleftrightarrow> is_alnum_code c \<or> c \<in> {45, 95, 46, 126}"

lemma sigv4_unreserved_plain: "sigv4_unreserved c \<Longrightarrow> c < 128 \<and> c \<noteq> 37"
  by (auto simp: sigv4_unreserved_def is_alnum_code_def)

lemma pct_byte_chars: "b < 256 \<Longrightarrow> set (pct_byte b) \<subseteq> set (''%'' @ uppers @ digits)"
proof -
  have "hex_upper n \<in> set (uppers @ digits)" if "n < 16" for n
  proof -
    have "hex_upper n \<in> set ''0123456789ABCDEF''"
      using that by (simp only: hex_upper_def) (rule nth_mem, simp)
    then show ?thesis by (auto simp: uppers_def digits_def)
  qed
  moreover assume "b < 256"
  ultimately show ?thesis by (simp add: pct_byte_def less_mult_imp_div_less)
qed

lemma char_of_eq: "c < 256 \<Longrightarrow> char_of c = d \<longleftrightarrow> c = (of_char d :: nat)"
  by auto

lemma escape_piece:
  assumes "scalar c"
  shows "concat (map (\<lambda>c. if c \<in> {CHR ''!'', CHR 0x27, CHR ''('', CHR '')'', CHR ''*''} then pct_byte (of_char c) else [c])
      (if uri_unreserved c then [char_of c] else concat (map pct_byte (utf8_of c))))
    = (if sigv4_unreserved c then [char_of c] else concat (map pct_byte (utf8_of c)))"
proof (cases "uri_unreserved c")
  case True
  then have small: "c < 128" by (auto simp: uri_unreserved_def is_alnum_code_def)
  then have "char_of c \<in> {CHR ''!'', CHR 0x27, CHR ''('', CHR '')'', CHR ''*''} \<longleftrightarrow> c \<in> {33, 39, 40, 41, 42}"
    by (simp add: char_of_eq)
  moreover have "sigv4_unreserved c \<longleftrightarrow> c \<notin> {33, 39, 40, 41, 42}"
    using True by (auto simp: uri_unreserved_def sigv4_unreserved_def is_alnum_code_def)
  ultimately show ?thesis
    using True small by (simp add: utf8_of_def del: insert_iff)
next
  case False
  then have "\<not> sigv4_unreserved c" by (auto simp: uri_unreserved_def sigv4_unreserved_def)
  moreover have "concat (map (\<lambda>c. if c \<in> {CHR ''!'', CHR 0x27, CHR ''('', CHR '')'', CHR ''*''} then pct_byte (of_char c) else [c]) s) = s"
    if "set s \<subseteq> set (''%'' @ uppers @ digits)" for s
    using that by (induction s) (auto simp: uppers_def digits_def)
  moreover have "set (concat (map pct_byte (utf8_of c))) \<subseteq> set (''%'' @ uppers @ digits)"
    using pct_byte_chars utf8_of_bytes [OF assms] by (fastforce simp del: set_append)
  ultimately show ?thesis
    using False by simp
qed

lemma sigv4Escape_eq: "well_formed t \<Longrightarrow> sigv4Escape t = percent_encode sigv4_unreserved t"
proof (induction t)
  case (Cons c t)
  have "sigv4Escape (c # t) = (if sigv4_unreserved c then [char_of c] else concat (map pct_byte (utf8_of c))) @ sigv4Escape t"
    using escape_piece [of c] Cons.prems by (simp add: sigv4Escape_def encodeURIComponent_def percent_encode_def del: insert_iff)
  with Cons show ?case by (simp add: percent_encode_def)
qed (simp add: sigv4Escape_def encodeURIComponent_def percent_encode_def)

lemma sigv4Escape_inj: "well_formed t \<Longrightarrow> well_formed u \<Longrightarrow> sigv4Escape t = sigv4Escape u \<longleftrightarrow> t = u"
  using decode_percent_encode [OF sigv4_unreserved_plain] by (metis option.inject sigv4Escape_eq)

lemma decode_sigv4Escape: "well_formed t \<Longrightarrow> decodeURIComponent (sigv4Escape t) = Some t"
  using decode_percent_encode [OF sigv4_unreserved_plain] by (simp add: sigv4Escape_eq)

definition escaped_code :: "nat \<Rightarrow> bool" where
  "escaped_code n \<longleftrightarrow> is_alnum_code n \<or> n \<in> {37, 45, 46, 95, 126}"

lemma pct_byte_codes: "b < 256 \<Longrightarrow> \<forall>c\<in>set (pct_byte b). escaped_code (of_char c)"
proof -
  have "escaped_code (of_char (hex_upper n))" if "n < 16" for n
    using that
    by (simp add: less_Suc_eq numeral_eq_Suc) (auto simp: hex_upper_def escaped_code_def is_alnum_code_def)
  moreover assume "b < 256"
  ultimately show ?thesis
    by (simp add: pct_byte_def less_mult_imp_div_less) (simp add: escaped_code_def)
qed

lemma sigv4Escape_codes: "well_formed t \<Longrightarrow> \<forall>c\<in>set (sigv4Escape t). escaped_code (of_char c)"
proof (induction t)
  case (Cons c t)
  have "\<forall>d\<in>set (if sigv4_unreserved c then [char_of c] else concat (map pct_byte (utf8_of c))). escaped_code (of_char d)"
  proof (cases "sigv4_unreserved c")
    case True
    then show ?thesis
      using sigv4_unreserved_plain [OF True] by (auto simp: escaped_code_def sigv4_unreserved_def)
  next
    case False
    then show ?thesis
      using pct_byte_codes utf8_of_bytes [of c] Cons.prems by auto
  qed
  with Cons show ?case by (auto simp: sigv4Escape_eq percent_encode_def)
qed (simp add: sigv4Escape_eq percent_encode_def)

lemma sigv4Escape_notin:
  assumes "well_formed t" "\<not> escaped_code (of_char c)"
  shows "c \<notin> set (sigv4Escape t)"
  using sigv4Escape_codes [OF assms(1)] assms(2) by auto

lemma escaped_separators:
  "\<not> escaped_code (of_char CHR ''='')" "\<not> escaped_code (of_char CHR ''&'')" "\<not> escaped_code (of_char CHR 0x0A)"
  "\<not> escaped_code (of_char CHR ''/'')" "\<not> escaped_code (of_char CHR ''?'')"
  by (simp_all add: escaped_code_def is_alnum_code_def)

section \<open>The canonical query\<close>

lemma query_pairs_well_formed:
  "query_pairs uc pieces = Inr ps \<Longrightarrow> \<forall>(n, v)\<in>set ps. well_formed n \<and> well_formed v"
  by (induction uc pieces arbitrary: ps rule: query_pairs.induct)
     (force simp: bindS_Inr decodeComponent_def split: if_splits prod.splits option.splits dest: decode_well_formed)+

definition escape_pair :: "utext \<times> utext \<Rightarrow> string \<times> string" where
  "escape_pair = (\<lambda>(name, v). (sigv4Escape name, sigv4Escape v))"

lemma pair_text_inj:
  assumes "CHR ''='' \<notin> set k" "CHR ''='' \<notin> set k'" "pair_text (k, v) = pair_text (k', v')"
  shows "k = k' \<and> v = v'"
  using assms append_sep_eq [of "CHR ''=''" k k' v v'] by (simp add: pair_text_def)

text \<open>A canonical query text belongs to one multiset of decoded pairs.\<close>

lemma canonical_pairs_inj:
  assumes wf: "\<forall>(n, v)\<in>set ps. well_formed n \<and> well_formed v" "\<forall>(n, v)\<in>set qs. well_formed n \<and> well_formed v"
    and ne: "ps \<noteq> []" "qs \<noteq> []"
    and eq: "join_with CHR ''&'' (map pair_text (sort (map escape_pair ps)))
      = join_with CHR ''&'' (map pair_text (sort (map escape_pair qs)))"
  shows "mset ps = mset qs"
proof -
  have sep: "CHR ''='' \<notin> set k \<and> CHR ''&'' \<notin> set (pair_text (k, v))"
    if "(k, v) \<in> set (sort (map escape_pair xs))" "\<forall>(n, v)\<in>set xs. well_formed n \<and> well_formed v" for xs k v
    using that sigv4Escape_notin escaped_separators
    by (auto simp: escape_pair_def pair_text_def)
  have plain: "\<forall>p\<in>set (map pair_text (sort (map escape_pair xs))). CHR ''&'' \<notin> set p"
    if "\<forall>(n, v)\<in>set xs. well_formed n \<and> well_formed v" for xs
    using that sigv4Escape_notin escaped_separators by (auto simp: escape_pair_def pair_text_def)
  have "sort (map escape_pair xs) \<noteq> []" if "xs \<noteq> []" for xs
    using that by (metis length_0_conv length_map length_sort)
  then have "map pair_text (sort (map escape_pair ps)) = map pair_text (sort (map escape_pair qs))"
    using eq by (intro join_with_inj) (use ne plain [OF wf(1)] plain [OF wf(2)] in auto)
  moreover have "inj_on pair_text (set (sort (map escape_pair ps)) \<union> set (sort (map escape_pair qs)))"
    using sep wf by (intro inj_onI) (metis Un_iff pair_text_inj prod.collapse)
  ultimately have "sort (map escape_pair ps) = sort (map escape_pair qs)"
    by (rule map_inj_on)
  then have "mset (map escape_pair ps) = mset (map escape_pair qs)"
    by (metis mset_sort)
  then have "image_mset escape_pair (mset ps) = image_mset escape_pair (mset qs)" by simp
  moreover have "inj_on escape_pair (set ps \<union> set qs)"
  proof (rule inj_onI)
    fix x y
    assume "x \<in> set ps \<union> set qs" "y \<in> set ps \<union> set qs" "escape_pair x = escape_pair y"
    moreover from this wf have "well_formed (fst x) \<and> well_formed (snd x)" "well_formed (fst y) \<and> well_formed (snd y)"
      by auto
    ultimately show "x = y"
      by (cases x; cases y) (simp add: escape_pair_def sigv4Escape_inj)
  qed
  ultimately show ?thesis
    using image_mset_eq_image_mset_plusD [of escape_pair "mset ps" "mset qs" "{#}"] by auto
qed

lemma canonicalQuery_Inr:
  assumes "canonicalQuery uc raw = Inr text"
  obtains "raw = []" "text = []"
  | ps where "raw \<noteq> []" "ps \<noteq> []" "query_pairs uc (split_on CHR ''&'' raw) = Inr ps"
      "text = join_with CHR ''&'' (map pair_text (sort (map escape_pair ps)))"
proof (cases "raw = []")
  case True
  with assms that(1) show thesis by (simp add: canonicalQuery_def)
next
  case False
  with assms obtain ps where ps: "query_pairs uc (split_on CHR ''&'' raw) = Inr ps"
      "text = join_with CHR ''&'' (map pair_text (sort (map escape_pair ps)))"
    by (auto simp: canonicalQuery_def bindS_Inr escape_pair_def)
  have "query_pairs uc pieces = Inr [] \<Longrightarrow> pieces = []" for pieces
    by (cases pieces) (simp_all add: bindS_Inr split: if_splits prod.splits)
  from this [of "split_on CHR ''&'' raw"] ps(1) have "ps \<noteq> []" by auto
  with False ps show thesis by (intro that(2))
qed

lemma join_chars: "c \<noteq> sep \<Longrightarrow> \<forall>p\<in>set ps. c \<notin> set p \<Longrightarrow> c \<notin> set (join_with sep ps)"
  by (induction sep ps rule: join_with.induct) auto

lemma canonicalQuery_no_newline:
  assumes "canonicalQuery uc raw = Inr text"
  shows "CHR 0x0A \<notin> set text"
  using assms
proof (cases rule: canonicalQuery_Inr)
  case (2 ps)
  have "CHR 0x0A \<notin> set (pair_text (escape_pair x))" if "x \<in> set ps" for x
  proof -
    have "well_formed (fst x)" "well_formed (snd x)"
      using query_pairs_well_formed [OF 2(3)] that by auto
    then show ?thesis
      using sigv4Escape_notin [OF _ escaped_separators(3)] by (cases x) (simp add: pair_text_def escape_pair_def)
  qed
  then show ?thesis
    unfolding 2(4) by (intro join_chars) auto
qed simp

text \<open>Where the router accepts a query, it reads the very pairs the canonical query holds.\<close>

lemma parse_pairs_query_pairs:
  assumes "parse_pairs uc pieces params = Some q" "query_pairs uc pieces = Inr ps"
  shows "q = params @ ps"
  using assms
proof (induction pieces arbitrary: params ps)
  case (Cons piece pieces)
  obtain rawName rawValue where split: "split_pair piece = (rawName, rawValue)" by fastforce
  from Cons.prems(1) obtain name v where d: "decodeURIComponent rawName = Some name" "decodeURIComponent rawValue = Some v"
      "parse_pairs uc pieces (params @ [(name, v)]) = Some q"
    by (auto simp: split split: if_splits option.splits)
  with Cons.prems(2) obtain rest where "query_pairs uc pieces = Inr rest" "ps = (name, v) # rest"
    by (auto simp: split decodeComponent_def bindS_Inr split: if_splits)
  with Cons.IH [OF d(3)] show ?case by simp
qed simp

lemma parse_pairs_distinct: "parse_pairs uc pieces params = Some q \<Longrightarrow> wf_map params \<Longrightarrow> wf_map q"
  by (induction uc pieces params rule: parse_pairs.induct)
     (auto simp: wf_map_def map_of_eq_None_iff split: if_splits option.splits prod.splits)

lemma parseQuery_Inr:
  assumes "parseQuery uc raw = Some q" "raw \<noteq> []" "query_pairs uc (split_on CHR ''&'' raw) = Inr ps"
  shows "q = ps"
  using assms parse_pairs_query_pairs [of uc "split_on CHR ''&'' raw" "[]" q ps] by (simp add: parseQuery_def)

lemma parseQuery_distinct: "parseQuery uc raw = Some q \<Longrightarrow> wf_map q"
  using parse_pairs_distinct [of uc _ "[]" q] by (auto simp: parseQuery_def split: if_splits)

lemma joined_pairs_nonempty: "ps \<noteq> [] \<Longrightarrow> join_with CHR ''&'' (map pair_text (sort (map escape_pair ps))) \<noteq> []"
proof -
  assume "ps \<noteq> []"
  then have "sort (map escape_pair ps) \<noteq> []" by (metis length_0_conv length_map length_sort)
  then obtain kv kvs where "sort (map escape_pair ps) = kv # kvs" by (meson list.exhaust)
  then show ?thesis by (cases kvs) (simp_all add: pair_text_def)
qed

lemma same_canonical_query:
  assumes "canonicalQuery uc raw = Inr text" "canonicalQuery uc raw' = Inr text"
    and "parseQuery uc raw = Some q" "parseQuery uc raw' = Some q'"
  shows "mset q = mset q'"
  using assms(1)
proof (cases rule: canonicalQuery_Inr)
  case 1
  from assms(2) 1(2) have "raw' = []"
    by (cases rule: canonicalQuery_Inr) (auto simp: joined_pairs_nonempty)
  with 1 assms(3,4) show ?thesis by (simp add: parseQuery_def)
next
  case (2 ps)
  note first = this
  from assms(2) show ?thesis
  proof (cases rule: canonicalQuery_Inr)
    case 1
    with joined_pairs_nonempty [OF first(2)] first(4) show ?thesis by simp
  next
    case (2 qs)
    have "mset ps = mset qs"
      using query_pairs_well_formed [OF first(3)] query_pairs_well_formed [OF 2(3)] first(2) 2(2)
      by (rule canonical_pairs_inj) (use first(4) 2(4) in simp)
    with parseQuery_Inr [OF assms(3) first(1,3)] parseQuery_Inr [OF assms(4) 2(1,3)] show ?thesis by simp
  qed
qed

section \<open>Routing depends on the canonical query only\<close>

lemma map_of_mset: "mset q = mset q' \<Longrightarrow> wf_map q \<Longrightarrow> wf_map q' \<Longrightarrow> map_of q = map_of q'"
  by (metis map_of_inject_set mset_eq_setD wf_map_def)

lemma classify_cong:
  assumes "map_of q = map_of q'"
  shows "classify verb q = classify verb q'"
proof -
  have keys: "fst ` set q = fst ` set q'"
    using assms by (metis dom_map_of_conv_image_fst)
  then have "only q names \<longleftrightarrow> only q' names" for names
    by (simp add: only_iff)
  moreover have "list_all P (map fst q) \<longleftrightarrow> list_all P (map fst q')" for P
    using keys by (metis list.pred_set list.set_map)
  moreover have "named q op = named q' op" for op
    by (simp add: named_def assms)
  ultimately show ?thesis by (simp add: classify_def assms cong: if_cong)
qed

lemma five_parts:
  "(case xs of [a, b, c, d, e] \<Rightarrow> f a b c d e | _ \<Rightarrow> Inl err) = Inr y \<Longrightarrow> \<exists>a b c d e. xs = [a, b, c, d, e] \<and> f a b c d e = Inr y"
  by (auto split: list.splits)

lemma prepare_Inr:
  assumes "prepare uc vf now req = Inr p"
  obtains headers credential signedLine requestTime region service terminator authorization where
    "collectHeaders (gq_headers req) = Inr headers" "starts_with ''/'' (gq_rawTarget req)"
    "single headers ''authorization'' = Some authorization"
    "AUTHORIZATION authorization = Some (credential, signedLine, pp_provided p)"
    "split_on CHR ''/'' credential = [pp_keyId p, pp_scopeDate p, vf_region vf, vf_service vf, SCOPE_TERMINATOR]"
    "KEY_ID (pp_keyId p)" "parseSignedHeaders signedLine = Inr (pp_signedHeaders p)"
    "\<forall>name\<in>fst ` set headers. starts_with ''x-amz-'' name \<longrightarrow> name \<in> set (pp_signedHeaders p)"
    "parseAmzDate (single headers ''x-amz-date'') = Inr requestTime" "single headers ''x-amz-date'' = Some (pp_amzDate p)"
    "pp_scopeDate p = take 8 (pp_amzDate p)" "\<bar>now - requestTime\<bar> \<le> vf_clockWindowMs vf"
    "checkPayloadHash headers = Inr (pp_payloadHash p)"
    "canonicalRequest uc (gq_method req) (raw_path (gq_rawTarget req)) (raw_query (gq_rawTarget req)) headers
       (pp_signedHeaders p) (pp_payloadHash p) = Inr (pp_canonical p)"
proof -
  obtain headers where headers: "collectHeaders (gq_headers req) = Inr headers"
    using assms by (auto simp: prepare_def bindS_Inr)
  obtain authorization where auth: "single headers ''authorization'' = Some authorization"
    using assms by (auto simp: prepare_def bindS_Inr thenS_Inr headers split: option.splits)
  obtain credential signedLine provided where parsed: "AUTHORIZATION authorization = Some (credential, signedLine, provided)"
    using assms by (auto simp: prepare_def bindS_Inr thenS_Inr guardS_Inr headers auth split: option.splits)
  obtain keyId scopeDate region service terminator where scope:
      "split_on CHR ''/'' credential = [keyId, scopeDate, region, service, terminator]"
    using assms by (auto simp: prepare_def bindS_Inr thenS_Inr guardS_Inr headers auth parsed dest!: five_parts)
  obtain signedHeaders requestTime payloadHash canonical where rest: "starts_with ''/'' (gq_rawTarget req)" "KEY_ID keyId"
      "parseSignedHeaders signedLine = Inr signedHeaders"
      "list_all (\<lambda>name. starts_with ''x-amz-'' name \<longrightarrow> name \<in> set signedHeaders) (map fst headers)"
      "parseAmzDate (single headers ''x-amz-date'') = Inr requestTime"
      "scopeDate = take 8 (the (single headers ''x-amz-date''))" "region = vf_region vf" "service = vf_service vf"
      "terminator = SCOPE_TERMINATOR" "\<bar>now - requestTime\<bar> \<le> vf_clockWindowMs vf"
      "checkPayloadHash headers = Inr payloadHash"
      "canonicalRequest uc (gq_method req) (raw_path (gq_rawTarget req)) (raw_query (gq_rawTarget req)) headers
         signedHeaders payloadHash = Inr canonical"
      "p = \<lparr>pp_keyId = keyId, pp_scopeDate = scopeDate, pp_amzDate = the (single headers ''x-amz-date''), pp_provided = provided,
         pp_signedHeaders = signedHeaders, pp_payloadHash = payloadHash, pp_canonical = canonical\<rparr>"
    using assms
    by (auto simp: prepare_def bindS_Inr thenS_Inr guardS_Inr headers auth parsed scope Let_def splitTarget_def split: if_splits)
  moreover from rest(5) have "single headers ''x-amz-date'' = Some (the (single headers ''x-amz-date''))"
    by (auto simp: parseAmzDate_def split: option.splits)
  ultimately show thesis
    using headers auth parsed scope
    by (intro that [of headers authorization credential signedLine requestTime]) (simp_all add: list_all_iff)
qed

section \<open>Agreement\<close>

text \<open>What a header says to the signature: its values, trimmed, collapsed and joined.\<close>

definition header_text :: "gateway_request \<Rightarrow> string \<Rightarrow> string option" where
  "header_text req name = (case collectHeaders (gq_headers req) of
       Inl _ \<Rightarrow> None
     | Inr headers \<Rightarrow> map_option (\<lambda>values. join_with CHR '','' (map canonicalValue values)) (map_of headers name))"

lemma collapse_no_newline: "CHR 0x0A \<notin> set (collapse_spaces s)"
  by (induction s rule: collapse_spaces.induct) (auto simp: js_space_def)

lemma header_line_no_newline: "CHR 0x0A \<notin> set (join_with CHR '','' (map canonicalValue values))"
  by (intro join_chars) (auto simp: canonicalValue_def collapse_no_newline)

lemma canonicalHeaders_eq:
  assumes "canonicalHeaders headers names = Inr block" "canonicalHeaders headers' names = Inr block"
  shows "\<forall>name\<in>set names. map_option (\<lambda>values. join_with CHR '','' (map canonicalValue values)) (map_of headers name)
    = map_option (\<lambda>values. join_with CHR '','' (map canonicalValue values)) (map_of headers' name)"
  using assms
proof (induction names arbitrary: block)
  case (Cons name names)
  from Cons.prems(1) obtain vs rest where one: "map_of headers name = Some vs" "canonicalHeaders headers names = Inr rest"
      "block = name @ CHR '':'' # join_with CHR '','' (map canonicalValue vs) @ CHR 0x0A # rest"
    by (auto simp: bindS_Inr split: option.splits)
  from Cons.prems(2) obtain vs' rest' where two: "map_of headers' name = Some vs'" "canonicalHeaders headers' names = Inr rest'"
      "block = name @ CHR '':'' # join_with CHR '','' (map canonicalValue vs') @ CHR 0x0A # rest'"
    by (auto simp: bindS_Inr split: option.splits)
  from one(3) two(3) have "join_with CHR '','' (map canonicalValue vs) = join_with CHR '','' (map canonicalValue vs')" "rest = rest'"
    using append_sep_eq [OF header_line_no_newline [of vs] header_line_no_newline [of vs'], of rest rest'] by simp_all
  with one two Cons.IH [of rest] show ?case by simp
qed simp

lemma raw_target_no_newline: "RAW_TARGET_OK s \<Longrightarrow> CHR 0x0A \<notin> set s"
  by (auto simp: RAW_TARGET_OK_def list_all_iff raw_target_char_def)

lemma raw_path_subset: "set (raw_path s) \<subseteq> set s"
  by (auto simp: raw_path_def dest: set_takeWhileD)

lemma routed_lines:
  assumes "routeRequest uc req = Inr r"
  shows "CHR 0x0A \<notin> set (gq_method req)" "CHR 0x0A \<notin> set (raw_path (gq_rawTarget req))"
proof -
  from assms obtain q where ok: "route_operation req (rr_bucket r) (rr_key r) q = Inr r" "RAW_TARGET_OK (gq_rawTarget req)"
    by (rule routeRequest_sound)
  show "CHR 0x0A \<notin> set (gq_method req)"
    unfolding route_operation_sound(3) [OF ok(1)] by (cases "rr_operation r") (simp_all add: method_of_def)
  show "CHR 0x0A \<notin> set (raw_path (gq_rawTarget req))"
    using raw_target_no_newline [OF ok(2)] raw_path_subset by blast
qed

lemma signed_names:
  assumes "parseSignedHeaders line = Inr names"
  shows "names \<noteq> []" "\<forall>n\<in>set names. CHR '';'' \<notin> set n \<and> CHR 0x0A \<notin> set n" "set REQUIRED_SIGNED_HEADERS \<subseteq> set names"
proof -
  have names: "names = split_on CHR '';'' line" "list_all HEADER_NAME names" "set REQUIRED_SIGNED_HEADERS \<subseteq> set names"
    using assms by (auto simp: parseSignedHeaders_def Let_def list_all_iff split: if_splits)
  show "names \<noteq> []" "set REQUIRED_SIGNED_HEADERS \<subseteq> set names" using names by simp_all
  have "CHR '';'' \<notin> set n \<and> CHR 0x0A \<notin> set n" if "HEADER_NAME n" for n
  proof -
    from that have chars: "all_in (lowers @ digits @ ''!#$%&*+.^_|~-'' @ [CHR 0x27, CHR 0x60]) n"
      by (simp only: HEADER_NAME_def)
    show ?thesis
      by (intro conjI all_in_notin [OF chars]) (simp_all add: lowers_def digits_def)
  qed
  with names(2) show "\<forall>n\<in>set names. CHR '';'' \<notin> set n \<and> CHR 0x0A \<notin> set n" by (simp add: list_all_iff)
qed

lemma payload_hash_hex: "checkPayloadHash headers = Inr h \<Longrightarrow> HEX_SHA256 h \<and> single headers ''x-amz-content-sha256'' = Some h"
  by (auto simp: checkPayloadHash_def Let_def split: option.splits if_splits)

lemma hex_no_newline: "HEX_SHA256 h \<Longrightarrow> CHR 0x0A \<notin> set h"
  unfolding HEX_SHA256_def by (elim conjE, rule all_in_notin) (assumption, simp add: hex_lower_def)

lemma canonical_lines:
  assumes "m @ CHR 0x0A # p @ CHR 0x0A # q @ CHR 0x0A # b @ CHR 0x0A # s @ CHR 0x0A # h
      = m' @ CHR 0x0A # p' @ CHR 0x0A # q' @ CHR 0x0A # b' @ CHR 0x0A # s' @ CHR 0x0A # h'"
    and "\<forall>x\<in>{m, p, q, s, h, m', p', q', s', h'}. CHR 0x0A \<notin> set x"
  shows "m = m' \<and> p = p' \<and> q = q' \<and> b = b' \<and> s = s' \<and> h = h'"
proof -
  from assms have left: "m = m'" "p = p'" "q = q'"
      and rest: "(b @ CHR 0x0A # s) @ CHR 0x0A # h = (b' @ CHR 0x0A # s') @ CHR 0x0A # h'"
    by (simp_all add: append_sep_eq)
  from rest assms(2) have "b @ CHR 0x0A # s = b' @ CHR 0x0A # s'" "h = h'"
    using sep_append_eq [of "CHR 0x0A" h h'] by blast+
  moreover from this(1) assms(2) have "b = b'" "s = s'"
    using sep_append_eq [of "CHR 0x0A" s s'] by blast+
  ultimately show ?thesis using left by simp
qed

lemma prepared_lines:
  assumes "prepare uc vf now req = Inr p" "routeRequest uc req = Inr r"
  obtains headers query block where
    "collectHeaders (gq_headers req) = Inr headers" "canonicalQuery uc (raw_query (gq_rawTarget req)) = Inr query"
    "canonicalHeaders headers (pp_signedHeaders p) = Inr block"
    "pp_canonical p = gq_method req @ CHR 0x0A # raw_path (gq_rawTarget req) @ CHR 0x0A # query @ CHR 0x0A # block @ CHR 0x0A #
       join_with CHR '';'' (pp_signedHeaders p) @ CHR 0x0A # pp_payloadHash p"
    "\<forall>x\<in>{gq_method req, raw_path (gq_rawTarget req), query, join_with CHR '';'' (pp_signedHeaders p), pp_payloadHash p}.
       CHR 0x0A \<notin> set x"
    "pp_signedHeaders p \<noteq> []" "\<forall>n\<in>set (pp_signedHeaders p). CHR '';'' \<notin> set n"
proof -
  obtain headers line where h: "collectHeaders (gq_headers req) = Inr headers"
      "parseSignedHeaders line = Inr (pp_signedHeaders p)" "checkPayloadHash headers = Inr (pp_payloadHash p)"
      "canonicalRequest uc (gq_method req) (raw_path (gq_rawTarget req)) (raw_query (gq_rawTarget req)) headers
         (pp_signedHeaders p) (pp_payloadHash p) = Inr (pp_canonical p)"
    using assms(1) by (rule prepare_Inr)
  then obtain query block where c: "canonicalQuery uc (raw_query (gq_rawTarget req)) = Inr query"
      "canonicalHeaders headers (pp_signedHeaders p) = Inr block"
      "pp_canonical p = gq_method req @ CHR 0x0A # raw_path (gq_rawTarget req) @ CHR 0x0A # query @ CHR 0x0A # block @ CHR 0x0A #
         join_with CHR '';'' (pp_signedHeaders p) @ CHR 0x0A # pp_payloadHash p"
    by (auto simp: canonicalRequest_def bindS_Inr)
  have "CHR 0x0A \<notin> set (join_with CHR '';'' (pp_signedHeaders p))"
    using signed_names(2) [OF h(2)] by (intro join_chars) simp_all
  then show thesis
    using that [OF h(1) c] signed_names [OF h(2)] routed_lines [OF assms(2)] canonicalQuery_no_newline [OF c(1)]
      hex_no_newline [OF conjunct1 [OF payload_hash_hex [OF h(3)]]] by simp
qed

lemma routeRequest_parts:
  assumes "routeRequest uc req = Inr r"
  obtains segs q where "rr_bucket r = hd (split_on CHR ''/'' (drop 1 (raw_path (gq_rawTarget req))))"
    "decode_segments uc (tl (split_on CHR ''/'' (drop 1 (raw_path (gq_rawTarget req))))) = Some segs"
    "rr_key r = join_with 47 segs" "parseQuery uc (raw_query (gq_rawTarget req)) = Some q"
    "route_operation req (rr_bucket r) (rr_key r) q = Inr r"
proof -
  obtain segs q where ok: "decode_segments uc (tl (split_on CHR ''/'' (drop 1 (raw_path (gq_rawTarget req))))) = Some segs"
      "parseQuery uc (raw_query (gq_rawTarget req)) = Some q"
      "route_operation req (hd (split_on CHR ''/'' (drop 1 (raw_path (gq_rawTarget req))))) (join_with 47 segs) q = Inr r"
    using assms by (auto simp: routeRequest_def Let_def split: if_splits option.splits)
  with route_operation_sound(1,2) [OF ok(3)] show thesis by (intro that [of segs q]) simp_all
qed

text \<open>
  Two accepted requests with the same canonical text have the same verb, path, signed headers and payload hash, and
  their queries hold the same pairs; so if the router accepts both, it routes both alike.
\<close>

lemma same_canonical_same_route:
  assumes prep: "prepare uc vf now req = Inr p" "prepare uc vf' now' req' = Inr p'"
    and same: "pp_canonical p = pp_canonical p'"
    and routed: "routeRequest uc req = Inr r" "routeRequest uc req' = Inr r'"
  shows "r = r'" "pp_payloadHash p = pp_payloadHash p'" "pp_signedHeaders p = pp_signedHeaders p'"
    "\<forall>name\<in>set (pp_signedHeaders p). header_text req name = header_text req' name"
proof -
  from prep(1) routed(1) obtain headers query block where one: "collectHeaders (gq_headers req) = Inr headers"
      "canonicalQuery uc (raw_query (gq_rawTarget req)) = Inr query" "canonicalHeaders headers (pp_signedHeaders p) = Inr block"
      "pp_canonical p = gq_method req @ CHR 0x0A # raw_path (gq_rawTarget req) @ CHR 0x0A # query @ CHR 0x0A # block @ CHR 0x0A #
         join_with CHR '';'' (pp_signedHeaders p) @ CHR 0x0A # pp_payloadHash p"
      "\<forall>x\<in>{gq_method req, raw_path (gq_rawTarget req), query, join_with CHR '';'' (pp_signedHeaders p), pp_payloadHash p}.
         CHR 0x0A \<notin> set x"
      "pp_signedHeaders p \<noteq> []" "\<forall>n\<in>set (pp_signedHeaders p). CHR '';'' \<notin> set n"
    by (rule prepared_lines)
  from prep(2) routed(2) obtain headers' query' block' where two: "collectHeaders (gq_headers req') = Inr headers'"
      "canonicalQuery uc (raw_query (gq_rawTarget req')) = Inr query'" "canonicalHeaders headers' (pp_signedHeaders p') = Inr block'"
      "pp_canonical p' = gq_method req' @ CHR 0x0A # raw_path (gq_rawTarget req') @ CHR 0x0A # query' @ CHR 0x0A # block' @ CHR 0x0A #
         join_with CHR '';'' (pp_signedHeaders p') @ CHR 0x0A # pp_payloadHash p'"
      "\<forall>x\<in>{gq_method req', raw_path (gq_rawTarget req'), query', join_with CHR '';'' (pp_signedHeaders p'), pp_payloadHash p'}.
         CHR 0x0A \<notin> set x"
      "pp_signedHeaders p' \<noteq> []" "\<forall>n\<in>set (pp_signedHeaders p'). CHR '';'' \<notin> set n"
    by (rule prepared_lines)
  have lines: "gq_method req = gq_method req' \<and> raw_path (gq_rawTarget req) = raw_path (gq_rawTarget req') \<and> query = query' \<and>
      block = block' \<and> join_with CHR '';'' (pp_signedHeaders p) = join_with CHR '';'' (pp_signedHeaders p') \<and>
      pp_payloadHash p = pp_payloadHash p'"
    by (rule canonical_lines) (use same one(4) two(4) one(5) two(5) in auto)
  then show "pp_payloadHash p = pp_payloadHash p'" by simp
  from lines one(6,7) two(6,7) show names: "pp_signedHeaders p = pp_signedHeaders p'"
    by (intro join_with_inj [of "CHR '';''"]) auto
  show "\<forall>name\<in>set (pp_signedHeaders p). header_text req name = header_text req' name"
    using canonicalHeaders_eq [OF one(3), of headers'] two(3) lines names by (simp add: header_text_def one(1) two(1))
  obtain segs q where route: "rr_bucket r = hd (split_on CHR ''/'' (drop 1 (raw_path (gq_rawTarget req))))"
      "decode_segments uc (tl (split_on CHR ''/'' (drop 1 (raw_path (gq_rawTarget req))))) = Some segs"
      "rr_key r = join_with 47 segs" "parseQuery uc (raw_query (gq_rawTarget req)) = Some q"
      "route_operation req (rr_bucket r) (rr_key r) q = Inr r"
    using routed(1) by (rule routeRequest_parts)
  obtain segs' q' where route': "rr_bucket r' = hd (split_on CHR ''/'' (drop 1 (raw_path (gq_rawTarget req'))))"
      "decode_segments uc (tl (split_on CHR ''/'' (drop 1 (raw_path (gq_rawTarget req'))))) = Some segs'"
      "rr_key r' = join_with 47 segs'" "parseQuery uc (raw_query (gq_rawTarget req')) = Some q'"
      "route_operation req' (rr_bucket r') (rr_key r') q' = Inr r'"
    using routed(2) by (rule routeRequest_parts)
  have "mset q = mset q'"
    using one(2) two(2) lines route(4) route'(4) by (intro same_canonical_query) auto
  then have map: "map_of q = map_of q'"
    using parseQuery_distinct [OF route(4)] parseQuery_distinct [OF route'(4)] by (rule map_of_mset)
  have "rr_operation r = rr_operation r'"
    using route_operation_sound(11) [OF route(5)] route_operation_sound(11) [OF route'(5)] classify_cong [OF map] lines
    by simp
  moreover have "rr_bucket r = rr_bucket r'" using route(1) route'(1) lines by simp
  moreover have "rr_key r = rr_key r'" using route(2,3) route'(2,3) lines by simp
  ultimately show "r = r'"
    using route_operation_sound(9,10) [OF route(5)] route_operation_sound(9,10) [OF route'(5)] map
    by (intro routed_request.equality) simp_all
qed

end
