(* ===== verification/Storage_Credentials.thy ===== *)
theory Storage_Credentials
  imports Storage_Router Encoding "HOL-Library.Char_ord" "HOL-Library.List_Lexorder" "HOL-Library.Product_Lexorder"
begin

text \<open>
  The credential store of the storage gateway and the secrets derived from it:
  \<open>src/services/storage-gateway/src/credentials/store.ts\<close>, \<open>schema.ts\<close>, \<open>derive.ts\<close> and \<open>secretSource.ts\<close>.

  The table is the list of its rows in the order they were inserted, with the two uniqueness constraints of the
  schema written out; \<open>user_version\<close> is the generation.  A change commits with its generation, then the anchor
  file is written, which may fail or be cut off by a crash.  HKDF is a parameter.
\<close>

section \<open>The table\<close>

record stored_credential =
  sc_keyId :: string
  sc_folder :: utext
  sc_bucket :: string
  sc_state :: credential_state
  sc_createdAt :: string
  sc_disabledAt :: "string option"

record database =
  db_rows :: "stored_credential list"
  db_generation :: nat

definition credential_of :: "stored_credential \<Rightarrow> credential_record" where
  "credential_of c = \<lparr>cr_folder = sc_folder c, cr_bucket = sc_bucket c, cr_state = sc_state c,
     cr_createdAt = sc_createdAt c, cr_uploadCeilingMib = None\<rparr>"

definition get_credential :: "string \<Rightarrow> stored_credential list \<Rightarrow> stored_credential option" where
  "get_credential keyId rows = find (\<lambda>c. sc_keyId c = keyId) rows"

text \<open>An insert that meets the primary key or the index on active folders does nothing.\<close>

definition conflicts :: "stored_credential \<Rightarrow> stored_credential list \<Rightarrow> bool" where
  "conflicts c rows \<longleftrightarrow> list_ex (\<lambda>r. sc_keyId r = sc_keyId c \<or>
     (sc_state r = Active \<and> sc_state c = Active \<and> sc_folder r = sc_folder c)) rows"

text \<open>What a change reports, whether it changed anything, and the rows after it.\<close>

type_synonym 'a change = "stored_credential list \<Rightarrow> 'a \<times> bool \<times> stored_credential list"

definition insert_rows :: "stored_credential \<Rightarrow> stored_credential option change" where
  "insert_rows c rows = (if conflicts c rows then (None, False, rows) else (Some c, True, rows @ [c]))"

definition disable_where :: "(stored_credential \<Rightarrow> bool) \<Rightarrow> string \<Rightarrow> stored_credential list \<Rightarrow> stored_credential list" where
  "disable_where P disabledAt rows = map (\<lambda>r. if P r \<and> sc_state r = Active
     then r\<lparr>sc_state := Disabled, sc_disabledAt := Some disabledAt\<rparr> else r) rows"

definition disable_folder_rows :: "utext \<Rightarrow> string \<Rightarrow> nat change" where
  "disable_folder_rows folder disabledAt rows =
     (let n = length (filter (\<lambda>r. sc_folder r = folder \<and> sc_state r = Active) rows) in
      (n, n > 0, disable_where (\<lambda>r. sc_folder r = folder) disabledAt rows))"

definition disable_rows :: "string \<Rightarrow> string \<Rightarrow> nat change" where
  "disable_rows keyId disabledAt rows =
     (let n = length (filter (\<lambda>r. sc_keyId r = keyId \<and> sc_state r = Active) rows) in
      (n, n = 1, disable_where (\<lambda>r. sc_keyId r = keyId) disabledAt rows))"

section \<open>The anchor\<close>

text \<open>\<open>readAnchor\<close>: absent, damaged, or a generation.\<close>

datatype anchor = NoAnchor | DamagedAnchor | Anchored nat

definition readAnchor :: "string option \<Rightarrow> anchor" where
  "readAnchor text = (case text of
       None \<Rightarrow> NoAnchor
     | Some t \<Rightarrow>
         (let ds = takeWhile (\<lambda>c. c \<in> set digits) t; rest = dropWhile (\<lambda>c. c \<in> set digits) t in
          if 1 \<le> length ds \<and> length ds \<le> 15 \<and> (rest = [] \<or> rest = [CHR 0x0A]) then Anchored (number_of_digits ds)
          else DamagedAnchor))"

definition anchor_text :: "nat \<Rightarrow> string" where
  "anchor_text generation = show_nat generation @ [CHR 0x0A]"

record store =
  st_db :: database
  st_anchor :: "string option"

datatype store_error = StoreRollback nat nat | StoreAnchorMissing nat | StoreAnchorDamaged

text \<open>\<open>checkAnchor\<close>, on a store whose anchor may have to be created.\<close>

definition checkAnchor :: "store \<Rightarrow> store_error + store" where
  "checkAnchor s = (let found = db_generation (st_db s) in case readAnchor (st_anchor s) of
       DamagedAnchor \<Rightarrow> Inl StoreAnchorDamaged
     | NoAnchor \<Rightarrow> if found > 0 then Inl (StoreAnchorMissing found) else Inr (s\<lparr>st_anchor := Some (anchor_text 0)\<rparr>)
     | Anchored expected \<Rightarrow> if found < expected then Inl (StoreRollback found expected) else Inr s)"

definition syncAnchor :: "store \<Rightarrow> store" where
  "syncAnchor s =
     (let found = (if db_generation (st_db s) = 0 then 1 else db_generation (st_db s)) in
      s\<lparr>st_db := (st_db s)\<lparr>db_generation := found\<rparr>,
        st_anchor := (if readAnchor (st_anchor s) = Anchored found then st_anchor s else Some (anchor_text found))\<rparr>)"

text \<open>Migrating the schema changes no row.\<close>

definition openStore :: "store \<Rightarrow> store_error + store" where
  "openStore s = bindS (checkAnchor s) (\<lambda>s'. Inr (syncAnchor s'))"

section \<open>The operations\<close>

text \<open>
  \<open>#record\<close>: the change and its generation commit together, then the anchor.  \<open>anchored\<close> is whether the write of
  the anchor gets done: it may throw, or the process may die first, and then nothing is returned.
\<close>

definition record_change :: "bool \<Rightarrow> 'a change \<Rightarrow> store \<Rightarrow> 'a option \<times> store" where
  "record_change anchored change s =
     (let (v, changed, rows) = change (db_rows (st_db s)); next_gen = db_generation (st_db s) + 1 in
      if \<not> changed then (Some v, s\<lparr>st_db := (st_db s)\<lparr>db_rows := rows\<rparr>\<rparr>)
      else
        (let s' = s\<lparr>st_db := \<lparr>db_rows = rows, db_generation = next_gen\<rparr>\<rparr> in
         if anchored then (Some v, s'\<lparr>st_anchor := Some (anchor_text next_gen)\<rparr>) else (None, s')))"

datatype insert_result = Inserted stored_credential | KeyIdTaken | FolderHasActive

definition insert_credential :: "bool \<Rightarrow> string \<Rightarrow> utext \<Rightarrow> string \<Rightarrow> string \<Rightarrow> store \<Rightarrow> insert_result option \<times> store" where
  "insert_credential anchored keyId folder bucket createdAt s =
     (let c = \<lparr>sc_keyId = keyId, sc_folder = folder, sc_bucket = bucket, sc_state = Active, sc_createdAt = createdAt, sc_disabledAt = None\<rparr>;
          (r, s') = record_change anchored (insert_rows c) s in
      (case r of
         None \<Rightarrow> None
       | Some (Some row) \<Rightarrow> Some (Inserted row)
       | Some None \<Rightarrow> Some (if get_credential keyId (db_rows (st_db s')) \<noteq> None then KeyIdTaken else FolderHasActive), s'))"

text \<open>By creation time, then key id.\<close>

definition listByFolder :: "utext \<Rightarrow> stored_credential list \<Rightarrow> stored_credential list" where
  "listByFolder folder rows = sort_key (\<lambda>r. (sc_createdAt r, sc_keyId r)) (filter (\<lambda>r. sc_folder r = folder) rows)"

definition disableFolder :: "bool \<Rightarrow> utext \<Rightarrow> string \<Rightarrow> store \<Rightarrow> nat option \<times> store" where
  "disableFolder anchored folder disabledAt s = record_change anchored (disable_folder_rows folder disabledAt) s"

datatype disable_result = DisabledNow | NotActive | UnknownKey

definition disable_credential :: "bool \<Rightarrow> string \<Rightarrow> string \<Rightarrow> store \<Rightarrow> disable_result option \<times> store" where
  "disable_credential anchored keyId disabledAt s =
     (let (r, s') = record_change anchored (disable_rows keyId disabledAt) s in
      (case r of
         None \<Rightarrow> None
       | Some updated \<Rightarrow>
           Some (if updated = 1 then DisabledNow
                 else if get_credential keyId (db_rows (st_db s')) = None then UnknownKey else NotActive), s'))"

section \<open>Secrets\<close>

definition TENANT_SECRET_LABEL :: string where
  "TENANT_SECRET_LABEL = ''branchleft/storage-gateway/tenant-sigv4-secret/v1''"

definition isValidKeyId :: "string \<Rightarrow> bool" where
  "isValidKeyId keyId \<longleftrightarrow> 16 \<le> length keyId \<and> length keyId \<le> 64 \<and> all_in (uppers @ digits) keyId"

definition tenantSecretInfo :: "string \<Rightarrow> nat list" where
  "tenantSecretInfo keyId = utf8 TENANT_SECRET_LABEL @ [0] @ utf8 keyId"

text \<open>\<open>hkdf master info\<close> is 32 bytes of HKDF-SHA256 with an empty salt.\<close>

definition deriveTenantSecret :: "(nat list \<Rightarrow> nat list \<Rightarrow> nat list) \<Rightarrow> nat list \<Rightarrow> string \<Rightarrow> string option" where
  "deriveTenantSecret hkdf master keyId =
     (if \<not> isValidKeyId keyId then None else Some (b64_encode base64_url (hkdf master (tenantSecretInfo keyId))))"

definition signingSecret :: "(nat list \<Rightarrow> nat list \<Rightarrow> nat list) \<Rightarrow> nat list \<Rightarrow> stored_credential list \<Rightarrow> string \<Rightarrow> string option" where
  "signingSecret hkdf master rows keyId =
     (if \<not> isValidKeyId keyId then None
      else (case get_credential keyId rows of
          None \<Rightarrow> None
        | Some c \<Rightarrow> if sc_state c \<noteq> Active then None else deriveTenantSecret hkdf master keyId))"

end
