(* ===== verification/Storage_Guard.thy ===== *)
theory Storage_Guard
  imports Storage_Credentials
begin

text \<open>
  What the credential store guarantees over its whole life: a key id stands for one folder and is never active
  again once it was not, a folder has one active credential at most, and no older copy of the database is opened.
\<close>

section \<open>The table\<close>

definition rows_ok :: "stored_credential list \<Rightarrow> bool" where
  "rows_ok rows \<longleftrightarrow> distinct (map sc_keyId rows) \<and>
     (\<forall>r\<in>set rows. \<forall>r'\<in>set rows. sc_state r = Active \<and> sc_state r' = Active \<and> sc_folder r = sc_folder r' \<longrightarrow> r = r')"

text \<open>Every row is still there, the same but for its state, which only leaves \<open>Active\<close>.\<close>

definition row_later :: "stored_credential \<Rightarrow> stored_credential \<Rightarrow> bool" where
  "row_later r r' \<longleftrightarrow> sc_keyId r' = sc_keyId r \<and> sc_folder r' = sc_folder r \<and> sc_bucket r' = sc_bucket r \<and>
     sc_createdAt r' = sc_createdAt r \<and> (sc_state r \<noteq> Active \<longrightarrow> r' = r)"

definition rows_later :: "stored_credential list \<Rightarrow> stored_credential list \<Rightarrow> bool" where
  "rows_later rows rows' \<longleftrightarrow> length rows \<le> length rows' \<and> (\<forall>i<length rows. row_later (rows ! i) (rows' ! i))"

lemma rows_later_refl [simp]: "rows_later rows rows"
  by (simp add: rows_later_def row_later_def)

lemma row_later_trans: "row_later a b \<Longrightarrow> row_later b c \<Longrightarrow> row_later a c"
  by (auto simp: row_later_def)

lemma rows_later_trans: "rows_later a b \<Longrightarrow> rows_later b c \<Longrightarrow> rows_later a c"
  unfolding rows_later_def by (blast intro: order_trans less_le_trans row_later_trans)

lemma insert_rows_ok: "rows_ok rows \<Longrightarrow> rows_ok (snd (snd (insert_rows c rows)))"
  by (auto simp: rows_ok_def insert_rows_def conflicts_def list_ex_iff)

lemma insert_rows_later: "rows_later rows (snd (snd (insert_rows c rows)))"
  by (auto simp: insert_rows_def rows_later_def row_later_def nth_append)

lemma disable_where_keys [simp]: "map sc_keyId (disable_where P at rows) = map sc_keyId rows"
  by (simp add: disable_where_def comp_def if_distrib cong: if_cong)

lemma active_kept: "r \<in> set (disable_where P at rows) \<Longrightarrow> sc_state r = Active \<Longrightarrow> r \<in> set rows"
  by (auto simp: disable_where_def split: if_splits)

lemma disable_where_ok: "rows_ok rows \<Longrightarrow> rows_ok (disable_where P at rows)"
  unfolding rows_ok_def disable_where_keys by (blast dest: active_kept)

lemma disable_where_later: "rows_later rows (disable_where P at rows)"
  by (auto simp: disable_where_def rows_later_def row_later_def)

definition keeps_rows :: "'a change \<Rightarrow> bool" where
  "keeps_rows change \<longleftrightarrow> (\<forall>rows. (rows_ok rows \<longrightarrow> rows_ok (snd (snd (change rows)))) \<and> rows_later rows (snd (snd (change rows))))"

lemma keeps_rows_changes [simp]:
  "keeps_rows (insert_rows c)" "keeps_rows (disable_folder_rows f at)" "keeps_rows (disable_rows k at)"
  by (simp_all add: keeps_rows_def insert_rows_ok insert_rows_later disable_folder_rows_def disable_rows_def Let_def
      disable_where_ok disable_where_later)

section \<open>The anchor\<close>

lemma readAnchor_text:
  assumes "g < 10 ^ 15"
  shows "readAnchor (Some (anchor_text g)) = Anchored g"
proof -
  have ds: "\<forall>c\<in>set (show_nat g). c \<in> set digits"
    using all_in_show_nat [of g] by (simp add: all_in_def list_all_iff)
  have nl: "CHR 0x0A \<notin> set digits" by (simp add: digits_def)
  from ds nl have "takeWhile (\<lambda>c. c \<in> set digits) (anchor_text g) = show_nat g"
      "dropWhile (\<lambda>c. c \<in> set digits) (anchor_text g) = [CHR 0x0A]"
    by (simp_all add: anchor_text_def takeWhile_append2 dropWhile_append2)
  moreover have "1 \<le> length (show_nat g)" "length (show_nat g) \<le> 15"
    using length_show_nat [of 15 g] assms by (simp_all add: Suc_le_eq)
  ultimately show ?thesis by (simp add: readAnchor_def Let_def)
qed

section \<open>The life of a store\<close>

text \<open>
  \<open>store_run opened past s\<close>: the store is \<open>s\<close>, \<open>past\<close> are the databases it was, and \<open>opened\<close> says whether a process
  has it open.  An open may be cut after the anchor was created or after the generation was stamped; a change may
  commit without its anchor; the process may go away at any time.
\<close>

inductive store_run :: "bool \<Rightarrow> database list \<Rightarrow> store \<Rightarrow> bool" where
  fresh: "store_run False [] \<lparr>st_db = \<lparr>db_rows = [], db_generation = 0\<rparr>, st_anchor = None\<rparr>"
| opens: "store_run False past s \<Longrightarrow> openStore s = Inr s' \<Longrightarrow> store_run True (st_db s # past) s'"
| open_cut: "store_run False past s \<Longrightarrow> checkAnchor s = Inr s' \<Longrightarrow> store_run False (st_db s # past) s'"
| stamp_cut: "store_run False past s \<Longrightarrow> checkAnchor s = Inr s' \<Longrightarrow>
    store_run False (st_db s # past) (s'\<lparr>st_db := st_db (syncAnchor s')\<rparr>)"
| inserts: "store_run True past s \<Longrightarrow> insert_credential anchored k f b at s = (r, s') \<Longrightarrow> store_run True (st_db s # past) s'"
| disables: "store_run True past s \<Longrightarrow> disable_credential anchored k at s = (r, s') \<Longrightarrow> store_run True (st_db s # past) s'"
| disables_folder: "store_run True past s \<Longrightarrow> disableFolder anchored f at s = (r, s') \<Longrightarrow> store_run True (st_db s # past) s'"
| stops: "store_run True past s \<Longrightarrow> store_run False past s"

lemma record_change_db:
  assumes "record_change anchored change s = (r, s')" "keeps_rows change"
  shows "rows_ok (db_rows (st_db s)) \<Longrightarrow> rows_ok (db_rows (st_db s'))" "rows_later (db_rows (st_db s)) (db_rows (st_db s'))"
    "db_generation (st_db s) \<le> db_generation (st_db s')"
  using assms by (auto simp: record_change_def keeps_rows_def Let_def split: prod.splits if_splits) (metis snd_conv)+

lemma store_change_db:
  "insert_credential anchored k f b at s = (ri, s') \<Longrightarrow> \<exists>c r. record_change anchored (insert_rows c) s = (r, s')"
  "disable_credential anchored k at s = (rd, s') \<Longrightarrow> \<exists>r. record_change anchored (disable_rows k at) s = (r, s')"
  by (auto simp: insert_credential_def disable_credential_def Let_def split: prod.splits)

lemma checkAnchor_db: "checkAnchor s = Inr s' \<Longrightarrow> st_db s' = st_db s"
  by (auto simp: checkAnchor_def Let_def split: anchor.splits if_splits)

lemma syncAnchor_db: "db_rows (st_db (syncAnchor s)) = db_rows (st_db s)" "db_generation (st_db s) \<le> db_generation (st_db (syncAnchor s))"
  by (simp_all add: syncAnchor_def Let_def)

definition later :: "database \<Rightarrow> database \<Rightarrow> bool" where
  "later d d' \<longleftrightarrow> rows_later (db_rows d) (db_rows d') \<and> db_generation d \<le> db_generation d'"

lemma later_trans: "later a b \<Longrightarrow> later b c \<Longrightarrow> later a c"
  unfolding later_def by (blast intro: rows_later_trans order_trans)

lemma store_run_inv:
  "store_run opened past s \<Longrightarrow> rows_ok (db_rows (st_db s)) \<and> (\<forall>d\<in>set past. later d (st_db s))"
proof (induction rule: store_run.induct)
  case fresh
  then show ?case by (simp add: rows_ok_def)
next
  case (opens past s s')
  then obtain x where x: "checkAnchor s = Inr x" "s' = syncAnchor x" by (auto simp: openStore_def bindS_Inr)
  with opens.IH syncAnchor_db [of x] checkAnchor_db [OF x(1)]
  have "rows_ok (db_rows (st_db s'))" "later (st_db s) (st_db s')" by (simp_all add: later_def)
  with opens.IH show ?case by (auto intro: later_trans)
next
  case (open_cut past s s')
  then show ?case by (auto simp: checkAnchor_db later_def)
next
  case (stamp_cut past s s')
  then have "rows_ok (db_rows (st_db (syncAnchor s')))" "later (st_db s) (st_db (syncAnchor s'))"
    using syncAnchor_db [of s'] by (simp_all add: later_def checkAnchor_db)
  with stamp_cut.IH show ?case by (auto intro: later_trans)
next
  case (inserts past s anchored k f b at r s')
  then obtain c r' where "record_change anchored (insert_rows c) s = (r', s')" using store_change_db(1) by blast
  from record_change_db [OF this] inserts.IH show ?case
    by (auto simp: later_def intro: rows_later_trans order_trans)
next
  case (disables past s anchored k at r s')
  then obtain r' where "record_change anchored (disable_rows k at) s = (r', s')" using store_change_db(2) by blast
  from record_change_db [OF this] disables.IH show ?case
    by (auto simp: later_def intro: rows_later_trans order_trans)
next
  case (disables_folder past s anchored f at r s')
  from record_change_db [OF disables_folder(2) [unfolded disableFolder_def]] disables_folder.IH show ?case
    by (auto simp: later_def intro: rows_later_trans order_trans)
qed simp

section \<open>Retired keys and older copies\<close>

lemma get_credential_row: "rows_ok rows \<Longrightarrow> r \<in> set rows \<Longrightarrow> get_credential (sc_keyId r) rows = Some r"
proof -
  assume ok: "rows_ok rows" "r \<in> set rows"
  then have "inj_on sc_keyId (set rows)" by (simp add: rows_ok_def distinct_map)
  with ok(2) show ?thesis
    unfolding get_credential_def
    by (cases "find (\<lambda>c. sc_keyId c = sc_keyId r) rows")
       (auto simp: find_None_iff find_Some_iff inj_on_def)
qed

lemma rows_later_mem:
  assumes "rows_later rows rows'" "r \<in> set rows" "sc_state r \<noteq> Active"
  shows "r \<in> set rows'"
  using assms unfolding rows_later_def row_later_def in_set_conv_nth by (metis less_le_trans)

lemma retired_row:
  assumes "store_run opened past s" "d \<in> set past" "r \<in> set (db_rows d)" "sc_state r \<noteq> Active"
  shows "r \<in> set (db_rows (st_db s))" "rows_ok (db_rows (st_db s))"
  using store_run_inv [OF assms(1)] assms(2-4) rows_later_mem by (auto simp: later_def)

text \<open>A change that reported success.\<close>

definition changed_to :: "store \<Rightarrow> store \<Rightarrow> bool" where
  "changed_to s s' \<longleftrightarrow> (\<exists>k f b at c. insert_credential True k f b at s = (Some (Inserted c), s')) \<or>
     (\<exists>k at. disable_credential True k at s = (Some DisabledNow, s')) \<or>
     (\<exists>f at n. disableFolder True f at s = (Some n, s') \<and> n > 0)"

lemma changed_to_anchor:
  assumes "changed_to s s'"
  shows "st_anchor s' = Some (anchor_text (db_generation (st_db s) + 1)) \<and> db_generation (st_db s') = db_generation (st_db s) + 1"
proof -
  consider k f b at c where "insert_credential True k f b at s = (Some (Inserted c), s')"
    | k at where "disable_credential True k at s = (Some DisabledNow, s')"
    | f at n where "disableFolder True f at s = (Some n, s')" "n > 0"
    using assms unfolding changed_to_def by blast
  then show ?thesis
  proof cases
    case 1
    then show ?thesis
      by (auto simp: insert_credential_def Let_def record_change_def insert_rows_def split: prod.splits if_splits option.splits)
  next
    case 2
    then show ?thesis
      by (auto simp: disable_credential_def Let_def record_change_def disable_rows_def split: prod.splits if_splits)
  next
    case 3
    then show ?thesis
      by (auto simp: disableFolder_def Let_def record_change_def disable_folder_rows_def split: if_splits)
  qed
qed

text \<open>C11: A credential that is not active is never active again, whatever happens to the store: its row stays as it
  is, no secret is given for its key id, and the key id is never issued again.\<close>

theorem retired_key_stays_retired:
  assumes "store_run opened past s" "d \<in> set past" "r \<in> set (db_rows d)" "sc_state r \<noteq> Active"
  shows "get_credential (sc_keyId r) (db_rows (st_db s)) = Some r \<and>
    signingSecret hkdf master (db_rows (st_db s)) (sc_keyId r) = None \<and>
    fst (insert_credential anchored (sc_keyId r) folder bucket at s) = Some KeyIdTaken"
proof -
  note row = retired_row [OF assms]
  have got: "get_credential (sc_keyId r) (db_rows (st_db s)) = Some r"
    by (rule get_credential_row [OF row(2,1)])
  moreover have "signingSecret hkdf master (db_rows (st_db s)) (sc_keyId r) = None"
    using assms(4) by (simp add: signingSecret_def got)
  moreover have "conflicts \<lparr>sc_keyId = sc_keyId r, sc_folder = folder, sc_bucket = bucket, sc_state = Active,
      sc_createdAt = at, sc_disabledAt = None\<rparr> (db_rows (st_db s))"
    using row(1) by (auto simp: conflicts_def list_ex_iff)
  ultimately show ?thesis
    by (simp add: insert_credential_def Let_def record_change_def insert_rows_def)
qed

text \<open>C37: Once a change was reported done, no earlier copy of the database is opened again: beside the anchor it is
  refused as a rollback, and with the anchor gone it is refused unless it is the copy of a store never opened.\<close>

theorem older_copy_is_refused:
  assumes "store_run True past s" "changed_to s s'" "d \<in> set (st_db s # past)" "db_generation (st_db s') < 10 ^ 15"
  shows "openStore \<lparr>st_db = d, st_anchor = st_anchor s'\<rparr> = Inl (StoreRollback (db_generation d) (db_generation (st_db s'))) \<and>
    (0 < db_generation d \<longrightarrow> openStore \<lparr>st_db = d, st_anchor = None\<rparr> = Inl (StoreAnchorMissing (db_generation d)))"
proof -
  have "db_generation d \<le> db_generation (st_db s)"
    using store_run_inv [OF assms(1)] assms(3) by (auto simp: later_def)
  then show ?thesis
    using changed_to_anchor [OF assms(2)] readAnchor_text [OF assms(4)]
    by (simp add: openStore_def checkAnchor_def readAnchor_def)
qed

section \<open>A sample\<close>

definition sample_key :: string where
  "sample_key = ''GWAAAAAAAAAAAAAA''"

definition sample_row :: "credential_state \<Rightarrow> string option \<Rightarrow> stored_credential" where
  "sample_row state disabledAt = \<lparr>sc_keyId = sample_key, sc_folder = [65], sc_bucket = ''bucket'', sc_state = state,
     sc_createdAt = ''t0'', sc_disabledAt = disabledAt\<rparr>"

definition sample_store :: "stored_credential list \<Rightarrow> nat \<Rightarrow> store" where
  "sample_store rows generation = \<lparr>st_db = \<lparr>db_rows = rows, db_generation = generation\<rparr>, st_anchor = Some (anchor_text generation)\<rparr>"

definition sample_fresh :: store where
  "sample_fresh = \<lparr>st_db = \<lparr>db_rows = [], db_generation = 0\<rparr>, st_anchor = None\<rparr>"

lemma sample_opens: "openStore sample_fresh = Inr (sample_store [] 1)"
  using readAnchor_text [of 0]
  by (simp add: openStore_def checkAnchor_def syncAnchor_def sample_fresh_def sample_store_def)
     (simp add: readAnchor_def)

lemma sample_minted:
  "insert_credential True sample_key [65] ''bucket'' ''t0'' (sample_store [] 1)
     = (Some (Inserted (sample_row Active None)), sample_store [sample_row Active None] 2)"
  by (simp add: insert_credential_def record_change_def insert_rows_def conflicts_def sample_store_def sample_row_def Let_def numeral_2_eq_2)

lemma sample_disabled:
  "disable_credential True sample_key ''t1'' (sample_store [sample_row Active None] 2)
     = (Some DisabledNow, sample_store [sample_row Disabled (Some ''t1'')] 3)"
  by (simp add: disable_credential_def record_change_def disable_rows_def disable_where_def sample_store_def sample_row_def numeral_3_eq_3)

lemma sample_run:
  "store_run True [st_db (sample_store [sample_row Active None] 2), st_db (sample_store [] 1), st_db sample_fresh]
     (sample_store [sample_row Disabled (Some ''t1'')] 3)"
  by (rule store_run.disables [OF store_run.inserts [OF store_run.opens [OF store_run.fresh [folded sample_fresh_def]]]])
     (fact sample_opens sample_minted sample_disabled)+

lemma retired_key_stays_retired_witness:
  "get_credential (sc_keyId (sample_row Disabled (Some ''t1''))) (db_rows (st_db (sample_store [sample_row Disabled (Some ''t1'')] 3)))
      = Some (sample_row Disabled (Some ''t1'')) \<and>
   signingSecret (\<lambda>_ _. [7]) [] (db_rows (st_db (sample_store [sample_row Disabled (Some ''t1'')] 3)))
      (sc_keyId (sample_row Disabled (Some ''t1''))) = None \<and>
   fst (insert_credential True (sc_keyId (sample_row Disabled (Some ''t1''))) [66] ''other'' ''t2''
      (sample_store [sample_row Disabled (Some ''t1'')] 3)) = Some KeyIdTaken"
proof (rule retired_key_stays_retired [where d = "st_db (sample_store [sample_row Disabled (Some ''t1'')] 3)"])
  show "store_run True (st_db (sample_store [sample_row Disabled (Some ''t1'')] 3) #
      [st_db (sample_store [sample_row Active None] 2), st_db (sample_store [] 1), st_db sample_fresh])
      (sample_store [sample_row Disabled (Some ''t1'')] 3)"
  proof (rule store_run.disables [OF sample_run])
    show "disable_credential True sample_key ''t2'' (sample_store [sample_row Disabled (Some ''t1'')] 3)
        = (Some NotActive, sample_store [sample_row Disabled (Some ''t1'')] 3)"
      by (simp add: disable_credential_def record_change_def disable_rows_def disable_where_def sample_store_def sample_row_def
          get_credential_def)
  qed
qed (simp_all add: sample_store_def sample_row_def)

lemma older_copy_is_refused_witness:
  "openStore \<lparr>st_db = st_db (sample_store [sample_row Active None] 2), st_anchor = st_anchor (sample_store [sample_row Disabled (Some ''t1'')] 3)\<rparr>
     = Inl (StoreRollback 2 3) \<and>
   openStore \<lparr>st_db = st_db (sample_store [sample_row Active None] 2), st_anchor = None\<rparr> = Inl (StoreAnchorMissing 2)"
proof -
  have run: "store_run True [st_db (sample_store [] 1), st_db sample_fresh] (sample_store [sample_row Active None] 2)"
    by (rule store_run.inserts [OF store_run.opens [OF store_run.fresh [folded sample_fresh_def]]])
       (fact sample_opens sample_minted)+
  have changed: "changed_to (sample_store [sample_row Active None] 2) (sample_store [sample_row Disabled (Some ''t1'')] 3)"
    using sample_disabled unfolding changed_to_def by blast
  show ?thesis
    using older_copy_is_refused [OF run changed, of "st_db (sample_store [sample_row Active None] 2)"]
    by (simp add: sample_store_def)
qed

end
