(* ===== verification/Storage_Gateway.thy ===== *)
theory Storage_Gateway
  imports Storage_Admit Storage_Signed Storage_Guard
begin

text \<open>
  The storage gateway put together: admission on the modelled signature check, credential table and upload table.
\<close>

section \<open>What the check accepted\<close>

text \<open>A request the check accepts: signed with the secret of the key id, in the window, over the body it has.\<close>

definition signed_by :: "sha \<Rightarrow> unicode \<Rightarrow> verifier \<Rightarrow> int \<Rightarrow> gateway_request \<Rightarrow> string \<Rightarrow> string \<Rightarrow> bool" where
  "signed_by H uc vf now req keyId secret \<longleftrightarrow> secret \<noteq> [] \<and> (\<exists>p requestTime.
     prepare uc vf now req = Inr p \<and> pp_keyId p = keyId \<and> pp_provided p = expectedSignature H vf secret p \<and>
     parseAmzDate (Some (pp_amzDate p)) = Inr requestTime \<and> \<bar>now - requestTime\<bar> \<le> vf_clockWindowMs vf \<and>
     set REQUIRED_SIGNED_HEADERS \<subseteq> set (pp_signedHeaders p) \<and>
     (case gq_bodySha256 req of Some digest \<Rightarrow> digest = pp_payloadHash p
        | None \<Rightarrow> gq_method req \<notin> set BODY_METHODS \<and> pp_payloadHash p = EMPTY_SHA256 H))"

lemma check_signature_sound:
  assumes "check_signature H uc vf now req = Inr keyId"
  shows "\<exists>secret. vf_secrets vf keyId = Inr (Some secret) \<and> signed_by H uc vf now req keyId secret"
proof -
  obtain p where p: "prepare uc vf now req = Inr p"
    using assms by (auto simp: check_signature_def bindS_Inr)
  then obtain secret where s: "vf_secrets vf (pp_keyId p) = Inr (Some secret)" "secret \<noteq> []"
    using assms by (auto simp: check_signature_def guardS_Inr split: sum.splits option.splits)
  with p assms have rest: "expectedSignature H vf secret p = pp_provided p" "pp_keyId p = keyId"
      "(case gq_bodySha256 req of Some b \<Rightarrow> Inr b | None \<Rightarrow> bodilessDigest H (gq_method req)) = Inr (pp_payloadHash p)"
    by (auto simp: check_signature_def guardS_Inr bindS_Inr digestsEqual_def split: if_splits)
  from p obtain headers line requestTime where h: "parseSignedHeaders line = Inr (pp_signedHeaders p)"
      "parseAmzDate (single headers ''x-amz-date'') = Inr requestTime" "single headers ''x-amz-date'' = Some (pp_amzDate p)"
      "\<bar>now - requestTime\<bar> \<le> vf_clockWindowMs vf"
    by (rule prepare_Inr)
  have "case gq_bodySha256 req of Some digest \<Rightarrow> digest = pp_payloadHash p
        | None \<Rightarrow> gq_method req \<notin> set BODY_METHODS \<and> pp_payloadHash p = EMPTY_SHA256 H"
    using rest(3) by (auto simp: bodilessDigest_def split: option.splits if_splits)
  with s rest(1,2) p h signed_names(3) [OF h(1)] show ?thesis
    unfolding signed_by_def by (intro exI [of _ secret]) auto
qed

section \<open>The gateway\<close>

definition gateway_verifier :: "(nat list \<Rightarrow> nat list \<Rightarrow> nat list) \<Rightarrow> nat list \<Rightarrow> string \<Rightarrow> stored_credential list \<Rightarrow> verifier" where
  "gateway_verifier hkdf master region rows =
     \<lparr>vf_region = region, vf_service = ''s3'', vf_clockWindowMs = DEFAULT_CLOCK_WINDOW_MS,
      vf_secrets = (\<lambda>keyId. Inr (signingSecret hkdf master rows keyId))\<rparr>"

definition gateway_deps ::
  "sha \<Rightarrow> unicode \<Rightarrow> verifier \<Rightarrow> int \<Rightarrow> stored_credential list \<Rightarrow> upload_table \<Rightarrow> (refusal_log \<Rightarrow> (js_exn, unit) outcome) \<Rightarrow> admit_deps" where
  "gateway_deps H uc vf now rows uploads logger =
     \<lparr>ad_verify = (\<lambda>req. Ok (case verifySigV4 H uc vf now req of Inr keyId \<Rightarrow> Verified (Some keyId) | Inl code \<Rightarrow> NotVerified code)),
      ad_lookup = (\<lambda>keyId. Ok (map_option credential_of (get_credential keyId rows))),
      ad_logger = logger,
      ad_uploads = Some (\<lambda>uploadId binding. Ok (isBound now uploadId binding uploads))\<rparr>"

lemma verifySigV4_Inr: "verifySigV4 H uc vf now req = Inr keyId \<longleftrightarrow> check_signature H uc vf now req = Inr keyId"
  by (auto simp: verifySigV4_def verifyDetailed_def split: sum.splits sig_reason.splits prod.splits)

end
