(* ===== verification/Storage_Sample.thy ===== *)
theory Storage_Sample
  imports Storage_Gateway
begin

text \<open>A signed request that the storage gateway admits, with constant hash functions.\<close>

definition zeros :: string where
  "zeros = ''0000000000000000000000000000000000000000000000000000000000000000''"

definition sample_sha :: sha where
  "sample_sha = \<lparr>sha256 = (\<lambda>_. replicate 32 0), hmac256 = (\<lambda>_ _. replicate 32 0)\<rparr>"

definition sample_unicode :: unicode where
  "sample_unicode = \<lparr>uc_forbidden = (\<lambda>c. c < 32), uc_nfc = (\<lambda>t. t), uc_nfkc = (\<lambda>t. t), uc_lower = (\<lambda>t. t)\<rparr>"

definition sample_verifier :: verifier where
  "sample_verifier = gateway_verifier (\<lambda>_ _. [1, 2, 3]) [] ''nbg1'' [sample_row Active None]"

definition sample_auth :: string where
  "sample_auth = ''AWS4-HMAC-SHA256 Credential=GWAAAAAAAAAAAAAA/20240101/nbg1/s3/aws4_request, SignedHeaders=host;x-amz-content-sha256;x-amz-date, Signature='' @ zeros"

definition sample_signed :: gateway_request where
  "sample_signed = \<lparr>gq_method = ''GET'', gq_rawTarget = ''/bucket/A/x'',
     gq_headers = [(''host'', One ''h''), (''x-amz-content-sha256'', One zeros), (''x-amz-date'', One ''20240101T000000Z''),
       (''authorization'', One sample_auth)], gq_bodySha256 = None\<rparr>"

definition sample_headers :: header_map where
  "sample_headers = [(''host'', [''h'']), (''x-amz-content-sha256'', [zeros]), (''x-amz-date'', [''20240101T000000Z'']),
     (''authorization'', [sample_auth])]"

definition sample_now :: int where
  "sample_now = (utc_seconds 2024 0 1 0 0 0 - utc_seconds 1970 0 1 0 0 0) * 1000"

lemma zeros_hex: "HEX_SHA256 zeros"
  by (simp add: HEX_SHA256_def zeros_def hex_lower_def)

lemma sample_collect: "collectHeaders (gq_headers sample_signed) = Inr sample_headers"
  by (simp add: collectHeaders_def sample_signed_def sample_headers_def header_values_def toLowerCase_def js_lower_char_def
      SINGLETON_HEADERS_def Let_def)

lemma sample_authorization:
  "AUTHORIZATION sample_auth = Some (''GWAAAAAAAAAAAAAA/20240101/nbg1/s3/aws4_request'', ''host;x-amz-content-sha256;x-amz-date'', zeros)"
  by (simp add: AUTHORIZATION_def sample_auth_def strip_prefix_def strip_comma_def starts_with_def group_char_def js_space_def zeros_hex)

lemma sample_date: "parseAmzDate (Some ''20240101T000000Z'') = Inr sample_now"
proof -
  have "isRealCalendarInstant 2024 1 1 0 0 0"
    by (subst calendar_instant) (simp_all add: real_instant_def days_in_month_def)
  moreover have "AMZ_DATE ''20240101T000000Z''" by (simp add: AMZ_DATE_def digits_def)
  moreover have "digits_from 0 4 ''20240101T000000Z'' = 2024" "digits_from 4 2 ''20240101T000000Z'' = 1"
    "digits_from 6 2 ''20240101T000000Z'' = 1" "digits_from 9 2 ''20240101T000000Z'' = 0"
    "digits_from 11 2 ''20240101T000000Z'' = 0" "digits_from 13 2 ''20240101T000000Z'' = 0"
    by (simp_all add: digits_from_def number_of_digits_def digit_val_def digits_def)
  ultimately show ?thesis by (simp add: parseAmzDate_def sample_now_def Let_def)
qed

lemma sample_names: "parseSignedHeaders ''host;x-amz-content-sha256;x-amz-date'' = Inr [''host'', ''x-amz-content-sha256'', ''x-amz-date'']"
  by (simp add: parseSignedHeaders_def HEADER_NAME_def REQUIRED_SIGNED_HEADERS_def lowers_def digits_def Let_def less_char_def)

lemma sample_hex: "to_hex (replicate 32 0) = zeros"
proof -
  have "replicate 32 (0::nat) = [0, 0, 0, 0, 0, 0, 0, 0, 0, 0, 0, 0, 0, 0, 0, 0, 0, 0, 0, 0, 0, 0, 0, 0, 0, 0, 0, 0, 0, 0, 0, 0]" by (simp add: numeral_eq_Suc)
  moreover have "hex_digit 0 = CHR ''0''" by (simp add: hex_digit_def hex_lower_def)
  ultimately show ?thesis by (simp add: to_hex_def zeros_def)
qed

lemma sample_payload: "checkPayloadHash sample_headers = Inr zeros"
  by (simp add: checkPayloadHash_def single_def sample_headers_def zeros_hex toLowerCase_def starts_with_def Let_def)
     (simp add: zeros_def)

definition sample_canonical :: string where
  "sample_canonical = join_with CHR 0x0A [''GET'', ''/bucket/A/x'', [],
     ''host:h'' @ CHR 0x0A # ''x-amz-content-sha256:'' @ zeros @ CHR 0x0A # ''x-amz-date:20240101T000000Z'' @ [CHR 0x0A],
     ''host;x-amz-content-sha256;x-amz-date'', zeros]"

definition sample_prepared :: prepared where
  "sample_prepared = \<lparr>pp_keyId = sample_key, pp_scopeDate = ''20240101'', pp_amzDate = ''20240101T000000Z'', pp_provided = zeros,
     pp_signedHeaders = [''host'', ''x-amz-content-sha256'', ''x-amz-date''], pp_payloadHash = zeros, pp_canonical = sample_canonical\<rparr>"

lemma sample_canonical_request:
  "canonicalRequest sample_unicode ''GET'' ''/bucket/A/x'' [] sample_headers [''host'', ''x-amz-content-sha256'', ''x-amz-date''] zeros
     = Inr sample_canonical"
  by (simp add: canonicalRequest_def canonicalQuery_def sample_headers_def canonicalValue_def trim_def js_space_def
      sample_canonical_def) (simp add: zeros_def js_space_def)

lemma sample_prepare: "prepare sample_unicode sample_verifier sample_now sample_signed = Inr sample_prepared"
proof -
  have single: "single sample_headers ''authorization'' = Some sample_auth" "single sample_headers ''x-amz-date'' = Some ''20240101T000000Z''"
    by (simp_all add: single_def sample_headers_def)
  have auth: "\<not> starts_with ''AWS '' sample_auth" "starts_with (ALGORITHM @ '' '') sample_auth"
    by (simp_all add: starts_with_def sample_auth_def ALGORITHM_def)
  have scope: "split_on CHR ''/'' ''GWAAAAAAAAAAAAAA/20240101/nbg1/s3/aws4_request'' = [sample_key, ''20240101'', ''nbg1'', ''s3'', ''aws4_request'']"
    by (simp add: sample_key_def)
  have key: "KEY_ID sample_key" by (simp add: KEY_ID_def sample_key_def uppers_def)
  have amz: "list_all (\<lambda>name. starts_with ''x-amz-'' name \<longrightarrow> name \<in> set [''host'', ''x-amz-content-sha256'', ''x-amz-date''])
      (map fst sample_headers)"
    by (simp add: sample_headers_def starts_with_def)
  have target: "splitTarget (gq_rawTarget sample_signed) = Inr (''/bucket/A/x'', [])"
    by (simp add: splitTarget_def sample_signed_def starts_with_def raw_path_def raw_query_def)
  have verb: "gq_method sample_signed = ''GET''" by (simp add: sample_signed_def)
  show ?thesis
    using sample_canonical_request
    by (simp add: prepare_def sample_collect target canonicalQuery_def single auth sample_authorization scope key sample_names
        amz [simplified] sample_date sample_payload sample_verifier_def gateway_verifier_def SCOPE_TERMINATOR_def DEFAULT_CLOCK_WINDOW_MS_def
        verb sample_prepared_def del: split_on.simps)
qed


lemma sample_secret: "vf_secrets sample_verifier sample_key = Inr (Some ''AQID'')"
  by (simp add: sample_verifier_def gateway_verifier_def signingSecret_def isValidKeyId_def sample_key_def uppers_def digits_def
      get_credential_def sample_row_def deriveTenantSecret_def b64_encode_def base64_url_def)

lemma sample_expected: "expectedSignature sample_sha sample_verifier secret p = zeros"
  by (simp add: expectedSignature_def Let_def signatureHex_def sample_sha_def sample_hex)

lemma sample_check: "check_signature sample_sha sample_unicode sample_verifier sample_now sample_signed = Inr sample_key"
proof -
  have "gq_bodySha256 sample_signed = None" "gq_method sample_signed = ''GET''" by (simp_all add: sample_signed_def)
  moreover have "EMPTY_SHA256 sample_sha = zeros" by (simp add: EMPTY_SHA256_def sample_sha_def sample_hex)
  ultimately show ?thesis
    by (simp add: check_signature_def sample_prepare sample_prepared_def sample_secret sample_expected digestsEqual_def
        bodilessDigest_def BODY_METHODS_def zeros_hex)
qed

definition sample_route :: routed_request where
  "sample_route = \<lparr>rr_operation = GetObject, rr_bucket = ''bucket'', rr_key = [65, 47, 120], rr_uploadId = None, rr_partNumber = None\<rparr>"

lemma sample_routed: "routeRequest sample_unicode sample_signed = Inr sample_route"
proof -
  have "decodeURIComponent ''A'' = Some [65]" "decodeURIComponent ''x'' = Some [120]"
    by (simp_all add: decodeURIComponent_def numeral_eq_Suc)
  moreover have "isSafeSegment sample_unicode [65]" "isSafeSegment sample_unicode [120]"
    by (simp_all add: isSafeSegment_def sample_unicode_def isDangerousSegment_def)
  ultimately show ?thesis
    by (simp add: routeRequest_def sample_signed_def Let_def raw_path_def raw_query_def MAX_TARGET_LENGTH_def RAW_TARGET_OK_def
        raw_target_char_def starts_with_def ENCODED_SEPARATOR_OR_DOT_def toLowerCase_def js_lower_char_def BUCKET_NAME_def
        lowers_def digits_def MAX_KEY_BYTES_def utf8_encode_def utf8_of_def parseQuery_def route_operation_def classify_def
        only_def named_def hasOperationChangingHeader_def OPERATION_CHANGING_HEADERS_def sample_route_def)
qed

lemma sample_guarded: "guardTenant sample_unicode sample_route (credential_of (sample_row Active None)) = None"
  by (simp add: guardTenant_def sample_route_def credential_of_def sample_row_def isValidFolder_def isSafeSegment_def
      sample_unicode_def isDangerousSegment_def BUCKET_NAME_def lowers_def digits_def Let_def)

end
