(* ===== verification/Storage_Props.thy ===== *)
theory Storage_Props
  imports Storage_Sample
begin

text \<open>What the storage gateway's checks add up to.\<close>

text \<open>C5: Whatever the credential table, the clock, the open uploads and the request, a request the gateway admits was signed with the secret derived for an active credential, within the clock window and over the very body it carries; its verb is the one of the admitted operation, its bucket the credential's, its object name stays inside the credential's folder however it is resolved or normalised, and a follow-up of an upload belongs to an upload that the same key has open for that name. Nothing is logged.\<close>

theorem storage_admits_only_signed:
  assumes "vf = gateway_verifier hkdf master region rows"
    and "admit (gateway_deps H uc vf now rows uploads logger) uc req log = (Ok (Admitted route keyId folder bucket), log')"
  shows "log' = log \<and>
    (\<exists>row secret. get_credential keyId rows = Some row \<and> sc_state row = Active \<and> sc_folder row = folder \<and> sc_bucket row = bucket \<and>
       deriveTenantSecret hkdf master keyId = Some secret \<and> signed_by H uc vf now req keyId secret) \<and>
    method_of (rr_operation route) = gq_method req \<and> rr_bucket route = bucket \<and> inside_folder uc folder (rr_key route) \<and>
    (\<forall>u. rr_uploadId route = Some u \<longrightarrow> isBound now u \<lparr>ub_keyId = keyId, ub_bucket = bucket, ub_key = rr_key route\<rparr> uploads)"
proof -
  let ?deps = "gateway_deps H uc vf now rows uploads logger"
  have "answered ?deps uc req log (Admitted route keyId folder bucket) log'"
    using admit_answers [of ?deps uc req log] assms(2) by (simp add: wp_def)
  then have ok: "log' = log" "admissible ?deps uc req route keyId folder bucket"
    by (simp_all add: answered_def)
  then obtain cred where cred: "ad_lookup ?deps keyId = Ok (Some cred)" "cr_state cred = Active" "cr_folder cred = folder"
      "cr_bucket cred = bucket" "guardTenant uc route cred = None"
    by (auto simp: admissible_def)
  from cred(1) obtain row where row: "get_credential keyId rows = Some row" "cred = credential_of row"
    by (auto simp: gateway_deps_def)
  with cred(2-4) have fields: "sc_state row = Active" "sc_folder row = folder" "sc_bucket row = bucket"
    by (simp_all add: credential_of_def)
  from ok(2) have routed: "routeRequest uc req = Inr route" and "ad_verify ?deps req = Ok (Verified (Some keyId))"
    by (simp_all add: admissible_def)
  then have "verifySigV4 H uc vf now req = Inr keyId"
    by (cases "verifySigV4 H uc vf now req") (simp_all add: gateway_deps_def)
  then have "check_signature H uc vf now req = Inr keyId" by (simp only: verifySigV4_Inr)
  from check_signature_sound [OF this] obtain secret where signed: "vf_secrets vf keyId = Inr (Some secret)"
      "signed_by H uc vf now req keyId secret" by blast
  then have "deriveTenantSecret hkdf master keyId = Some secret"
    by (auto simp: assms(1) gateway_verifier_def signingSecret_def split: if_splits option.splits)
  then have credential: "\<exists>row secret. get_credential keyId rows = Some row \<and> sc_state row = Active \<and> sc_folder row = folder \<and>
      sc_bucket row = bucket \<and> deriveTenantSecret hkdf master keyId = Some secret \<and> signed_by H uc vf now req keyId secret"
    using row(1) fields signed(2) by blast
  have verb: "method_of (rr_operation route) = gq_method req"
    using routed by (rule routeRequest_sound) (simp add: route_operation_sound(3))
  have "isBound now u \<lparr>ub_keyId = keyId, ub_bucket = bucket, ub_key = rr_key route\<rparr> uploads"
    if "rr_uploadId route = Some u" for u
    using ok(2) that by (simp add: admissible_def gateway_deps_def)
  then show ?thesis
    using guarded_inside_folder [OF routed cred(5)] cred(3,4)
    by (intro conjI ok(1) credential verb allI impI) simp_all
qed

lemma sample_admit:
  "admit (gateway_deps sample_sha sample_unicode sample_verifier sample_now [sample_row Active None] [] (\<lambda>_. Ok ())) sample_unicode sample_signed []
     = (Ok (Admitted sample_route sample_key [65] ''bucket''), [])"
proof -
  have "verifySigV4 sample_sha sample_unicode sample_verifier sample_now sample_signed = Inr sample_key"
    by (simp add: verifySigV4_Inr sample_check)
  moreover have "get_credential sample_key [sample_row Active None] = Some (sample_row Active None)"
    by (simp add: get_credential_def sample_row_def)
  moreover have "cr_state (credential_of (sample_row Active None)) = Active" "cr_folder (credential_of (sample_row Active None)) = [65]"
      "cr_bucket (credential_of (sample_row Active None)) = ''bucket''" "sample_key \<noteq> []" "rr_uploadId sample_route = None"
    by (simp_all add: credential_of_def sample_row_def sample_key_def sample_route_def)
  ultimately show ?thesis
    by (simp add: admit_def verified_key_def looked_up_def admit_route_def check_bound_def gateway_deps_def catchE_def bindE_def
        returnE_def call_def Let_def sample_routed sample_guarded)
qed

theorem storage_admits_only_signed_witness:
  "inside_folder sample_unicode [65] [65, 47, 120] \<and>
   (\<exists>secret. signed_by sample_sha sample_unicode sample_verifier sample_now sample_signed sample_key secret)"
  using storage_admits_only_signed [OF sample_verifier_def sample_admit] by (auto simp: sample_route_def)

text \<open>C35: Whatever the verifier, the credential lookup, the upload table and the logger answer, throw or never answer, admission ends in one of four ways: an admission on a verified key of an active credential, with nothing logged; a refusal with its fixed status, and as the last thing logged exactly that refusal; an exception that is the logger's own; or no answer because one of them gave none.\<close>

theorem admit_fails_closed:
  "case admit deps uc req log of
     (Ok result, log') \<Rightarrow> answered deps uc req log result log'
   | (Throw e, log') \<Rightarrow> logger_failed deps log e log'
   | (Crash, log') \<Rightarrow> stalled deps req"
  using admit_answers [of deps uc req log] by (simp add: wp_def split: prod.splits outcome.splits)

text \<open>C10: The signed text fixes the operation: two requests with the same canonical request that the router accepts are routed to the same operation, object, upload and part, over the same payload hash, with the same signed headers saying the same thing; so one signature never covers two operations, however their targets are spelled.\<close>

theorem signature_determines_route:
  assumes "prepare uc vf now req = Inr p" "prepare uc vf' now' req' = Inr p'"
    and "pp_canonical p = pp_canonical p'"
    and "routeRequest uc req = Inr route" "routeRequest uc req' = Inr route'"
  shows "route = route' \<and> pp_payloadHash p = pp_payloadHash p' \<and> pp_signedHeaders p = pp_signedHeaders p' \<and>
    (\<forall>name\<in>set (pp_signedHeaders p). header_text req name = header_text req' name)"
  using same_canonical_same_route [OF assms] by blast

theorem signature_determines_route_witness:
  "header_text sample_signed ''host'' = header_text sample_signed ''host'' \<and> prepare sample_unicode sample_verifier sample_now sample_signed = Inr sample_prepared"
  using signature_determines_route [OF sample_prepare sample_prepare refl sample_routed sample_routed] sample_prepare
  by (simp add: sample_prepared_def)

text \<open>C36: However uploads are opened and closed, an upload counts as bound exactly for the key, bucket and object name it was last accepted for, only until its own expiry and only while nothing released it since; and the table never outgrows its limit, since a full one refuses rather than forgets.\<close>

theorem upload_binding_exact:
  assumes "isBound now u b (upload_run limit ttl ops)"
  shows "\<exists>expires. now < expires \<and> bound_by limit ttl ops u b expires \<and> length (upload_run limit ttl ops) \<le> limit"
proof -
  from assms obtain entry expires where e: "map_of (upload_run limit ttl ops) u = Some (entry, expires)" "now < expires"
      "ub_keyId entry = ub_keyId b" "ub_bucket entry = ub_bucket b" "ub_key entry = ub_key b"
    by (auto simp: isBound_def split: option.splits prod.splits if_splits)
  from this(3-5) have "entry = b" by simp
  with e(1,2) upload_table_entry [OF e(1)] upload_run_inv show ?thesis by blast
qed

theorem upload_binding_exact_witness:
  "\<exists>expires. 5 < expires \<and> bound_by 1 10 [Bind 0 [85] \<lparr>ub_keyId = ''k'', ub_bucket = ''b'', ub_key = [65]\<rparr>, Bind 1 [86] \<lparr>ub_keyId = ''l'', ub_bucket = ''b'', ub_key = [66]\<rparr>]
     [85] \<lparr>ub_keyId = ''k'', ub_bucket = ''b'', ub_key = [65]\<rparr> expires"
proof -
  let ?ops = "[Bind 0 [85] \<lparr>ub_keyId = ''k'', ub_bucket = ''b'', ub_key = [65]\<rparr>, Bind 1 [86] \<lparr>ub_keyId = ''l'', ub_bucket = ''b'', ub_key = [66]\<rparr>]"
  have "isBound 5 [85] \<lparr>ub_keyId = ''k'', ub_bucket = ''b'', ub_key = [65]\<rparr> (upload_run 1 10 ?ops)"
    by (simp add: upload_run_def upload_step_def bind_upload_def sweep_uploads_def isBound_def)
  from upload_binding_exact [OF this] show ?thesis by blast
qed

end
