(* ===== verification/Storage_AdminAuth.thy ===== *)
theory Storage_AdminAuth
  imports Storage_Credentials Broker_Auth Lease
begin

text \<open>
  Authentication of the storage gateway's administrators: \<open>src/services/storage-gateway/src/credentials/adminAuth.ts\<close>.

  Parameters: \<open>decode\<close> is \<open>Buffer.from(_, 'base64')\<close>, \<open>verify\<close> is Ed25519 verification under a caller's key, \<open>sha\<close> the
  SHA-256 of a file in hexadecimal, \<open>parse\<close> is \<open>JSON.parse\<close>.  Bodies are strings of bytes.  \<open>Number\<close> of up to twenty digits is
  taken exactly: a rounded double is outside every window either way.
\<close>

datatype admin_caller = ProvisioningController | ErasureJob

definition ADMIN_CALLERS :: "(string \<times> admin_caller) list" where
  "ADMIN_CALLERS = [(''provisioning-controller'', ProvisioningController), (''erasure-job'', ErasureJob)]"

record admin_headers =
  hd_caller :: "string option"
  hd_timestamp :: "string option"
  hd_nonce :: "string option"
  hd_signature :: "string option"

definition ED25519_PUBLIC_KEY_BYTES :: nat where "ED25519_PUBLIC_KEY_BYTES = 32"
definition ED25519_SIGNATURE_BYTES :: nat where "ED25519_SIGNATURE_BYTES = 64"
definition NONCE_STORE_MAX_ENTRIES :: nat where "NONCE_STORE_MAX_ENTRIES = 10000"
definition ADMIN_FORWARD_SKEW_SECONDS :: int where "ADMIN_FORWARD_SKEW_SECONDS = 5"

definition ADMIN_NONCE_PATTERN :: "string \<Rightarrow> bool" where
  "ADMIN_NONCE_PATTERN s \<longleftrightarrow> all_in (uppers @ lowers @ digits @ ''._-'') s \<and> 16 \<le> length s \<and> length s \<le> 128"

definition ADMIN_TIMESTAMP_PATTERN :: "string \<Rightarrow> bool" where
  "ADMIN_TIMESTAMP_PATTERN s \<longleftrightarrow> all_in digits s \<and> 1 \<le> length s \<and> length s \<le> 20"

definition isAdminCaller :: "string option \<Rightarrow> admin_caller option" where
  "isAdminCaller name = (case name of None \<Rightarrow> None | Some n \<Rightarrow> map_of ADMIN_CALLERS n)"

definition adminSigningPayload :: "string \<Rightarrow> string \<Rightarrow> string \<Rightarrow> string \<Rightarrow> string \<Rightarrow> string \<Rightarrow> string" where
  "adminSigningPayload caller verb path timestamp nonce rawBody =
     caller @ newline @ verb @ newline @ path @ newline @ timestamp @ newline @ nonce @ newline @ rawBody"

section \<open>The nonces\<close>

definition sweep_admin :: "int \<Rightarrow> nonce_map \<Rightarrow> nonce_map" where
  "sweep_admin nowMs seen = filter (\<lambda>(_, expiry). nowMs < expiry) seen"

definition claim_admin :: "nat \<Rightarrow> string \<Rightarrow> int \<Rightarrow> int \<Rightarrow> nonce_map \<Rightarrow> bool \<times> nonce_map" where
  "claim_admin maxEntries nonce nowMs expiresAtMs seen =
     (let live = sweep_admin nowMs seen in
      if map_of live nonce \<noteq> None \<or> maxEntries \<le> length live then (False, live)
      else (True, live @ [(nonce, expiresAtMs)]))"

record replay_window =
  wd_opensAtMs :: int
  wd_closesAtMs :: int
  wd_nonceExpiresAtMs :: int

definition replayWindow :: "int \<Rightarrow> int \<Rightarrow> replay_window" where
  "replayWindow requestSeconds windowSeconds =
     \<lparr>wd_opensAtMs = (requestSeconds - ADMIN_FORWARD_SKEW_SECONDS) * 1000,
      wd_closesAtMs = (requestSeconds + windowSeconds + 1) * 1000,
      wd_nonceExpiresAtMs = (requestSeconds + windowSeconds + ADMIN_FORWARD_SKEW_SECONDS + 1) * 1000\<rparr>"

section \<open>The check\<close>

datatype admin_refusal =
    UnknownCaller | MalformedTimestamp | MalformedNonce | MissingSignature | OutsideReplayWindow | PredatesProcess
  | SignatureDoesNotVerify | NonceAlreadyUsed

text \<open>\<open>verify\<close> has the caller's key, the payload and the signature.  A refusal before the claim leaves the nonces as they are.\<close>

definition authenticateAdmin ::
  "(string \<Rightarrow> nat list) \<Rightarrow> (admin_caller \<Rightarrow> string \<Rightarrow> nat list \<Rightarrow> bool) \<Rightarrow> nat \<Rightarrow> int \<Rightarrow> int \<Rightarrow> int \<Rightarrow> string \<Rightarrow> string \<Rightarrow> admin_headers
     \<Rightarrow> string \<Rightarrow> nonce_map \<Rightarrow> (admin_refusal + admin_caller) \<times> nonce_map" where
  "authenticateAdmin decode verify maxEntries replayWindowSeconds processStartSeconds nowMs verb path headers rawBody seen =
     (case isAdminCaller (hd_caller headers) of
        None \<Rightarrow> (Inl UnknownCaller, seen)
      | Some caller \<Rightarrow>
     (case hd_timestamp headers of
        None \<Rightarrow> (Inl MalformedTimestamp, seen)
      | Some timestamp \<Rightarrow>
     if \<not> ADMIN_TIMESTAMP_PATTERN timestamp then (Inl MalformedTimestamp, seen)
     else (case hd_nonce headers of
        None \<Rightarrow> (Inl MalformedNonce, seen)
      | Some nonce \<Rightarrow>
     if \<not> ADMIN_NONCE_PATTERN nonce then (Inl MalformedNonce, seen)
     else (case hd_signature headers of
        None \<Rightarrow> (Inl MissingSignature, seen)
      | Some signature \<Rightarrow>
     (let requestSeconds = int (number_of_digits timestamp);
          window = replayWindow requestSeconds replayWindowSeconds in
      if nowMs < wd_opensAtMs window \<or> wd_closesAtMs window \<le> nowMs then (Inl OutsideReplayWindow, seen)
      else if requestSeconds \<le> processStartSeconds + ADMIN_FORWARD_SKEW_SECONDS then (Inl PredatesProcess, seen)
      else
        (let signatureBytes = decode signature in
         if length signatureBytes \<noteq> ED25519_SIGNATURE_BYTES then (Inl SignatureDoesNotVerify, seen)
         else if \<not> verify caller (adminSigningPayload (the (hd_caller headers)) verb path timestamp nonce rawBody) signatureBytes
         then (Inl SignatureDoesNotVerify, seen)
         else (case claim_admin maxEntries nonce nowMs (wd_nonceExpiresAtMs window) seen of
             (False, seen') \<Rightarrow> (Inl NonceAlreadyUsed, seen')
           | (True, seen') \<Rightarrow> (Inr caller, seen'))))))))"

lemma authenticateAdmin_Inr:
  "authenticateAdmin decode verify maxEntries W start now verb path headers body seen = (Inr caller, seen') \<longleftrightarrow>
     (\<exists>ts n sig. isAdminCaller (hd_caller headers) = Some caller \<and> hd_timestamp headers = Some ts \<and> hd_nonce headers = Some n \<and>
        hd_signature headers = Some sig \<and> ADMIN_TIMESTAMP_PATTERN ts \<and> ADMIN_NONCE_PATTERN n \<and>
        (int (number_of_digits ts) - 5) * 1000 \<le> now \<and> now < (int (number_of_digits ts) + W + 1) * 1000 \<and>
        start + 5 < int (number_of_digits ts) \<and> length (decode sig) = 64 \<and>
        verify caller (adminSigningPayload (the (hd_caller headers)) verb path ts n body) (decode sig) \<and>
        claim_admin maxEntries n now ((int (number_of_digits ts) + W + 6) * 1000) seen = (True, seen'))"
  by (cases headers)
     (auto simp: authenticateAdmin_def Let_def replayWindow_def ADMIN_FORWARD_SKEW_SECONDS_def ED25519_SIGNATURE_BYTES_def algebra_simps
        split: option.splits if_splits prod.splits bool.splits)

lemma admin_sweep_keeps: "map_of seen n = Some e \<Longrightarrow> now < e \<Longrightarrow> map_of (sweep_admin now seen) n = Some e"
  unfolding sweep_admin_def by (induction seen) (auto split: if_splits)

text \<open>Whatever is asked, a live nonce stays.\<close>

lemma authenticate_remembers:
  assumes "map_of seen n = Some e" "now < e"
  shows "map_of (snd (authenticateAdmin decode verify maxEntries W start now verb path headers body seen)) n = Some e"
  using admin_sweep_keeps [OF assms] assms(1)
  by (auto simp: authenticateAdmin_def Let_def claim_admin_def map_add_def split: option.splits prod.splits bool.splits)

lemma authenticate_refuses_used:
  assumes "map_of seen n = Some e" "now < e" "hd_nonce headers = Some n"
  shows "fst (authenticateAdmin decode verify maxEntries W start now verb path headers body seen) \<noteq> Inr caller"
proof
  assume "fst (authenticateAdmin decode verify maxEntries W start now verb path headers body seen) = Inr caller"
  then obtain seen' where "authenticateAdmin decode verify maxEntries W start now verb path headers body seen = (Inr caller, seen')"
    by (metis prod.collapse)
  with assms(3) obtain x where "claim_admin maxEntries n now x seen = (True, seen')"
    by (auto simp: authenticateAdmin_Inr)
  with admin_sweep_keeps [OF assms(1,2)] show False by (auto simp: claim_admin_def Let_def split: if_splits)
qed

section \<open>The callers' keys\<close>

datatype key_error =
    KeyNotSet string | KeyMalformed string | SameKey | NotRegular string | WrongOwner string | WritableByOthers string | CannotOpen string
  | PinMalformed | PinMismatch | KeysNotJson | KeysNotObject

definition b64_padded :: "nat list \<Rightarrow> string" where
  "b64_padded bs = (let s = b64_encode base64_std bs in s @ replicate ((4 - length s mod 4) mod 4) CHR ''='')"

definition caller_key :: "(string \<Rightarrow> nat list) \<Rightarrow> string \<Rightarrow> string option \<Rightarrow> key_error + nat list" where
  "caller_key decode name given =
     (case given of
        None \<Rightarrow> Inl (KeyNotSet name)
      | Some v \<Rightarrow>
          if v = [] then Inl (KeyNotSet name)
          else if length (decode v) \<noteq> ED25519_PUBLIC_KEY_BYTES \<or> b64_padded (decode v) \<noteq> v then Inl (KeyMalformed name)
          else Inr (decode v))"

definition CALLER_KEY_ENV :: "admin_caller \<Rightarrow> string" where
  "CALLER_KEY_ENV caller = (case caller of
       ProvisioningController \<Rightarrow> ''STORAGE_GATEWAY_ADMIN_KEY_PROVISIONING_CONTROLLER''
     | ErasureJob \<Rightarrow> ''STORAGE_GATEWAY_ADMIN_KEY_ERASURE_JOB'')"

definition loadCallerKeys :: "(string \<Rightarrow> nat list) \<Rightarrow> (string \<Rightarrow> string option) \<Rightarrow> key_error + (admin_caller \<Rightarrow> nat list)" where
  "loadCallerKeys decode env =
     bindS (caller_key decode (CALLER_KEY_ENV ProvisioningController) (env (CALLER_KEY_ENV ProvisioningController))) (\<lambda>controller.
     bindS (caller_key decode (CALLER_KEY_ENV ErasureJob) (env (CALLER_KEY_ENV ErasureJob))) (\<lambda>erasure.
     guardS (controller \<noteq> erasure) SameKey
       (Inr (\<lambda>caller. case caller of ProvisioningController \<Rightarrow> controller | ErasureJob \<Rightarrow> erasure))))"

text \<open>A file as its descriptor shows it: \<open>None\<close> where it cannot be opened.\<close>

record file_stat =
  fs_isFile :: bool
  fs_uid :: nat
  fs_mode :: nat
  fs_bytes :: string

text \<open>\<open>mode & 0o022\<close>: the write bits of the group and of others.\<close>

definition writable_by_others :: "nat \<Rightarrow> bool" where
  "writable_by_others m \<longleftrightarrow> (m div 16) mod 2 = 1 \<or> (m div 2) mod 2 = 1"

definition readTrustedFile :: "(string \<Rightarrow> file_stat option) \<Rightarrow> nat \<Rightarrow> string \<Rightarrow> key_error + string" where
  "readTrustedFile disk trustedUid path = (case disk path of
       None \<Rightarrow> Inl (CannotOpen path)
     | Some info \<Rightarrow>
         guardS (fs_isFile info) (NotRegular path)
        (guardS (fs_uid info = trustedUid) (WrongOwner path)
        (guardS (\<not> writable_by_others (fs_mode info)) (WritableByOthers path) (Inr (fs_bytes info)))))"

definition SHA_HEX :: "string \<Rightarrow> bool" where
  "SHA_HEX s \<longleftrightarrow> length s = 64 \<and> all_in hex_lower s"

definition loadPinnedCallerKeys ::
  "(string \<Rightarrow> nat list) \<Rightarrow> (string \<Rightarrow> string) \<Rightarrow> (string \<Rightarrow> json option) \<Rightarrow> (string \<Rightarrow> file_stat option) \<Rightarrow> nat \<Rightarrow> string
     \<Rightarrow> key_error + (admin_caller \<Rightarrow> nat list)" where
  "loadPinnedCallerKeys decode sha parse disk trustedUid path =
     bindS (readTrustedFile disk trustedUid path) (\<lambda>keysBytes.
     bindS (readTrustedFile disk trustedUid (path @ ''.sha256'')) (\<lambda>pinBytes.
     guardS (SHA_HEX (trim pinBytes)) PinMalformed
    (guardS (sha keysBytes = trim pinBytes) PinMismatch
    (case parse keysBytes of
       None \<Rightarrow> Inl KeysNotJson
     | Some (JObject members) \<Rightarrow>
         loadCallerKeys decode (\<lambda>name.
           case find (\<lambda>(_, caller). CALLER_KEY_ENV caller = name) ADMIN_CALLERS of
             None \<Rightarrow> None
           | Some (callerName, _) \<Rightarrow> (case map_of members callerName of Some (JString s) \<Rightarrow> Some s | _ \<Rightarrow> None))
     | Some _ \<Rightarrow> Inl KeysNotObject))))"

text \<open>
  Keys are loaded only from a regular file of the trusted user that no one else may write and whose digest is pinned
  in another such file, and the two callers never share a key.
\<close>

lemma readTrustedFile_Inr:
  "readTrustedFile disk uid path = Inr bs \<longleftrightarrow>
     (\<exists>info. disk path = Some info \<and> fs_isFile info \<and> fs_uid info = uid \<and> \<not> writable_by_others (fs_mode info) \<and> bs = fs_bytes info)"
  by (auto simp: readTrustedFile_def guardS_Inr split: option.splits)

lemma loadCallerKeys_Inr:
  assumes "loadCallerKeys decode env = Inr keys"
  shows "keys ProvisioningController \<noteq> keys ErasureJob" "length (keys caller) = 32"
proof -
  have length: "caller_key decode name v = Inr k \<Longrightarrow> length k = 32" for name v k
    by (auto simp: caller_key_def ED25519_PUBLIC_KEY_BYTES_def split: option.splits if_splits)
  from assms obtain controller erasure where k: "caller_key decode (CALLER_KEY_ENV ProvisioningController) (env (CALLER_KEY_ENV ProvisioningController)) = Inr controller"
      "caller_key decode (CALLER_KEY_ENV ErasureJob) (env (CALLER_KEY_ENV ErasureJob)) = Inr erasure" "controller \<noteq> erasure"
      "keys = (\<lambda>caller. case caller of ProvisioningController \<Rightarrow> controller | ErasureJob \<Rightarrow> erasure)"
    unfolding loadCallerKeys_def bindS_Inr guardS_Inr by blast
  show "keys ProvisioningController \<noteq> keys ErasureJob" using k(3) by (simp add: k(4))
  show "length (keys caller) = 32" using length [OF k(1)] length [OF k(2)] by (cases caller) (simp_all add: k(4))
qed

lemma loadPinnedCallerKeys_Inr:
  assumes "loadPinnedCallerKeys decode sha parse disk uid path = Inr keys"
  shows "keys ProvisioningController \<noteq> keys ErasureJob" "length (keys caller) = 32"
    and "\<exists>info pin. disk path = Some info \<and> disk (path @ ''.sha256'') = Some pin \<and> trim (fs_bytes pin) = sha (fs_bytes info) \<and>
      fs_isFile info \<and> fs_isFile pin \<and> fs_uid info = uid \<and> fs_uid pin = uid \<and>
      \<not> writable_by_others (fs_mode info) \<and> \<not> writable_by_others (fs_mode pin)"
proof -
  from assms obtain bs pin where r: "readTrustedFile disk uid path = Inr bs" "readTrustedFile disk uid (path @ ''.sha256'') = Inr pin"
      "sha bs = trim pin" and "(case parse bs of
       None \<Rightarrow> Inl KeysNotJson
     | Some (JObject members) \<Rightarrow>
         loadCallerKeys decode (\<lambda>name.
           case find (\<lambda>(_, caller). CALLER_KEY_ENV caller = name) ADMIN_CALLERS of
             None \<Rightarrow> None
           | Some (callerName, _) \<Rightarrow> (case map_of members callerName of Some (JString s) \<Rightarrow> Some s | _ \<Rightarrow> None))
     | Some _ \<Rightarrow> Inl KeysNotObject) = Inr keys"
    unfolding loadPinnedCallerKeys_def bindS_Inr guardS_Inr by blast
  from this(4) obtain env where "loadCallerKeys decode env = Inr keys"
    by (simp split: option.splits json.splits)
  then show "keys ProvisioningController \<noteq> keys ErasureJob" "length (keys caller) = 32"
    by (rule loadCallerKeys_Inr)+
  from r show "\<exists>info pin. disk path = Some info \<and> disk (path @ ''.sha256'') = Some pin \<and> trim (fs_bytes pin) = sha (fs_bytes info) \<and>
      fs_isFile info \<and> fs_isFile pin \<and> fs_uid info = uid \<and> fs_uid pin = uid \<and>
      \<not> writable_by_others (fs_mode info) \<and> \<not> writable_by_others (fs_mode pin)"
    unfolding readTrustedFile_Inr by metis
qed

end
