(* ===== verification/Storage_Admin.thy ===== *)
theory Storage_Admin
  imports Storage_AdminAuth Storage_Guard Render_Calendar
begin

text \<open>
  The administrators' interface of the storage gateway: \<open>src/services/storage-gateway/src/credentials/admin.ts\<close>.

  Parameters: \<open>parse\<close> is \<open>JSON.parse\<close> of the body, HKDF and the signature check as before.  An answer is its status and
  the object that \<open>JSON.stringify\<close> writes; every answer has the same two headers.  What a request meets outside is a
  record: the readings of the clock, the random key id, whether the database or the logger throws, and whether the
  anchor gets written.
\<close>

section \<open>Requests and answers\<close>

record admin_request =
  ar_verb :: string
  ar_path :: string
  ar_headers :: admin_headers
  ar_body :: string

datatype admin_operation = MintOp | DisableOp | DisableFolderOp | StateOp

definition ADMIN_PERMISSIONS :: "admin_caller \<Rightarrow> admin_operation list" where
  "ADMIN_PERMISSIONS caller = (case caller of
       ProvisioningController \<Rightarrow> [MintOp, DisableOp, DisableFolderOp, StateOp]
     | ErasureJob \<Rightarrow> [DisableOp, DisableFolderOp, StateOp])"

record admin_log =
  al_caller :: admin_caller
  al_operation :: admin_operation
  al_at :: string
  al_keyId :: "string option"
  al_folder :: utext
  al_changed :: "nat option"

record described =
  de_keyId :: string
  de_folder :: utext
  de_bucket :: string
  de_state :: credential_state
  de_createdAt :: string

datatype admin_body =
    ErrorBody string | MintedBody described string | DescribedBody described | FolderBody utext nat "described list"

type_synonym admin_response = "nat \<times> admin_body"

definition describe :: "stored_credential \<Rightarrow> described" where
  "describe c = \<lparr>de_keyId = sc_keyId c, de_folder = sc_folder c, de_bucket = sc_bucket c, de_state = sc_state c,
     de_createdAt = sc_createdAt c\<rparr>"

section \<open>Key ids and times\<close>

definition KEY_ID_ALPHABET :: string where
  "KEY_ID_ALPHABET = ''ABCDEFGHIJKLMNOPQRSTUVWXYZ234567''"

text \<open>From 24 random bytes; \<open>byte & 31\<close>.\<close>

definition newKeyId :: "nat list \<Rightarrow> string" where
  "newKeyId bs = ''GW'' @ map (\<lambda>byte. KEY_ID_ALPHABET ! (byte mod 32)) bs"

lemma newKeyId_valid: "length bs = 24 \<Longrightarrow> isValidKeyId (newKeyId bs)"
proof -
  have "set KEY_ID_ALPHABET \<subseteq> set (uppers @ digits)" by (simp add: KEY_ID_ALPHABET_def uppers_def digits_def)
  moreover have "KEY_ID_ALPHABET ! (b mod 32) \<in> set KEY_ID_ALPHABET" for b
    by (rule nth_mem) (simp add: KEY_ID_ALPHABET_def)
  ultimately have "all_in (uppers @ digits) (newKeyId bs)"
    by (auto simp: newKeyId_def all_in_def list_all_iff) (simp_all add: uppers_def)
  then show "length bs = 24 \<Longrightarrow> ?thesis" by (simp add: isValidKeyId_def newKeyId_def)
qed

definition pad_to :: "nat \<Rightarrow> nat \<Rightarrow> string" where
  "pad_to n k = (let s = show_nat k in replicate (n - length s) CHR ''0'' @ s)"

text \<open>\<open>Date#toISOString\<close> from 1970 to 9999.\<close>

definition toISOString :: "nat \<Rightarrow> string" where
  "toISOString ms =
     (let seconds = ms div 1000; d = day_from_year 1970 + seconds div 86400 in
      pad_to 4 (year_from_day d) @ ''-'' @ pad_to 2 (month_from_day d + 1) @ ''-'' @ pad_to 2 (date_from_day d) @ ''T'' @
      pad_to 2 (seconds div 3600 mod 24) @ '':'' @ pad_to 2 (seconds div 60 mod 60) @ '':'' @ pad_to 2 (seconds mod 60) @ ''.'' @
      pad_to 3 (ms mod 1000) @ ''Z'')"

section \<open>Routes\<close>

definition FOLDER_PATTERN :: "string \<Rightarrow> bool" where
  "FOLDER_PATTERN s \<longleftrightarrow> 16 \<le> length s \<and> length s \<le> 128 \<and> all_in (uppers @ lowers @ digits @ ''_-'') s"

text \<open>\<open>between p q s\<close>: the text of \<open>s\<close> between the prefix and the suffix.\<close>

definition between :: "string \<Rightarrow> string \<Rightarrow> string \<Rightarrow> string option" where
  "between p q s =
     (if starts_with p s \<and> ends_with q s \<and> length p + length q \<le> length s
      then Some (take (length s - length p - length q) (drop (length p) s)) else None)"

definition matching :: "(string \<Rightarrow> bool) \<Rightarrow> string option \<Rightarrow> string option" where
  "matching P s = (case s of None \<Rightarrow> None | Some x \<Rightarrow> if P x then Some x else None)"

definition STATE_ROUTE :: "string \<Rightarrow> string option" where
  "STATE_ROUTE path = matching isValidKeyId (between ''/credentials/'' [] path)"

definition DISABLE_ROUTE :: "string \<Rightarrow> string option" where
  "DISABLE_ROUTE path = matching isValidKeyId (between ''/credentials/'' ''/disable'' path)"

definition DISABLE_FOLDER_ROUTE :: "string \<Rightarrow> string option" where
  "DISABLE_FOLDER_ROUTE path = matching FOLDER_PATTERN (between ''/folders/'' ''/disable'' path)"

datatype admin_route = ToMint | ToDisable string | ToState string | ToDisableFolder string

definition admin_route :: "string \<Rightarrow> string \<Rightarrow> admin_route option" where
  "admin_route verb path =
     (if verb = ''POST'' \<and> path = ''/credentials'' then Some ToMint
      else if verb = ''POST'' \<and> DISABLE_ROUTE path \<noteq> None then map_option ToDisable (DISABLE_ROUTE path)
      else if verb = ''POST'' \<and> DISABLE_FOLDER_ROUTE path \<noteq> None then map_option ToDisableFolder (DISABLE_FOLDER_ROUTE path)
      else if verb = ''GET'' \<and> STATE_ROUTE path \<noteq> None then map_option ToState (STATE_ROUTE path)
      else None)"

definition operation_of :: "admin_route \<Rightarrow> admin_operation" where
  "operation_of r = (case r of ToMint \<Rightarrow> MintOp | ToDisable _ \<Rightarrow> DisableOp | ToState _ \<Rightarrow> StateOp | ToDisableFolder _ \<Rightarrow> DisableFolderOp)"

definition parseMintBody :: "(string \<Rightarrow> json option) \<Rightarrow> string \<Rightarrow> (string \<times> string) option" where
  "parseMintBody parse rawBody = (case parse rawBody of
       Some (JObject members) \<Rightarrow>
         (case (map_of members ''folder'', map_of members ''bucket'') of
            (Some (JString folder), Some (JString bucket)) \<Rightarrow>
              if FOLDER_PATTERN folder \<and> BUCKET_NAME bucket then Some (folder, bucket) else None
          | _ \<Rightarrow> None)
     | _ \<Rightarrow> None)"

section \<open>The operations\<close>

record admin_env =
  ae_now :: int
  ae_later :: nat
  ae_keyId :: string
  ae_storeFails :: bool
  ae_anchored :: bool
  ae_logFails :: bool

record admin_state =
  as_store :: store
  as_nonces :: nonce_map
  as_start :: int
  as_log :: "admin_log list"
  as_lost :: "admin_log list"

text \<open>An entry the logger refuses goes to standard error instead, without its details.\<close>

definition logOperation :: "admin_env \<Rightarrow> admin_log \<Rightarrow> admin_state \<Rightarrow> admin_state" where
  "logOperation env entry s =
     (if ae_logFails env then s\<lparr>as_lost := as_lost s @ [entry]\<rparr> else s\<lparr>as_log := as_log s @ [entry]\<rparr>)"

definition STORE_FAILED :: admin_response where
  "STORE_FAILED = (503, ErrorBody ''the credential store failed; try again'')"

definition mint ::
  "(nat list \<Rightarrow> nat list \<Rightarrow> nat list) \<Rightarrow> nat list \<Rightarrow> (string \<Rightarrow> json option) \<Rightarrow> admin_env \<Rightarrow> admin_caller \<Rightarrow> string \<Rightarrow> admin_state
     \<Rightarrow> admin_response \<times> admin_state" where
  "mint hkdf master parse env caller rawBody s = (case parseMintBody parse rawBody of
       None \<Rightarrow> ((400, ErrorBody ''body must name a valid folder and bucket''), s)
     | Some (folder, bucket) \<Rightarrow>
         (let at = toISOString (ae_later env) in
          if ae_storeFails env then (STORE_FAILED, s)
          else
            (let (r, store') = insert_credential (ae_anchored env) (ae_keyId env) (code_points folder) bucket at (as_store s);
                 s' = s\<lparr>as_store := store'\<rparr> in
             case r of
               None \<Rightarrow> (STORE_FAILED, s')
             | Some KeyIdTaken \<Rightarrow> ((409, ErrorBody ''key id already issued; mint again''), s')
             | Some FolderHasActive \<Rightarrow> ((409, ErrorBody ''folder has an active credential; disable it by folder first''), s')
             | Some (Inserted c) \<Rightarrow>
                 (case deriveTenantSecret hkdf master (sc_keyId c) of
                    None \<Rightarrow> (STORE_FAILED, s')
                  | Some secret \<Rightarrow>
                      ((201, MintedBody (describe c) secret),
                       logOperation env \<lparr>al_caller = caller, al_operation = MintOp, al_at = at, al_keyId = Some (sc_keyId c),
                         al_folder = sc_folder c, al_changed = None\<rparr> s')))))"

definition disable_one :: "admin_env \<Rightarrow> admin_caller \<Rightarrow> string \<Rightarrow> admin_state \<Rightarrow> admin_response \<times> admin_state" where
  "disable_one env caller keyId s =
     (let at = toISOString (ae_later env) in
      if ae_storeFails env then (STORE_FAILED, s)
      else
        (let (r, store') = disable_credential (ae_anchored env) keyId at (as_store s); s' = s\<lparr>as_store := store'\<rparr> in
         case r of
           None \<Rightarrow> (STORE_FAILED, s')
         | Some UnknownKey \<Rightarrow> ((404, ErrorBody ''no such credential''), s')
         | Some outcome \<Rightarrow>
             (case get_credential keyId (db_rows (st_db store')) of
                None \<Rightarrow> (STORE_FAILED, s')
              | Some c \<Rightarrow>
                  ((200, DescribedBody (describe c)),
                   logOperation env \<lparr>al_caller = caller, al_operation = DisableOp, al_at = at, al_keyId = Some keyId,
                     al_folder = sc_folder c, al_changed = Some (if outcome = DisabledNow then 1 else 0)\<rparr> s'))))"

definition disable_folder :: "admin_env \<Rightarrow> admin_caller \<Rightarrow> string \<Rightarrow> admin_state \<Rightarrow> admin_response \<times> admin_state" where
  "disable_folder env caller folder s =
     (let at = toISOString (ae_later env) in
      if ae_storeFails env then (STORE_FAILED, s)
      else
        (let (r, store') = disableFolder (ae_anchored env) (code_points folder) at (as_store s); s' = s\<lparr>as_store := store'\<rparr> in
         case r of
           None \<Rightarrow> (STORE_FAILED, s')
         | Some disabled \<Rightarrow>
             (let all_rows = listByFolder (code_points folder) (db_rows (st_db store')) in
              if all_rows = [] then ((404, ErrorBody ''no credential for this folder''), s')
              else ((200, FolderBody (code_points folder) disabled (map describe all_rows)),
                 logOperation env \<lparr>al_caller = caller, al_operation = DisableFolderOp, al_at = at, al_keyId = None,
                   al_folder = code_points folder, al_changed = Some disabled\<rparr> s'))))"

definition read_state :: "admin_env \<Rightarrow> string \<Rightarrow> admin_state \<Rightarrow> admin_response \<times> admin_state" where
  "read_state env keyId s =
     (if ae_storeFails env then (STORE_FAILED, s)
      else (case get_credential keyId (db_rows (st_db (as_store s))) of
          None \<Rightarrow> ((404, ErrorBody ''no such credential''), s)
        | Some c \<Rightarrow> ((200, DescribedBody (describe c)), s)))"

record admin_deps =
  am_decode :: "string \<Rightarrow> nat list"
  am_verify :: "admin_caller \<Rightarrow> string \<Rightarrow> nat list \<Rightarrow> bool"
  am_maxEntries :: nat
  am_windowSeconds :: int
  am_hkdf :: "nat list \<Rightarrow> nat list \<Rightarrow> nat list"
  am_master :: "nat list"
  am_parse :: "string \<Rightarrow> json option"

definition admin_handle :: "admin_deps \<Rightarrow> admin_env \<Rightarrow> admin_request \<Rightarrow> admin_state \<Rightarrow> admin_response \<times> admin_state" where
  "admin_handle deps env req s =
     (let (auth, nonces) = authenticateAdmin (am_decode deps) (am_verify deps) (am_maxEntries deps) (am_windowSeconds deps)
            (as_start s) (ae_now env) (ar_verb req) (ar_path req) (ar_headers req) (ar_body req) (as_nonces s);
          s' = s\<lparr>as_nonces := nonces\<rparr> in
      case auth of
        Inl _ \<Rightarrow> ((401, ErrorBody ''not authorised''), s')
      | Inr caller \<Rightarrow>
          (case admin_route (ar_verb req) (ar_path req) of
             None \<Rightarrow> ((404, ErrorBody ''no such operation''), s')
           | Some routed \<Rightarrow>
               if operation_of routed \<notin> set (ADMIN_PERMISSIONS caller) then ((403, ErrorBody ''this caller may not do that''), s')
               else (case routed of
                   ToMint \<Rightarrow> mint (am_hkdf deps) (am_master deps) (am_parse deps) env caller (ar_body req) s'
                 | ToDisableFolder folder \<Rightarrow> disable_folder env caller folder s'
                 | ToDisable keyId \<Rightarrow> disable_one env caller keyId s'
                 | ToState keyId \<Rightarrow> read_state env keyId s')))"

end
