(* ===== verification/Storage_Minted.thy ===== *)
theory Storage_Minted
  imports Storage_Admin
begin

text \<open>
  What the administrators' interface guarantees over the life of the gateway, restarts included: a request is
  answered once, and a secret leaves in one answer only.
\<close>

section \<open>The life of a gateway\<close>

text \<open>
  A restart forgets the nonces, takes its start from the clock and opens the store again.  The code that builds the
  interface is not in the repository; the restart does what the fields of \<open>AdminAuthDeps\<close> say of it.
\<close>

datatype admin_event = Restart int | Call admin_env admin_request

definition admin_step :: "admin_deps \<Rightarrow> admin_event \<Rightarrow> admin_state \<Rightarrow> admin_response option \<times> admin_state" where
  "admin_step deps event s = (case event of
       Restart now \<Rightarrow> (None, s\<lparr>as_nonces := [], as_start := now div 1000,
         as_store := (case openStore (as_store s) of Inr store \<Rightarrow> store | Inl _ \<Rightarrow> as_store s)\<rparr>)
     | Call env req \<Rightarrow> (case admin_handle deps env req s of (r, s') \<Rightarrow> (Some r, s')))"

fun admin_run :: "admin_deps \<Rightarrow> admin_event list \<Rightarrow> admin_state \<Rightarrow> admin_response option list \<times> admin_state" where
  "admin_run deps [] s = ([], s)"
| "admin_run deps (e # es) s =
     (case admin_step deps e s of (r, s') \<Rightarrow> (case admin_run deps es s' of (rs, s'') \<Rightarrow> (r # rs, s'')))"

lemma admin_run_append:
  "admin_run deps (es @ fs) s =
     (let (rs, s') = admin_run deps es s; (rs', s'') = admin_run deps fs s' in (rs @ rs', s''))"
  by (induction es arbitrary: s) (simp_all split: prod.splits)

lemma admin_run_length: "length (fst (admin_run deps es s)) = length es"
  by (induction es arbitrary: s) (auto split: prod.splits, metis fst_conv)

lemma admin_run_nth:
  assumes "admin_run deps es s = (rs, s')" "i < length es"
  obtains s1 s2 where "admin_run deps (take i es) s = (take i rs, s1)" "admin_step deps (es ! i) s1 = (rs ! i, s2)"
    "admin_run deps (drop (Suc i) es) s2 = (drop (Suc i) rs, s')"
proof -
  obtain rs1 s1 where one: "admin_run deps (take i es) s = (rs1, s1)" by force
  obtain r s2 where two: "admin_step deps (es ! i) s1 = (r, s2)" by force
  obtain rs3 s3 where three: "admin_run deps (drop (Suc i) es) s2 = (rs3, s3)" by force
  have "length rs1 = i" using admin_run_length [of deps "take i es" s] one assms(2) by simp
  moreover have "admin_run deps (take i es @ es ! i # drop (Suc i) es) s = (rs1 @ r # rs3, s3)"
    by (simp add: admin_run_append one two three)
  then have "rs = rs1 @ r # rs3" "s' = s3" using assms by (simp_all add: id_take_nth_drop [symmetric])
  ultimately show thesis using that [of s1 s2] one two three by (simp add: nth_append)
qed

section \<open>What an answer tells\<close>

definition served :: "admin_response option \<Rightarrow> bool" where
  "served r \<longleftrightarrow> r \<noteq> None \<and> fst (the r) \<noteq> 401"

definition authenticated :: "admin_deps \<Rightarrow> admin_env \<Rightarrow> admin_request \<Rightarrow> admin_state \<Rightarrow> (admin_refusal + admin_caller) \<times> nonce_map" where
  "authenticated deps env req s = authenticateAdmin (am_decode deps) (am_verify deps) (am_maxEntries deps) (am_windowSeconds deps)
     (as_start s) (ae_now env) (ar_verb req) (ar_path req) (ar_headers req) (ar_body req) (as_nonces s)"

lemma logOperation_fields [simp]:
  "as_store (logOperation env entry s) = as_store s" "as_nonces (logOperation env entry s) = as_nonces s"
  "as_start (logOperation env entry s) = as_start s"
  by (simp_all add: logOperation_def)

lemma operations_keep:
  "as_nonces (snd (mint hkdf master parse env caller body s)) = as_nonces s"
  "as_start (snd (mint hkdf master parse env caller body s)) = as_start s"
  "as_nonces (snd (disable_one env caller keyId s)) = as_nonces s"
  "as_start (snd (disable_one env caller keyId s)) = as_start s"
  "as_nonces (snd (disable_folder env caller folder s)) = as_nonces s"
  "as_start (snd (disable_folder env caller folder s)) = as_start s"
  "snd (read_state env keyId s) = s"
  by (simp_all add: mint_def disable_one_def disable_folder_def read_state_def Let_def
      split: option.split prod.split insert_result.split disable_result.split)

lemma admin_handle_auth:
  "as_nonces (snd (admin_handle deps env req s)) = snd (authenticated deps env req s)"
  "as_start (snd (admin_handle deps env req s)) = as_start s"
  "fst (fst (admin_handle deps env req s)) \<noteq> 401 \<Longrightarrow> \<exists>caller. fst (authenticated deps env req s) = Inr caller"
  by (simp_all add: admin_handle_def authenticated_def operations_keep Let_def split: prod.split sum.split option.split admin_route.split)
     (auto split: prod.splits sum.splits)

section \<open>A request is served once\<close>

definition event_time :: "admin_event \<Rightarrow> int" where
  "event_time e = (case e of Restart now \<Rightarrow> now | Call env _ \<Rightarrow> ae_now env)"

definition spent :: "string \<Rightarrow> int \<Rightarrow> int \<Rightarrow> admin_state \<Rightarrow> bool" where
  "spent nonce seconds expiry s \<longleftrightarrow> seconds \<le> as_start s + 5 \<or> map_of (as_nonces s) nonce = Some expiry"

lemma spent_step:
  assumes "spent nonce seconds expiry s" "event_time e < expiry" "(seconds - 5) * 1000 \<le> event_time e"
  shows "spent nonce seconds expiry (snd (admin_step deps e s))"
proof (cases e)
  case (Restart now)
  have "seconds - 5 \<le> now div 1000"
    using assms(3) by (simp add: Restart event_time_def)
  then show ?thesis by (simp add: Restart admin_step_def spent_def)
next
  case (Call env req)
  have "map_of (snd (authenticated deps env req s)) nonce = Some expiry" if "map_of (as_nonces s) nonce = Some expiry"
    unfolding authenticated_def by (rule authenticate_remembers [OF that]) (use assms(2) in \<open>simp add: Call event_time_def\<close>)
  moreover have "snd (admin_step deps e s) = snd (admin_handle deps env req s)"
    by (simp add: Call admin_step_def split: prod.split)
  ultimately show ?thesis
    using assms(1) by (auto simp: spent_def admin_handle_auth)
qed

lemma spent_run:
  assumes "spent nonce seconds expiry s" "list_all (\<lambda>e. event_time e < expiry \<and> (seconds - 5) * 1000 \<le> event_time e) es"
  shows "spent nonce seconds expiry (snd (admin_run deps es s))"
  using assms
proof (induction es arbitrary: s)
  case (Cons e es)
  have "spent nonce seconds expiry (snd (admin_step deps e s))"
    using Cons.prems by (intro spent_step) simp_all
  from Cons.IH [OF this] Cons.prems(2) show ?case
    by (cases "admin_step deps e s") (auto split: prod.split)
qed simp


text \<open>C38: An admin request is served at most once, also across restarts: if the clock never runs backwards and an
  admin request was answered with anything but 401, every later request with the same timestamp and nonce is
  answered 401, whatever it asks and however often the gateway was restarted in between.\<close>

theorem admin_request_served_once:
  assumes "admin_run deps events s = (rs, s')" "sorted_wrt (\<lambda>d e. event_time d \<le> event_time e) events"
    and "i < j" "j < length events" "events ! i = Call env req" "events ! j = Call env' req'"
    and "hd_timestamp (ar_headers req) = hd_timestamp (ar_headers req')" "hd_nonce (ar_headers req) = hd_nonce (ar_headers req')"
    and "served (rs ! i)"
  shows "\<not> served (rs ! j)"
proof
  assume "served (rs ! j)"
  obtain s1 s2 where a: "admin_step deps (events ! i) s1 = (rs ! i, s2)" "admin_run deps (drop (Suc i) events) s2 = (drop (Suc i) rs, s')"
    by (rule admin_run_nth [OF assms(1), of i]) (use assms(3,4) in auto)
  define k where "k = j - Suc i"
  have k: "k < length (drop (Suc i) events)" "drop (Suc i) events ! k = events ! j" "drop (Suc i) rs ! k = rs ! j"
    using assms(3,4) admin_run_length [of deps events s] assms(1) by (simp_all add: k_def)
  obtain s3 s4 where b: "admin_run deps (take k (drop (Suc i) events)) s2 = (take k (drop (Suc i) rs), s3)"
      "admin_step deps (events ! j) s3 = (rs ! j, s4)"
    using admin_run_nth [OF a(2) k(1)] unfolding k(2,3) by metis
  from a(1) assms(5,9) have "fst (fst (admin_handle deps env req s1)) \<noteq> 401" "snd (admin_handle deps env req s1) = s2"
    by (auto simp: admin_step_def served_def split: prod.splits)
  with admin_handle_auth(1,3) [of deps env req s1] obtain caller where va: "authenticated deps env req s1 = (Inr caller, as_nonces s2)"
    by (metis prod.collapse)
  from b(2) assms(6) \<open>served (rs ! j)\<close> have "fst (fst (admin_handle deps env' req' s3)) \<noteq> 401"
    by (auto simp: admin_step_def served_def split: prod.splits)
  with admin_handle_auth(3) [of deps env' req' s3] obtain caller' nonces where vb: "authenticated deps env' req' s3 = (Inr caller', nonces)"
    by (metis prod.collapse)
  from va obtain ts n where r: "hd_timestamp (ar_headers req) = Some ts" "hd_nonce (ar_headers req) = Some n"
      "(int (number_of_digits ts) - 5) * 1000 \<le> ae_now env"
      "claim_admin (am_maxEntries deps) n (ae_now env) ((int (number_of_digits ts) + am_windowSeconds deps + 6) * 1000) (as_nonces s1) = (True, as_nonces s2)"
    by (auto simp: authenticated_def authenticateAdmin_Inr)
  from vb r(1,2) assms(7,8) have t: "ae_now env' < (int (number_of_digits ts) + am_windowSeconds deps + 1) * 1000"
      "as_start s3 + 5 < int (number_of_digits ts)"
    by (auto simp: authenticated_def authenticateAdmin_Inr)
  let ?e = "(int (number_of_digits ts) + am_windowSeconds deps + 6) * 1000"
  from r(4) have "as_nonces s2 = sweep_admin (ae_now env) (as_nonces s1) @ [(n, ?e)]" "map_of (sweep_admin (ae_now env) (as_nonces s1)) n = None"
    by (simp_all add: claim_admin_def Let_def split: if_splits)
  then have "spent n (int (number_of_digits ts)) ?e s2" by (simp add: spent_def map_add_def)
  moreover have "event_time e < ?e \<and> (int (number_of_digits ts) - 5) * 1000 \<le> event_time e" if "e \<in> set (take k (drop (Suc i) events))" for e
  proof -
    from that obtain l where "l < k" "e = events ! (Suc i + l)" "Suc i + l < j"
      using assms(3,4) by (auto simp: in_set_conv_nth k_def)
    then have "event_time (events ! i) \<le> event_time e" "event_time e \<le> event_time (events ! j)"
      using assms(2,4) by (simp_all add: sorted_wrt_iff_nth_less)
    then show ?thesis using r(3) t(1) by (simp add: assms(5,6) event_time_def)
  qed
  ultimately have "spent n (int (number_of_digits ts)) ?e (snd (admin_run deps (take k (drop (Suc i) events)) s2))"
    by (intro spent_run) (simp_all add: list_all_iff)
  with b(1) t(2) have "map_of (as_nonces s3) n = Some ?e" by (simp add: spent_def)
  moreover have "ae_now env' < ?e" using t(1) by simp
  moreover have "hd_nonce (ar_headers req') = Some n" using r(2) assms(8) by simp
  ultimately have "fst (authenticated deps env' req' s3) \<noteq> Inr caller'"
    unfolding authenticated_def by (rule authenticate_refuses_used)
  with vb show False by simp
qed


section \<open>A secret leaves once\<close>

definition issued :: "admin_state \<Rightarrow> string set" where
  "issued s = sc_keyId ` set (db_rows (st_db (as_store s)))"

lemma rows_later_keys: "rows_later a b \<Longrightarrow> sc_keyId ` set a \<subseteq> sc_keyId ` set b"
proof
  fix k
  assume later: "rows_later a b" and "k \<in> sc_keyId ` set a"
  then obtain i where i: "i < length a" "k = sc_keyId (a ! i)" by (auto simp: in_set_conv_nth)
  with later have "i < length b" "sc_keyId (b ! i) = k" by (auto simp: rows_later_def row_later_def)
  then show "k \<in> sc_keyId ` set b" by force
qed

lemma store_keys:
  "insert_credential anchored k f b at st = (r, st') \<Longrightarrow> sc_keyId ` set (db_rows (st_db st)) \<subseteq> sc_keyId ` set (db_rows (st_db st'))"
  "disable_credential anchored k at st = (r', st') \<Longrightarrow> sc_keyId ` set (db_rows (st_db st)) \<subseteq> sc_keyId ` set (db_rows (st_db st'))"
  "disableFolder anchored f at st = (r'', st') \<Longrightarrow> sc_keyId ` set (db_rows (st_db st)) \<subseteq> sc_keyId ` set (db_rows (st_db st'))"
  using record_change_db(2) rows_later_keys store_change_db keeps_rows_changes unfolding disableFolder_def by metis+

lemma issued_simps [simp]: "issued (s\<lparr>as_nonces := n\<rparr>) = issued s" "issued (logOperation env entry s) = issued s"
  by (simp_all add: issued_def)

lemma issued_operations:
  "issued s \<subseteq> issued (snd (mint hkdf master parse env caller body s))"
  "issued s \<subseteq> issued (snd (disable_one env caller keyId s))"
  "issued s \<subseteq> issued (snd (disable_folder env caller folder s))"
proof -
  show "issued s \<subseteq> issued (snd (mint hkdf master parse env caller body s))"
    by (auto simp: mint_def Let_def issued_def dest: store_keys(1) split: option.split prod.split insert_result.split)
  show "issued s \<subseteq> issued (snd (disable_one env caller keyId s))"
    by (auto simp: disable_one_def Let_def issued_def dest: store_keys(2) split: option.split prod.split disable_result.split)
  show "issued s \<subseteq> issued (snd (disable_folder env caller folder s))"
    by (auto simp: disable_folder_def Let_def issued_def dest: store_keys(3) split: option.split prod.split)
qed

lemma issued_step: "issued s \<subseteq> issued (snd (admin_step deps e s))"
proof (cases e)
  case (Restart now)
  have "db_rows (st_db (case openStore (as_store s) of Inr store \<Rightarrow> store | Inl _ \<Rightarrow> as_store s)) = db_rows (st_db (as_store s))"
    by (auto simp: openStore_def bindS_def checkAnchor_db syncAnchor_db split: sum.split)
  then show ?thesis by (simp add: Restart admin_step_def issued_def)
next
  case (Call env req)
  have "issued s \<subseteq> issued (snd (admin_handle deps env req s))"
    using issued_operations(1) [of "s\<lparr>as_nonces := n\<rparr>" for n] issued_operations(2) [of "s\<lparr>as_nonces := n\<rparr>" for n]
      issued_operations(3) [of "s\<lparr>as_nonces := n\<rparr>" for n]
    by (simp add: admin_handle_def Let_def operations_keep split: prod.split sum.split option.split admin_route.split)
  then show ?thesis by (cases "admin_handle deps env req s") (simp add: Call admin_step_def)
qed

lemma issued_run: "issued s \<subseteq> issued (snd (admin_run deps es s))"
proof (induction es arbitrary: s)
  case (Cons e es)
  obtain r s1 where one: "admin_step deps e s = (r, s1)" by force
  have "issued s \<subseteq> issued s1" using issued_step [of s deps e] by (simp add: one)
  with Cons.IH [of s1] one show ?case by (auto split: prod.split)
qed simp

definition secret_in :: "admin_response option \<Rightarrow> (string \<times> string) option" where
  "secret_in r = (case r of Some (_, MintedBody d secret) \<Rightarrow> Some (de_keyId d, secret) | _ \<Rightarrow> None)"

lemma insert_inserted:
  assumes "insert_credential anchored k f b at st = (Some (Inserted c), st')"
  shows "sc_keyId c = k" "k \<notin> sc_keyId ` set (db_rows (st_db st))" "c \<in> set (db_rows (st_db st'))"
  using assms by (auto simp: insert_credential_def Let_def record_change_def insert_rows_def conflicts_def list_ex_iff
      split: if_splits prod.splits option.splits)

lemma mint_secret:
  assumes "mint hkdf master parse env caller body s = (r, s')" "secret_in (Some r) = Some (k, secret)"
  shows "deriveTenantSecret hkdf master k = Some secret" "k \<notin> issued s" "k \<in> issued s'"
proof -
  from assms obtain folder bucket c st' where c: "insert_credential (ae_anchored env) (ae_keyId env) (code_points folder) bucket
      (toISOString (ae_later env)) (as_store s) = (Some (Inserted c), st')" "deriveTenantSecret hkdf master (sc_keyId c) = Some secret"
      "k = sc_keyId c" "as_store s' = st'"
    by (auto simp: mint_def Let_def secret_in_def STORE_FAILED_def describe_def split: option.splits if_splits prod.splits insert_result.splits)
  note ins = insert_inserted [OF c(1)]
  show "deriveTenantSecret hkdf master k = Some secret" using c(2,3) by simp
  show "k \<notin> issued s" using ins(1,2) c(3) by (simp add: issued_def)
  show "k \<in> issued s'" using ins(3) c(3,4) by (auto simp: issued_def)
qed

lemma other_operations_hide:
  "secret_in (Some (fst (disable_one env caller keyId s))) = None" "secret_in (Some (fst (disable_folder env caller folder s))) = None"
  "secret_in (Some (fst (read_state env keyId s))) = None"
  by (simp_all add: disable_one_def disable_folder_def read_state_def secret_in_def STORE_FAILED_def Let_def
      split: option.split prod.split disable_result.split)

lemma handle_secret:
  assumes "admin_handle deps env req s = (r, s')" "secret_in (Some r) = Some (k, secret)"
  shows "fst (authenticated deps env req s) = Inr ProvisioningController" "ar_verb req = ''POST'' \<and> ar_path req = ''/credentials''"
    "deriveTenantSecret (am_hkdf deps) (am_master deps) k = Some secret" "k \<notin> issued s" "k \<in> issued s'"
proof -
  obtain auth nonces where auth: "authenticated deps env req s = (auth, nonces)" by force
  let ?s = "s\<lparr>as_nonces := nonces\<rparr>"
  obtain caller where caller: "auth = Inr caller"
    using assms auth by (cases auth) (auto simp: admin_handle_def authenticated_def secret_in_def Let_def)
  have no_secret: "secret_in (Some (n, ErrorBody e)) = None" for n e by (simp add: secret_in_def)
  obtain routed where routed: "admin_route (ar_verb req) (ar_path req) = Some routed"
    using assms auth caller by (cases "admin_route (ar_verb req) (ar_path req)") (auto simp: admin_handle_def authenticated_def no_secret Let_def)
  have allowed: "operation_of routed \<in> set (ADMIN_PERMISSIONS caller)"
    using assms auth caller routed by (auto simp: admin_handle_def authenticated_def no_secret Let_def split: if_splits)
  have "routed = ToMint \<and> mint (am_hkdf deps) (am_master deps) (am_parse deps) env caller (ar_body req) ?s = (r, s')"
  proof (cases routed)
    case ToMint
    then show ?thesis using assms(1) auth caller routed allowed by (simp add: admin_handle_def authenticated_def Let_def)
  next
    case (ToDisable keyId)
    then have "(r, s') = disable_one env caller keyId ?s"
      using assms(1) auth caller routed allowed by (simp add: admin_handle_def authenticated_def Let_def)
    with assms(2) other_operations_hide(1) [of env caller keyId ?s] show ?thesis by (metis fst_conv option.distinct(1))
  next
    case (ToState keyId)
    then have "(r, s') = read_state env keyId ?s"
      using assms(1) auth caller routed allowed by (simp add: admin_handle_def authenticated_def Let_def)
    with assms(2) other_operations_hide(3) [of env keyId ?s] show ?thesis by (metis fst_conv option.distinct(1))
  next
    case (ToDisableFolder folder)
    then have "(r, s') = disable_folder env caller folder ?s"
      using assms(1) auth caller routed allowed by (simp add: admin_handle_def authenticated_def Let_def)
    with assms(2) other_operations_hide(2) [of env caller folder ?s] show ?thesis by (metis fst_conv option.distinct(1))
  qed
  then have mint: "routed = ToMint" "mint (am_hkdf deps) (am_master deps) (am_parse deps) env caller (ar_body req) ?s = (r, s')" by simp_all
  from allowed mint(1) have "caller = ProvisioningController"
    by (cases caller) (simp_all add: operation_of_def ADMIN_PERMISSIONS_def)
  with auth caller show "fst (authenticated deps env req s) = Inr ProvisioningController" by simp
  from routed mint(1) show "ar_verb req = ''POST'' \<and> ar_path req = ''/credentials''"
    by (auto simp: admin_route_def split: if_splits option.splits)
  from mint_secret [OF mint(2) assms(2)] show "deriveTenantSecret (am_hkdf deps) (am_master deps) k = Some secret"
      "k \<notin> issued s" "k \<in> issued s'" by simp_all
qed


lemma step_secret:
  assumes "admin_step deps e s = (r, s')" "secret_in r = Some x"
  obtains env req q where "e = Call env req" "admin_handle deps env req s = (q, s')" "secret_in (Some q) = Some x" "r = Some q"
proof (cases e)
  case (Restart now)
  with assms show thesis by (simp add: admin_step_def secret_in_def)
next
  case (Call env req)
  obtain q s2 where "admin_handle deps env req s = (q, s2)" by (cases "admin_handle deps env req s")
  with Call assms show thesis by (intro that [of env req q]) (simp_all add: admin_step_def)
qed

text \<open>C39: A secret leaves the gateway in one answer only: whatever administrators ask, in whatever order, with store
  and logger failures and restarts in between, an answer with a secret answers a mint that the provisioning controller
  signed; the secret is the one derived for the key id it names, and no other answer ever names a secret for that key id.\<close>

theorem secret_leaves_once:
  assumes "admin_run deps events s = (rs, s')" "i < length events" "secret_in (rs ! i) = Some (keyId, secret)"
  shows "deriveTenantSecret (am_hkdf deps) (am_master deps) keyId = Some secret \<and>
    (\<exists>env req ts nonce sig. events ! i = Call env req \<and> ar_verb req = ''POST'' \<and> ar_path req = ''/credentials'' \<and>
       am_verify deps ProvisioningController
         (adminSigningPayload (the (hd_caller (ar_headers req))) ''POST'' ''/credentials'' ts nonce (ar_body req)) sig) \<and>
    (\<forall>j<length events. \<forall>other. secret_in (rs ! j) = Some (keyId, other) \<longrightarrow> j = i)"
proof -
  obtain s1 s2 where a: "admin_step deps (events ! i) s1 = (rs ! i, s2)"
    by (rule admin_run_nth [OF assms(1,2)])
  from a assms(3) obtain env req r where call: "events ! i = Call env req" "admin_handle deps env req s1 = (r, s2)"
      and sec: "secret_in (Some r) = Some (keyId, secret)"
    by (rule step_secret)
  note minted = handle_secret [OF call(2) sec]
  obtain nonces where "authenticated deps env req s1 = (Inr ProvisioningController, nonces)"
    using minted(1) by (metis prod.collapse)
  then obtain ts n sig where verified: "am_verify deps ProvisioningController
      (adminSigningPayload (the (hd_caller (ar_headers req))) (ar_verb req) (ar_path req) ts n (ar_body req)) sig"
    by (auto simp: authenticated_def authenticateAdmin_Inr)
  have twice: False if order: "k < l" "l < length events" and "secret_in (rs ! k) = Some (keyId, x)" "secret_in (rs ! l) = Some (keyId, y)" for k l x y
  proof -
    obtain t1 t2 where p: "admin_step deps (events ! k) t1 = (rs ! k, t2)" "admin_run deps (drop (Suc k) events) t2 = (drop (Suc k) rs, s')"
      by (rule admin_run_nth [OF assms(1), of k]) (use order in auto)
    have drops: "l - Suc k < length (drop (Suc k) events)" "drop (Suc k) events ! (l - Suc k) = events ! l" "drop (Suc k) rs ! (l - Suc k) = rs ! l"
      using order admin_run_length [of deps events s] assms(1) by simp_all
    obtain t3 t4 where q: "admin_run deps (take (l - Suc k) (drop (Suc k) events)) t2 = (take (l - Suc k) (drop (Suc k) rs), t3)"
        "admin_step deps (events ! l) t3 = (rs ! l, t4)"
      using admin_run_nth [OF p(2) drops(1)] unfolding drops(2,3) by metis
    from p(1) that(3) obtain e1 q1 r1 where one: "admin_handle deps e1 q1 t1 = (r1, t2)" "secret_in (Some r1) = Some (keyId, x)"
      by (rule step_secret)
    from q(2) that(4) obtain e2 q2 r2 where two: "admin_handle deps e2 q2 t3 = (r2, t4)" "secret_in (Some r2) = Some (keyId, y)"
      by (rule step_secret)
    have "keyId \<in> issued t3"
      using handle_secret(5) [OF one] issued_run [of t2 deps] q(1) by (metis snd_conv subsetD)
    with handle_secret(4) [OF two] show False by simp
  qed
  have "j = i" if "j < length events" "secret_in (rs ! j) = Some (keyId, x)" for j x
    using twice [of i j secret x] twice [of j i x secret] that assms(2,3) by (cases i j rule: linorder_cases) auto
  then show ?thesis using minted(2,3) verified call(1) by auto
qed


section \<open>A sample\<close>

definition sample_admin :: admin_deps where
  "sample_admin = \<lparr>am_decode = (\<lambda>_. replicate 64 0), am_verify = (\<lambda>_ _ _. True), am_maxEntries = 10, am_windowSeconds = 60,
     am_hkdf = (\<lambda>_ _. [1, 2, 3]), am_master = [],
     am_parse = (\<lambda>_. Some (JObject [(''folder'', JString ''AAAAAAAAAAAAAAAA''), (''bucket'', JString ''bucket'')]))\<rparr>"

definition sample_env :: "int \<Rightarrow> admin_env" where
  "sample_env now = \<lparr>ae_now = now, ae_later = 0, ae_keyId = sample_key, ae_storeFails = False, ae_anchored = True, ae_logFails = False\<rparr>"

definition sample_admin_request :: "string \<Rightarrow> admin_request" where
  "sample_admin_request path = \<lparr>ar_verb = ''POST'', ar_path = path, ar_headers = \<lparr>hd_caller = Some ''provisioning-controller'',
     hd_timestamp = Some ''2000'', hd_nonce = Some ''0123456789abcdef'', hd_signature = Some ''s''\<rparr>, ar_body = ''{}''\<rparr>"

definition sample_admin_state :: admin_state where
  "sample_admin_state = \<lparr>as_store = sample_store [] 1, as_nonces = [], as_start = 0, as_log = [], as_lost = []\<rparr>"

lemma sample_authenticated:
  "authenticated sample_admin (sample_env 2000000) (sample_admin_request path) sample_admin_state
     = (Inr ProvisioningController, [(''0123456789abcdef'', 2066000)])"
proof -
  have "ADMIN_TIMESTAMP_PATTERN ''2000''" "ADMIN_NONCE_PATTERN ''0123456789abcdef''" "number_of_digits ''2000'' = 2000"
    by (simp_all add: ADMIN_TIMESTAMP_PATTERN_def ADMIN_NONCE_PATTERN_def all_in_def digits_def lowers_def uppers_def
        number_of_digits_def digit_val_def)
  then show ?thesis
    by (simp add: authenticated_def authenticateAdmin_Inr sample_admin_request_def isAdminCaller_def ADMIN_CALLERS_def sample_env_def
        sample_admin_def sample_admin_state_def claim_admin_def sweep_admin_def)
qed

lemma sample_not_found:
  "admin_handle sample_admin (sample_env 2000000) (sample_admin_request ''/x'') sample_admin_state
     = ((404, ErrorBody ''no such operation''), sample_admin_state\<lparr>as_nonces := [(''0123456789abcdef'', 2066000)]\<rparr>)"
proof -
  have "admin_route (ar_verb (sample_admin_request ''/x'')) (ar_path (sample_admin_request ''/x'')) = None"
    by (simp add: admin_route_def sample_admin_request_def DISABLE_ROUTE_def DISABLE_FOLDER_ROUTE_def between_def matching_def starts_with_def)
  then show ?thesis
    using sample_authenticated [of "''/x''"] by (simp add: admin_handle_def authenticated_def Let_def)
qed

lemma admin_request_served_once_witness:
  "\<not> served (fst (admin_run sample_admin [Call (sample_env 2000000) (sample_admin_request ''/x''), Restart 2003000,
       Call (sample_env 2004000) (sample_admin_request ''/x'')] sample_admin_state) ! 2)"
proof -
  let ?es = "[Call (sample_env 2000000) (sample_admin_request ''/x''), Restart 2003000, Call (sample_env 2004000) (sample_admin_request ''/x'')]"
  obtain rs s' where run: "admin_run sample_admin ?es sample_admin_state = (rs, s')" by (cases "admin_run sample_admin ?es sample_admin_state")
  then have "rs ! 0 = Some (404, ErrorBody ''no such operation'')"
    by (auto simp: admin_step_def sample_not_found split: prod.splits)
  then have "\<not> served (rs ! 2)"
    by (intro admin_request_served_once [OF run, where i = 0 and j = 2]) (simp_all add: served_def event_time_def sample_env_def)
  then show ?thesis by (simp only: run fst_conv not_False_eq_True)
qed

lemma sample_mint:
  "secret_in (Some (fst (admin_handle sample_admin (sample_env 2000000) (sample_admin_request ''/credentials'') sample_admin_state)))
     = Some (sample_key, ''AQID'')"
proof -
  have "admin_route (ar_verb (sample_admin_request ''/credentials'')) (ar_path (sample_admin_request ''/credentials'')) = Some ToMint"
    by (simp add: admin_route_def sample_admin_request_def)
  moreover have "parseMintBody (am_parse sample_admin) body = Some (''AAAAAAAAAAAAAAAA'', ''bucket'')" for body
    by (simp add: parseMintBody_def sample_admin_def FOLDER_PATTERN_def BUCKET_NAME_def uppers_def lowers_def digits_def)
  moreover have "isValidKeyId sample_key" by (simp add: isValidKeyId_def sample_key_def uppers_def digits_def)
  ultimately show ?thesis
    using sample_authenticated [of "''/credentials''"]
    by (simp add: admin_handle_def authenticated_def Let_def operation_of_def ADMIN_PERMISSIONS_def mint_def sample_env_def
        sample_admin_state_def insert_credential_def record_change_def insert_rows_def conflicts_def sample_store_def
        deriveTenantSecret_def secret_in_def describe_def)
       (simp add: sample_admin_def b64_encode_def base64_url_def uppers_def lowers_def)
qed

lemma secret_leaves_once_witness:
  "deriveTenantSecret (am_hkdf sample_admin) (am_master sample_admin) sample_key = Some ''AQID''"
proof -
  let ?es = "[Call (sample_env 2000000) (sample_admin_request ''/credentials'')]"
  obtain rs s' where run: "admin_run sample_admin ?es sample_admin_state = (rs, s')" by (cases "admin_run sample_admin ?es sample_admin_state")
  then have "secret_in (rs ! 0) = Some (sample_key, ''AQID'')"
    using sample_mint by (auto simp: admin_step_def split: prod.splits)
  from secret_leaves_once [OF run _ this] show ?thesis by simp
qed

end
