(* ===== verification/Spec2Isabelle.thy ===== *)
theory Spec2Isabelle
  imports Ring_Recovery Async_Mutex Gate_Concurrency Gate_App Broker_Evidence Broker_Http Broker_Render Render_Props Storage_Props Storage_Minted
begin

text \<open>
  A verification development for the ghost-platform services.
\<close>

end
